(* ===== verification/GoStrings.thy ===== *)
theory GoStrings
  imports Prelude
begin

text \<open>
  The parts of Go's \<open>strings\<close>, \<open>strconv\<close> and \<open>unicode/utf8\<close> packages that the program uses.
  A Go string is a sequence of bytes: an Isabelle \<open>string\<close>, whose characters are the bytes.
  Runes (code points) are natural numbers.

  The Unicode case tables are the one part of the library that is a parameter: a value of
  type \<open>unicode\<close> gives the lower case of a rune outside ASCII and the fold orbits used by
  \<open>strings.EqualFold\<close>. Every theorem holds for all tables.
\<close>

section \<open>Bytes\<close>

abbreviation byte :: "char \<Rightarrow> nat" where "byte c \<equiv> of_char c"

abbreviation NL :: char where "NL \<equiv> CHR 0x0A"

definition is_ascii :: "char \<Rightarrow> bool" where
  "is_ascii c \<longleftrightarrow> byte c < 128"

definition is_digit :: "char \<Rightarrow> bool" where
  "is_digit c \<longleftrightarrow> 48 \<le> byte c \<and> byte c \<le> 57"

text \<open>Printable ASCII other than the blank.\<close>

definition is_graphic :: "char \<Rightarrow> bool" where
  "is_graphic c \<longleftrightarrow> 33 \<le> byte c \<and> byte c \<le> 126"

lemma byte_less_256 [simp]: "byte c < 256"
  by simp

lemma byte_inject: "byte c = byte d \<longleftrightarrow> c = d"
  by (metis char_of_char)

lemma digit_graphic: "is_digit c \<Longrightarrow> is_graphic c"
  by (simp add: is_digit_def is_graphic_def)

lemma graphic_ascii: "is_graphic c \<Longrightarrow> is_ascii c"
  by (simp add: is_graphic_def is_ascii_def)

section \<open>UTF-8\<close>

text \<open>A continuation byte within the bounds the first byte allows.\<close>

definition cont_in :: "nat \<Rightarrow> nat \<Rightarrow> char \<Rightarrow> bool" where
  "cont_in lo hi c \<longleftrightarrow> lo \<le> byte c \<and> byte c \<le> hi"

text \<open>
  \<open>utf8.DecodeRuneInString\<close>, iterated: an invalid byte gives the rune 0xFFFD and consumes
  one byte, as a \<open>range\<close> loop over a string does.
\<close>

fun runes :: "string \<Rightarrow> nat list" where
  "runes [] = []"
| "runes (a # s) =
    (let n = byte a in
     if n < 0x80 then n # runes s
     else if 0xC2 \<le> n \<and> n \<le> 0xDF then
       (case s of
          b # s2 \<Rightarrow> if cont_in 0x80 0xBF b
                     then ((n - 0xC0) * 64 + (byte b - 0x80)) # runes s2
                     else 0xFFFD # runes s
        | _ \<Rightarrow> 0xFFFD # runes s)
     else if 0xE0 \<le> n \<and> n \<le> 0xEF then
       (case s of
          b # c # s3 \<Rightarrow>
            if cont_in (if n = 0xE0 then 0xA0 else 0x80) (if n = 0xED then 0x9F else 0xBF) b
               \<and> cont_in 0x80 0xBF c
            then ((n - 0xE0) * 4096 + (byte b - 0x80) * 64 + (byte c - 0x80)) # runes s3
            else 0xFFFD # runes s
        | _ \<Rightarrow> 0xFFFD # runes s)
     else if 0xF0 \<le> n \<and> n \<le> 0xF4 then
       (case s of
          b # c # d # s4 \<Rightarrow>
            if cont_in (if n = 0xF0 then 0x90 else 0x80) (if n = 0xF4 then 0x8F else 0xBF) b
               \<and> cont_in 0x80 0xBF c \<and> cont_in 0x80 0xBF d
            then ((n - 0xF0) * 262144 + (byte b - 0x80) * 4096 + (byte c - 0x80) * 64
                   + (byte d - 0x80)) # runes s4
            else 0xFFFD # runes s
        | _ \<Rightarrow> 0xFFFD # runes s)
     else 0xFFFD # runes s)"

text \<open>\<open>utf8.AppendRune\<close>: surrogates and values above 0x10FFFF are written as 0xFFFD.\<close>

definition encode_rune :: "nat \<Rightarrow> string" where
  "encode_rune r =
     (let r = (if 0x10FFFF < r \<or> (0xD800 \<le> r \<and> r \<le> 0xDFFF) then 0xFFFD else r) in
      if r < 0x80 then [char_of r]
      else if r < 0x800 then [char_of (0xC0 + r div 64), char_of (0x80 + r mod 64)]
      else if r < 0x10000 then
        [char_of (0xE0 + r div 4096), char_of (0x80 + r div 64 mod 64), char_of (0x80 + r mod 64)]
      else
        [char_of (0xF0 + r div 262144), char_of (0x80 + r div 4096 mod 64),
         char_of (0x80 + r div 64 mod 64), char_of (0x80 + r mod 64)])"

declare runes.simps(2) [simp del]

lemma runes_ascii_Cons: "is_ascii a \<Longrightarrow> runes (a # s) = byte a # runes s"
  by (simp add: runes.simps(2) is_ascii_def)

lemma runes_ascii_append: "list_all is_ascii s \<Longrightarrow> runes (s @ t) = map byte s @ runes t"
  by (induction s) (auto simp: runes_ascii_Cons)

lemma runes_ascii: "list_all is_ascii s \<Longrightarrow> runes s = map byte s"
  using runes_ascii_append [of s "[]"] by simp

lemma encode_rune_ascii: "r < 128 \<Longrightarrow> encode_rune r = [char_of r]"
  by (simp add: encode_rune_def)

section \<open>Case\<close>

record unicode =
  rune_lower :: "nat \<Rightarrow> nat"           \<comment> \<open>unicode.ToLower outside ASCII\<close>
  rune_upper :: "nat \<Rightarrow> nat"           \<comment> \<open>unicode.ToUpper outside ASCII\<close>
  same_fold :: "nat \<Rightarrow> nat \<Rightarrow> bool"    \<comment> \<open>one orbit of unicode.SimpleFold\<close>

definition lower_rune :: "unicode \<Rightarrow> nat \<Rightarrow> nat" where
  "lower_rune u r =
     (if r < 128 then (if 65 \<le> r \<and> r \<le> 90 then r + 32 else r) else rune_lower u r)"

text \<open>\<open>strings.ToLower\<close>: the runes are mapped one by one and written back as UTF-8.\<close>

definition to_lower :: "unicode \<Rightarrow> string \<Rightarrow> string" where
  "to_lower u s = concat (map (\<lambda>r. encode_rune (lower_rune u r)) (runes s))"

text \<open>\<open>strings.ToUpper\<close>.\<close>

definition upper_rune :: "unicode \<Rightarrow> nat \<Rightarrow> nat" where
  "upper_rune u r =
     (if r < 128 then (if 97 \<le> r \<and> r \<le> 122 then r - 32 else r) else rune_upper u r)"

definition to_upper :: "unicode \<Rightarrow> string \<Rightarrow> string" where
  "to_upper u s = concat (map (\<lambda>r. encode_rune (upper_rune u r)) (runes s))"

definition lower_char :: "char \<Rightarrow> char" where
  "lower_char c = (if 65 \<le> byte c \<and> byte c \<le> 90 then char_of (byte c + 32) else c)"

lemma lower_rune_ascii:
  "is_ascii c \<Longrightarrow> encode_rune (lower_rune u (byte c)) = [lower_char c]"
  by (auto simp: is_ascii_def lower_rune_def lower_char_def encode_rune_ascii)

text \<open>On an ASCII prefix lower-casing is byte-wise, whatever follows it.\<close>

lemma to_lower_ascii_append:
  "list_all is_ascii s \<Longrightarrow> to_lower u (s @ t) = map lower_char s @ to_lower u t"
  by (induction s) (auto simp: to_lower_def runes_ascii_Cons lower_rune_ascii)

lemma to_lower_ascii: "list_all is_ascii s \<Longrightarrow> to_lower u s = map lower_char s"
  using to_lower_ascii_append [of s u "[]"] by (simp add: to_lower_def)

lemma lower_char_upper [simp]:
  "lower_char (CHR ''A'') = CHR ''a''" "lower_char (CHR ''B'') = CHR ''b''"
  "lower_char (CHR ''C'') = CHR ''c''" "lower_char (CHR ''D'') = CHR ''d''"
  "lower_char (CHR ''E'') = CHR ''e''" "lower_char (CHR ''F'') = CHR ''f''"
  "lower_char (CHR ''G'') = CHR ''g''" "lower_char (CHR ''H'') = CHR ''h''"
  "lower_char (CHR ''I'') = CHR ''i''" "lower_char (CHR ''J'') = CHR ''j''"
  "lower_char (CHR ''K'') = CHR ''k''" "lower_char (CHR ''L'') = CHR ''l''"
  "lower_char (CHR ''M'') = CHR ''m''" "lower_char (CHR ''N'') = CHR ''n''"
  "lower_char (CHR ''O'') = CHR ''o''" "lower_char (CHR ''P'') = CHR ''p''"
  "lower_char (CHR ''Q'') = CHR ''q''" "lower_char (CHR ''R'') = CHR ''r''"
  "lower_char (CHR ''S'') = CHR ''s''" "lower_char (CHR ''T'') = CHR ''t''"
  "lower_char (CHR ''U'') = CHR ''u''" "lower_char (CHR ''V'') = CHR ''v''"
  "lower_char (CHR ''W'') = CHR ''w''" "lower_char (CHR ''X'') = CHR ''x''"
  "lower_char (CHR ''Y'') = CHR ''y''" "lower_char (CHR ''Z'') = CHR ''z''"
  by (simp_all add: lower_char_def char_of_def bit_iff_odd)

lemma lower_char_other [simp]: "byte c < 65 \<or> 90 < byte c \<Longrightarrow> lower_char c = c"
  by (auto simp: lower_char_def)

lemma lower_char_ascii: "is_ascii c \<Longrightarrow> is_ascii (lower_char c)"
  by (auto simp: is_ascii_def lower_char_def of_char_of)

lemma lower_char_idem [simp]: "lower_char (lower_char c) = lower_char c"
  by (auto simp: lower_char_def of_char_of take_bit_eq_mod)

lemma to_lower_idem_ascii:
  "list_all is_ascii s \<Longrightarrow> to_lower u (to_lower u s) = to_lower u s"
  by (simp add: to_lower_ascii list_all_iff lower_char_ascii)

text \<open>\<open>strings.EqualFold\<close>.\<close>

definition fold_rune :: "unicode \<Rightarrow> nat \<Rightarrow> nat \<Rightarrow> bool" where
  "fold_rune u a b \<longleftrightarrow>
     a = b \<or>
     (let sr = min a b; tr = max a b in
      if tr < 128 then 65 \<le> sr \<and> sr \<le> 90 \<and> tr = sr + 32 else same_fold u sr tr)"

definition equal_fold :: "unicode \<Rightarrow> string \<Rightarrow> string \<Rightarrow> bool" where
  "equal_fold u s t \<longleftrightarrow> list_all2 (fold_rune u) (runes s) (runes t)"

lemma equal_fold_refl [simp]: "equal_fold u s s"
  by (simp add: equal_fold_def fold_rune_def list_all2_same)

lemma fold_rune_sym: "fold_rune u a b \<longleftrightarrow> fold_rune u b a"
  by (auto simp: fold_rune_def Let_def min.commute max.commute)

lemma equal_fold_sym: "equal_fold u s t \<longleftrightarrow> equal_fold u t s"
proof -
  have "list_all2 (fold_rune u) xs ys \<Longrightarrow> list_all2 (fold_rune u) ys xs" for xs ys
    by (induction rule: list_all2_induct) (use fold_rune_sym in auto)
  then show ?thesis by (auto simp: equal_fold_def)
qed

lemma fold_rune_ascii:
  assumes "is_ascii a" and "is_ascii b"
  shows "fold_rune u (byte a) (byte b) \<longleftrightarrow> lower_char a = lower_char b"
proof -
  have "byte (lower_char c) = (if 65 \<le> byte c \<and> byte c \<le> 90 then byte c + 32 else byte c)"
    if "is_ascii c" for c
    using that by (auto simp: lower_char_def of_char_of take_bit_eq_mod is_ascii_def)
  with assms have "lower_char a = lower_char b \<longleftrightarrow>
      (if 65 \<le> byte a \<and> byte a \<le> 90 then byte a + 32 else byte a)
        = (if 65 \<le> byte b \<and> byte b \<le> 90 then byte b + 32 else byte b)"
    by (simp flip: byte_inject)
  with assms show ?thesis
    by (auto simp: fold_rune_def is_ascii_def Let_def min_def max_def split: if_splits)
qed

text \<open>Between ASCII strings \<open>EqualFold\<close> is equality of the lower-cased strings.\<close>

lemma equal_fold_ascii:
  assumes "list_all is_ascii s" and "list_all is_ascii t"
  shows "equal_fold u s t \<longleftrightarrow> map lower_char s = map lower_char t"
proof -
  have "list_all2 (fold_rune u) (map byte s) (map byte t) \<longleftrightarrow> map lower_char s = map lower_char t"
    using assms
  proof (induction s arbitrary: t)
    case Nil
    then show ?case by simp
  next
    case (Cons a s)
    then show ?case by (cases t) (auto simp: fold_rune_ascii)
  qed
  with assms show ?thesis by (simp add: equal_fold_def runes_ascii)
qed

lemma equal_fold_lower:
  "list_all is_ascii s \<Longrightarrow> list_all is_ascii t \<Longrightarrow>
   equal_fold u s t \<longleftrightarrow> to_lower u s = to_lower u t"
  by (simp add: equal_fold_ascii to_lower_ascii)

section \<open>Searching and slicing\<close>

text \<open>\<open>strings.IndexByte\<close> and \<open>LastIndexByte\<close>; \<open>None\<close> stands for -1.\<close>

fun index_byte :: "char \<Rightarrow> string \<Rightarrow> nat option" where
  "index_byte c [] = None"
| "index_byte c (x # xs) = (if x = c then Some 0 else map_option Suc (index_byte c xs))"

definition last_index_byte :: "char \<Rightarrow> string \<Rightarrow> nat option" where
  "last_index_byte c s = map_option (\<lambda>i. length s - Suc i) (index_byte c (rev s))"

lemma index_byte_None: "index_byte c s = None \<longleftrightarrow> c \<notin> set s"
  by (induction s) auto

lemma index_byte_append: "c \<notin> set xs \<Longrightarrow> index_byte c (xs @ c # ys) = Some (length xs)"
  by (induction xs) auto

lemma index_byte_Some:
  "index_byte c s = Some i \<Longrightarrow> i < length s \<and> s ! i = c \<and> c \<notin> set (take i s)"
  by (induction s arbitrary: i) (auto split: if_splits simp: nth_Cons take_Cons split: nat.splits)

lemma last_index_byte_None: "last_index_byte c s = None \<longleftrightarrow> c \<notin> set s"
  by (simp add: last_index_byte_def index_byte_None)

lemma last_index_byte_append:
  "c \<notin> set ys \<Longrightarrow> last_index_byte c (xs @ c # ys) = Some (length xs)"
  by (simp add: last_index_byte_def index_byte_append)

lemma last_index_byte_Some:
  assumes "last_index_byte c s = Some i"
  shows "i < length s \<and> s ! i = c"
proof -
  from assms obtain j where j: "index_byte c (rev s) = Some j" and i: "i = length s - Suc j"
    by (auto simp: last_index_byte_def)
  from index_byte_Some [OF j] have "j < length s" "rev s ! j = c" by simp_all
  with i show ?thesis by (simp add: rev_nth)
qed

definition has_prefix :: "string \<Rightarrow> string \<Rightarrow> bool" where
  "has_prefix s p \<longleftrightarrow> take (length p) s = p"

definition has_suffix :: "string \<Rightarrow> string \<Rightarrow> bool" where
  "has_suffix s p \<longleftrightarrow> length p \<le> length s \<and> drop (length s - length p) s = p"

definition trim_suffix :: "string \<Rightarrow> string \<Rightarrow> string" where
  "trim_suffix s p = (if has_suffix s p then take (length s - length p) s else s)"

definition trim_prefix :: "string \<Rightarrow> string \<Rightarrow> string" where
  "trim_prefix s p = (if has_prefix s p then drop (length p) s else s)"

fun contains_str :: "string \<Rightarrow> string \<Rightarrow> bool" where
  "contains_str [] p = (p = [])"
| "contains_str (x # xs) p = (has_prefix (x # xs) p \<or> contains_str xs p)"

lemma has_prefix_append [simp]: "has_prefix (p @ s) p"
  by (simp add: has_prefix_def)

lemma has_suffix_append [simp]: "has_suffix (s @ p) p"
  by (simp add: has_suffix_def)

lemma has_suffix_ex: "has_suffix s p \<longleftrightarrow> (\<exists>t. s = t @ p)"
  by (metis append_take_drop_id has_suffix_append has_suffix_def)

lemma has_prefix_ex: "has_prefix s p \<longleftrightarrow> (\<exists>t. s = p @ t)"
  by (metis append_take_drop_id has_prefix_append has_prefix_def)

lemma trim_suffix_append [simp]: "trim_suffix (s @ p) p = s"
  by (simp add: trim_suffix_def)

lemma trim_prefix_append [simp]: "trim_prefix (p @ s) p = s"
  by (simp add: trim_prefix_def)

text \<open>The set of bytes of a cut set occurs in the string: \<open>strings.ContainsAny\<close> on ASCII sets.\<close>

definition contains_any :: "string \<Rightarrow> string \<Rightarrow> bool" where
  "contains_any s cs \<longleftrightarrow> list_ex (\<lambda>c. List.member cs c) s"

section \<open>Splitting and joining\<close>

text \<open>\<open>strings.Split\<close> with a one-byte separator.\<close>

fun split_on :: "char \<Rightarrow> string \<Rightarrow> string list" where
  "split_on c [] = [[]]"
| "split_on c (x # xs) =
     (if x = c then [] # split_on c xs
      else (case split_on c xs of [] \<Rightarrow> [[x]] | l # ls \<Rightarrow> (x # l) # ls))"

lemma split_on_nonempty [simp]: "split_on c s \<noteq> []"
  by (induction s) (auto split: list.splits)

lemma split_on_no_sep: "c \<notin> set s \<Longrightarrow> split_on c s = [s]"
  by (induction s) auto

lemma split_on_append: "c \<notin> set xs \<Longrightarrow> split_on c (xs @ c # ys) = xs # split_on c ys"
  by (induction xs) auto

lemma split_on_pieces: "l \<in> set (split_on c s) \<Longrightarrow> c \<notin> set l"
  by (induction s arbitrary: l) (auto split: if_splits list.splits)

text \<open>\<open>strings.Join\<close>.\<close>

fun join :: "string \<Rightarrow> string list \<Rightarrow> string" where
  "join sep [] = []"
| "join sep [x] = x"
| "join sep (x # y # zs) = x @ sep @ join sep (y # zs)"

lemma set_join: "set (join sep xs) \<subseteq> set sep \<union> (\<Union>x\<in>set xs. set x)"
  by (induction sep xs rule: join.induct) auto

lemma join_Cons: "xs \<noteq> [] \<Longrightarrow> join sep (x # xs) = x @ sep @ join sep xs"
  by (cases xs) auto

lemma split_join:
  "xs \<noteq> [] \<Longrightarrow> (\<And>x. x \<in> set xs \<Longrightarrow> c \<notin> set x) \<Longrightarrow> split_on c (join [c] xs) = xs"
  by (induction "[c]" xs rule: join.induct) (auto simp: split_on_no_sep split_on_append)

lemma join_split: "join [c] (split_on c s) = s"
proof (induction s)
  case Nil
  then show ?case by simp
next
  case (Cons x xs)
  then show ?case by (cases "split_on c xs") (auto simp: join_Cons, metis join.simps(2) join_Cons append_Cons)
qed

text \<open>A text made of terminated lines splits into those lines and an empty rest.\<close>

definition unlines :: "string list \<Rightarrow> string" where
  "unlines ls = concat (map (\<lambda>l. l @ [NL]) ls)"

lemma unlines_simps [simp]:
  "unlines [] = []"
  "unlines (l # ls) = l @ NL # unlines ls"
  "unlines (ls @ ms) = unlines ls @ unlines ms"
  by (simp_all add: unlines_def)

lemma split_unlines:
  "(\<And>l. l \<in> set ls \<Longrightarrow> NL \<notin> set l) \<Longrightarrow> split_on NL (unlines ls) = ls @ [[]]"
  by (induction ls) (auto simp: split_on_append)

section \<open>White space\<close>

text \<open>The UTF-8 encodings of every rune for which \<open>unicode.IsSpace\<close> answers true.\<close>

definition ascii_spaces :: "string list" where
  "ascii_spaces = [[CHR 0x20], [CHR 0x09], [CHR 0x0A], [CHR 0x0B], [CHR 0x0C], [CHR 0x0D]]"

definition wide_spaces :: "string list" where
  "wide_spaces =
     [[CHR 0xC2, CHR 0x85], [CHR 0xC2, CHR 0xA0], [CHR 0xE1, CHR 0x9A, CHR 0x80]]
     @ map (\<lambda>c. [CHR 0xE2, CHR 0x80, c])
         [CHR 0x80, CHR 0x81, CHR 0x82, CHR 0x83, CHR 0x84, CHR 0x85, CHR 0x86, CHR 0x87,
          CHR 0x88, CHR 0x89, CHR 0x8A, CHR 0xA8, CHR 0xA9, CHR 0xAF]
     @ [[CHR 0xE2, CHR 0x81, CHR 0x9F], [CHR 0xE3, CHR 0x80, CHR 0x80]]"

definition go_spaces :: "string list" where
  "go_spaces = ascii_spaces @ wide_spaces"

text \<open>Cut leading occurrences of the given (non-empty) patterns.\<close>

function cut_front :: "string list \<Rightarrow> string \<Rightarrow> string" where
  "cut_front ps s =
     (case find (\<lambda>p. p \<noteq> [] \<and> has_prefix s p) ps of
        None \<Rightarrow> s
      | Some p \<Rightarrow> cut_front ps (drop (length p) s))"
  by pat_completeness auto
termination
proof (relation "measure (\<lambda>(ps, s). length s)")
  fix ps s and p :: string
  assume "find (\<lambda>p. p \<noteq> [] \<and> has_prefix s p) ps = Some p"
  then have "p \<noteq> []" "has_prefix s p" by (auto simp: find_Some_iff)
  then have "0 < length p" "length p \<le> length s"
    by (auto simp: has_prefix_ex)
  then show "((ps, drop (length p) s), ps, s) \<in> measure (\<lambda>(ps, s). length s)"
    by (cases s) auto
qed simp

declare cut_front.simps [simp del]

definition trim_left_space :: "string \<Rightarrow> string" where
  "trim_left_space s = cut_front go_spaces s"

definition trim_right_space :: "string \<Rightarrow> string" where
  "trim_right_space s = rev (cut_front (map rev go_spaces) (rev s))"

text \<open>\<open>strings.TrimSpace\<close>.\<close>

definition trim_space :: "string \<Rightarrow> string" where
  "trim_space s = trim_right_space (trim_left_space s)"

definition starts_with_any :: "string list \<Rightarrow> string \<Rightarrow> bool" where
  "starts_with_any ps s \<longleftrightarrow> list_ex (\<lambda>p. p \<noteq> [] \<and> has_prefix s p) ps"

lemma cut_front_id: "\<not> starts_with_any ps s \<Longrightarrow> cut_front ps s = s"
  by (subst cut_front.simps)
     (auto simp: starts_with_any_def list_ex_iff find_None_iff split: option.splits dest: find_None_iff [THEN iffD1] simp: find_Some_iff)

lemma cut_front_result: "\<not> starts_with_any ps (cut_front ps s)"
proof (induction ps s rule: cut_front.induct)
  case (1 ps s)
  show ?case
  proof (cases "find (\<lambda>p. p \<noteq> [] \<and> has_prefix s p) ps")
    case None
    then have "cut_front ps s = s" by (subst cut_front.simps) simp
    with None show ?thesis by (auto simp: starts_with_any_def list_ex_iff find_None_iff)
  next
    case (Some p)
    with 1 show ?thesis by (subst cut_front.simps) simp
  qed
qed

lemma cut_front_suffix: "\<exists>t. s = t @ cut_front ps s"
proof (induction ps s rule: cut_front.induct)
  case (1 ps s)
  show ?case
  proof (cases "find (\<lambda>p. p \<noteq> [] \<and> has_prefix s p) ps")
    case None
    then show ?thesis by (subst cut_front.simps) simp
  next
    case (Some p)
    then obtain s' where s': "s = p @ s'" by (auto simp: find_Some_iff has_prefix_ex)
    from 1 [OF Some] obtain t where "drop (length p) s = t @ cut_front ps (drop (length p) s)" ..
    with s' have eq: "s = (p @ t) @ cut_front ps (drop (length p) s)" by simp
    from Some have "cut_front ps s = cut_front ps (drop (length p) s)"
      by (subst cut_front.simps) simp
    with eq show ?thesis by metis
  qed
qed

text \<open>A string with no white space at either end.\<close>

definition trimmed :: "string \<Rightarrow> bool" where
  "trimmed s \<longleftrightarrow> \<not> starts_with_any go_spaces s \<and> \<not> starts_with_any (map rev go_spaces) (rev s)"

lemma trim_space_id [simp]: "trimmed s \<Longrightarrow> trim_space s = s"
  by (simp add: trimmed_def trim_space_def trim_left_space_def trim_right_space_def cut_front_id)

lemma starts_with_any_append: "starts_with_any ps s \<Longrightarrow> starts_with_any ps (s @ t)"
  by (force simp: starts_with_any_def list_ex_iff has_prefix_ex)

lemma trim_space_trimmed [simp]: "trimmed (trim_space s)"
proof -
  define l where "l = trim_left_space s"
  define r where "r = cut_front (map rev go_spaces) (rev l)"
  have "\<not> starts_with_any go_spaces l"
    by (simp add: l_def trim_left_space_def cut_front_result)
  moreover obtain t where "rev l = t @ r"
    using cut_front_suffix [of "rev l" "map rev go_spaces"] by (auto simp: r_def)
  then have "l = rev r @ rev t" by (metis rev_append rev_rev_ident)
  ultimately have "\<not> starts_with_any go_spaces (rev r)"
    using starts_with_any_append by metis
  moreover have "\<not> starts_with_any (map rev go_spaces) r"
    by (simp add: r_def cut_front_result)
  ultimately show ?thesis
    by (simp add: trimmed_def trim_space_def trim_right_space_def l_def r_def)
qed

theorem trim_space_idem: "trim_space (trim_space s) = trim_space s"
  by simp

lemma trim_space_eq_self_iff: "trim_space s = s \<longleftrightarrow> trimmed s"
  by (metis trim_space_trimmed trim_space_id)

lemma trimmed_Nil [simp]: "trimmed []"
  by (simp add: trimmed_def starts_with_any_def list_ex_iff has_prefix_ex)

lemma set_trim_space: "set (trim_space s) \<subseteq> set s"
proof -
  obtain t where t: "s = t @ trim_left_space s"
    using cut_front_suffix by (metis trim_left_space_def)
  obtain r where r: "rev (trim_left_space s) = r @ rev (trim_space s)"
    using cut_front_suffix by (metis rev_rev_ident trim_right_space_def trim_space_def)
  from r have "set (trim_space s) \<subseteq> set (trim_left_space s)"
    by (metis set_append set_rev Un_upper2)
  moreover from t have "set (trim_left_space s) \<subseteq> set s"
    by (metis set_append Un_upper2)
  ultimately show ?thesis by simp
qed

lemma go_space_bytes:
  "p \<in> set go_spaces \<Longrightarrow> c \<in> set p \<Longrightarrow> \<not> is_graphic c \<and> (length p \<noteq> 1 \<longrightarrow> \<not> is_ascii c)"
  by (auto simp: go_spaces_def ascii_spaces_def wide_spaces_def is_graphic_def is_ascii_def)

lemma go_space_nonempty: "p \<in> set go_spaces \<Longrightarrow> p \<noteq> []"
  by (auto simp: go_spaces_def ascii_spaces_def wide_spaces_def)

lemma starts_graphic:
  assumes "is_graphic c"
  shows "\<not> starts_with_any go_spaces (c # s)"
    and "\<not> starts_with_any (map rev go_spaces) (c # s)"
proof -
  have "\<not> (\<exists>p\<in>set ps. p \<noteq> [] \<and> has_prefix (c # s) p)"
    if "\<And>p. p \<in> set ps \<Longrightarrow> \<forall>d\<in>set p. \<not> is_graphic d" for ps
  proof (rule notI, elim bexE conjE)
    fix p assume p: "p \<in> set ps" "p \<noteq> []" "has_prefix (c # s) p"
    then obtain p' where "p = c # p'" by (auto simp: has_prefix_ex Cons_eq_append_conv)
    with that [OF p(1)] assms show False by simp
  qed
  note free = this
  from free [of go_spaces] show "\<not> starts_with_any go_spaces (c # s)"
    using go_space_bytes by (simp add: starts_with_any_def list_ex_iff)
  from free [of "map rev go_spaces"] show "\<not> starts_with_any (map rev go_spaces) (c # s)"
    using go_space_bytes by (fastforce simp: starts_with_any_def list_ex_iff)
qed

text \<open>A string between two printable ASCII characters has nothing to trim.\<close>

lemma trimmed_graphic:
  "s \<noteq> [] \<Longrightarrow> is_graphic (hd s) \<Longrightarrow> is_graphic (last s) \<Longrightarrow> trimmed s"
proof -
  assume s: "s \<noteq> []" "is_graphic (hd s)" "is_graphic (last s)"
  then have a: "s = hd s # tl s" by simp
  have b: "rev s = last s # rev (butlast s)"
    using s(1) by (metis append_butlast_last_id rev_eq_Cons_iff rev_rev_ident)
  from s(2) have "\<not> starts_with_any go_spaces s"
    by (subst a) (rule starts_graphic(1))
  moreover from s(3) have "\<not> starts_with_any (map rev go_spaces) (rev s)"
    by (subst b) (rule starts_graphic(2))
  ultimately show "trimmed s" by (simp add: trimmed_def)
qed

lemma trimmed_all_graphic: "list_all is_graphic s \<Longrightarrow> trimmed s"
  by (cases "s = []") (auto intro!: trimmed_graphic simp: list_all_iff)

text \<open>An ASCII byte in front of a trimmed text keeps its end trimmed.\<close>

lemma ends_after_ascii:
  assumes "v \<noteq> []" and "\<not> starts_with_any (map rev go_spaces) (rev v)" and "is_ascii c"
  shows "\<not> starts_with_any (map rev go_spaces) (rev (k @ c # v))"
proof
  assume "starts_with_any (map rev go_spaces) (rev (k @ c # v))"
  then obtain p t where p: "p \<in> set go_spaces" and t: "rev v @ c # rev k = rev p @ t"
    by (auto simp: starts_with_any_def list_ex_iff has_prefix_ex)
  show False
  proof (cases "length p \<le> length v")
    case True
    from t have "take (length p) (rev v @ c # rev k) = rev p" by simp
    with True have "has_prefix (rev v) (rev p)" by (simp add: has_prefix_def)
    with p assms(2) go_space_nonempty show False
      by (auto simp: starts_with_any_def list_ex_iff)
  next
    case False
    then have "(rev v @ c # rev k) ! length v = c" and "length v < length (rev p)"
      by (simp_all add: nth_append)
    with t have "c \<in> set p" by (metis nth_append nth_mem set_rev)
    moreover from False assms(1) have "length p \<noteq> 1" by (cases v) auto
    ultimately show False using go_space_bytes [OF p] assms(3) by blast
  qed
qed

lemma trimmed_append_ascii:
  assumes "trimmed v" and "v \<noteq> []" and "is_graphic a" and "is_ascii c"
  shows "trimmed (a # k @ c # v)"
proof -
  have "\<not> starts_with_any (map rev go_spaces) (rev ((a # k) @ c # v))"
    by (rule ends_after_ascii) (use assms in \<open>auto simp: trimmed_def\<close>)
  then show ?thesis using starts_graphic(1) [OF assms(3)] by (simp add: trimmed_def)
qed

lemma cut_front_blank:
  "trim_left_space (CHR 0x20 # s) = trim_left_space s"
  by (simp add: trim_left_space_def go_spaces_def ascii_spaces_def has_prefix_def
      cut_front.simps [of _ "CHR 0x20 # s"])

lemma trim_space_blank [simp]: "trim_space (CHR 0x20 # s) = trim_space s"
  by (simp add: trim_space_def cut_front_blank)

lemma trim_space_tail_blank [simp]:
  assumes "\<not> starts_with_any go_spaces s" "s \<noteq> []"
  shows "trim_space (s @ [CHR 0x20]) = trim_space s"
proof -
  have "\<not> starts_with_any go_spaces (s @ [CHR 0x20])"
  proof
    assume "starts_with_any go_spaces (s @ [CHR 0x20])"
    then obtain p t where p: "p \<in> set go_spaces" "p \<noteq> []" and t: "s @ [CHR 0x20] = p @ t"
      by (auto simp: starts_with_any_def list_ex_iff has_prefix_ex)
    show False
    proof (cases t rule: rev_cases)
      case Nil
      with t have ps: "p = s @ [CHR 0x20]" by simp
      then have "CHR 0x20 \<in> set p" and "length p \<noteq> 1" using assms(2) by auto
      with go_space_bytes [OF p(1), of "CHR 0x20"] show False by (simp add: is_ascii_def)
    next
      case (snoc t' c)
      with t have "s = p @ t'" by simp
      with p assms(1) show False
        by (auto simp: starts_with_any_def list_ex_iff)
    qed
  qed
  then have l: "trim_left_space (s @ [CHR 0x20]) = s @ [CHR 0x20]" "trim_left_space s = s"
    using assms(1) by (simp_all add: trim_left_space_def cut_front_id)
  have "cut_front (map rev go_spaces) (CHR 0x20 # rev s) = cut_front (map rev go_spaces) (rev s)"
    by (simp add: go_spaces_def ascii_spaces_def has_prefix_def
        cut_front.simps [of _ "CHR 0x20 # rev s"])
  with l show ?thesis by (simp add: trim_space_def trim_right_space_def)
qed

end
