(* ===== verification/GoStrconv.thy ===== *)
theory GoStrconv
  imports GoStrings
begin

text \<open>
  Go's \<open>strconv\<close>, \<open>encoding/hex\<close> and \<open>encoding/base64\<close> as far as the program uses them:
  decimal printing and parsing with their error kinds, and the two codecs of binary keys.
  The interface \<open>byte_codec\<close> states what the key routines rely on; both codecs provide it.
\<close>

section \<open>Decimal numbers\<close>

datatype num_error = NumSyntax | NumRange

definition digit_char :: "nat \<Rightarrow> char" where
  "digit_char d = char_of (48 + d)"

fun dec :: "nat \<Rightarrow> string" where
  "dec n = (if n < 10 then [digit_char n] else dec (n div 10) @ [digit_char (n mod 10)])"

declare dec.simps [simp del]

text \<open>The digit loop of \<open>strconv.ParseUint\<close>: errors are reported at the first bad byte.\<close>

fun digits_val :: "nat \<Rightarrow> nat \<Rightarrow> string \<Rightarrow> num_error + nat" where
  "digits_val mx acc [] = Inr acc"
| "digits_val mx acc (c # s) =
     (if \<not> is_digit c then Inl NumSyntax
      else let v = acc * 10 + (byte c - 48) in
           if mx < v then Inl NumRange else digits_val mx v s)"

definition parse_uint :: "nat \<Rightarrow> string \<Rightarrow> num_error + nat" where
  "parse_uint bits s = (if s = [] then Inl NumSyntax else digits_val (2 ^ bits - 1) 0 s)"

text \<open>\<open>strconv.Atoi\<close> and \<open>ParseInt(s, 10, 64)\<close>: an optional sign, then digits.\<close>

definition parse_int64 :: "string \<Rightarrow> num_error + int" where
  "parse_int64 s =
     (let neg = (s \<noteq> [] \<and> hd s = CHR ''-'');
          rest = (if s \<noteq> [] \<and> (hd s = CHR ''-'' \<or> hd s = CHR ''+'') then tl s else s)
      in case parse_uint 64 rest of
           Inl e \<Rightarrow> Inl e
         | Inr n \<Rightarrow>
             if \<not> neg \<and> 9223372036854775808 \<le> n then Inl NumRange
             else if neg \<and> 9223372036854775808 < n then Inl NumRange
             else Inr (if neg then - int n else int n))"

abbreviation atoi :: "string \<Rightarrow> num_error + int" where "atoi \<equiv> parse_int64"

lemma byte_digit_char: "d < 10 \<Longrightarrow> byte (digit_char d) = 48 + d"
  by (simp add: digit_char_def of_char_of)

lemma is_digit_digit_char: "d < 10 \<Longrightarrow> is_digit (digit_char d)"
  by (simp add: is_digit_def byte_digit_char)

lemma dec_digits: "list_all is_digit (dec n)"
proof (induction n rule: dec.induct)
  case (1 n)
  then show ?case by (subst dec.simps) (simp add: is_digit_digit_char)
qed

lemma dec_nonempty [simp]: "dec n \<noteq> []"
  by (subst dec.simps) simp

lemma dec_graphic: "list_all is_graphic (dec n)"
  using dec_digits [of n] digit_graphic by (auto simp: list_all_iff)

lemma digits_val_append:
  "digits_val mx acc (s @ t) = rbind (digits_val mx acc s) (\<lambda>v. digits_val mx v t)"
  by (induction s arbitrary: acc) (auto simp: Let_def)

lemma digits_val_dec: "n \<le> mx \<Longrightarrow> digits_val mx 0 (dec n) = Inr n"
proof (induction n rule: dec.induct)
  case (1 n)
  show ?case
  proof (cases "n < 10")
    case True
    with 1 show ?thesis
      by (subst dec.simps) (simp add: is_digit_digit_char byte_digit_char)
  next
    case False
    with 1 have "digits_val mx 0 (dec (n div 10)) = Inr (n div 10)" by simp
    moreover have "n div 10 * 10 + n mod 10 = n" by simp
    ultimately show ?thesis using False "1.prems"
      by (subst dec.simps) (simp add: digits_val_append is_digit_digit_char byte_digit_char)
  qed
qed

lemma parse_uint_dec: "n < 2 ^ bits \<Longrightarrow> parse_uint bits (dec n) = Inr n"
  by (simp add: parse_uint_def digits_val_dec)

lemma hd_dec: "is_digit (hd (dec n))"
  using dec_digits [of n] by (cases "dec n") auto

lemma atoi_dec: "n < 9223372036854775808 \<Longrightarrow> atoi (dec n) = Inr (int n)"
proof -
  assume n: "n < 9223372036854775808"
  have "hd (dec n) \<noteq> CHR ''-''" "hd (dec n) \<noteq> CHR ''+''"
    using hd_dec [of n] by (auto simp: is_digit_def)
  moreover have "parse_uint 64 (dec n) = Inr n"
    by (rule parse_uint_dec) (use n in simp)
  moreover from n have "\<not> 9223372036854775808 \<le> n" by linarith
  ultimately show ?thesis by (simp only: parse_int64_def Let_def dec_nonempty simp_thms sum.case if_False)
qed

lemma digits_val_bound: "digits_val mx acc s = Inr n \<Longrightarrow> acc \<le> mx \<Longrightarrow> n \<le> mx"
  by (induction s arbitrary: acc) (auto simp: Let_def split: if_splits)

lemma parse_uint_bound: "parse_uint bits s = Inr n \<Longrightarrow> n < 2 ^ bits"
proof -
  assume "parse_uint bits s = Inr n"
  then have "n \<le> 2 ^ bits - 1"
    by (auto simp: parse_uint_def split: if_splits intro: digits_val_bound)
  moreover have "0 < (2::nat) ^ bits" by simp
  ultimately show ?thesis by linarith
qed

lemma atoi_bound:
  assumes "atoi s = Inr m"
  shows "- 9223372036854775808 \<le> m \<and> m < 9223372036854775808"
proof -
  from assms obtain n neg where "neg \<longrightarrow> n \<le> 9223372036854775808"
    and "\<not> neg \<longrightarrow> n < 9223372036854775808" and "m = (if neg then - int n else int n)"
    unfolding parse_int64_def Let_def
    by (simp split: sum.split_asm if_split_asm) (metis linorder_not_le)+
  then show ?thesis by (cases neg) auto
qed

section \<open>Byte codecs\<close>

type_synonym bytes = "8 word list"

text \<open>What the key routines rely on: a printable encoding that decodes to the same bytes.\<close>

locale byte_codec =
  fixes enc :: "bytes \<Rightarrow> string"
    and decode :: "string \<Rightarrow> 'e + bytes"
  assumes decode_enc: "decode (enc bs) = Inr bs"
    and enc_graphic: "list_all is_graphic (enc bs)"
    and enc_no_comment: "CHR ''#'' \<notin> set (enc bs)"
    and enc_nonempty: "bs \<noteq> [] \<Longrightarrow> enc bs \<noteq> []"
begin

lemma enc_inject: "enc bs = enc cs \<longleftrightarrow> bs = cs"
  by (metis decode_enc sum.inject(2))

lemma enc_trimmed: "trimmed (enc bs)"
  by (rule trimmed_all_graphic) (rule enc_graphic)

lemma enc_no_newline: "NL \<notin> set (enc bs)"
proof
  assume "NL \<in> set (enc bs)"
  with enc_graphic have "is_graphic NL" by (rule list_all_mem)
  then show False by (simp add: is_graphic_def)
qed

lemma length_checked_decode:
  "length bs = n \<Longrightarrow>
   rbind (decode (enc bs)) (\<lambda>k. if length k \<noteq> n then Inl e else Inr k) = Inr bs"
  by (simp add: decode_enc)

end

lemma index_byte_nth: "distinct xs \<Longrightarrow> n < length xs \<Longrightarrow> index_byte (xs ! n) xs = Some n"
proof (induction xs arbitrary: n)
  case Nil
  then show ?case by simp
next
  case (Cons x xs)
  then show ?case by (cases n) auto
qed

subsection \<open>Hexadecimal\<close>

definition hex_alphabet :: string where "hex_alphabet = ''0123456789abcdef''"

definition hex_char :: "nat \<Rightarrow> char" where "hex_char n = hex_alphabet ! n"

text \<open>\<open>fromHexChar\<close>: upper and lower case are accepted.\<close>

definition hex_val :: "char \<Rightarrow> nat option" where
  "hex_val c =
     (if is_digit c then Some (byte c - 48)
      else if 97 \<le> byte c \<and> byte c \<le> 102 then Some (byte c - 87)
      else if 65 \<le> byte c \<and> byte c \<le> 70 then Some (byte c - 55)
      else None)"

datatype hex_error = HexInvalidByte | HexOddLength

fun hex_encode :: "bytes \<Rightarrow> string" where
  "hex_encode [] = []"
| "hex_encode (b # bs) = hex_char (unat b div 16) # hex_char (unat b mod 16) # hex_encode bs"

fun hex_decode :: "string \<Rightarrow> hex_error + bytes" where
  "hex_decode [] = Inr []"
| "hex_decode [a] = (if hex_val a = None then Inl HexInvalidByte else Inl HexOddLength)"
| "hex_decode (a # b # s) =
     (case (hex_val a, hex_val b) of
        (Some x, Some y) \<Rightarrow> rbind (hex_decode s) (\<lambda>bs. Inr (of_nat (x * 16 + y) # bs))
      | _ \<Rightarrow> Inl HexInvalidByte)"

lemma nibble_cases: "n < 16 \<Longrightarrow> n \<in> set [0,1,2,3,4,5,6,7,8,9,10,11,12,13,14,15::nat]"
  by (simp; presburger)

lemma hex_val_hex_char: "n < 16 \<Longrightarrow> hex_val (hex_char n) = Some n"
  by (drule nibble_cases) (auto simp: hex_char_def hex_alphabet_def hex_val_def is_digit_def)

lemma hex_char_mem: "n < 16 \<Longrightarrow> hex_char n \<in> set hex_alphabet"
  by (drule nibble_cases) (auto simp: hex_char_def hex_alphabet_def)

lemma unat_byte_less [simp]: "unat (b :: 8 word) < 256"
  by (rule order_less_le_trans [OF unsigned_less]) simp

lemma hex_decode_encode: "hex_decode (hex_encode bs) = Inr bs"
  by (induction bs) (simp_all add: hex_val_hex_char less_mult_imp_div_less)

lemma set_hex_encode: "set (hex_encode bs) \<subseteq> set hex_alphabet"
  by (induction bs) (auto simp: hex_char_mem less_mult_imp_div_less)

interpretation hex: byte_codec hex_encode hex_decode
proof unfold_locales
  fix bs
  show "hex_decode (hex_encode bs) = Inr bs" by (rule hex_decode_encode)
  have "\<forall>c\<in>set hex_alphabet. is_graphic c \<and> c \<noteq> CHR ''#''"
    by (simp add: hex_alphabet_def is_graphic_def)
  with set_hex_encode show "list_all is_graphic (hex_encode bs)" "CHR ''#'' \<notin> set (hex_encode bs)"
    by (auto simp: list_all_iff)
  show "bs \<noteq> [] \<Longrightarrow> hex_encode bs \<noteq> []" by (cases bs) auto
qed

subsection \<open>Base 64\<close>

definition b64_alphabet :: string where
  "b64_alphabet = ''ABCDEFGHIJKLMNOPQRSTUVWXYZabcdefghijklmnopqrstuvwxyz0123456789+/''"

definition b64_char :: "nat \<Rightarrow> char" where "b64_char n = b64_alphabet ! n"

definition sextet :: "char \<Rightarrow> nat option" where "sextet c = index_byte c b64_alphabet"

datatype b64_error = B64Corrupt

fun b64_encode :: "bytes \<Rightarrow> string" where
  "b64_encode [] = []"
| "b64_encode [a] =
     (let v = unat a * 65536 in
      [b64_char (v div 262144), b64_char (v div 4096 mod 64), CHR ''='', CHR ''=''])"
| "b64_encode [a, b] =
     (let v = unat a * 65536 + unat b * 256 in
      [b64_char (v div 262144), b64_char (v div 4096 mod 64), b64_char (v div 64 mod 64), CHR ''=''])"
| "b64_encode (a # b # c # rest) =
     (let v = unat a * 65536 + unat b * 256 + unat c in
      b64_char (v div 262144) # b64_char (v div 4096 mod 64) # b64_char (v div 64 mod 64)
        # b64_char (v mod 64) # b64_encode rest)"

text \<open>The quanta of \<open>decodeQuantum\<close>; the line breaks have been skipped before.\<close>

fun b64_quanta :: "string \<Rightarrow> b64_error + bytes" where
  "b64_quanta [] = Inr []"
| "b64_quanta (a # b # c # d # rest) =
     (case (sextet a, sextet b) of
        (Some w, Some x) \<Rightarrow>
          if c = CHR ''='' then
            (if d = CHR ''='' \<and> rest = [] then Inr [of_nat ((w * 262144 + x * 4096) div 65536)]
             else Inl B64Corrupt)
          else (case sextet c of
            None \<Rightarrow> Inl B64Corrupt
          | Some y \<Rightarrow>
              if d = CHR ''='' then
                (if rest = [] then
                   (let v = w * 262144 + x * 4096 + y * 64 in
                    Inr [of_nat (v div 65536), of_nat (v div 256 mod 256)])
                 else Inl B64Corrupt)
              else (case sextet d of
                None \<Rightarrow> Inl B64Corrupt
              | Some z \<Rightarrow>
                  (let v = w * 262144 + x * 4096 + y * 64 + z in
                   rbind (b64_quanta rest)
                     (\<lambda>bs. Inr (of_nat (v div 65536) # of_nat (v div 256 mod 256)
                                 # of_nat (v mod 256) # bs)))))
      | _ \<Rightarrow> Inl B64Corrupt)"
| "b64_quanta _ = Inl B64Corrupt"

definition b64_decode :: "string \<Rightarrow> b64_error + bytes" where
  "b64_decode s = b64_quanta (filter (\<lambda>c. c \<noteq> CHR 0x0A \<and> c \<noteq> CHR 0x0D) s)"

lemma b64_alphabet_length: "length b64_alphabet = 64"
  by (simp add: b64_alphabet_def)

lemma b64_alphabet_distinct: "distinct b64_alphabet"
  by (simp add: b64_alphabet_def)

lemma sextet_b64_char [simp]: "n < 64 \<Longrightarrow> sextet (b64_char n) = Some n"
  by (simp add: sextet_def b64_char_def index_byte_nth b64_alphabet_distinct b64_alphabet_length)

lemma b64_char_mem: "n < 64 \<Longrightarrow> b64_char n \<in> set b64_alphabet"
  by (simp add: b64_char_def b64_alphabet_length)

lemma b64_alphabet_chars:
  "c \<in> set b64_alphabet \<Longrightarrow> is_graphic c \<and> c \<noteq> CHR ''='' \<and> c \<noteq> CHR ''#''"
  by (auto simp: b64_alphabet_def is_graphic_def)

lemma b64_char_not_pad [simp]: "n < 64 \<Longrightarrow> b64_char n \<noteq> CHR ''=''"
  using b64_char_mem b64_alphabet_chars by blast

lemma word_byte_cancel: "n = unat (b :: 8 word) \<Longrightarrow> of_nat n = b"
  by simp

lemma sextets_value:
  fixes v :: nat
  shows "v div 262144 * 262144 + v div 4096 mod 64 * 4096 + v div 64 mod 64 * 64 + v mod 64 = v"
proof -
  have "v div 64 = v div 64 div 64 * 64 + v div 64 mod 64" by simp
  moreover have "v div 4096 = v div 4096 div 64 * 64 + v div 4096 mod 64" by simp
  moreover have "v div 64 div 64 = v div 4096" "v div 4096 div 64 = v div 262144"
    by (simp_all add: div_mult2_eq [symmetric])
  moreover have "v = v div 64 * 64 + v mod 64" by simp
  ultimately show ?thesis by linarith
qed

lemma bytes_value:
  fixes a b c :: nat
  assumes "b < 256" and "c < 256"
  shows "(a * 65536 + b * 256 + c) div 65536 = a"
    and "(a * 65536 + b * 256 + c) div 256 mod 256 = b"
    and "(a * 65536 + b * 256 + c) mod 256 = c"
proof -
  have e: "a * 65536 + b * 256 + c = (a * 256 + b) * 256 + c" by simp
  have d: "(a * 65536 + b * 256 + c) div 256 = a * 256 + b"
    unfolding e using assms(2) by simp
  with assms(1) show "(a * 65536 + b * 256 + c) div 256 mod 256 = b" by simp
  show "(a * 65536 + b * 256 + c) mod 256 = c"
    unfolding e mod_mult_self3 using assms(2) by (rule mod_less)
  have "(a * 65536 + b * 256 + c) div 65536 = (a * 65536 + b * 256 + c) div 256 div 256"
    by (simp add: div_mult2_eq [symmetric])
  with d assms(1) show "(a * 65536 + b * 256 + c) div 65536 = a" by simp
qed

lemma b64_quanta_encode: "b64_quanta (b64_encode bs) = Inr bs"
proof (induction bs rule: b64_encode.induct)
  case 1
  show ?case by simp
next
  case (2 a)
  define v where "v = unat a * 65536"
  have "v < 256 * 65536" by (simp add: v_def)
  then have "v div 262144 < 64" by (simp add: less_mult_imp_div_less)
  moreover have "v div 64 = unat a * 16 * 64" "v = unat a * 1024 * 64" by (simp_all add: v_def)
  then have "v div 64 mod 64 = 0" "v mod 64 = 0" by (metis mod_mult_self2_is_0)+
  then have "v div 262144 * 262144 + v div 4096 mod 64 * 4096 = v"
    using sextets_value [of v] by linarith
  moreover have "v div 65536 = unat a" by (simp add: v_def)
  ultimately show ?case by (simp add: Let_def v_def [symmetric])
next
  case (3 a b)
  define v where "v = unat a * 65536 + unat b * 256"
  have "unat a < 256" "unat b < 256" by simp_all
  then have "v < 256 * 65536" unfolding v_def by linarith
  then have "v div 262144 < 64" by (simp add: less_mult_imp_div_less)
  moreover have "v = (unat a * 1024 + unat b * 4) * 64" by (simp add: v_def)
  then have "v mod 64 = 0" by (metis mod_mult_self2_is_0)
  then have "v div 262144 * 262144 + v div 4096 mod 64 * 4096 + v div 64 mod 64 * 64 = v"
    using sextets_value [of v] by simp
  moreover have "v div 65536 = unat a" "v div 256 mod 256 = unat b"
    using bytes_value [of "unat b" 0 "unat a"] by (simp_all add: v_def)
  ultimately show ?case by (simp add: Let_def v_def [symmetric])
next
  case (4 a b c rest)
  define v where "v = unat a * 65536 + unat b * 256 + unat c"
  have less: "unat a < 256" "unat b < 256" "unat c < 256" by simp_all
  then have "v < 256 * 65536" unfolding v_def by linarith
  then have "v div 262144 < 64" by (simp add: less_mult_imp_div_less)
  moreover have "v div 65536 = unat a" "v div 256 mod 256 = unat b" "v mod 256 = unat c"
    using bytes_value [of "unat b" "unat c" "unat a"] by (simp_all add: v_def)
  ultimately show ?case using 4 sextets_value [of v]
    by (simp add: Let_def v_def [symmetric])
qed

lemma set_b64_encode: "set (b64_encode bs) \<subseteq> insert (CHR ''='') (set b64_alphabet)"
proof (induction bs rule: b64_encode.induct)
  case (2 a)
  have "unat a * 65536 div 262144 < 64" using unat_byte_less [of a] by linarith
  then show ?case by (simp add: Let_def b64_char_mem)
next
  case (3 a b)
  have "unat a < 256" "unat b < 256" by simp_all
  then have "(unat a * 65536 + unat b * 256) div 262144 < 64" by linarith
  then show ?case by (simp add: Let_def b64_char_mem)
next
  case (4 a b c rest)
  have "unat a < 256" "unat b < 256" "unat c < 256" by simp_all
  then have "(unat a * 65536 + unat b * 256 + unat c) div 262144 < 64" by linarith
  with 4 show ?case by (simp add: Let_def b64_char_mem)
qed simp

lemma b64_encode_chars: "c \<in> set (b64_encode bs) \<Longrightarrow> is_graphic c \<and> c \<noteq> CHR ''#''"
  using set_b64_encode [of bs] b64_alphabet_chars by (auto simp: is_graphic_def)

lemma b64_decode_encode: "b64_decode (b64_encode bs) = Inr bs"
proof -
  have "c \<noteq> CHR 0x0A \<and> c \<noteq> CHR 0x0D" if "c \<in> set (b64_encode bs)" for c
    using b64_encode_chars [OF that] by (auto simp: is_graphic_def)
  then have "filter (\<lambda>c. c \<noteq> CHR 0x0A \<and> c \<noteq> CHR 0x0D) (b64_encode bs) = b64_encode bs"
    by simp
  then show ?thesis by (simp add: b64_decode_def b64_quanta_encode)
qed

interpretation b64: byte_codec b64_encode b64_decode
proof unfold_locales
  fix bs
  show "b64_decode (b64_encode bs) = Inr bs" by (rule b64_decode_encode)
  show "list_all is_graphic (b64_encode bs)" "CHR ''#'' \<notin> set (b64_encode bs)"
    using b64_encode_chars by (auto simp: list_all_iff)
  show "bs \<noteq> [] \<Longrightarrow> b64_encode bs \<noteq> []"
    by (cases bs rule: b64_encode.cases) (auto simp: Let_def)
qed

end
