(* ===== verification/GoNet.thy ===== *)
theory GoNet
  imports GoStrconv
begin

text \<open>
  The parts of Go's \<open>net\<close> package the program uses: addresses as byte sequences (\<open>net.IP\<close>,
  4 or 16 bytes, \<open>nil\<close> is the empty one), \<open>ParseIP\<close>, \<open>IP.String\<close>, \<open>To4\<close>, masks, \<open>ParseCIDR\<close>
  and \<open>IPNet.Contains\<close>. Printing an address and parsing it again gives the address back.
\<close>

type_synonym ip = bytes

definition to4 :: "ip \<Rightarrow> ip option" where
  "to4 a =
     (if length a = 4 then Some a
      else if length a = 16 \<and> take 10 a = replicate 10 0 \<and> a ! 10 = 255 \<and> a ! 11 = 255
      then Some (drop 12 a)
      else None)"

text \<open>The 16 byte form of an IPv4 address, as \<open>ParseIP\<close> returns it.\<close>

definition v4_mapped :: "bytes \<Rightarrow> ip" where
  "v4_mapped a = replicate 10 0 @ [255, 255] @ a"

lemma to4_v4: "length a = 4 \<Longrightarrow> to4 a = Some a"
  by (simp add: to4_def)

lemma to4_v4_mapped: "length a = 4 \<Longrightarrow> to4 (v4_mapped a) = Some a"
  by (simp add: to4_def v4_mapped_def nth_append)

lemma to4_length: "to4 a = Some b \<Longrightarrow> length b = 4"
  by (auto simp: to4_def split: if_splits)

lemma to4_16:
  assumes "to4 a = Some b" and "length a = 16"
  shows "a = v4_mapped b"
proof -
  from assms have t: "take 10 a = replicate 10 0" "a ! 10 = 255" "a ! 11 = 255" "b = drop 12 a"
    by (auto simp: to4_def split: if_splits)
  have "a = take 10 a @ a ! 10 # a ! 11 # drop 12 a"
    using id_take_nth_drop [of 10 a] Cons_nth_drop_Suc [of 11 a] assms(2) by simp
  with t show ?thesis by (simp add: v4_mapped_def)
qed

section \<open>IPv4\<close>

text \<open>A field of \<open>parseIPv4Fields\<close>: digits without a leading zero, at most 255.\<close>

definition v4_field :: "string \<Rightarrow> 8 word option" where
  "v4_field s =
     (if s = [] \<or> (1 < length s \<and> hd s = CHR ''0'') then None
      else (case digits_val 255 0 s of Inl _ \<Rightarrow> None | Inr v \<Rightarrow> Some (of_nat v)))"

definition parse_v4 :: "string \<Rightarrow> bytes option" where
  "parse_v4 s =
     (case map v4_field (split_on (CHR ''.'') s) of
        [Some a, Some b, Some c, Some d] \<Rightarrow> Some [a, b, c, d]
      | _ \<Rightarrow> None)"

definition v4_string :: "bytes \<Rightarrow> string" where
  "v4_string a = join ''.'' (map (\<lambda>b. dec (unat b)) a)"

lemma dec_hd_zero: "1 < length (dec n) \<Longrightarrow> hd (dec n) \<noteq> CHR ''0''"
proof (induction n rule: dec.induct)
  case (1 n)
  show ?case
  proof (cases "n < 10")
    case True
    with "1.prems" show ?thesis by (subst (asm) dec.simps) simp
  next
    case False
    then have hd: "hd (dec n) = hd (dec (n div 10))"
      by (subst dec.simps) simp
    show ?thesis
    proof (cases "n div 10 < 10")
      case True
      then have "dec (n div 10) = [digit_char (n div 10)]" by (subst dec.simps) simp
      moreover have "byte (digit_char (n div 10)) \<noteq> byte (CHR ''0'')"
        using False True by (simp add: byte_digit_char)
      ultimately show ?thesis using hd by auto
    next
      case big: False
      then have "1 < length (dec (n div 10))" by (subst dec.simps) simp
      with 1(1) [OF False] hd show ?thesis by simp
    qed
  qed
qed

lemma v4_field_dec: "v4_field (dec (unat b)) = Some b"
proof -
  have "unat b < 256" by (rule unat_byte_less)
  then have "digits_val 255 0 (dec (unat b)) = Inr (unat b)" by (intro digits_val_dec) linarith
  then show ?thesis using dec_hd_zero [of "unat b"] by (auto simp: v4_field_def)
qed

lemma dec_no_sep: "\<not> is_digit c \<Longrightarrow> c \<notin> set (dec n)"
  using dec_digits [of n] by (auto simp: list_all_iff)

lemma parse_v4_string:
  assumes "length a = 4"
  shows "parse_v4 (v4_string a) = Some a"
proof -
  from assms obtain p q r s where a: "a = [p, q, r, s]"
    by (auto simp: numeral_eq_Suc length_Suc_conv)
  have "split_on (CHR ''.'') (v4_string a) = map (\<lambda>b. dec (unat b)) a"
    unfolding v4_string_def using a by (intro split_join) (auto simp: dec_no_sep is_digit_def)
  then show ?thesis by (simp add: parse_v4_def v4_field_dec a)
qed

lemma set_v4_string: "set (v4_string a) \<subseteq> insert (CHR ''.'') (Collect is_digit)"
  using set_join [of "''.''" "map (\<lambda>b. dec (unat b)) a"] dec_digits
  by (fastforce simp: v4_string_def list_all_iff)

section \<open>IPv6\<close>

definition is_hex :: "char \<Rightarrow> bool" where "is_hex c \<longleftrightarrow> hex_val c \<noteq> None"

definition hex_acc :: "string \<Rightarrow> nat" where
  "hex_acc s = foldl (\<lambda>a c. a * 16 + the (hex_val c)) 0 s"

definition group_bytes :: "nat \<Rightarrow> bytes" where
  "group_bytes g = [of_nat (g div 256), of_nat (g mod 256)]"

text \<open>
  The loop of \<open>parseIPv6\<close>: \<open>k\<close> groups still fit, \<open>ell\<close> is the position of the ellipsis in the
  bytes read so far.
\<close>

fun v6_loop :: "nat \<Rightarrow> nat option \<Rightarrow> bytes \<Rightarrow> string \<Rightarrow> (nat option \<times> bytes) option" where
  "v6_loop 0 ell out s = (if s = [] then Some (ell, out) else None)"
| "v6_loop (Suc k) ell out s =
     (let h = takeWhile is_hex s; rest = dropWhile is_hex s in
      if h = [] \<or> 4 < length h then None
      else if rest \<noteq> [] \<and> hd rest = CHR ''.'' then
        (if (ell = None \<and> length out \<noteq> 12) \<or> 16 < length out + 4 then None
         else (case parse_v4 s of None \<Rightarrow> None | Some f \<Rightarrow> Some (ell, out @ f)))
      else
        (let out' = out @ group_bytes (hex_acc h) in
         case rest of
           [] \<Rightarrow> Some (ell, out')
         | [c] \<Rightarrow> None
         | c # d # t \<Rightarrow>
             if c \<noteq> CHR '':'' then None
             else if d = CHR '':'' then
               (if ell \<noteq> None then None
                else if t = [] then Some (Some (length out'), out')
                else v6_loop k (Some (length out')) out' t)
             else v6_loop k ell out' (d # t)))"

definition v6_finish :: "nat option \<times> bytes \<Rightarrow> ip option" where
  "v6_finish r =
     (case r of (ell, out) \<Rightarrow>
        if length out < 16
        then (case ell of
                None \<Rightarrow> None
              | Some e \<Rightarrow> Some (take e out @ replicate (16 - length out) 0 @ drop e out))
        else if ell = None then Some out else None)"

definition parse_v6 :: "string \<Rightarrow> ip option" where
  "parse_v6 s =
     (if has_prefix s ''::''
      then (if drop 2 s = [] then Some (replicate 16 0)
            else Option.bind (v6_loop 8 (Some 0) [] (drop 2 s)) v6_finish)
      else Option.bind (v6_loop 8 None [] s) v6_finish)"

text \<open>\<open>net.ParseIP\<close>: an address with a zone is not an \<open>net.IP\<close>.\<close>

definition parse_ip :: "string \<Rightarrow> ip option" where
  "parse_ip s =
     (if CHR ''%'' \<in> set s then None
      else (case find (\<lambda>c. c = CHR ''.'' \<or> c = CHR '':'') s of
              None \<Rightarrow> None
            | Some c \<Rightarrow> if c = CHR ''.'' then map_option v4_mapped (parse_v4 s) else parse_v6 s))"

text \<open>Printing, as RFC 5952 and \<open>netip.Addr.String\<close> do: the longest run of two or more zero groups is elided.\<close>

definition hex16 :: "nat \<Rightarrow> string" where
  "hex16 g =
     (if 4096 \<le> g then [hex_char (g div 4096)] else [])
     @ (if 256 \<le> g then [hex_char (g div 256 mod 16)] else [])
     @ (if 16 \<le> g then [hex_char (g div 16 mod 16)] else [])
     @ [hex_char (g mod 16)]"

fun groups :: "bytes \<Rightarrow> nat list" where
  "groups (a # b # rest) = (unat a * 256 + unat b) # groups rest"
| "groups _ = []"

definition longest_zero_run :: "nat list \<Rightarrow> (nat \<times> nat) option" where
  "longest_zero_run gs =
     foldl (\<lambda>best i.
        let l = length (takeWhile (\<lambda>g. g = 0) (drop i gs)) in
        case best of
          None \<Rightarrow> if 2 \<le> l then Some (i, i + l) else None
        | Some (a, b) \<Rightarrow> if 2 \<le> l \<and> b - a < l then Some (i, i + l) else Some (a, b))
       None [0..<8]"

definition v6_string :: "ip \<Rightarrow> string" where
  "v6_string a =
     (let gs = groups a in
      case longest_zero_run gs of
        None \<Rightarrow> join '':'' (map hex16 gs)
      | Some (i, j) \<Rightarrow> join '':'' (map hex16 (take i gs)) @ ''::'' @ join '':'' (map hex16 (drop j gs)))"

definition ip_string :: "ip \<Rightarrow> string" where
  "ip_string a =
     (if a = [] then ''<nil>''
      else if length a \<noteq> 4 \<and> length a \<noteq> 16 then CHR ''?'' # hex_encode a
      else (case to4 a of Some v4 \<Rightarrow> v4_string v4 | None \<Rightarrow> v6_string a))"

subsection \<open>Parsing what was printed\<close>

lemma is_hex_hex_char: "n < 16 \<Longrightarrow> is_hex (hex_char n)"
  by (simp add: is_hex_def hex_val_hex_char)

lemma hex16_hex: "g < 65536 \<Longrightarrow> list_all is_hex (hex16 g)"
  by (auto simp: hex16_def is_hex_hex_char less_mult_imp_div_less)

lemma hex16_length: "hex16 g \<noteq> []" "length (hex16 g) \<le> 4"
  by (auto simp: hex16_def)

lemma hex_acc_snoc: "hex_acc (s @ [c]) = hex_acc s * 16 + the (hex_val c)"
  by (simp add: hex_acc_def)

lemma hex_acc_Nil: "hex_acc [] = 0"
  by (simp add: hex_acc_def)

lemma hex_acc_hex16:
  assumes "g < 65536"
  shows "hex_acc (hex16 g) = g"
proof -
  define p where "p = (if 4096 \<le> g then [hex_char (g div 4096)] else [])"
  define q where "q = p @ (if 256 \<le> g then [hex_char (g div 256 mod 16)] else [])"
  define r where "r = q @ (if 16 \<le> g then [hex_char (g div 16 mod 16)] else [])"
  have d: "g div 256 div 16 = g div 4096" "g div 16 div 16 = g div 256"
    by (simp_all add: div_mult2_eq [symmetric])
  have "g div 4096 < 16" using assms by (simp add: less_mult_imp_div_less)
  then have p: "hex_acc p = g div 4096"
    by (auto simp: p_def hex_val_hex_char hex_acc_def)
  have q: "hex_acc q = g div 256"
  proof (cases "256 \<le> g")
    case True
    then have "hex_acc q = g div 256 div 16 * 16 + g div 256 mod 16"
      using hex_acc_snoc [of p] p d by (simp add: q_def hex_val_hex_char)
    then show ?thesis by (simp only: div_mult_mod_eq)
  next
    case False
    then show ?thesis by (simp add: q_def p_def hex_acc_Nil)
  qed
  have r: "hex_acc r = g div 16"
  proof (cases "16 \<le> g")
    case True
    then have "hex_acc r = g div 16 div 16 * 16 + g div 16 mod 16"
      using hex_acc_snoc [of q] q d by (simp add: r_def hex_val_hex_char)
    then show ?thesis by (simp only: div_mult_mod_eq)
  next
    case False
    then show ?thesis by (simp add: r_def q_def p_def hex_acc_Nil)
  qed
  have "hex16 g = r @ [hex_char (g mod 16)]"
    by (simp add: hex16_def r_def q_def p_def)
  then have "hex_acc (hex16 g) = g div 16 * 16 + g mod 16"
    using hex_acc_snoc [of r] r by (simp add: hex_val_hex_char)
  then show ?thesis by (simp only: div_mult_mod_eq)
qed

lemma colon_not_hex: "\<not> is_hex (CHR '':'')" "\<not> is_hex (CHR ''.'')" "\<not> is_hex (CHR ''%'')"
  by (simp_all add: is_hex_def hex_val_def is_digit_def)

lemma hex16_stop:
  assumes "g < 65536" and "t = [] \<or> hd t = CHR '':''"
  shows "takeWhile is_hex (hex16 g @ t) = hex16 g" and "dropWhile is_hex (hex16 g @ t) = t"
proof -
  have h: "\<And>c. c \<in> set (hex16 g) \<Longrightarrow> is_hex c"
    using hex16_hex [OF assms(1)] by (auto simp: list_all_iff)
  show "takeWhile is_hex (hex16 g @ t) = hex16 g" "dropWhile is_hex (hex16 g @ t) = t"
    using assms(2) h colon_not_hex(1)
    by (cases t; auto simp: takeWhile_append_stop dropWhile_append_stop)+
qed

lemma hd_hex16: "g < 65536 \<Longrightarrow> hex16 g = c # cs \<Longrightarrow> c \<noteq> CHR '':''"
  using hex16_hex [of g] colon_not_hex by auto

text \<open>One turn of the loop on a printed group.\<close>

lemma v6_loop_step:
  assumes "takeWhile is_hex s = h" and "dropWhile is_hex s = r"
    and "h \<noteq> []" and "length h \<le> 4" and "r = [] \<or> hd r \<noteq> CHR ''.''"
  shows "v6_loop (Suc k) ell out s =
    (let out' = out @ group_bytes (hex_acc h) in
     case r of
       [] \<Rightarrow> Some (ell, out')
     | [c] \<Rightarrow> None
     | c # d # t \<Rightarrow>
         if c \<noteq> CHR '':'' then None
         else if d = CHR '':'' then
           (if ell \<noteq> None then None
            else if t = [] then Some (Some (length out'), out')
            else v6_loop k (Some (length out')) out' t)
         else v6_loop k ell out' (d # t))"
  using assms(3-5) by (auto simp add: assms(1,2) Let_def)

lemma v6_loop_hex16:
  assumes "g < 65536" and "r = [] \<or> hd r = CHR '':''"
  shows "v6_loop (Suc k) ell out (hex16 g @ r) =
    (let out' = out @ group_bytes g in
     case r of
       [] \<Rightarrow> Some (ell, out')
     | [c] \<Rightarrow> None
     | c # d # t \<Rightarrow>
         if c \<noteq> CHR '':'' then None
         else if d = CHR '':'' then
           (if ell \<noteq> None then None
            else if t = [] then Some (Some (length out'), out')
            else v6_loop k (Some (length out')) out' t)
         else v6_loop k ell out' (d # t))"
  using v6_loop_step [OF hex16_stop [OF assms] hex16_length] assms
  by (auto simp: hex_acc_hex16 simp del: v6_loop.simps)

lemma v6_loop_last:
  "g < 65536 \<Longrightarrow> v6_loop (Suc k) ell out (hex16 g) = Some (ell, out @ group_bytes g)"
  using v6_loop_hex16 [of g "[]" k ell out] by (simp add: hex_acc_hex16)

lemma v6_loop_group:
  assumes "g < 65536" and "t \<noteq> []" and "hd t \<noteq> CHR '':''"
  shows "v6_loop (Suc k) ell out (hex16 g @ CHR '':'' # t) = v6_loop k ell (out @ group_bytes g) t"
proof -
  from assms(2,3) obtain d t' where "t = d # t'" "d \<noteq> CHR '':''" by (cases t) auto
  then show ?thesis
    using v6_loop_hex16 [of g "CHR '':'' # t" k ell out] assms(1)
    by (simp add: hex_acc_hex16 del: v6_loop.simps)
qed

lemma v6_loop_ellipsis:
  assumes "g < 65536"
  shows "v6_loop (Suc k) None out (hex16 g @ ''::'' @ t) =
           (let out' = out @ group_bytes g in
            if t = [] then Some (Some (length out'), out')
            else v6_loop k (Some (length out')) out' t)"
  using v6_loop_hex16 [of g "''::'' @ t" k None out] assms
  by (simp add: hex_acc_hex16 Let_def del: v6_loop.simps)

definition groups_bytes :: "nat list \<Rightarrow> bytes" where
  "groups_bytes gs = concat (map group_bytes gs)"

lemma groups_bytes_simps [simp]:
  "groups_bytes [] = []"
  "groups_bytes (g # gs) = group_bytes g @ groups_bytes gs"
  "groups_bytes (gs @ hs) = groups_bytes gs @ groups_bytes hs"
  by (simp_all add: groups_bytes_def)

lemma length_groups_bytes [simp]: "length (groups_bytes gs) = 2 * length gs"
  by (induction gs) (auto simp: group_bytes_def)

abbreviation hex_groups :: "nat list \<Rightarrow> string" where
  "hex_groups gs \<equiv> join '':'' (map hex16 gs)"

lemma hex_groups_start:
  assumes "gs \<noteq> []" and "\<forall>g\<in>set gs. g < 65536"
  shows "\<exists>c t. hex_groups gs @ s = c # t \<and> is_hex c"
proof -
  from assms obtain g gs' where gs: "gs = g # gs'" "g < 65536" by (cases gs) auto
  then obtain c cs where "hex16 g = c # cs" using hex16_length(1) by (meson neq_Nil_conv)
  moreover have "is_hex c" using hex16_hex [OF gs(2)] calculation by simp
  ultimately show ?thesis using gs by (cases gs') auto
qed

lemma v6_loop_groups:
  "gs \<noteq> [] \<Longrightarrow> \<forall>g\<in>set gs. g < 65536 \<Longrightarrow> length gs \<le> k \<Longrightarrow>
   v6_loop k ell out (hex_groups gs) = Some (ell, out @ groups_bytes gs)"
proof (induction gs arbitrary: k out)
  case Nil
  then show ?case by simp
next
  case (Cons g gs)
  then obtain k' where k: "k = Suc k'" "length gs \<le> k'" by (cases k) auto
  show ?case
  proof (cases "gs = []")
    case True
    with Cons k show ?thesis by (simp add: v6_loop_last del: v6_loop.simps)
  next
    case False
    with Cons.prems obtain c t where "hex_groups gs = c # t" "is_hex c"
      using hex_groups_start [of gs "[]"] by auto
    then have "hex_groups gs \<noteq> []" "hd (hex_groups gs) \<noteq> CHR '':''"
      using colon_not_hex by auto
    with False Cons k show ?thesis
      by (simp add: v6_loop_group join_Cons del: v6_loop.simps)
  qed
qed

lemma v6_loop_groups_ellipsis:
  "gs \<noteq> [] \<Longrightarrow> \<forall>g\<in>set gs. g < 65536 \<Longrightarrow>
   v6_loop (length gs + k) None out (hex_groups gs @ ''::'' @ t) =
     (let out' = out @ groups_bytes gs in
      if t = [] then Some (Some (length out'), out')
      else v6_loop k (Some (length out')) out' t)"
proof (induction gs arbitrary: out)
  case Nil
  then show ?case by simp
next
  case (Cons g gs)
  show ?case
  proof (cases "gs = []")
    case True
    with Cons.prems v6_loop_ellipsis [of g k out t] show ?thesis
      by (simp add: Let_def del: v6_loop.simps)
  next
    case False
    with Cons.prems obtain c t' where "hex_groups gs @ ''::'' @ t = c # t'" "is_hex c"
      using hex_groups_start [of gs "''::'' @ t"] by auto
    then have "hex_groups gs @ ''::'' @ t \<noteq> []" "hd (hex_groups gs @ ''::'' @ t) \<noteq> CHR '':''"
      using colon_not_hex by auto
    with False Cons.prems
    have "v6_loop (Suc (length gs + k)) None out (hex_groups (g # gs) @ ''::'' @ t) =
          v6_loop (length gs + k) None (out @ group_bytes g) (hex_groups gs @ ''::'' @ t)"
      using v6_loop_group [of g "hex_groups gs @ ''::'' @ t" "length gs + k" None out]
      by (simp add: join_Cons del: v6_loop.simps)
    with False Cons show ?thesis by (simp add: Let_def del: v6_loop.simps)
  qed
qed

lemma unat_pair_less: "unat (a :: 8 word) * 256 + unat (b :: 8 word) < 65536"
  using unat_byte_less [of a] unat_byte_less [of b] by linarith

lemma groups_less: "g \<in> set (groups a) \<Longrightarrow> g < 65536"
  by (induction a rule: groups.induct) (auto simp: unat_pair_less)

lemma length_groups: "length (groups a) = length a div 2"
  by (induction a rule: groups.induct) auto

lemma group_bytes_pair: "group_bytes (unat a * 256 + unat b) = [a, b]"
proof -
  have "unat b < 256" by simp
  then have "(unat a * 256 + unat b) div 256 = unat a" "(unat a * 256 + unat b) mod 256 = unat b"
    by (simp_all only: div_mult_self3 mod_mult_self3 div_less mod_less)
  then show ?thesis by (simp add: group_bytes_def)
qed

lemma groups_bytes_groups: "even (length a) \<Longrightarrow> groups_bytes (groups a) = a"
  by (induction a rule: groups.induct) (auto simp: group_bytes_pair)

text \<open>The elided run is a run of zero groups.\<close>

definition zero_run :: "nat list \<Rightarrow> (nat \<times> nat) option \<Rightarrow> bool" where
  "zero_run gs r = (\<forall>i j. r = Some (i, j) \<longrightarrow>
     i + 2 \<le> j \<and> j \<le> length gs \<and> take (j - i) (drop i gs) = replicate (j - i) 0)"

lemma takeWhile_zero:
  "take (length (takeWhile (\<lambda>g. g = 0) gs)) gs = replicate (length (takeWhile (\<lambda>g. g = 0) gs)) (0::nat)"
  by (induction gs) auto

lemma zero_run_at:
  fixes gs :: "nat list"
  assumes "2 \<le> length (takeWhile (\<lambda>g. g = 0) (drop i gs))"
  shows "zero_run gs (Some (i, i + length (takeWhile (\<lambda>g. g = 0) (drop i gs))))"
proof -
  have "length (takeWhile (\<lambda>g. g = 0) (drop i gs)) \<le> length (drop i gs)"
    by (rule length_takeWhile_le)
  then show ?thesis using assms takeWhile_zero [of "drop i gs"] by (auto simp: zero_run_def)
qed

lemma longest_zero_run_zero: "zero_run gs (longest_zero_run gs)"
proof -
  have "zero_run gs r \<Longrightarrow> zero_run gs (foldl (\<lambda>best i.
        let l = length (takeWhile (\<lambda>g. g = 0) (drop i gs)) in
        case best of
          None \<Rightarrow> if 2 \<le> l then Some (i, i + l) else None
        | Some (a, b) \<Rightarrow> if 2 \<le> l \<and> b - a < l then Some (i, i + l) else Some (a, b)) r is)" for r "is"
    by (induction "is" arbitrary: r) (auto simp: Let_def zero_run_at split: option.split)
  moreover have "zero_run gs None" by (simp add: zero_run_def)
  ultimately show ?thesis unfolding longest_zero_run_def by blast
qed

lemma zero_run_split:
  assumes "longest_zero_run gs = Some (i, j)"
  shows "i + 2 \<le> j" and "j \<le> length gs" and "gs = take i gs @ replicate (j - i) 0 @ drop j gs"
proof -
  from longest_zero_run_zero [of gs] assms
  have z: "i + 2 \<le> j" "j \<le> length gs" "take (j - i) (drop i gs) = replicate (j - i) 0"
    by (auto simp: zero_run_def)
  then show "i + 2 \<le> j" "j \<le> length gs" by simp_all
  have "gs = take i gs @ take (j - i) (drop i gs) @ drop (j - i) (drop i gs)"
    by (simp only: append_take_drop_id)
  with z show "gs = take i gs @ replicate (j - i) 0 @ drop j gs" by simp
qed

lemma groups_bytes_zeros: "groups_bytes (replicate n 0) = replicate (2 * n) 0"
  by (induction n) (auto simp: group_bytes_def)

lemma parse_v6_string:
  assumes "length a = 16"
  shows "parse_v6 (v6_string a) = Some a"
proof -
  define gs where "gs = groups a"
  have len: "length gs = 8" using assms by (simp add: gs_def length_groups)
  have bytes: "groups_bytes gs = a" using assms by (simp add: gs_def groups_bytes_groups)
  have less: "\<forall>g\<in>set gs. g < 65536" by (simp add: gs_def groups_less)
  have sub: "\<forall>g\<in>set (take n gs). g < 65536" "\<forall>g\<in>set (drop n gs). g < 65536" for n
    using less by (auto dest: in_set_takeD in_set_dropD)
  have no_prefix: "\<not> has_prefix (hex_groups hs @ s) ''::''"
    if "hs \<noteq> []" "\<forall>g\<in>set hs. g < 65536" for hs s
    using hex_groups_start [OF that, of s] colon_not_hex(1) by (auto simp: has_prefix_ex)
  show ?thesis
  proof (cases "longest_zero_run gs")
    case None
    then have str: "v6_string a = hex_groups gs"
      by (simp add: v6_string_def gs_def [symmetric])
    have ne: "gs \<noteq> []" using len by auto
    have "v6_loop 8 None [] (hex_groups gs) = Some (None, groups_bytes gs)"
      using v6_loop_groups [OF ne less, of 8 None "[]"] len by simp
    then show ?thesis
      using no_prefix [OF ne less, of "[]"] bytes assms
      by (simp add: parse_v6_def str v6_finish_def)
  next
    case (Some r)
    obtain i j where "r = (i, j)" by fastforce
    with Some have run: "longest_zero_run gs = Some (i, j)" by simp
    note z = zero_run_split [OF run]
    have str: "v6_string a = hex_groups (take i gs) @ ''::'' @ hex_groups (drop j gs)"
      using run by (simp add: v6_string_def gs_def [symmetric])
    have ij: "i < 8" "j \<le> 8" "length (take i gs) = i" "length (drop j gs) = 8 - j"
      using z len by auto
    have fin: "v6_finish (Some (2 * i), groups_bytes (take i gs) @ groups_bytes (drop j gs)) = Some a"
    proof -
      have "a = groups_bytes (take i gs) @ replicate (2 * (j - i)) 0 @ groups_bytes (drop j gs)"
        using bytes z(3) by (metis groups_bytes_simps(3) groups_bytes_zeros)
      moreover have "16 - (2 * i + 2 * (8 - j)) = 2 * (j - i)" using z(1) ij by linarith
      ultimately show ?thesis using z(1) ij by (simp add: v6_finish_def)
    qed
    have empty: "hex_groups (drop j gs) = [] \<longleftrightarrow> drop j gs = []"
      using hex_groups_start [OF _ sub(2), of j "[]"] by (cases "drop j gs = []") auto
    have tail: "v6_loop k (Some (2 * i)) (groups_bytes (take i gs)) (hex_groups (drop j gs)) =
          Some (Some (2 * i), groups_bytes (take i gs) @ groups_bytes (drop j gs))"
      if "drop j gs \<noteq> []" "8 - j \<le> k" for k
      using v6_loop_groups [OF that(1) sub(2), of k] that(2) ij by simp
    show ?thesis
    proof (cases "i = 0")
      case True
      show ?thesis
      proof (cases "drop j gs = []")
        case nil: True
        then have "j = 8" using ij len by auto
        with z(3) True nil have "gs = replicate 8 0" by simp
        then have "a = replicate 16 0" using bytes groups_bytes_zeros [of 8] by simp
        moreover have "v6_string a = ''::''" using nil True str by simp
        ultimately show ?thesis by (simp add: parse_v6_def has_prefix_def)
      next
        case False
        with True str fin tail [OF False, of 8] empty show ?thesis
          by (simp add: parse_v6_def has_prefix_def del: drop_eq_Nil)
      qed
    next
      case False
      then have ne: "take i gs \<noteq> []" using len by auto
      have "8 = length (take i gs) + (8 - i)" using ij by simp
      then have "v6_loop 8 None [] (v6_string a) =
          Some (Some (2 * i), groups_bytes (take i gs) @ groups_bytes (drop j gs))"
        using v6_loop_groups_ellipsis [OF ne sub(1), of "8 - i" "[]" "hex_groups (drop j gs)"]
          empty tail [of "8 - i"] z(1) ij by (auto simp: str Let_def)
      then show ?thesis
        using no_prefix [OF ne sub(1)] fin by (simp add: parse_v6_def str)
    qed
  qed
qed

lemma set_v6_string: "set (v6_string a) \<subseteq> insert (CHR '':'') (Collect is_hex)"
proof -
  have "set (hex_groups gs) \<subseteq> insert (CHR '':'') (Collect is_hex)" if "set gs \<subseteq> set (groups a)" for gs
  proof -
    have "\<forall>g\<in>set gs. list_all is_hex (hex16 g)" using that groups_less by (blast intro: hex16_hex)
    with set_join [of "'':''" "map hex16 gs"] show ?thesis by (fastforce simp: list_all_iff)
  qed
  from this [OF set_take_subset] this [OF set_drop_subset] this [OF subset_refl] show ?thesis
    by (auto simp: v6_string_def Let_def split: option.split)
qed

lemma v6_string_has_colon: "length a = 16 \<Longrightarrow> CHR '':'' \<in> set (v6_string a)"
proof -
  assume a: "length a = 16"
  then have "length (groups a) = 8" by (simp add: length_groups)
  then obtain g h gs where "groups a = g # h # gs"
    by (cases "groups a" rule: remdups_adj.cases) auto
  then show ?thesis by (auto simp: v6_string_def Let_def split: option.split)
qed

lemma find_eq_first:
  assumes "x \<in> set xs" and "P x" and "\<And>y. y \<in> set xs \<Longrightarrow> y \<noteq> x \<Longrightarrow> \<not> P y"
  shows "find P xs = Some x"
proof -
  obtain ys zs where xs: "xs = ys @ x # zs" and "x \<notin> set ys"
    using assms(1) by (metis split_list_first)
  with assms(3) have "\<forall>y\<in>set ys. \<not> P y" by auto
  then have "find P ys = None" by (simp add: find_None_iff)
  then show ?thesis using assms(2) unfolding xs by (induction ys) (auto split: if_splits)
qed

lemma v4_string_has_dot:
  assumes "length a = 4"
  shows "CHR ''.'' \<in> set (v4_string a)"
proof -
  from assms obtain p q xs where "a = p # q # xs" by (cases a rule: remdups_adj.cases) auto
  then have "v4_string a = dec (unat p) @ ''.'' @ join ''.'' (map (\<lambda>b. dec (unat b)) (q # xs))"
    by (simp only: v4_string_def list.map join.simps)
  then show ?thesis by simp
qed

text \<open>What \<open>ParseIP\<close> makes of a printed address: the 16 byte form.\<close>

definition to16 :: "ip \<Rightarrow> ip" where
  "to16 a = (if length a = 4 then v4_mapped a else a)"

lemma parse_ip_v4: "length a = 4 \<Longrightarrow> parse_ip (v4_string a) = Some (v4_mapped a)"
proof -
  assume a: "length a = 4"
  have no: "CHR ''%'' \<notin> set (v4_string a)" "CHR '':'' \<notin> set (v4_string a)"
    using set_v4_string [of a] by (auto simp: is_digit_def)
  then have "find (\<lambda>c. c = CHR ''.'' \<or> c = CHR '':'') (v4_string a) = Some (CHR ''.'')"
    using v4_string_has_dot [OF a] by (intro find_eq_first) auto
  with no a show ?thesis by (simp add: parse_ip_def parse_v4_string)
qed

lemma parse_ip_v6: "length a = 16 \<Longrightarrow> parse_ip (v6_string a) = Some a"
proof -
  assume a: "length a = 16"
  have no: "CHR ''%'' \<notin> set (v6_string a)" "CHR ''.'' \<notin> set (v6_string a)"
    using set_v6_string [of a] colon_not_hex by auto
  then have "find (\<lambda>c. c = CHR ''.'' \<or> c = CHR '':'') (v6_string a) = Some (CHR '':'')"
    using v6_string_has_colon [OF a] by (intro find_eq_first) auto
  with no a show ?thesis by (simp add: parse_ip_def parse_v6_string)
qed

theorem parse_ip_string:
  assumes "length a = 4 \<or> length a = 16"
  shows "parse_ip (ip_string a) = Some (to16 a)"
proof (cases "to4 a")
  case None
  then have "length a = 16" using assms to4_v4 by fastforce
  with None show ?thesis by (auto simp: ip_string_def parse_ip_v6 to16_def)
next
  case (Some b)
  from assms have ip: "ip_string a = v4_string b" using Some by (auto simp: ip_string_def)
  have "to16 a = v4_mapped b"
    using assms Some to4_16 [OF Some] by (auto simp: to16_def to4_v4)
  with ip show ?thesis by (simp add: parse_ip_v4 to4_length [OF Some])
qed

lemma parse_v4_length: "parse_v4 s = Some f \<Longrightarrow> length f = 4"
  by (auto simp: parse_v4_def split: list.splits option.splits)

lemma v6_loop_cases:
  assumes "v6_loop (Suc k) ell out s = Some (ell', out')"
  shows "(ell' = ell \<and> length out' = length out + 4 \<and> length out' \<le> 16)
    \<or> (ell' = ell \<and> length out' = length out + 2)
    \<or> (ell' = Some (length out + 2) \<and> length out' = length out + 2)
    \<or> (\<exists>o2 t. length o2 = length out + 2 \<and> v6_loop k (Some (length out + 2)) o2 t = Some (ell', out'))
    \<or> (\<exists>o2 t. length o2 = length out + 2 \<and> v6_loop k ell o2 t = Some (ell', out'))"
  using assms parse_v4_length [of s]
  by (auto simp: Let_def group_bytes_def split: if_splits list.splits option.splits)

lemma v6_loop_bounds:
  "v6_loop k ell out s = Some (ell', out') \<Longrightarrow> length out + 2 * k \<le> 16 \<Longrightarrow>
   (\<And>e. ell = Some e \<Longrightarrow> e \<le> length out) \<Longrightarrow>
   length out' \<le> 16 \<and> (\<forall>e. ell' = Some e \<longrightarrow> e \<le> length out')"
proof (induction k arbitrary: ell out s)
  case 0
  then show ?case by (auto split: if_splits)
next
  case (Suc k)
  have ell: "ell = Some e \<Longrightarrow> e \<le> length out + 2" for e
    using Suc.prems(3) [of e] by simp
  from v6_loop_cases [OF Suc.prems(1)] show ?case
  proof (elim disjE exE conjE)
    fix o2 t
    assume "length o2 = length out + 2" "v6_loop k (Some (length out + 2)) o2 t = Some (ell', out')"
    then show ?thesis using Suc.IH [of "Some (length out + 2)" o2 t] Suc.prems(2) by simp
  next
    fix o2 t
    assume "length o2 = length out + 2" "v6_loop k ell o2 t = Some (ell', out')"
    then show ?thesis using Suc.IH [of ell o2 t] Suc.prems(2) ell by simp
  qed (use Suc.prems(2) ell Suc.prems(3) in \<open>force+\<close>)
qed

lemma v6_finish_length:
  "v6_finish (ell, out) = Some a \<Longrightarrow> length out \<le> 16 \<Longrightarrow>
   (\<forall>e. ell = Some e \<longrightarrow> e \<le> length out) \<Longrightarrow> length a = 16"
  by (auto simp: v6_finish_def split: if_splits option.splits)

lemma parse_v6_length:
  assumes "parse_v6 s = Some a"
  shows "length a = 16"
proof -
  have "length a = 16"
    if "Option.bind (v6_loop 8 ell [] t) v6_finish = Some a" "ell = None \<or> ell = Some 0" for ell t
  proof -
    from that(1) obtain ell' out' where l: "v6_loop 8 ell [] t = Some (ell', out')"
      and f: "v6_finish (ell', out') = Some a"
      by (auto simp: Option.bind_eq_Some_conv)
    from v6_loop_bounds [OF l] that(2) have "length out' \<le> 16" "\<forall>e. ell' = Some e \<longrightarrow> e \<le> length out'"
      by auto
    with f show ?thesis by (rule v6_finish_length)
  qed
  with assms show ?thesis by (auto simp: parse_v6_def split: if_splits)
qed

lemma parse_ip_length: "parse_ip s = Some a \<Longrightarrow> length a = 16"
  using parse_v4_length parse_v6_length
  by (auto simp: parse_ip_def v4_mapped_def split: if_splits option.splits)

lemma ip_string_chars:
  assumes "length a = 4 \<or> length a = 16" and "c \<in> set (ip_string a)"
  shows "is_hex c \<or> c = CHR ''.'' \<or> c = CHR '':''"
  using assms set_v4_string set_v6_string [of a]
  by (auto simp: ip_string_def is_hex_def hex_val_def split: option.splits if_splits)

lemma hex_graphic: "is_hex c \<Longrightarrow> is_graphic c"
  by (auto simp: is_hex_def hex_val_def is_digit_def is_graphic_def split: if_splits)

section \<open>Masks and prefixes\<close>

text \<open>\<open>net.CIDRMask\<close>; \<open>nil\<close> is \<open>None\<close>.\<close>

definition mask_byte :: "nat \<Rightarrow> 8 word" where
  "mask_byte n = (if 8 \<le> n then 255 else 255 - of_nat (255 div 2 ^ n))"

definition cidr_mask :: "int \<Rightarrow> nat \<Rightarrow> bytes option" where
  "cidr_mask ones bits =
     (if (bits \<noteq> 32 \<and> bits \<noteq> 128) \<or> ones < 0 \<or> int bits < ones then None
      else Some (map (\<lambda>i. mask_byte (nat ones - 8 * i)) [0..<bits div 8]))"

text \<open>\<open>IP.Mask\<close> for masks of the length of the address, and \<open>IPNet.Contains\<close>.\<close>

definition and_mask :: "bytes \<Rightarrow> bytes \<Rightarrow> bytes" where
  "and_mask a m = map2 (and) a m"

record ipnet =
  net_ip :: ip
  net_mask :: bytes

text \<open>
  \<open>IPNet.Contains\<close>: the network and its mask are brought to the same length, and the
  address to its 4 byte form when it has one; \<open>networkNumberAndMask\<close> gives up on other lengths.
\<close>

definition network_number :: "ipnet \<Rightarrow> (ip \<times> bytes) option" where
  "network_number n =
     (let base = (case to4 (net_ip n) of
                    Some v4 \<Rightarrow> Some v4
                  | None \<Rightarrow> if length (net_ip n) = 16 then Some (net_ip n) else None)
      in case base of
           None \<Rightarrow> None
         | Some b \<Rightarrow>
             if length (net_mask n) = 4 then
               (if length b = 4 then Some (b, net_mask n) else None)
             else if length (net_mask n) = 16 then
               Some (b, if length b = 4 then drop 12 (net_mask n) else net_mask n)
             else None)"

definition net_contains :: "ipnet \<Rightarrow> ip \<Rightarrow> bool" where
  "net_contains n x =
     (case network_number n of
        None \<Rightarrow> x = []   \<comment> \<open>the lengths are compared first; the nil network has length 0\<close>
      | Some (nn, m) \<Rightarrow>
          (let y = (case to4 x of Some v4 \<Rightarrow> v4 | None \<Rightarrow> x) in
           length y = length nn \<and> and_mask nn m = and_mask y m))"

text \<open>\<open>net.ParseCIDR\<close>: the address and its network.\<close>

definition parse_cidr :: "string \<Rightarrow> (ip \<times> ipnet) option" where
  "parse_cidr s =
     (case index_byte (CHR ''/'') s of
        None \<Rightarrow> None
      | Some i \<Rightarrow>
          (case parse_ip (take i s) of
             None \<Rightarrow> None
           | Some a16 \<Rightarrow>
               (let is4 = CHR '':'' \<notin> set (take i s);
                    iplen = (if is4 then 4 else 16);
                    m = drop (Suc i) s
                in if m = [] \<or> \<not> list_all is_digit m then None
                   else (case digits_val 16777214 0 m of
                           Inl _ \<Rightarrow> None
                         | Inr n \<Rightarrow>
                             if 8 * iplen < n then None
                             else (case cidr_mask (int n) (8 * iplen) of
                                     None \<Rightarrow> None
                                   | Some mk \<Rightarrow>
                                       (let a = (if is4 then drop 12 a16 else a16) in
                                        Some (a16, \<lparr> net_ip = and_mask a mk, net_mask = mk \<rparr>)))))))"

lemma cidr_mask_length: "cidr_mask n bits = Some m \<Longrightarrow> length m = bits div 8"
  by (auto simp: cidr_mask_def split: if_splits)

lemma and_mask_length: "length (and_mask a m) = min (length a) (length m)"
  by (simp add: and_mask_def)

lemma and_mask_idem: "and_mask (and_mask a m) m = and_mask a m"
  by (induction a m rule: list_induct2') (auto simp: and_mask_def and.assoc)

end
