(* ===== verification/ConfTypes.thy ===== *)
theory ConfTypes
  imports GoNet
begin

text \<open>
  The configuration data model, \<open>upstream-conf/config.go\<close>: prefixes, endpoints, keys, the
  interface and peer sections and the operations on them. Field names are the ones of the
  Go structs. A \<open>Key\<close> is its 32 bytes; \<open>IPackets\<close> is a map from the lower-case key.

  Errors of the package are the values of \<open>conf_error\<close>: a \<open>ParseError\<close> with its reason (the
  localised text is a constructor) and offender, a \<open>strconv\<close> error, an end of input, or a
  run-time panic, which the Go code does not catch.
\<close>

datatype panic = NilDeref | SliceBounds | IndexRange

datatype parse_why =
    InvalidIP | InvalidPrefixLen | MissingPort | InvalidHost | BracketsNeedV6
  | InvalidMTU | InvalidPort | InvalidNamed string | InvalidKeyText | KeyNot32Bytes
  | NumberNot64Bit | TwoCommas | BadTunnelName | NotInSection | MissingEquals | KeyNeedsValue
  | BadInterfaceKey | BadPeerKey | NoPrivateKey | NoPublicKey
  | UapiErrno | BadUapiInterfaceKey | BadUapiPeerKey | BadProtocolVersion

datatype conf_error =
    ErrParse parse_why string
  | ErrNum num_error
  | ErrEmptyJunk string string
  | ErrEOF
  | Panic panic

record ipcidr =
  IP :: ip
  Cidr :: "8 word"

record endpoint =
  Host :: string
  Port :: "16 word"

type_synonym key = bytes

definition KeyLength :: nat where "KeyLength = 32"

definition zero_key :: key where "zero_key = replicate 32 0"

record interface =
  PrivateKey :: key
  Addresses :: "ipcidr list"
  ListenPort :: "16 word"
  MTU :: "16 word"
  DNS :: "ip list"
  DNSSearch :: "string list"
  PreUp :: string
  PostUp :: string
  PreDown :: string
  PostDown :: string
  TableOff :: bool
  PinEndpointVia :: string
  JunkPacketCount :: "16 word"
  JunkPacketMinSize :: "16 word"
  JunkPacketMaxSize :: "16 word"
  InitPacketJunkSize :: "16 word"
  ResponsePacketJunkSize :: "16 word"
  CookieReplyPacketJunkSize :: "16 word"
  TransportPacketJunkSize :: "16 word"
  InitPacketMagicHeader :: string
  ResponsePacketMagicHeader :: string
  UnderloadPacketMagicHeader :: string
  TransportPacketMagicHeader :: string
  IPackets :: "string \<rightharpoonup> string"
  HeaderProtectionKey :: key
  ContentPaddingAddition :: string
  RekeyAfterTime :: string
  RekeyTimeout :: string
  RejectAfterTime :: string
  KeepaliveTimeout :: string
  MaxHandshakeAttempts :: string
  RandomTrailers :: string
  DisableCookies :: string

record peer =
  PublicKey :: key
  PresharedKey :: key
  AllowedIPs :: "ipcidr list"
  Endpoint :: endpoint
  PersistentKeepalive :: string
  RxBytes :: "64 word"
  TxBytes :: "64 word"
  LastHandshakeTime :: "64 word"

record config =
  Name :: string
  Interface :: interface
  Peers :: "peer list"

text \<open>Go's zero values.\<close>

definition zero_endpoint :: endpoint where
  "zero_endpoint = \<lparr> Host = [], Port = 0 \<rparr>"

definition zero_interface :: interface where
  "zero_interface =
     \<lparr> PrivateKey = zero_key, Addresses = [], ListenPort = 0, MTU = 0, DNS = [], DNSSearch = [],
       PreUp = [], PostUp = [], PreDown = [], PostDown = [], TableOff = False, PinEndpointVia = [],
       JunkPacketCount = 0, JunkPacketMinSize = 0, JunkPacketMaxSize = 0, InitPacketJunkSize = 0,
       ResponsePacketJunkSize = 0, CookieReplyPacketJunkSize = 0, TransportPacketJunkSize = 0,
       InitPacketMagicHeader = [], ResponsePacketMagicHeader = [],
       UnderloadPacketMagicHeader = [], TransportPacketMagicHeader = [], IPackets = Map.empty,
       HeaderProtectionKey = zero_key, ContentPaddingAddition = [], RekeyAfterTime = [],
       RekeyTimeout = [], RejectAfterTime = [], KeepaliveTimeout = [], MaxHandshakeAttempts = [],
       RandomTrailers = [], DisableCookies = [] \<rparr>"

definition zero_peer :: peer where
  "zero_peer =
     \<lparr> PublicKey = zero_key, PresharedKey = zero_key, AllowedIPs = [], Endpoint = zero_endpoint,
       PersistentKeepalive = [], RxBytes = 0, TxBytes = 0, LastHandshakeTime = 0 \<rparr>"

section \<open>Prefixes\<close>

definition ipcidr_string :: "ipcidr \<Rightarrow> string" where
  "ipcidr_string r = ip_string (IP r) @ ''/'' @ dec (unat (Cidr r))"

definition ipcidr_bits :: "ipcidr \<Rightarrow> nat" where
  "ipcidr_bits r = (if to4 (IP r) \<noteq> None then 32 else 128)"

definition ipcidr_ipnet :: "ipcidr \<Rightarrow> ipnet" where
  "ipcidr_ipnet r =
     \<lparr> net_ip = IP r,
       net_mask = (case cidr_mask (uint (Cidr r)) (ipcidr_bits r) of None \<Rightarrow> [] | Some m \<Rightarrow> m) \<rparr>"

text \<open>\<open>MaskSelf\<close> writes through the slice; a \<open>nil\<close> mask or a short address is an index panic.\<close>

definition mask_self :: "ipcidr \<Rightarrow> conf_error + ipcidr" where
  "mask_self r =
     (let n = ipcidr_bits r div 8 in
      case cidr_mask (uint (Cidr r)) (ipcidr_bits r) of
        None \<Rightarrow> Inl (Panic IndexRange)
      | Some m \<Rightarrow>
          if length (IP r) < n then Inl (Panic IndexRange)
          else Inr (r\<lparr>IP := and_mask (take n (IP r)) m @ drop n (IP r)\<rparr>))"

text \<open>
  A prefix as the parser builds it: four bytes, or sixteen that are not an IPv4 address in
  disguise, and a length that fits.
\<close>

definition wf_ipcidr :: "ipcidr \<Rightarrow> bool" where
  "wf_ipcidr r \<longleftrightarrow>
     (length (IP r) = 4 \<and> unat (Cidr r) \<le> 32)
     \<or> (length (IP r) = 16 \<and> to4 (IP r) = None \<and> unat (Cidr r) \<le> 128)"

lemma wf_ipcidr_bits: "wf_ipcidr r \<Longrightarrow> ipcidr_bits r = 8 * length (IP r)"
  by (auto simp: wf_ipcidr_def ipcidr_bits_def to4_v4)

lemma wf_ipcidr_cidr: "wf_ipcidr r \<Longrightarrow> unat (Cidr r) \<le> ipcidr_bits r"
  by (auto simp: wf_ipcidr_def ipcidr_bits_def to4_v4)

lemma wf_ipcidr_length: "wf_ipcidr r \<Longrightarrow> length (IP r) = 4 \<or> length (IP r) = 16"
  by (auto simp: wf_ipcidr_def)

definition prefix_mask :: "ipcidr \<Rightarrow> bytes" where
  "prefix_mask r = map (\<lambda>i. mask_byte (unat (Cidr r) - 8 * i)) [0..<length (IP r)]"

lemma prefix_mask_length [simp]: "length (prefix_mask r) = length (IP r)"
  by (simp add: prefix_mask_def)

lemma cidr_mask_Some:
  "bits = 32 \<or> bits = 128 \<Longrightarrow> n \<le> bits \<Longrightarrow>
   cidr_mask (int n) bits = Some (map (\<lambda>i. mask_byte (n - 8 * i)) [0..<bits div 8])"
  unfolding cidr_mask_def by (simp del: upt_rec_numeral)

lemma wf_cidr_mask:
  assumes "wf_ipcidr r"
  shows "cidr_mask (uint (Cidr r)) (ipcidr_bits r) = Some (prefix_mask r)"
proof -
  have "ipcidr_bits r = 32 \<or> ipcidr_bits r = 128" by (simp add: ipcidr_bits_def)
  moreover have "ipcidr_bits r div 8 = length (IP r)" using wf_ipcidr_bits [OF assms] by simp
  ultimately show ?thesis
    using cidr_mask_Some [of "ipcidr_bits r" "unat (Cidr r)"] wf_ipcidr_cidr [OF assms]
    by (simp only: prefix_mask_def uint_nat)
qed

text \<open>On a well-formed prefix \<open>MaskSelf\<close> never panics and clears the host part.\<close>

definition masked :: "ipcidr \<Rightarrow> ipcidr" where
  "masked r = r\<lparr>IP := and_mask (IP r) (prefix_mask r)\<rparr>"

lemma mask_self_wf: "wf_ipcidr r \<Longrightarrow> mask_self r = Inr (masked r)"
proof -
  assume wf: "wf_ipcidr r"
  then have "ipcidr_bits r div 8 = length (IP r)" by (simp add: wf_ipcidr_bits)
  then show ?thesis by (simp add: mask_self_def wf_cidr_mask [OF wf] masked_def)
qed

lemma masked_Cidr [simp]: "Cidr (masked r) = Cidr r"
  by (simp add: masked_def)

lemma masked_length [simp]: "length (IP (masked r)) = length (IP r)"
  by (simp add: masked_def and_mask_length)

lemma masked_idem: "masked (masked r) = masked r"
proof -
  have "prefix_mask (masked r) = prefix_mask r" by (simp add: prefix_mask_def)
  then show ?thesis by (simp add: masked_def and_mask_idem)
qed

section \<open>Endpoints and keys\<close>

definition endpoint_string :: "endpoint \<Rightarrow> string" where
  "endpoint_string e =
     (case index_byte (CHR '':'') (Host e) of
        Some i \<Rightarrow> if 0 < i then ''['' @ Host e @ '']:'' @ dec (unat (Port e))
                  else Host e @ '':'' @ dec (unat (Port e))
      | None \<Rightarrow> Host e @ '':'' @ dec (unat (Port e)))"

definition endpoint_is_empty :: "endpoint \<Rightarrow> bool" where
  "endpoint_is_empty e \<longleftrightarrow> Host e = []"

definition key_string :: "key \<Rightarrow> string" where "key_string k = b64_encode k"

definition key_hex_string :: "key \<Rightarrow> string" where "key_hex_string k = hex_encode k"

definition key_is_zero :: "key \<Rightarrow> bool" where "key_is_zero k \<longleftrightarrow> k = zero_key"

text \<open>\<open>NewPrivateKey\<close>: the random bytes are the argument, an error of the source is \<open>None\<close>.\<close>

definition new_private_key :: "key option \<Rightarrow> key option" where
  "new_private_key rnd =
     (case rnd of
        None \<Rightarrow> None
      | Some k \<Rightarrow>
          (let k1 = k[0 := and (k ! 0) 248] in
           Some (k1[31 := or (and (k1 ! 31) 127) 64])))"

section \<open>Age of a handshake\<close>

datatype handshake_age =
    AgeNow
  | AgeClockBackward
  | AgeAgo "(string \<times> nat) list"

definition handshake_is_empty :: "64 word \<Rightarrow> bool" where
  "handshake_is_empty t \<longleftrightarrow> t = 0"

text \<open>\<open>HandshakeTime.String\<close> at the Unix time \<open>now\<close>: the units with a positive count.\<close>

definition handshake_string :: "int \<Rightarrow> 64 word \<Rightarrow> handshake_age" where
  "handshake_string now t =
     (let u = sint t div 1000000000 in
      if u = now then AgeNow
      else if now < u then AgeClockBackward
      else
        (let left = nat (now - u);
             years = left div (365 * 24 * 60 * 60);
             left1 = left mod (365 * 24 * 60 * 60);
             days = left1 div (24 * 60 * 60);
             left2 = left1 mod (24 * 60 * 60);
             hours = left2 div (60 * 60);
             left3 = left2 mod (60 * 60);
             minutes = left3 div 60;
             seconds = left3 mod 60
         in AgeAgo (filter (\<lambda>p. 0 < snd p)
              [(''year'', years), (''day'', days), (''hour'', hours), (''minute'', minutes),
               (''second'', seconds)])))"

section \<open>Overlap of two configurations\<close>

type_synonym route = "ip \<times> 8 word"

definition full_route :: "ipcidr \<Rightarrow> route" where
  "full_route a = (IP a, of_nat (length (IP a) * 8))"

definition own_route :: "ipcidr \<Rightarrow> route" where "own_route a = (IP a, Cidr a)"

text \<open>The first half of \<open>IntersectsWith\<close>: every entry is masked in place and recorded.\<close>

fun collect_addresses :: "ipcidr list \<Rightarrow> conf_error + (route set \<times> ipcidr list)" where
  "collect_addresses [] = Inr ({}, [])"
| "collect_addresses (a # as) =
     rbind (mask_self a) (\<lambda>a'.
     rbind (collect_addresses as) (\<lambda>(rs, as').
       Inr (insert (full_route a) (insert (own_route a') rs), a' # as')))"

fun collect_allowed :: "ipcidr list \<Rightarrow> conf_error + (route set \<times> ipcidr list)" where
  "collect_allowed [] = Inr ({}, [])"
| "collect_allowed (a # as) =
     rbind (mask_self a) (\<lambda>a'.
     rbind (collect_allowed as) (\<lambda>(rs, as'). Inr (insert (own_route a') rs, a' # as')))"

fun collect_peers :: "peer list \<Rightarrow> conf_error + (route set \<times> peer list)" where
  "collect_peers [] = Inr ({}, [])"
| "collect_peers (p # ps) =
     rbind (collect_allowed (AllowedIPs p)) (\<lambda>(rs, as').
     rbind (collect_peers ps) (\<lambda>(rs', ps'). Inr (rs \<union> rs', p\<lparr>AllowedIPs := as'\<rparr> # ps')))"

text \<open>The second half looks each entry of the other configuration up, and stops at a hit.\<close>

fun probe_addresses :: "route set \<Rightarrow> ipcidr list \<Rightarrow> conf_error + (bool \<times> ipcidr list)" where
  "probe_addresses rs [] = Inr (False, [])"
| "probe_addresses rs (a # as) =
     (if full_route a \<in> rs then Inr (True, a # as)
      else rbind (mask_self a) (\<lambda>a'.
        if own_route a' \<in> rs then Inr (True, a' # as)
        else rbind (probe_addresses rs as) (\<lambda>(b, as'). Inr (b, a' # as'))))"

fun probe_allowed :: "route set \<Rightarrow> ipcidr list \<Rightarrow> conf_error + (bool \<times> ipcidr list)" where
  "probe_allowed rs [] = Inr (False, [])"
| "probe_allowed rs (a # as) =
     rbind (mask_self a) (\<lambda>a'.
       if own_route a' \<in> rs then Inr (True, a' # as)
       else rbind (probe_allowed rs as) (\<lambda>(b, as'). Inr (b, a' # as')))"

fun probe_peers :: "route set \<Rightarrow> peer list \<Rightarrow> conf_error + (bool \<times> peer list)" where
  "probe_peers rs [] = Inr (False, [])"
| "probe_peers rs (p # ps) =
     rbind (probe_allowed rs (AllowedIPs p)) (\<lambda>(b, as').
       if b then Inr (True, p\<lparr>AllowedIPs := as'\<rparr> # ps)
       else rbind (probe_peers rs ps) (\<lambda>(b', ps'). Inr (b', p\<lparr>AllowedIPs := as'\<rparr> # ps')))"

text \<open>
  \<open>IntersectsWith\<close> answers, and leaves both configurations masked: the address slices are
  written through. The two configurations share no slice.
\<close>

definition intersects_with :: "config \<Rightarrow> config \<Rightarrow> conf_error + (bool \<times> config \<times> config)" where
  "intersects_with conf other =
     rbind (collect_addresses (Addresses (Interface conf))) (\<lambda>(rs1, as1).
     rbind (collect_peers (Peers conf)) (\<lambda>(rs2, ps1).
       let conf' = conf\<lparr>Interface := (Interface conf)\<lparr>Addresses := as1\<rparr>, Peers := ps1\<rparr>;
           rs = rs1 \<union> rs2
       in rbind (probe_addresses rs (Addresses (Interface other))) (\<lambda>(b, as2).
            let other1 = other\<lparr>Interface := (Interface other)\<lparr>Addresses := as2\<rparr>\<rparr> in
            if b then Inr (True, conf', other1)
            else rbind (probe_peers rs (Peers other)) (\<lambda>(b', ps2).
                   Inr (b', conf', other1\<lparr>Peers := ps2\<rparr>)))))"

section \<open>Duplicates and redaction\<close>

text \<open>
  The loop over the peers works on copies: it compacts the shared array of \<open>AllowedIPs\<close> but
  the peer keeps its old length, so the tail of the array stays visible.
\<close>

definition dedup_peer :: "peer \<Rightarrow> peer" where
  "dedup_peer p =
     (let d = first_by ipcidr_string {} (AllowedIPs p) in
      p\<lparr>AllowedIPs := d @ drop (length d) (AllowedIPs p)\<rparr>)"

definition deduplicate_network_entries :: "config \<Rightarrow> config" where
  "deduplicate_network_entries c =
     c\<lparr>Interface := (Interface c)
          \<lparr>Addresses := first_by ipcidr_string {} (Addresses (Interface c)),
           DNS := first_by ip_string {} (DNS (Interface c))\<rparr>,
       Peers := map dedup_peer (Peers c)\<rparr>"

definition redact :: "config \<Rightarrow> config" where
  "redact c =
     c\<lparr>Interface := (Interface c)\<lparr>PrivateKey := zero_key\<rparr>,
       Peers := map (\<lambda>p. p\<lparr>PublicKey := zero_key, PresharedKey := zero_key\<rparr>) (Peers c)\<rparr>"

section \<open>Facts about the operations\<close>

definition wf_ips :: "config \<Rightarrow> bool" where
  "wf_ips c \<longleftrightarrow> list_all wf_ipcidr (Addresses (Interface c))
     \<and> list_all (\<lambda>p. list_all wf_ipcidr (AllowedIPs p)) (Peers c)"

text \<open>The routes a configuration claims: its addresses, and its masked prefixes.\<close>

definition address_routes :: "ipcidr list \<Rightarrow> route set" where
  "address_routes as = full_route ` set as \<union> (own_route \<circ> masked) ` set as"

definition peer_routes :: "peer list \<Rightarrow> route set" where
  "peer_routes ps = (\<Union>p\<in>set ps. (own_route \<circ> masked) ` set (AllowedIPs p))"

definition config_routes :: "config \<Rightarrow> route set" where
  "config_routes c = address_routes (Addresses (Interface c)) \<union> peer_routes (Peers c)"

definition mask_peer :: "peer \<Rightarrow> peer" where
  "mask_peer p = p\<lparr>AllowedIPs := map masked (AllowedIPs p)\<rparr>"

lemma collect_addresses_wf:
  "list_all wf_ipcidr as \<Longrightarrow> collect_addresses as = Inr (address_routes as, map masked as)"
  by (induction as) (auto simp: mask_self_wf address_routes_def)

lemma collect_allowed_wf:
  "list_all wf_ipcidr as \<Longrightarrow>
   collect_allowed as = Inr ((own_route \<circ> masked) ` set as, map masked as)"
  by (induction as) (auto simp: mask_self_wf)

lemma collect_peers_wf:
  "list_all (\<lambda>p. list_all wf_ipcidr (AllowedIPs p)) ps \<Longrightarrow>
   collect_peers ps = Inr (peer_routes ps, map mask_peer ps)"
  by (induction ps) (auto simp: collect_allowed_wf peer_routes_def mask_peer_def)

lemma probe_addresses_wf:
  "list_all wf_ipcidr as \<Longrightarrow>
   \<exists>as'. probe_addresses rs as = Inr (address_routes as \<inter> rs \<noteq> {}, as')"
  by (induction as) (auto simp: mask_self_wf address_routes_def)

lemma probe_allowed_wf:
  "list_all wf_ipcidr as \<Longrightarrow>
   \<exists>as'. probe_allowed rs as = Inr ((own_route \<circ> masked) ` set as \<inter> rs \<noteq> {}, as')"
  by (induction as) (auto simp: mask_self_wf)

lemma probe_peers_wf:
  "list_all (\<lambda>p. list_all wf_ipcidr (AllowedIPs p)) ps \<Longrightarrow>
   \<exists>ps'. probe_peers rs ps = Inr (peer_routes ps \<inter> rs \<noteq> {}, ps')"
proof (induction ps)
  case Nil
  then show ?case by (simp add: peer_routes_def)
next
  case (Cons p ps)
  then obtain as' where as': "probe_allowed rs (AllowedIPs p) =
      Inr ((own_route \<circ> masked) ` set (AllowedIPs p) \<inter> rs \<noteq> {}, as')"
    using probe_allowed_wf [of "AllowedIPs p" rs] by auto
  from Cons obtain ps' where ps': "probe_peers rs ps = Inr (peer_routes ps \<inter> rs \<noteq> {}, ps')"
    by auto
  have "peer_routes (p # ps) = (own_route \<circ> masked) ` set (AllowedIPs p) \<union> peer_routes ps"
    by (simp add: peer_routes_def)
  then show ?case by (auto simp: as' ps')
qed

lemma intersects_with_wf:
  assumes "wf_ips c" and "wf_ips d"
  shows "\<exists>c' d'. intersects_with c d = Inr (config_routes c \<inter> config_routes d \<noteq> {}, c', d')"
proof -
  let ?rs = "config_routes c"
  from assms have wf: "list_all wf_ipcidr (Addresses (Interface c))"
    "list_all (\<lambda>p. list_all wf_ipcidr (AllowedIPs p)) (Peers c)"
    "list_all wf_ipcidr (Addresses (Interface d))"
    "list_all (\<lambda>p. list_all wf_ipcidr (AllowedIPs p)) (Peers d)"
    by (simp_all add: wf_ips_def)
  obtain as where as: "probe_addresses ?rs (Addresses (Interface d)) =
      Inr (address_routes (Addresses (Interface d)) \<inter> ?rs \<noteq> {}, as)"
    using probe_addresses_wf [OF wf(3)] by blast
  obtain ps where ps: "probe_peers ?rs (Peers d) = Inr (peer_routes (Peers d) \<inter> ?rs \<noteq> {}, ps)"
    using probe_peers_wf [OF wf(4)] by blast
  have parts: "(config_routes c \<inter> config_routes d \<noteq> {}) \<longleftrightarrow>
      address_routes (Addresses (Interface d)) \<inter> ?rs \<noteq> {} \<or> peer_routes (Peers d) \<inter> ?rs \<noteq> {}"
    by (auto simp: config_routes_def [of d])
  show ?thesis
    unfolding intersects_with_def
    by (simp add: collect_addresses_wf [OF wf(1)] collect_peers_wf [OF wf(2)]
        config_routes_def [of c, symmetric] as ps Let_def parts del: split_paired_Ex)
qed

lemma dedup_peer_length: "length (AllowedIPs (dedup_peer p)) = length (AllowedIPs p)"
  using first_by_length [of ipcidr_string "{}" "AllowedIPs p"] by (simp add: dedup_peer_def Let_def)

end
