(* ===== verification/TunnelName.thy ===== *)
theory TunnelName
  imports GoStrconv "HOL-Library.Char_ord" "HOL-Library.List_Lexorder"
begin

text \<open>
  Tunnel names, \<open>upstream-conf/name.go\<close>: which names are accepted, and the natural order in
  which they are listed. The comparison loop is shown to be the lexicographic order of the
  token lists over the linear order of the tokens, hence a strict order on names.
\<close>

section \<open>Valid names\<close>

definition reservedNames :: "string list" where
  "reservedNames =
     [''CON'', ''PRN'', ''AUX'', ''NUL'',
      ''COM1'', ''COM2'', ''COM3'', ''COM4'', ''COM5'', ''COM6'', ''COM7'', ''COM8'', ''COM9'',
      ''LPT1'', ''LPT2'', ''LPT3'', ''LPT4'', ''LPT5'', ''LPT6'', ''LPT7'', ''LPT8'', ''LPT9'']"

definition serviceNameForbidden :: string where "serviceNameForbidden = ''$''"

definition netshellDllForbidden :: string where
  "netshellDllForbidden = [CHR 0x5C, CHR ''/'', CHR '':'', CHR ''*'', CHR ''?'', CHR 0x22, CHR ''<'',
     CHR ''>'', CHR ''|'', CHR 0x09]"

definition specialChars :: string where
  "specialChars = [CHR ''/'', CHR 0x5C, CHR ''<'', CHR ''>'', CHR '':'', CHR 0x22, CHR ''|'', CHR ''?'',
     CHR ''*''] @ map char_of [1..<32::nat] @ [CHR 0x00]"

definition isReserved :: "unicode \<Rightarrow> string \<Rightarrow> bool" where
  "isReserved u name = (name \<noteq> [] \<and> list_ex (\<lambda>r. equal_fold u name r) reservedNames)"

definition hasSpecialChars :: "string \<Rightarrow> bool" where
  "hasSpecialChars name \<longleftrightarrow>
     contains_any name specialChars \<or> contains_any name netshellDllForbidden
     \<or> contains_any name serviceNameForbidden"

text \<open>The regular expression \<open>^[a-zA-Z0-9_=+.-]{1,32}$\<close>.\<close>

definition name_char :: "char \<Rightarrow> bool" where
  "name_char c \<longleftrightarrow>
     (97 \<le> byte c \<and> byte c \<le> 122) \<or> (65 \<le> byte c \<and> byte c \<le> 90) \<or> is_digit c
     \<or> c = CHR ''_'' \<or> c = CHR ''='' \<or> c = CHR ''+'' \<or> c = CHR ''.'' \<or> c = CHR ''-''"

definition allowedNameFormat :: "string \<Rightarrow> bool" where
  "allowedNameFormat s \<longleftrightarrow> 1 \<le> length s \<and> length s \<le> 32 \<and> list_all name_char s"

definition TunnelNameIsValid :: "unicode \<Rightarrow> string \<Rightarrow> bool" where
  "TunnelNameIsValid u name =
     (if isReserved u name \<or> hasSpecialChars name then False else allowedNameFormat name)"

lemma name_char_graphic: "name_char c \<Longrightarrow> is_graphic c"
  by (auto simp: name_char_def is_graphic_def is_digit_def)

lemma valid_name_chars: "TunnelNameIsValid u name \<Longrightarrow> list_all name_char name"
  by (simp add: TunnelNameIsValid_def allowedNameFormat_def split: if_splits)

lemma valid_name_length: "TunnelNameIsValid u name \<Longrightarrow> 1 \<le> length name \<and> length name \<le> 32"
  by (simp add: TunnelNameIsValid_def allowedNameFormat_def split: if_splits)

lemma valid_name_no_path:
  assumes "TunnelNameIsValid u name"
  shows "CHR ''/'' \<notin> set name" and "CHR 0x5C \<notin> set name" and "CHR '':'' \<notin> set name"
    and "CHR ''$'' \<notin> set name"
  using valid_name_chars [OF assms] by (auto simp: list_all_iff name_char_def is_digit_def)

section \<open>Natural order\<close>

record natural_sort_token =
  maybeString :: string
  maybeNumber :: int

text \<open>\<open>strings.Fields\<close>: the maximal parts without white space.\<close>

fun until_space :: "string \<Rightarrow> string" where
  "until_space [] = []"
| "until_space (c # s) = (if starts_with_any go_spaces (c # s) then [] else c # until_space s)"

lemma until_space_take: "until_space s = take (length (until_space s)) s"
  by (induction s) auto

lemma trim_left_space_shorter: "length (trim_left_space s) \<le> length s"
  using cut_front_suffix [of s go_spaces] unfolding trim_left_space_def
  by (metis length_append le_add2)

function fields :: "string \<Rightarrow> string list" where
  "fields s =
     (let t = trim_left_space s in
      if t = [] then [] else until_space t # fields (drop (length (until_space t)) t))"
  by pat_completeness auto
termination
proof (relation "measure length", simp)
  fix s t :: string
  assume t: "t = trim_left_space s" "t \<noteq> []"
  then obtain c t' where ct: "t = c # t'" by (meson neq_Nil_conv)
  have "\<not> starts_with_any go_spaces t"
    unfolding t trim_left_space_def by (rule cut_front_result)
  then have "0 < length (until_space t)" by (simp add: ct)
  moreover have "length t \<le> length s" unfolding t(1) by (rule trim_left_space_shorter)
  ultimately show "(drop (length (until_space t)) t, s) \<in> measure length"
    using t(2) by (simp only: in_measure length_drop length_greater_0_conv [symmetric])
qed

declare fields.simps [simp del]

text \<open>The matches of \<open>\d+|\D+\<close>: the maximal runs of digits and of other bytes.\<close>

fun digit_runs :: "string \<Rightarrow> string list" where
  "digit_runs [] = []"
| "digit_runs (c # s) =
     (case digit_runs s of
        [] \<Rightarrow> [[c]]
      | r # rs \<Rightarrow>
          if r \<noteq> [] \<and> is_digit (hd r) = is_digit c then (c # r) # rs else [c] # r # rs)"

definition sort_token :: "string \<Rightarrow> natural_sort_token" where
  "sort_token s =
     (case atoi s of
        Inr n \<Rightarrow> \<lparr> maybeString = [], maybeNumber = n \<rparr>
      | Inl _ \<Rightarrow> \<lparr> maybeString = s, maybeNumber = 0 \<rparr>)"

definition newNaturalSortString :: "unicode \<Rightarrow> string \<Rightarrow> natural_sort_token list" where
  "newNaturalSortString u s =
     map sort_token (digit_runs (to_lower u (join '' '' (fields s))))"

definition token_cmp :: "natural_sort_token \<Rightarrow> natural_sort_token \<Rightarrow> int" where
  "token_cmp f1 f2 =
     (if maybeString f1 = [] then
        (if maybeString f2 \<noteq> [] \<or> maybeNumber f1 < maybeNumber f2 then - 1
         else if maybeNumber f1 > maybeNumber f2 then 1
         else 0)
      else if maybeString f2 = [] \<or> maybeString f1 > maybeString f2 then 1
      else if maybeString f1 < maybeString f2 then - 1
      else 0)"

text \<open>The loop over the tokens of the second name.\<close>

fun tokens_less :: "natural_sort_token list \<Rightarrow> natural_sort_token list \<Rightarrow> bool" where
  "tokens_less as [] = False"
| "tokens_less [] (t # ts) = True"
| "tokens_less (a # as) (t # ts) =
     (let c = token_cmp a t in
      if c = - 1 then True else if c = 1 then False else tokens_less as ts)"

definition TunnelNameIsLess :: "unicode \<Rightarrow> string \<Rightarrow> string \<Rightarrow> bool" where
  "TunnelNameIsLess u a b =
     (if a = b then False
      else tokens_less (newNaturalSortString u a) (newNaturalSortString u b))"

text \<open>What a token stands for: a number or a text, every number before every text.\<close>

datatype token_key = NumKey int | TextKey string

instantiation token_key :: linorder
begin

fun less_eq_token_key :: "token_key \<Rightarrow> token_key \<Rightarrow> bool" where
  "less_eq_token_key (NumKey m) (NumKey n) = (m \<le> n)"
| "less_eq_token_key (NumKey m) (TextKey t) = True"
| "less_eq_token_key (TextKey s) (NumKey n) = False"
| "less_eq_token_key (TextKey s) (TextKey t) = (s \<le> t)"

definition less_token_key :: "token_key \<Rightarrow> token_key \<Rightarrow> bool" where
  "less_token_key a b = (a \<le> b \<and> \<not> b \<le> a)"

instance
proof
  fix a b c :: token_key
  show "(a < b) = (a \<le> b \<and> \<not> b \<le> a)" by (rule less_token_key_def)
  show "a \<le> a" by (cases a) auto
  show "a \<le> b \<Longrightarrow> b \<le> c \<Longrightarrow> a \<le> c" by (cases a; cases b; cases c) auto
  show "a \<le> b \<Longrightarrow> b \<le> a \<Longrightarrow> a = b" by (cases a; cases b) auto
  show "a \<le> b \<or> b \<le> a" by (cases a; cases b) auto
qed

end

definition key_of_token :: "natural_sort_token \<Rightarrow> token_key" where
  "key_of_token t =
     (if maybeString t = [] then NumKey (maybeNumber t) else TextKey (maybeString t))"

lemma token_cmp_key:
  "token_cmp a b = - 1 \<longleftrightarrow> key_of_token a < key_of_token b"
  "token_cmp a b = 1 \<longleftrightarrow> key_of_token b < key_of_token a"
  "token_cmp a b = 0 \<longleftrightarrow> key_of_token a = key_of_token b"
  by (auto simp: token_cmp_def key_of_token_def less_token_key_def)

lemma token_cmp_range: "token_cmp a b \<in> {- 1, 0, 1}"
  by (simp add: token_cmp_def)

lemma tokens_less_lex: "tokens_less as bs \<longleftrightarrow> map key_of_token as < map key_of_token bs"
proof (induction as bs rule: tokens_less.induct)
  case (3 a as t ts)
  have "token_cmp a t = - 1 \<or> token_cmp a t = 1 \<or> token_cmp a t = 0"
    using token_cmp_range [of a t] by auto
  then show ?case
    using 3 token_cmp_key [of a t] by (auto simp: Cons_less_Cons)
qed simp_all

definition name_key :: "unicode \<Rightarrow> string \<Rightarrow> token_key list" where
  "name_key u s = map key_of_token (newNaturalSortString u s)"

lemma TunnelNameIsLess_key: "TunnelNameIsLess u a b \<longleftrightarrow> name_key u a < name_key u b"
  by (auto simp: TunnelNameIsLess_def tokens_less_lex name_key_def)

end
