(* ===== verification/ConfParser.thy ===== *)
theory ConfParser
  imports ConfTypes TunnelName
begin

text \<open>
  The two readers of \<open>upstream-conf/parser.go\<close>: \<open>FromWgQuick\<close> for configuration files and
  \<open>FromUAPI\<close> for the driver's answer. Each loop is a fold of one step per line over an
  explicit parser state; each switch over the keys is one function.
\<close>

section \<open>Values\<close>

text \<open>
  \<open>parseIPCidr\<close> returns a pointer and an error. Its error variable is overwritten by
  \<open>strconv.Atoi\<close>, so a prefix length that is a number but out of range comes back as a nil
  pointer without an error: \<open>Inr None\<close>.
\<close>

definition parseIPCidr :: "string \<Rightarrow> conf_error + ipcidr option" where
  "parseIPCidr s =
     (let (addrStr, cidrStr) =
            (case index_byte (CHR ''/'') s of
               None \<Rightarrow> (s, [])
             | Some i \<Rightarrow> (take i s, drop (Suc i) s))
      in case parse_ip addrStr of
           None \<Rightarrow> Inl (ErrParse InvalidIP s)
         | Some addr16 \<Rightarrow>
             (let maybeV4 = to4 addr16;
                  addr = (case maybeV4 of Some v4 \<Rightarrow> v4 | None \<Rightarrow> addr16)
              in if cidrStr \<noteq> [] then
                   (case atoi cidrStr of
                      Inl e \<Rightarrow> Inl (ErrNum e)
                    | Inr cidr \<Rightarrow>
                        if cidr < 0 \<or> cidr > 128 then Inr None
                        else if cidr > 32 \<and> maybeV4 \<noteq> None then Inr None
                        else Inr (Some \<lparr> IP = addr, Cidr = word_of_int cidr \<rparr>))
                 else Inr (Some \<lparr> IP = addr, Cidr = (if maybeV4 \<noteq> None then 32 else 128) \<rparr>)))"

text \<open>The callers check the error and dereference the pointer.\<close>

definition deref_IPCidr :: "string \<Rightarrow> conf_error + ipcidr" where
  "deref_IPCidr s =
     rbind (parseIPCidr s) (\<lambda>a. case a of None \<Rightarrow> Inl (Panic NilDeref) | Some r \<Rightarrow> Inr r)"

definition lift_num :: "num_error + 'a \<Rightarrow> conf_error + 'a" where
  "lift_num r = (case r of Inl e \<Rightarrow> Inl (ErrNum e) | Inr a \<Rightarrow> Inr a)"

lemma lift_num_simps [simp]: "lift_num (Inl e) = Inl (ErrNum e)" "lift_num (Inr a) = Inr a"
  by (simp_all add: lift_num_def)

definition parsePort :: "string \<Rightarrow> conf_error + 16 word" where
  "parsePort s =
     rbind (lift_num (atoi s)) (\<lambda>m.
       if m < 0 \<or> m > 65535 then Inl (ErrParse InvalidPort s) else Inr (word_of_int m))"

definition parseMTU :: "string \<Rightarrow> conf_error + 16 word" where
  "parseMTU s =
     rbind (lift_num (atoi s)) (\<lambda>m.
       if m < 576 \<or> m > 65535 then Inl (ErrParse InvalidMTU s) else Inr (word_of_int m))"

definition parseUint16 :: "string \<Rightarrow> string \<Rightarrow> conf_error + 16 word" where
  "parseUint16 val nm =
     rbind (lift_num (atoi val)) (\<lambda>m.
       if m < 0 \<or> m > 65535 then Inl (ErrParse (InvalidNamed nm) val) else Inr (word_of_int m))"

definition parseUint32 :: "string \<Rightarrow> string \<Rightarrow> conf_error + 32 word" where
  "parseUint32 val nm =
     rbind (lift_num (parse_int64 val)) (\<lambda>m.
       if m < 0 \<or> m > 4294967295 then Inl (ErrParse (InvalidNamed nm) val)
       else Inr (word_of_int m))"

text \<open>The two looks \<open>parseEndpoint\<close> takes at a host: a colon after its first byte, and the
  address between the brackets without its zone.\<close>

definition colon_inside :: "string \<Rightarrow> bool" where
  "colon_inside host = (case index_byte (CHR '':'') host of None \<Rightarrow> False | Some k \<Rightarrow> 0 < k)"

definition bracketed_address :: "string \<Rightarrow> string" where
  "bracketed_address host =
     (let end0 = length host - 1;
          end' = (case last_index_byte (CHR ''%'') host of
                    Some k \<Rightarrow> if 1 < k then k else end0
                  | None \<Rightarrow> end0)
      in take (end' - 1) (drop 1 host))"

definition parseEndpoint :: "string \<Rightarrow> conf_error + endpoint" where
  "parseEndpoint s =
     (case last_index_byte (CHR '':'') s of
        None \<Rightarrow> Inl (ErrParse MissingPort s)
      | Some i \<Rightarrow>
          (let host = take i s; portStr = drop (Suc i) s in
           if length host < 1 then Inl (ErrParse InvalidHost host)
           else rbind (parsePort portStr) (\<lambda>port.
             if hd host = CHR ''['' \<or> last host = CHR '']'' \<or> colon_inside host then
               (if 3 < length host \<and> hd host = CHR ''['' \<and> last host = CHR '']'' \<and> colon_inside host then
                  (case parse_ip (bracketed_address host) of
                     None \<Rightarrow> Inl (ErrParse BracketsNeedV6 host)
                   | Some maybeV6 \<Rightarrow>
                       if length maybeV6 \<noteq> 16 then Inl (ErrParse BracketsNeedV6 host)
                       else Inr \<lparr> Host = butlast (tl host), Port = port \<rparr>)
                else Inl (ErrParse BracketsNeedV6 host))
             else Inr \<lparr> Host = host, Port = port \<rparr>)))"

definition parsePersistentKeepalive :: "string \<Rightarrow> conf_error + string" where
  "parsePersistentKeepalive s = (if s = ''off'' \<or> s = ''(off)'' then Inr ''0'' else Inr s)"

definition parseTableOff :: "string \<Rightarrow> conf_error + bool" where
  "parseTableOff s =
     (if s = ''off'' then Inr True
      else if s = ''auto'' \<or> s = ''main'' then Inr False
      else rbind (lift_num (parse_uint 32 s)) (\<lambda>_. Inr False))"

definition check_key :: "string \<Rightarrow> 'e + bytes \<Rightarrow> conf_error + key" where
  "check_key s r =
     (case r of
        Inl _ \<Rightarrow> Inl (ErrParse InvalidKeyText s)
      | Inr k \<Rightarrow> if length k \<noteq> KeyLength then Inl (ErrParse KeyNot32Bytes s) else Inr k)"

definition parseKeyBase64 :: "string \<Rightarrow> conf_error + key" where
  "parseKeyBase64 s = check_key s (b64_decode s)"

definition parseKeyHex :: "string \<Rightarrow> conf_error + key" where
  "parseKeyHex s = check_key s (hex_decode s)"

definition parseBytesOrStamp :: "string \<Rightarrow> conf_error + 64 word" where
  "parseBytesOrStamp s =
     (case parse_uint 64 s of
        Inl _ \<Rightarrow> Inl (ErrParse NumberNot64Bit s)
      | Inr b \<Rightarrow> Inr (of_nat b))"

definition splitList :: "string \<Rightarrow> conf_error + string list" where
  "splitList s =
     rmap (\<lambda>piece. let t = trim_space piece in
                   if t = [] then Inl (ErrParse TwoCommas s) else Inr t)
       (split_on (CHR '','') s)"

section \<open>The wg-quick format\<close>

datatype parser_state = InInterfaceSection | InPeerSection | NotInASection

definition specialHandshakeTags :: "string list" where
  "specialHandshakeTags =
     [''i1'', ''i2'', ''i3'', ''i4'', ''i5'', ''j1'', ''j2'', ''j3'', ''itime'']"

definition optionalEmptyInterfaceKeys :: "string list" where
  "optionalEmptyInterfaceKeys =
     [''headerprotectionkey'', ''contentpaddingaddition'', ''rekeyaftertime'', ''rekeytimeout'',
      ''rejectaftertime'', ''keepalivetimeout'', ''maxhandshakeattempts'', ''randomtrailers'',
      ''disablecookies'']"

definition maybeAddPeer :: "config \<Rightarrow> peer option \<Rightarrow> config" where
  "maybeAddPeer c p = (case p of None \<Rightarrow> c | Some q \<Rightarrow> c\<lparr>Peers := Peers c @ [q]\<rparr>)"

record parser =
  p_state :: parser_state
  p_conf :: config
  p_saw :: bool
  p_peer :: "peer option"

definition parse_addresses :: "string \<Rightarrow> conf_error + ipcidr list" where
  "parse_addresses val = rbind (splitList val) (rmap deref_IPCidr)"

text \<open>The DNS entries: addresses and search domains, each in the order given.\<close>

definition parse_dns :: "string list \<Rightarrow> ip list \<times> string list" where
  "parse_dns xs =
     (map (\<lambda>s. the (parse_ip s)) (filter (\<lambda>s. parse_ip s \<noteq> None) xs),
      filter (\<lambda>s. parse_ip s = None) xs)"

definition set_uint16 ::
  "string \<Rightarrow> string \<Rightarrow> ((16 word \<Rightarrow> 16 word) \<Rightarrow> interface \<Rightarrow> interface) \<Rightarrow> interface \<Rightarrow> conf_error + interface"
where
  "set_uint16 val nm upd ifc = rbind (parseUint16 val nm) (\<lambda>n. Inr (upd (\<lambda>_. n) ifc))"

text \<open>The switch of the interface section; \<open>privatekey\<close> is handled by the caller's flag.\<close>

definition interface_key :: "string \<Rightarrow> string \<Rightarrow> interface \<Rightarrow> conf_error + interface" where
  "interface_key key val ifc =
     (if key = ''privatekey'' then
        rbind (parseKeyBase64 val) (\<lambda>k. Inr (ifc\<lparr>PrivateKey := k\<rparr>))
      else if key = ''listenport'' then
        rbind (parsePort val) (\<lambda>p. Inr (ifc\<lparr>ListenPort := p\<rparr>))
      else if key = ''jc'' then set_uint16 val ''junkPacketCount'' JunkPacketCount_update ifc
      else if key = ''jmin'' then set_uint16 val ''junkPacketMinSize'' JunkPacketMinSize_update ifc
      else if key = ''jmax'' then set_uint16 val ''junkPacketMaxSize'' JunkPacketMaxSize_update ifc
      else if key = ''s1'' then set_uint16 val ''initPacketJunkSize'' InitPacketJunkSize_update ifc
      else if key = ''s2'' then
        set_uint16 val ''responsePacketJunkSize'' ResponsePacketJunkSize_update ifc
      else if key = ''s3'' then
        set_uint16 val ''cookieReplyPacketJunkSize'' CookieReplyPacketJunkSize_update ifc
      else if key = ''s4'' then
        set_uint16 val ''transportPacketJunkSize'' TransportPacketJunkSize_update ifc
      else if key = ''h1'' then Inr (ifc\<lparr>InitPacketMagicHeader := val\<rparr>)
      else if key = ''h2'' then Inr (ifc\<lparr>ResponsePacketMagicHeader := val\<rparr>)
      else if key = ''h3'' then Inr (ifc\<lparr>UnderloadPacketMagicHeader := val\<rparr>)
      else if key = ''h4'' then Inr (ifc\<lparr>TransportPacketMagicHeader := val\<rparr>)
      else if key = ''i1'' \<or> key = ''i2'' \<or> key = ''i3'' \<or> key = ''i4'' \<or> key = ''i5'' then
        (if val = [] then Inr ifc else Inr (ifc\<lparr>IPackets := (IPackets ifc)(key \<mapsto> val)\<rparr>))
      else if key = ''headerprotectionkey'' then
        (if val = [] then Inr (ifc\<lparr>HeaderProtectionKey := zero_key\<rparr>)
         else rbind (parseKeyBase64 val) (\<lambda>k. Inr (ifc\<lparr>HeaderProtectionKey := k\<rparr>)))
      else if key = ''contentpaddingaddition'' then Inr (ifc\<lparr>ContentPaddingAddition := val\<rparr>)
      else if key = ''rekeyaftertime'' then Inr (ifc\<lparr>RekeyAfterTime := val\<rparr>)
      else if key = ''rekeytimeout'' then Inr (ifc\<lparr>RekeyTimeout := val\<rparr>)
      else if key = ''rejectaftertime'' then Inr (ifc\<lparr>RejectAfterTime := val\<rparr>)
      else if key = ''keepalivetimeout'' then Inr (ifc\<lparr>KeepaliveTimeout := val\<rparr>)
      else if key = ''maxhandshakeattempts'' then Inr (ifc\<lparr>MaxHandshakeAttempts := val\<rparr>)
      else if key = ''randomtrailers'' then Inr (ifc\<lparr>RandomTrailers := val\<rparr>)
      else if key = ''disablecookies'' then Inr (ifc\<lparr>DisableCookies := val\<rparr>)
      else if key = ''mtu'' then rbind (parseMTU val) (\<lambda>m. Inr (ifc\<lparr>MTU := m\<rparr>))
      else if key = ''address'' then
        rbind (parse_addresses val) (\<lambda>as. Inr (ifc\<lparr>Addresses := Addresses ifc @ as\<rparr>))
      else if key = ''dns'' then
        rbind (splitList val) (\<lambda>xs. case parse_dns xs of (ips, names) \<Rightarrow>
          Inr (ifc\<lparr>DNS := DNS ifc @ ips, DNSSearch := DNSSearch ifc @ names\<rparr>))
      else if key = ''preup'' then Inr (ifc\<lparr>PreUp := val\<rparr>)
      else if key = ''postup'' then Inr (ifc\<lparr>PostUp := val\<rparr>)
      else if key = ''predown'' then Inr (ifc\<lparr>PreDown := val\<rparr>)
      else if key = ''postdown'' then Inr (ifc\<lparr>PostDown := val\<rparr>)
      else if key = ''pinendpointvia'' then Inr (ifc\<lparr>PinEndpointVia := val\<rparr>)
      else if key = ''table'' then rbind (parseTableOff val) (\<lambda>b. Inr (ifc\<lparr>TableOff := b\<rparr>))
      else Inl (ErrParse BadInterfaceKey key))"

definition peer_key :: "string \<Rightarrow> string \<Rightarrow> peer \<Rightarrow> conf_error + peer" where
  "peer_key key val p =
     (if key = ''publickey'' then rbind (parseKeyBase64 val) (\<lambda>k. Inr (p\<lparr>PublicKey := k\<rparr>))
      else if key = ''presharedkey'' then
        rbind (parseKeyBase64 val) (\<lambda>k. Inr (p\<lparr>PresharedKey := k\<rparr>))
      else if key = ''allowedips'' then
        rbind (parse_addresses val) (\<lambda>as. Inr (p\<lparr>AllowedIPs := AllowedIPs p @ as\<rparr>))
      else if key = ''persistentkeepalive'' then
        rbind (parsePersistentKeepalive val) (\<lambda>s. Inr (p\<lparr>PersistentKeepalive := s\<rparr>))
      else if key = ''endpoint'' then rbind (parseEndpoint val) (\<lambda>e. Inr (p\<lparr>Endpoint := e\<rparr>))
      else Inl (ErrParse BadPeerKey key))"

text \<open>
  One turn of the loop over the lines. \<open>equals\<close> is an index into the line and is used to
  slice the lower-cased line, which may be shorter.
\<close>

definition cut_comment :: "string \<Rightarrow> string" where
  "cut_comment line = (case index_byte (CHR ''#'') line of None \<Rightarrow> line | Some i \<Rightarrow> take i line)"

definition wgquick_line :: "unicode \<Rightarrow> parser \<Rightarrow> string \<Rightarrow> conf_error + parser" where
  "wgquick_line u st raw =
     (let line = trim_space (cut_comment raw);
          lineLower = to_lower u line
      in if line = [] then Inr st
         else if lineLower = ''[interface]'' then
           Inr (st\<lparr>p_conf := maybeAddPeer (p_conf st) (p_peer st), p_state := InInterfaceSection\<rparr>)
         else if lineLower = ''[peer]'' then
           Inr (st\<lparr>p_conf := maybeAddPeer (p_conf st) (p_peer st), p_peer := Some zero_peer,
                  p_state := InPeerSection\<rparr>)
         else if p_state st = NotInASection then Inl (ErrParse NotInSection line)
         else (case index_byte (CHR ''='') line of
                 None \<Rightarrow> Inl (ErrParse MissingEquals line)
               | Some equals \<Rightarrow>
                   if length lineLower < equals then Inl (Panic SliceBounds)
                   else
                     (let key = trim_space (take equals lineLower);
                          val = trim_space (drop (Suc equals) line)
                      in if \<not> List.member specialHandshakeTags key
                            \<and> \<not> List.member optionalEmptyInterfaceKeys key \<and> val = []
                         then Inl (ErrParse KeyNeedsValue line)
                         else (case p_state st of
                                 InInterfaceSection \<Rightarrow>
                                   rbind (interface_key key val (Interface (p_conf st))) (\<lambda>ifc.
                                     Inr (st\<lparr>p_conf := (p_conf st)\<lparr>Interface := ifc\<rparr>,
                                             p_saw := (p_saw st \<or> key = ''privatekey'')\<rparr>))
                               | InPeerSection \<Rightarrow>
                                   (case p_peer st of
                                      None \<Rightarrow> Inl (Panic NilDeref)
                                    | Some p \<Rightarrow>
                                        rbind (peer_key key val p) (\<lambda>p'.
                                          Inr (st\<lparr>p_peer := Some p'\<rparr>)))
                               | NotInASection \<Rightarrow> Inr st))))"

definition start_parser :: "string \<Rightarrow> parser" where
  "start_parser name =
     \<lparr> p_state = NotInASection,
       p_conf = \<lparr> Name = name, Interface = zero_interface\<lparr>MTU := 1420\<rparr>, Peers = [] \<rparr>,
       p_saw = False, p_peer = None \<rparr>"

definition finish_parser :: "parser \<Rightarrow> conf_error + config" where
  "finish_parser st =
     (let conf = maybeAddPeer (p_conf st) (p_peer st) in
      if \<not> p_saw st then Inl (ErrParse NoPrivateKey ''[none specified]'')
      else if list_ex (\<lambda>p. key_is_zero (PublicKey p)) (Peers conf)
      then Inl (ErrParse NoPublicKey ''[none specified]'')
      else Inr conf)"

definition FromWgQuick :: "unicode \<Rightarrow> string \<Rightarrow> string \<Rightarrow> conf_error + config" where
  "FromWgQuick u s name =
     (if \<not> TunnelNameIsValid u name then Inl (ErrParse BadTunnelName name)
      else rbind (rfold (wgquick_line u) (start_parser name) (split_on NL s)) finish_parser)"

text \<open>
  The decoders of \<open>golang.org/x/text/encoding/unicode\<close> are the argument; a decoder that
  reports an error is \<open>None\<close>. A panic of the first attempt is not an error value, so it ends
  the call.
\<close>

fun try_decoders ::
  "unicode \<Rightarrow> (string \<Rightarrow> string option) list \<Rightarrow> string \<Rightarrow> string \<Rightarrow> conf_error \<Rightarrow> conf_error + config"
where
  "try_decoders u [] s name firstErr = Inl firstErr"
| "try_decoders u (d # ds) s name firstErr =
     (case d s of
        None \<Rightarrow> try_decoders u ds s name firstErr
      | Some decoded \<Rightarrow>
          (case FromWgQuick u decoded name of
             Inr c \<Rightarrow> Inr c
           | Inl (Panic p) \<Rightarrow> Inl (Panic p)
           | Inl _ \<Rightarrow> try_decoders u ds s name firstErr))"

definition FromWgQuickWithUnknownEncoding ::
  "unicode \<Rightarrow> (string \<Rightarrow> string option) list \<Rightarrow> string \<Rightarrow> string \<Rightarrow> conf_error + config"
where
  "FromWgQuickWithUnknownEncoding u decoders s name =
     (case FromWgQuick u s name of
        Inr c \<Rightarrow> Inr c
      | Inl (Panic p) \<Rightarrow> Inl (Panic p)
      | Inl firstErr \<Rightarrow> try_decoders u decoders s name firstErr)"

end
