(* ===== verification/ConfUAPI.thy ===== *)
theory ConfUAPI
  imports ConfParser
begin

text \<open>
  The driver's text protocol: \<open>FromUAPI\<close> of \<open>upstream-conf/parser.go\<close> and \<open>ToUAPI\<close> of
  \<open>upstream-conf/writer.go\<close>. The reader is the whole input as a string; a line without its
  newline is an end of input, an empty line ends the answer.
\<close>

definition boolToUAPI :: "unicode \<Rightarrow> string \<Rightarrow> string" where
  "boolToUAPI u v =
     (if List.member [''on'', ''1'', ''true'', ''t'', ''yes''] (to_lower u (trim_space v))
      then ''1'' else ''0'')"

definition boolFromUAPI :: "unicode \<Rightarrow> string \<Rightarrow> string" where
  "boolFromUAPI u v =
     (if List.member [''1'', ''true'', ''t'', ''on'', ''yes''] (to_lower u (trim_space v))
      then ''on'' else ''off'')"

section \<open>Reading\<close>

text \<open>The fields taken over from the stored configuration; \<open>PinEndpointVia\<close> is not among them.\<close>

definition uapi_start :: "config \<Rightarrow> config" where
  "uapi_start c =
     (let i = Interface c in
      \<lparr> Name = Name c,
        Interface = zero_interface
          \<lparr>Addresses := Addresses i, DNS := DNS i, DNSSearch := DNSSearch i, MTU := MTU i,
           PreUp := PreUp i, PostUp := PostUp i, PreDown := PreDown i, PostDown := PostDown i,
           TableOff := TableOff i,
           JunkPacketCount := JunkPacketCount i, JunkPacketMinSize := JunkPacketMinSize i,
           JunkPacketMaxSize := JunkPacketMaxSize i, InitPacketJunkSize := InitPacketJunkSize i,
           ResponsePacketJunkSize := ResponsePacketJunkSize i,
           CookieReplyPacketJunkSize := CookieReplyPacketJunkSize i,
           TransportPacketJunkSize := TransportPacketJunkSize i,
           InitPacketMagicHeader := InitPacketMagicHeader i,
           ResponsePacketMagicHeader := ResponsePacketMagicHeader i,
           UnderloadPacketMagicHeader := UnderloadPacketMagicHeader i,
           TransportPacketMagicHeader := TransportPacketMagicHeader i,
           IPackets := IPackets i, HeaderProtectionKey := HeaderProtectionKey i,
           ContentPaddingAddition := ContentPaddingAddition i, RekeyAfterTime := RekeyAfterTime i,
           RekeyTimeout := RekeyTimeout i, RejectAfterTime := RejectAfterTime i,
           KeepaliveTimeout := KeepaliveTimeout i, MaxHandshakeAttempts := MaxHandshakeAttempts i,
           RandomTrailers := RandomTrailers i, DisableCookies := DisableCookies i\<rparr>,
        Peers = [] \<rparr>)"

definition uapi_interface_key ::
  "unicode \<Rightarrow> string \<Rightarrow> string \<Rightarrow> interface \<Rightarrow> conf_error + interface"
where
  "uapi_interface_key u key val ifc =
     (if key = ''private_key'' then rbind (parseKeyHex val) (\<lambda>k. Inr (ifc\<lparr>PrivateKey := k\<rparr>))
      else if key = ''listen_port'' then rbind (parsePort val) (\<lambda>p. Inr (ifc\<lparr>ListenPort := p\<rparr>))
      else if key = ''jc'' then set_uint16 val ''junkPacketCount'' JunkPacketCount_update ifc
      else if key = ''jmin'' then set_uint16 val ''junkPacketMinSize'' JunkPacketMinSize_update ifc
      else if key = ''jmax'' then set_uint16 val ''junkPacketMaxSize'' JunkPacketMaxSize_update ifc
      else if key = ''s1'' then set_uint16 val ''initPacketJunkSize'' InitPacketJunkSize_update ifc
      else if key = ''s2'' then
        set_uint16 val ''responsePacketJunkSize'' ResponsePacketJunkSize_update ifc
      else if key = ''s3'' then
        set_uint16 val ''cookieReplyPacketJunkSize'' CookieReplyPacketJunkSize_update ifc
      else if key = ''s4'' then
        set_uint16 val ''transportPacketJunkSize'' TransportPacketJunkSize_update ifc
      else if key = ''h1'' then Inr (ifc\<lparr>InitPacketMagicHeader := val\<rparr>)
      else if key = ''h2'' then Inr (ifc\<lparr>ResponsePacketMagicHeader := val\<rparr>)
      else if key = ''h3'' then Inr (ifc\<lparr>UnderloadPacketMagicHeader := val\<rparr>)
      else if key = ''h4'' then Inr (ifc\<lparr>TransportPacketMagicHeader := val\<rparr>)
      else if key = ''i1'' \<or> key = ''i2'' \<or> key = ''i3'' \<or> key = ''i4'' \<or> key = ''i5'' then
        (if val = [] then Inl (ErrEmptyJunk key val)
         else Inr (ifc\<lparr>IPackets := (IPackets ifc)(key \<mapsto> val)\<rparr>))
      else if key = ''header_protection_key'' then
        rbind (parseKeyHex val) (\<lambda>k. Inr (ifc\<lparr>HeaderProtectionKey := k\<rparr>))
      else if key = ''content_padding_addition'' then Inr (ifc\<lparr>ContentPaddingAddition := val\<rparr>)
      else if key = ''rekey_after_time'' then Inr (ifc\<lparr>RekeyAfterTime := val\<rparr>)
      else if key = ''rekey_timeout'' then Inr (ifc\<lparr>RekeyTimeout := val\<rparr>)
      else if key = ''reject_after_time'' then Inr (ifc\<lparr>RejectAfterTime := val\<rparr>)
      else if key = ''keepalive_timeout'' then Inr (ifc\<lparr>KeepaliveTimeout := val\<rparr>)
      else if key = ''max_handshake_attempts'' then Inr (ifc\<lparr>MaxHandshakeAttempts := val\<rparr>)
      else if key = ''random_trailers'' then Inr (ifc\<lparr>RandomTrailers := boolFromUAPI u val\<rparr>)
      else if key = ''disable_cookies'' then Inr (ifc\<lparr>DisableCookies := boolFromUAPI u val\<rparr>)
      else if key = ''fwmark'' then Inr ifc
      else Inl (ErrParse BadUapiInterfaceKey key))"

definition uapi_peer_key :: "string \<Rightarrow> string \<Rightarrow> peer \<Rightarrow> conf_error + peer" where
  "uapi_peer_key key val p =
     (if key = ''public_key'' then rbind (parseKeyHex val) (\<lambda>k. Inr (p\<lparr>PublicKey := k\<rparr>))
      else if key = ''preshared_key'' then rbind (parseKeyHex val) (\<lambda>k. Inr (p\<lparr>PresharedKey := k\<rparr>))
      else if key = ''protocol_version'' then
        (if val \<noteq> ''1'' then Inl (ErrParse BadProtocolVersion val) else Inr p)
      else if key = ''allowed_ip'' then
        rbind (deref_IPCidr val) (\<lambda>a. Inr (p\<lparr>AllowedIPs := AllowedIPs p @ [a]\<rparr>))
      else if key = ''persistent_keepalive_interval'' then
        rbind (parsePersistentKeepalive val) (\<lambda>s. Inr (p\<lparr>PersistentKeepalive := s\<rparr>))
      else if key = ''endpoint'' then rbind (parseEndpoint val) (\<lambda>e. Inr (p\<lparr>Endpoint := e\<rparr>))
      else if key = ''tx_bytes'' then rbind (parseBytesOrStamp val) (\<lambda>b. Inr (p\<lparr>TxBytes := b\<rparr>))
      else if key = ''rx_bytes'' then rbind (parseBytesOrStamp val) (\<lambda>b. Inr (p\<lparr>RxBytes := b\<rparr>))
      else if key = ''last_handshake_time_sec'' then
        rbind (parseBytesOrStamp val) (\<lambda>t.
          Inr (p\<lparr>LastHandshakeTime := LastHandshakeTime p + t * 1000000000\<rparr>))
      else if key = ''last_handshake_time_nsec'' then
        rbind (parseBytesOrStamp val) (\<lambda>t.
          Inr (p\<lparr>LastHandshakeTime := LastHandshakeTime p + t\<rparr>))
      else Inl (ErrParse BadUapiPeerKey key))"

text \<open>One line of the answer. A \<open>public_key\<close> line opens a peer before its value is looked at.\<close>

definition uapi_line :: "unicode \<Rightarrow> parser \<Rightarrow> string \<Rightarrow> conf_error + parser" where
  "uapi_line u st0 line =
     (case index_byte (CHR ''='') line of
        None \<Rightarrow> Inl (ErrParse MissingEquals line)
      | Some equals \<Rightarrow>
          (let key = take equals line;
               val = drop (Suc equals) line;
               st = (if key = ''public_key''
                     then st0\<lparr>p_conf := maybeAddPeer (p_conf st0) (p_peer st0),
                              p_peer := Some zero_peer, p_state := InPeerSection\<rparr>
                     else st0)
           in if key = ''errno'' then
                (if val = ''0'' then Inr st else Inl (ErrParse UapiErrno val))
              else if val = [] then Inl (ErrParse KeyNeedsValue line)
              else (case p_state st of
                      InInterfaceSection \<Rightarrow>
                        rbind (uapi_interface_key u key val (Interface (p_conf st))) (\<lambda>ifc.
                          Inr (st\<lparr>p_conf := (p_conf st)\<lparr>Interface := ifc\<rparr>\<rparr>))
                    | InPeerSection \<Rightarrow>
                        (case p_peer st of
                           None \<Rightarrow> Inl (Panic NilDeref)
                         | Some p \<Rightarrow>
                             rbind (uapi_peer_key key val p) (\<lambda>p'. Inr (st\<lparr>p_peer := Some p'\<rparr>)))
                    | NotInASection \<Rightarrow> Inr st)))"

text \<open>The pieces of the input between newlines; the last one has no newline.\<close>

fun uapi_lines :: "unicode \<Rightarrow> parser \<Rightarrow> string list \<Rightarrow> conf_error + config" where
  "uapi_lines u st [] = Inl ErrEOF"
| "uapi_lines u st [l] = Inl ErrEOF"
| "uapi_lines u st (l # l' # ls) =
     (if l = [] then Inr (maybeAddPeer (p_conf st) (p_peer st))
      else rbind (uapi_line u st l) (\<lambda>st'. uapi_lines u st' (l' # ls)))"

definition FromUAPI :: "unicode \<Rightarrow> string \<Rightarrow> config \<Rightarrow> conf_error + config" where
  "FromUAPI u input existing =
     uapi_lines u
       \<lparr> p_state = InInterfaceSection, p_conf = uapi_start existing, p_saw = False, p_peer = None \<rparr>
       (split_on NL input)"

section \<open>Writing\<close>

definition opt_line :: "bool \<Rightarrow> string \<Rightarrow> string list" where
  "opt_line b l = (if b then [l] else [])"

abbreviation num16 :: "16 word \<Rightarrow> string" where "num16 n \<equiv> dec (unat n)"

text \<open>The lines of the interface; \<open>ord\<close> is the order in which the range over the map visits it.\<close>

definition uapi_interface_lines :: "unicode \<Rightarrow> string list \<Rightarrow> interface \<Rightarrow> string list" where
  "uapi_interface_lines u ord i =
     [''private_key='' @ key_hex_string (PrivateKey i)]
     @ opt_line (0 < ListenPort i) (''listen_port='' @ num16 (ListenPort i))
     @ opt_line (0 < JunkPacketCount i) (''jc='' @ num16 (JunkPacketCount i))
     @ opt_line (0 < JunkPacketMinSize i) (''jmin='' @ num16 (JunkPacketMinSize i))
     @ opt_line (0 < JunkPacketMaxSize i) (''jmax='' @ num16 (JunkPacketMaxSize i))
     @ opt_line (0 < InitPacketJunkSize i) (''s1='' @ num16 (InitPacketJunkSize i))
     @ opt_line (0 < ResponsePacketJunkSize i) (''s2='' @ num16 (ResponsePacketJunkSize i))
     @ opt_line (0 < CookieReplyPacketJunkSize i) (''s3='' @ num16 (CookieReplyPacketJunkSize i))
     @ opt_line (0 < TransportPacketJunkSize i) (''s4='' @ num16 (TransportPacketJunkSize i))
     @ opt_line (InitPacketMagicHeader i \<noteq> []) (''h1='' @ InitPacketMagicHeader i)
     @ opt_line (ResponsePacketMagicHeader i \<noteq> []) (''h2='' @ ResponsePacketMagicHeader i)
     @ opt_line (UnderloadPacketMagicHeader i \<noteq> []) (''h3='' @ UnderloadPacketMagicHeader i)
     @ opt_line (TransportPacketMagicHeader i \<noteq> []) (''h4='' @ TransportPacketMagicHeader i)
     @ map (\<lambda>k. k @ ''='' @ the (IPackets i k)) ord
     @ opt_line (\<not> key_is_zero (HeaderProtectionKey i))
         (''header_protection_key='' @ key_hex_string (HeaderProtectionKey i))
     @ opt_line (ContentPaddingAddition i \<noteq> [])
         (''content_padding_addition='' @ ContentPaddingAddition i)
     @ opt_line (RekeyAfterTime i \<noteq> []) (''rekey_after_time='' @ RekeyAfterTime i)
     @ opt_line (RekeyTimeout i \<noteq> []) (''rekey_timeout='' @ RekeyTimeout i)
     @ opt_line (RejectAfterTime i \<noteq> []) (''reject_after_time='' @ RejectAfterTime i)
     @ opt_line (KeepaliveTimeout i \<noteq> []) (''keepalive_timeout='' @ KeepaliveTimeout i)
     @ opt_line (MaxHandshakeAttempts i \<noteq> [])
         (''max_handshake_attempts='' @ MaxHandshakeAttempts i)
     @ opt_line (RandomTrailers i \<noteq> []) (''random_trailers='' @ boolToUAPI u (RandomTrailers i))
     @ opt_line (DisableCookies i \<noteq> []) (''disable_cookies='' @ boolToUAPI u (DisableCookies i))"

text \<open>
  \<open>resolveHostname\<close> asks the system's resolver, the parameter \<open>resolve\<close>; its error is the
  value \<open>Inl\<close>, which ends the call.
\<close>

definition uapi_peer_lines :: "(string \<Rightarrow> 'e + string) \<Rightarrow> peer \<Rightarrow> 'e + string list" where
  "uapi_peer_lines resolve p =
     rbind (if endpoint_is_empty (Endpoint p) then Inr []
            else rbind (resolve (Host (Endpoint p))) (\<lambda>h.
                   Inr [''endpoint='' @ endpoint_string \<lparr> Host = h, Port = Port (Endpoint p) \<rparr>]))
       (\<lambda>ep.
         let ka = (if PersistentKeepalive p = [] \<or> PersistentKeepalive p = ''off'' then ''0''
                   else PersistentKeepalive p)
         in Inr ([''public_key='' @ key_hex_string (PublicKey p)]
              @ opt_line (\<not> key_is_zero (PresharedKey p))
                  (''preshared_key='' @ key_hex_string (PresharedKey p))
              @ ep
              @ [''persistent_keepalive_interval='' @ ka]
              @ (if AllowedIPs p = [] then []
                 else ''replace_allowed_ips=true''
                        # map (\<lambda>a. ''allowed_ip='' @ ipcidr_string a) (AllowedIPs p))))"

definition ToUAPI :: "unicode \<Rightarrow> string list \<Rightarrow> (string \<Rightarrow> 'e + string) \<Rightarrow> config \<Rightarrow> 'e + string" where
  "ToUAPI u ord resolve c =
     rbind (rmap (uapi_peer_lines resolve) (Peers c)) (\<lambda>pls.
       Inr (unlines (uapi_interface_lines u ord (Interface c)
              @ (if Peers c = [] then [] else [''replace_peers=true''])
              @ concat pls)))"

end
