(* ===== verification/ConfWriter.thy ===== *)
theory ConfWriter
  imports ConfUAPI
begin

text \<open>
  \<open>ToWgQuick\<close> of \<open>upstream-conf/writer.go\<close>: the configuration file as a list of lines, each
  ended by a newline. \<open>ord\<close> is the order in which the range over \<open>IPackets\<close> visits the map.
\<close>

definition kv :: "string \<Rightarrow> string \<Rightarrow> string" where "kv k v = k @ '' = '' @ v"

definition comma_list :: "string list \<Rightarrow> string" where "comma_list xs = join '', '' xs"

definition junk_lines :: "interface \<Rightarrow> string list" where
  "junk_lines i =
     opt_line (0 < ListenPort i) (kv ''ListenPort'' (num16 (ListenPort i)))
     @ opt_line (0 < JunkPacketCount i) (kv ''Jc'' (num16 (JunkPacketCount i)))
     @ opt_line (0 < JunkPacketMinSize i) (kv ''Jmin'' (num16 (JunkPacketMinSize i)))
     @ opt_line (0 < JunkPacketMaxSize i) (kv ''Jmax'' (num16 (JunkPacketMaxSize i)))
     @ opt_line (0 < InitPacketJunkSize i) (kv ''S1'' (num16 (InitPacketJunkSize i)))
     @ opt_line (0 < ResponsePacketJunkSize i) (kv ''S2'' (num16 (ResponsePacketJunkSize i)))
     @ opt_line (0 < CookieReplyPacketJunkSize i) (kv ''S3'' (num16 (CookieReplyPacketJunkSize i)))
     @ opt_line (0 < TransportPacketJunkSize i) (kv ''S4'' (num16 (TransportPacketJunkSize i)))
     @ opt_line (InitPacketMagicHeader i \<noteq> []) (kv ''H1'' (InitPacketMagicHeader i))
     @ opt_line (ResponsePacketMagicHeader i \<noteq> []) (kv ''H2'' (ResponsePacketMagicHeader i))
     @ opt_line (UnderloadPacketMagicHeader i \<noteq> []) (kv ''H3'' (UnderloadPacketMagicHeader i))
     @ opt_line (TransportPacketMagicHeader i \<noteq> []) (kv ''H4'' (TransportPacketMagicHeader i))"

definition timing_lines :: "interface \<Rightarrow> string list" where
  "timing_lines i =
     opt_line (\<not> key_is_zero (HeaderProtectionKey i))
         (kv ''HeaderProtectionKey'' (key_string (HeaderProtectionKey i)))
     @ opt_line (ContentPaddingAddition i \<noteq> [])
         (kv ''ContentPaddingAddition'' (ContentPaddingAddition i))
     @ opt_line (RekeyAfterTime i \<noteq> []) (kv ''RekeyAfterTime'' (RekeyAfterTime i))
     @ opt_line (RekeyTimeout i \<noteq> []) (kv ''RekeyTimeout'' (RekeyTimeout i))
     @ opt_line (RejectAfterTime i \<noteq> []) (kv ''RejectAfterTime'' (RejectAfterTime i))
     @ opt_line (KeepaliveTimeout i \<noteq> []) (kv ''KeepaliveTimeout'' (KeepaliveTimeout i))
     @ opt_line (MaxHandshakeAttempts i \<noteq> [])
         (kv ''MaxHandshakeAttempts'' (MaxHandshakeAttempts i))
     @ opt_line (RandomTrailers i \<noteq> []) (kv ''RandomTrailers'' (RandomTrailers i))
     @ opt_line (DisableCookies i \<noteq> []) (kv ''DisableCookies'' (DisableCookies i))"

definition network_lines :: "interface \<Rightarrow> string list" where
  "network_lines i =
     opt_line (Addresses i \<noteq> []) (kv ''Address'' (comma_list (map ipcidr_string (Addresses i))))
     @ opt_line (DNS i \<noteq> [] \<or> DNSSearch i \<noteq> [])
         (kv ''DNS'' (comma_list (map ip_string (DNS i) @ DNSSearch i)))
     @ opt_line (0 < MTU i) (kv ''MTU'' (num16 (MTU i)))
     @ opt_line (PreUp i \<noteq> []) (kv ''PreUp'' (PreUp i))
     @ opt_line (PostUp i \<noteq> []) (kv ''PostUp'' (PostUp i))
     @ opt_line (PreDown i \<noteq> []) (kv ''PreDown'' (PreDown i))
     @ opt_line (PostDown i \<noteq> []) (kv ''PostDown'' (PostDown i))
     @ opt_line (TableOff i) (kv ''Table'' ''off'')
     @ opt_line (PinEndpointVia i \<noteq> []) (kv ''PinEndpointVia'' (PinEndpointVia i))"

definition interface_lines :: "unicode \<Rightarrow> string list \<Rightarrow> interface \<Rightarrow> string list" where
  "interface_lines u ord i =
     ''[Interface]'' # kv ''PrivateKey'' (key_string (PrivateKey i))
     # junk_lines i
     @ map (\<lambda>k. kv (to_upper u k) (the (IPackets i k))) ord
     @ timing_lines i
     @ network_lines i"

definition peer_lines :: "peer \<Rightarrow> string list" where
  "peer_lines p =
     [[], ''[Peer]'', kv ''PublicKey'' (key_string (PublicKey p))]
     @ opt_line (\<not> key_is_zero (PresharedKey p)) (kv ''PresharedKey'' (key_string (PresharedKey p)))
     @ opt_line (AllowedIPs p \<noteq> [])
         (kv ''AllowedIPs'' (comma_list (map ipcidr_string (AllowedIPs p))))
     @ opt_line (\<not> endpoint_is_empty (Endpoint p)) (kv ''Endpoint'' (endpoint_string (Endpoint p)))
     @ opt_line (PersistentKeepalive p \<noteq> [] \<and> PersistentKeepalive p \<noteq> ''0''
                 \<and> PersistentKeepalive p \<noteq> ''off'')
         (kv ''PersistentKeepalive'' (PersistentKeepalive p))"

definition ToWgQuick :: "unicode \<Rightarrow> string list \<Rightarrow> config \<Rightarrow> string" where
  "ToWgQuick u ord c =
     unlines (interface_lines u ord (Interface c) @ concat (map peer_lines (Peers c)))"

end
