(* ===== verification/ConfRoundtrip.thy ===== *)
theory ConfRoundtrip
  imports ConfWriter
begin

text \<open>
  Reading back what was written. A \<open>text_codec\<close> is a printer with a parser for it; lists of
  such values separated by commas are read back by \<open>splitList\<close>. The codecs of prefixes, name
  servers and endpoints are interpretations, and \<open>FromWgQuick\<close> inverts \<open>ToWgQuick\<close> on every
  well-formed configuration.
\<close>

section \<open>Texts that survive a line\<close>

text \<open>A value that neither the comment rule nor trimming nor the line splitter changes.\<close>

definition value_text :: "string \<Rightarrow> bool" where
  "value_text v \<longleftrightarrow> v \<noteq> [] \<and> trimmed v \<and> CHR ''#'' \<notin> set v \<and> NL \<notin> set v"

definition list_item :: "string \<Rightarrow> bool" where
  "list_item v \<longleftrightarrow> value_text v \<and> CHR '','' \<notin> set v"

lemma value_text_graphic:
  "list_all is_graphic v \<Longrightarrow> v \<noteq> [] \<Longrightarrow> CHR ''#'' \<notin> set v \<Longrightarrow> value_text v"
  by (auto simp: value_text_def trimmed_all_graphic list_all_iff is_graphic_def)

lemma starts_before_ascii:
  assumes "x \<noteq> []" and "\<not> starts_with_any go_spaces x" and "is_ascii c"
  shows "\<not> starts_with_any go_spaces (x @ c # t)"
proof
  assume "starts_with_any go_spaces (x @ c # t)"
  then obtain p s where p: "p \<in> set go_spaces" and s: "x @ c # t = p @ s"
    by (auto simp: starts_with_any_def list_ex_iff has_prefix_ex)
  show False
  proof (cases "length p \<le> length x")
    case True
    from s have "take (length p) (x @ c # t) = p" by simp
    with True have "has_prefix x p" by (simp add: has_prefix_def)
    with p assms(2) go_space_nonempty show False
      by (auto simp: starts_with_any_def list_ex_iff)
  next
    case False
    then have "(x @ c # t) ! length x = c" "length x < length p" by simp_all
    with s have "c \<in> set p" by (metis nth_append nth_mem)
    moreover from False assms(1) have "length p \<noteq> 1" by (cases x) auto
    ultimately show False using go_space_bytes [OF p] assms(3) by blast
  qed
qed

lemma trimmed_two:
  assumes "trimmed x" "x \<noteq> []" "trimmed y" "y \<noteq> []" "is_ascii c" "is_ascii d"
  shows "trimmed (x @ c # k @ d # y)"
proof -
  have "\<not> starts_with_any go_spaces (x @ c # k @ d # y)"
    by (rule starts_before_ascii) (use assms in \<open>auto simp: trimmed_def\<close>)
  moreover have "\<not> starts_with_any (map rev go_spaces) (rev ((x @ c # k) @ d # y))"
    by (rule ends_after_ascii) (use assms in \<open>auto simp: trimmed_def\<close>)
  ultimately show ?thesis by (simp add: trimmed_def)
qed

lemma comma_list_Cons: "xs \<noteq> [] \<Longrightarrow> comma_list (x # xs) = x @ '', '' @ comma_list xs"
  by (simp add: comma_list_def join_Cons)

lemma comma_list_value:
  "xs \<noteq> [] \<Longrightarrow> list_all list_item xs \<Longrightarrow> value_text (comma_list xs)"
proof (induction xs)
  case Nil
  then show ?case by simp
next
  case (Cons x xs)
  show ?case
  proof (cases "xs = []")
    case True
    with Cons show ?thesis by (simp add: comma_list_def list_item_def)
  next
    case False
    with Cons have x: "value_text x" and xs: "value_text (comma_list xs)"
      by (simp_all add: list_item_def)
    have "trimmed (x @ CHR '','' # [] @ CHR '' '' # comma_list xs)"
      by (rule trimmed_two) (use x xs in \<open>auto simp: value_text_def is_ascii_def\<close>)
    with x xs show ?thesis by (simp add: comma_list_Cons [OF False] value_text_def)
  qed
qed

lemma split_comma_list:
  "xs \<noteq> [] \<Longrightarrow> list_all list_item xs \<Longrightarrow>
   map trim_space (split_on (CHR '','') (comma_list xs)) = xs"
proof (induction xs)
  case Nil
  then show ?case by simp
next
  case (Cons x xs)
  then have x: "trimmed x" "CHR '','' \<notin> set x" by (simp_all add: list_item_def value_text_def)
  show ?case
  proof (cases "xs = []")
    case True
    with x show ?thesis by (simp add: comma_list_def split_on_no_sep)
  next
    case False
    have "map trim_space (split_on (CHR '','') (CHR '' '' # comma_list xs))
          = map trim_space (split_on (CHR '','') (comma_list xs))"
      by (cases "split_on (CHR '','') (comma_list xs)") auto
    with Cons False x show ?thesis by (simp add: comma_list_Cons split_on_append)
  qed
qed

lemma splitList_map:
  assumes "\<And>t. t \<in> set (map trim_space (split_on (CHR '','') s)) \<Longrightarrow> t \<noteq> []"
  shows "splitList s = Inr (map trim_space (split_on (CHR '','') s))"
proof -
  have "rmap (\<lambda>piece. let t = trim_space piece in
      if t = [] then Inl (ErrParse TwoCommas s) else Inr t) ps = Inr (map trim_space ps)"
    if "\<forall>t\<in>set (map trim_space ps). t \<noteq> []" for ps
    using that by (induction ps) (auto simp: Let_def)
  with assms show ?thesis by (simp add: splitList_def)
qed

lemma splitList_comma_list:
  "xs \<noteq> [] \<Longrightarrow> list_all list_item xs \<Longrightarrow> splitList (comma_list xs) = Inr xs"
  using splitList_map [of "comma_list xs"] split_comma_list [of xs]
  by (auto simp: list_all_iff list_item_def value_text_def)

section \<open>Text codecs\<close>

locale text_codec =
  fixes print :: "'a \<Rightarrow> string"
    and parse :: "string \<Rightarrow> conf_error + 'a"
    and wf :: "'a \<Rightarrow> bool"
  assumes parse_print: "wf a \<Longrightarrow> parse (print a) = Inr a"
    and print_value: "wf a \<Longrightarrow> value_text (print a)"
begin

lemma print_inject: "wf a \<Longrightarrow> wf b \<Longrightarrow> print a = print b \<longleftrightarrow> a = b"
  by (metis parse_print sum.inject(2))

lemma print_nonempty: "wf a \<Longrightarrow> print a \<noteq> []"
  using print_value by (auto simp: value_text_def)

lemma parse_all: "list_all wf xs \<Longrightarrow> rmap parse (map print xs) = Inr xs"
  by (rule rmap_map_Inr) (simp add: parse_print list_all_iff)

text \<open>Duplicates are found by comparing the printed forms.\<close>

lemma first_by_print_distinct:
  "list_all wf xs \<Longrightarrow> distinct (first_by print seen xs)"
  using first_by_distinct [of print seen xs] by (simp add: distinct_map)

end

locale list_codec = text_codec +
  assumes print_no_comma: "wf a \<Longrightarrow> CHR '','' \<notin> set (print a)"
begin

lemma print_item: "wf a \<Longrightarrow> list_item (print a)"
  using print_value print_no_comma by (simp add: list_item_def)

lemma print_items: "list_all wf xs \<Longrightarrow> list_all list_item (map print xs)"
  by (simp add: list_all_iff print_item)

lemma list_roundtrip:
  assumes "xs \<noteq> []" and "list_all wf xs"
  shows "rbind (splitList (comma_list (map print xs))) (rmap parse) = Inr xs"
  using assms by (simp add: splitList_comma_list print_items parse_all)

lemma list_value: "xs \<noteq> [] \<Longrightarrow> list_all wf xs \<Longrightarrow> value_text (comma_list (map print xs))"
  by (rule comma_list_value) (simp_all add: print_items)

end

subsection \<open>Prefixes\<close>

lemma atoi_dec_word16: "atoi (dec (unat (n :: 16 word))) = Inr (int (unat n))"
proof -
  have "unat n < 65536" by (rule order_less_le_trans [OF unsigned_less]) simp
  then show ?thesis by (intro atoi_dec) linarith
qed

lemma atoi_dec_word8: "atoi (dec (unat (n :: 8 word))) = Inr (int (unat n))"
proof -
  have "unat n < 256" by simp
  then show ?thesis by (intro atoi_dec) linarith
qed

lemma slash_not_in_ip: "length a = 4 \<or> length a = 16 \<Longrightarrow> CHR ''/'' \<notin> set (ip_string a)"
  using ip_string_chars [of a "CHR ''/''"] by (auto simp: is_hex_def hex_val_def is_digit_def)

lemma parseIPCidr_string:
  assumes "wf_ipcidr r"
  shows "parseIPCidr (ipcidr_string r) = Inr (Some r)"
proof -
  let ?a = "IP r" and ?n = "Cidr r"
  have len: "length ?a = 4 \<or> length ?a = 16" using assms by (rule wf_ipcidr_length)
  have idx: "index_byte (CHR ''/'') (ipcidr_string r) = Some (length (ip_string ?a))"
    unfolding ipcidr_string_def using index_byte_append [OF slash_not_in_ip [OF len]] by simp
  have parts: "take (length (ip_string ?a)) (ipcidr_string r) = ip_string ?a"
    "drop (Suc (length (ip_string ?a))) (ipcidr_string r) = dec (unat ?n)"
    by (simp_all add: ipcidr_string_def)
  have w: "word_of_int (int (unat ?n)) = ?n" by simp
  from assms consider
      (v4) "length ?a = 4" "unat ?n \<le> 32"
    | (v6) "length ?a = 16" "to4 ?a = None" "unat ?n \<le> 128"
    by (auto simp: wf_ipcidr_def)
  then show ?thesis
  proof cases
    case v4
    with parse_ip_string [OF len] have "parse_ip (ip_string ?a) = Some (v4_mapped ?a)"
      by (simp add: to16_def)
    moreover from v4 have "\<not> int (unat ?n) < 0" "\<not> int (unat ?n) > 128" "\<not> int (unat ?n) > 32"
      by linarith+
    ultimately show ?thesis using v4 w
      by (simp add: parseIPCidr_def idx parts to4_v4_mapped atoi_dec_word8 Let_def)
  next
    case v6
    with parse_ip_string [OF len] have "parse_ip (ip_string ?a) = Some ?a"
      by (simp add: to16_def)
    moreover from v6 have "\<not> int (unat ?n) < 0" "\<not> int (unat ?n) > 128" by linarith+
    ultimately show ?thesis using v6 w
      by (simp add: parseIPCidr_def idx parts atoi_dec_word8 Let_def)
  qed
qed

lemma ip_string_value:
  assumes "length a = 4 \<or> length a = 16"
  shows "list_item (ip_string a)"
proof -
  have c: "is_hex c \<or> c = CHR ''.'' \<or> c = CHR '':''" if "c \<in> set (ip_string a)" for c
    using ip_string_chars [OF assms that] .
  have "is_graphic c" if "c \<in> set (ip_string a)" for c
    using c [OF that] hex_graphic by (auto simp: is_graphic_def)
  then have "list_all is_graphic (ip_string a)" by (simp add: list_all_iff)
  moreover have "CHR ''#'' \<notin> set (ip_string a)" "CHR '','' \<notin> set (ip_string a)"
    using c [of "CHR ''#''"] c [of "CHR '',''"] by (auto simp: is_hex_def hex_val_def is_digit_def)
  moreover have "ip_string a \<noteq> []"
  proof
    assume "ip_string a = []"
    with parse_ip_string [OF assms] show False by (simp add: parse_ip_def)
  qed
  ultimately show ?thesis by (simp add: list_item_def value_text_graphic)
qed

lemma ipcidr_string_item: "wf_ipcidr r \<Longrightarrow> list_item (ipcidr_string r)"
proof -
  assume "wf_ipcidr r"
  then have "list_item (ip_string (IP r))" by (intro ip_string_value wf_ipcidr_length)
  then have v: "value_text (ip_string (IP r))" "CHR '','' \<notin> set (ip_string (IP r))"
    by (simp_all add: list_item_def)
  have d: "c \<notin> set (dec n)" if "\<not> is_digit c" for c n using that by (rule dec_no_sep)
  have g: "trimmed (dec (unat (Cidr r)))" by (rule trimmed_all_graphic) (rule dec_graphic)
  have "trimmed (ip_string (IP r) @ CHR ''/'' # dec (unat (Cidr r)))"
  proof -
    have "\<not> starts_with_any go_spaces (ip_string (IP r) @ CHR ''/'' # dec (unat (Cidr r)))"
      by (rule starts_before_ascii) (use v in \<open>auto simp: value_text_def trimmed_def is_ascii_def\<close>)
    moreover have "\<not> starts_with_any (map rev go_spaces) (rev (ip_string (IP r) @ CHR ''/'' # dec (unat (Cidr r))))"
      by (rule ends_after_ascii) (use g in \<open>auto simp: trimmed_def is_ascii_def\<close>)
    ultimately show ?thesis by (simp add: trimmed_def)
  qed
  with v show ?thesis
    by (simp add: list_item_def value_text_def ipcidr_string_def d is_digit_def)
qed

interpretation prefix: list_codec ipcidr_string deref_IPCidr wf_ipcidr
  by unfold_locales
     (use ipcidr_string_item in \<open>auto simp: deref_IPCidr_def parseIPCidr_string list_item_def\<close>)

definition parse_dns_ip :: "string \<Rightarrow> conf_error + ip" where
  "parse_dns_ip s = (case parse_ip s of None \<Rightarrow> Inl (ErrParse InvalidIP s) | Some a \<Rightarrow> Inr a)"

interpretation dns: list_codec ip_string parse_dns_ip "\<lambda>a. length a = 16"
  by unfold_locales
     (use ip_string_value in \<open>auto simp: parse_dns_ip_def parse_ip_string to16_def list_item_def\<close>)

subsection \<open>Numbers and keys\<close>

lemma word16_back: "word_of_int (int (unat (n :: 16 word))) = n"
  by simp

lemma unat16_range: "\<not> int (unat (n :: 16 word)) < 0" "\<not> 65535 < int (unat (n :: 16 word))"
proof -
  have "unat n < 65536" by (rule order_less_le_trans [OF unsigned_less]) simp
  then show "\<not> int (unat n) < 0" "\<not> 65535 < int (unat n)" by linarith+
qed

lemma parsePort_num16 [simp]: "parsePort (num16 n) = Inr n"
  using unat16_range [of n] word16_back [of n] by (simp add: parsePort_def atoi_dec_word16)

lemma parseUint16_num16 [simp]: "parseUint16 (num16 n) nm = Inr n"
  using unat16_range [of n] word16_back [of n] by (simp add: parseUint16_def atoi_dec_word16)

lemma parseMTU_num16: "576 \<le> unat n \<Longrightarrow> parseMTU (num16 n) = Inr n"
proof -
  assume "576 \<le> unat n"
  then have "\<not> int (unat n) < 576" by linarith
  then show ?thesis
    using unat16_range [of n] word16_back [of n] by (simp add: parseMTU_def atoi_dec_word16)
qed

lemma num16_value [simp]: "value_text (num16 n)"
  by (rule value_text_graphic) (simp_all add: dec_graphic dec_no_sep is_digit_def)

definition wf_key :: "key \<Rightarrow> bool" where "wf_key k \<longleftrightarrow> length k = KeyLength"

interpretation key64: text_codec key_string parseKeyBase64 wf_key
proof unfold_locales
  fix k
  assume k: "wf_key k"
  then show "parseKeyBase64 (key_string k) = Inr k"
    by (simp add: parseKeyBase64_def key_string_def check_key_def b64.decode_enc wf_key_def)
  from k have "k \<noteq> []" by (auto simp: wf_key_def KeyLength_def)
  then show "value_text (key_string k)"
    unfolding key_string_def
    by (intro value_text_graphic b64.enc_graphic b64.enc_nonempty b64.enc_no_comment)
qed

interpretation keyhex: text_codec key_hex_string parseKeyHex wf_key
proof unfold_locales
  fix k
  assume k: "wf_key k"
  then show "parseKeyHex (key_hex_string k) = Inr k"
    by (simp add: parseKeyHex_def key_hex_string_def check_key_def hex.decode_enc wf_key_def)
  from k have "k \<noteq> []" by (auto simp: wf_key_def KeyLength_def)
  then show "value_text (key_hex_string k)"
    unfolding key_hex_string_def
    by (intro value_text_graphic hex.enc_graphic hex.enc_nonempty hex.enc_no_comment)
qed

subsection \<open>Endpoints\<close>

text \<open>
  A host with a colon after its first byte is printed in brackets and must be an IPv6
  address with an optional zone; any other host must not look bracketed.
\<close>

definition host_address :: "string \<Rightarrow> string" where
  "host_address h =
     (case last_index_byte (CHR ''%'') h of Some (Suc k) \<Rightarrow> take (Suc k) h | _ \<Rightarrow> h)"

definition wf_host :: "string \<Rightarrow> bool" where
  "wf_host h \<longleftrightarrow> h \<noteq> [] \<and> list_all is_graphic h \<and> CHR ''#'' \<notin> set h \<and>
     (case index_byte (CHR '':'') h of
        Some (Suc _) \<Rightarrow> parse_ip (host_address h) \<noteq> None
      | _ \<Rightarrow> hd h \<noteq> CHR ''['' \<and> last h \<noteq> CHR '']'')"

definition wf_endpoint :: "endpoint \<Rightarrow> bool" where
  "wf_endpoint e \<longleftrightarrow> wf_host (Host e)"

lemma index_byte_append_cases:
  "index_byte c (s @ t) =
     (case index_byte c s of
        Some i \<Rightarrow> Some i
      | None \<Rightarrow> map_option (\<lambda>i. i + length s) (index_byte c t))"
  by (induction s) (auto split: option.splits simp: option.map_comp comp_def option.map_ident)

lemma index_byte_less: "index_byte c s = Some i \<Longrightarrow> i < length s"
  by (drule index_byte_Some) simp

lemma last_index_byte_wrap:
  assumes "c \<noteq> a" and "c \<noteq> b"
  shows "last_index_byte c (a # s @ [b]) = map_option Suc (last_index_byte c s)"
  using assms index_byte_less [of c "rev s"]
  by (auto simp: last_index_byte_def index_byte_append_cases split: option.splits)

lemma take_length_append: "take (length h) (h @ t) = h"
  by simp

lemma endpoint_last_colon: "last_index_byte (CHR '':'') (h @ CHR '':'' # num16 n) = Some (length h)"
  by (rule last_index_byte_append) (simp add: dec_no_sep is_digit_def)

lemma parseEndpoint_plain:
  assumes "h \<noteq> []" and "hd h \<noteq> CHR ''[''" and "last h \<noteq> CHR '']''"
    and "\<And>k. index_byte (CHR '':'') h \<noteq> Some (Suc k)"
  shows "parseEndpoint (h @ CHR '':'' # num16 n) = Inr \<lparr> Host = h, Port = n \<rparr>"
  using assms(1-3) assms(4) [of "the (index_byte (CHR '':'') h) - 1"]
  by (auto simp: parseEndpoint_def colon_inside_def endpoint_last_colon Let_def split: option.splits)

lemma parseEndpoint_brackets:
  assumes ip: "parse_ip (host_address h) \<noteq> None" and colon: "index_byte (CHR '':'') h = Some (Suc k)"
  shows "parseEndpoint ((CHR ''['' # h @ '']'') @ CHR '':'' # num16 n) = Inr \<lparr> Host = h, Port = n \<rparr>"
proof -
  let ?host = "CHR ''['' # h @ '']''"
  have len: "2 \<le> length h" using index_byte_less [OF colon] by simp
  have inside: "colon_inside ?host"
    using colon by (simp add: colon_inside_def index_byte_append_cases)
  have zone: "last_index_byte (CHR ''%'') ?host = map_option Suc (last_index_byte (CHR ''%'') h)"
    by (rule last_index_byte_wrap) simp_all
  have addr: "bracketed_address ?host = host_address h"
  proof (cases "last_index_byte (CHR ''%'') h")
    case None
    then show ?thesis by (simp add: zone host_address_def bracketed_address_def)
  next
    case (Some j)
    then have "j < length h" using last_index_byte_Some by blast
    with Some show ?thesis by (cases j) (simp_all add: zone host_address_def bracketed_address_def)
  qed
  from ip obtain a where a: "parse_ip (bracketed_address ?host) = Some a" using addr by auto
  then have "length a = 16" by (rule parse_ip_length)
  moreover have "last_index_byte (CHR '':'') (?host @ CHR '':'' # num16 n) = Some (length ?host)"
    by (rule endpoint_last_colon)
  moreover have "3 < length ?host" "hd ?host = CHR ''[''" "last ?host = CHR '']''"
    "butlast (tl ?host) = h" using len by (simp_all add: butlast_append)
  ultimately show ?thesis using a inside
    unfolding parseEndpoint_def by (simp only: option.case Let_def take_length_append) simp
qed

lemma endpoint_roundtrip:
  assumes "wf_endpoint e"
  shows "parseEndpoint (endpoint_string e) = Inr e"
proof -
  from assms have h: "wf_host (Host e)" by (simp add: wf_endpoint_def)
  show ?thesis
  proof (cases "\<exists>k. index_byte (CHR '':'') (Host e) = Some (Suc k)")
    case True
    then obtain k where k: "index_byte (CHR '':'') (Host e) = Some (Suc k)" ..
    with h have "parse_ip (host_address (Host e)) \<noteq> None" by (simp add: wf_host_def)
    from parseEndpoint_brackets [OF this k, of "Port e"] k show ?thesis
      by (simp add: endpoint_string_def)
  next
    case False
    with h have p: "Host e \<noteq> []" "hd (Host e) \<noteq> CHR ''[''" "last (Host e) \<noteq> CHR '']''"
      by (auto simp: wf_host_def split: option.splits nat.splits)
    moreover from False have "endpoint_string e = Host e @ CHR '':'' # num16 (Port e)"
      by (auto simp: endpoint_string_def gr0_conv_Suc split: option.splits)
    ultimately show ?thesis using False parseEndpoint_plain [of "Host e" "Port e"] by simp
  qed
qed

interpretation endpoint: text_codec endpoint_string parseEndpoint wf_endpoint
proof unfold_locales
  fix e
  assume e: "wf_endpoint e"
  then show "parseEndpoint (endpoint_string e) = Inr e" by (rule endpoint_roundtrip)
  have "list_all is_graphic (endpoint_string e)" "CHR ''#'' \<notin> set (endpoint_string e)"
    using e dec_graphic [of "unat (Port e)"] dec_no_sep [of "CHR ''#''" "unat (Port e)"]
    by (auto simp: wf_endpoint_def wf_host_def endpoint_string_def is_graphic_def is_digit_def
        split: option.splits)
  then show "value_text (endpoint_string e)"
    by (intro value_text_graphic) (auto simp: endpoint_string_def split: option.splits)
qed

end
