(* ===== verification/WgQuickRoundtrip.thy ===== *)
theory WgQuickRoundtrip
  imports ConfRoundtrip
begin

text \<open>
  \<open>FromWgQuick\<close> inverts \<open>ToWgQuick\<close>. A written line \<open>Key = value\<close> runs the switch on the
  lower-cased key with exactly that value; folding the switch over the lines of an interface
  or peer rebuilds the record field by field.
\<close>

section \<open>One written line\<close>

definition key_text :: "string \<Rightarrow> bool" where
  "key_text k \<longleftrightarrow> k \<noteq> [] \<and> list_all name_char k \<and> CHR ''='' \<notin> set k"

lemma key_text_graphic: "key_text k \<Longrightarrow> list_all is_graphic k"
  by (auto simp: key_text_def list_all_iff name_char_graphic)

lemma lower_char_graphic: "is_graphic c \<Longrightarrow> is_graphic (lower_char c)"
  by (auto simp: is_graphic_def lower_char_def of_char_of)

lemma key_text_ascii: "key_text k \<Longrightarrow> list_all is_ascii k"
  using key_text_graphic graphic_ascii by (auto simp: list_all_iff)

lemma name_char_lower_bracket: "name_char c \<Longrightarrow> lower_char c \<noteq> CHR ''[''"
proof
  assume n: "name_char c" and l: "lower_char c = CHR ''[''"
  then have "byte (lower_char c) = 91" by simp
  with n show False
    by (auto simp: lower_char_def name_char_def is_digit_def of_char_of split: if_splits)
qed

lemma kv_split: "kv k v = k @ CHR '' '' # CHR ''='' # CHR '' '' # v"
  by (simp add: kv_def)

lemma kv_trimmed:
  assumes "key_text k" and "value_text v"
  shows "trimmed (kv k v)"
proof -
  from assms have k: "k \<noteq> []" "trimmed k" using key_text_graphic trimmed_all_graphic
    by (auto simp: key_text_def)
  have "trimmed (k @ CHR '' '' # ''='' @ CHR '' '' # v)"
    by (rule trimmed_two) (use assms(2) k in \<open>auto simp: value_text_def is_ascii_def\<close>)
  then show ?thesis by (simp add: kv_split)
qed

lemma kv_no_comment:
  assumes "key_text k" and "value_text v"
  shows "cut_comment (kv k v) = kv k v"
proof -
  have "CHR ''#'' \<notin> set k" using assms(1) by (auto simp: key_text_def list_all_iff name_char_def is_digit_def)
  then have "CHR ''#'' \<notin> set (kv k v)" using assms(2) by (simp add: kv_split value_text_def)
  then show ?thesis using index_byte_None [of "CHR ''#''" "kv k v"] by (simp add: cut_comment_def)
qed

lemma kv_no_newline: "key_text k \<Longrightarrow> value_text v \<Longrightarrow> NL \<notin> set (kv k v)"
  by (auto simp: key_text_def list_all_iff name_char_def is_digit_def kv_split value_text_def)

text \<open>What a key line does in either section, before the dispatch.\<close>

definition dispatch :: "parser \<Rightarrow> string \<Rightarrow> string \<Rightarrow> conf_error + parser" where
  "dispatch st key val =
     (case p_state st of
        InInterfaceSection \<Rightarrow>
          rbind (interface_key key val (Interface (p_conf st))) (\<lambda>ifc.
            Inr (st\<lparr>p_conf := (p_conf st)\<lparr>Interface := ifc\<rparr>,
                    p_saw := (p_saw st \<or> key = ''privatekey'')\<rparr>))
      | InPeerSection \<Rightarrow>
          (case p_peer st of
             None \<Rightarrow> Inl (Panic NilDeref)
           | Some p \<Rightarrow> rbind (peer_key key val p) (\<lambda>p'. Inr (st\<lparr>p_peer := Some p'\<rparr>)))
      | NotInASection \<Rightarrow> Inr st)"

lemma wgquick_line_kv:
  assumes k: "key_text k" and v: "value_text v" and st: "p_state st \<noteq> NotInASection"
  shows "wgquick_line u st (kv k v) = dispatch st (map lower_char k) v"
proof -
  let ?line = "kv k v" and ?low = "to_lower u (kv k v)" and ?n = "Suc (length k)"
  have line: "trim_space (cut_comment ?line) = ?line"
    using kv_no_comment [OF k v] kv_trimmed [OF k v] by simp
  have low: "?low = map lower_char k @ '' = '' @ to_lower u v"
  proof -
    have "list_all is_ascii (k @ '' = '')" using key_text_ascii [OF k] by (simp add: is_ascii_def)
    from to_lower_ascii_append [OF this, of u v] show ?thesis
      by (simp add: kv_def lower_char_def)
  qed
  have idx: "index_byte (CHR ''='') ?line = Some ?n"
    using index_byte_append [of "CHR ''=''" "k @ '' ''" "CHR '' '' # v"] k
    by (simp add: kv_split key_text_def)
  have key: "trim_space (take ?n ?low) = map lower_char k"
  proof -
    have g: "list_all is_graphic (map lower_char k)"
      using key_text_graphic [OF k] by (auto simp: list_all_iff lower_char_graphic)
    have ne: "map lower_char k \<noteq> []" using k by (simp add: key_text_def)
    have t: "trimmed (map lower_char k)" by (rule trimmed_all_graphic) (rule g)
    then have "\<not> starts_with_any go_spaces (map lower_char k)" by (simp add: trimmed_def)
    moreover have "take ?n ?low = map lower_char k @ '' ''" by (simp add: low)
    ultimately show ?thesis using trim_space_tail_blank ne t by simp
  qed
  have val: "trim_space (drop (Suc ?n) ?line) = v"
    using v by (simp add: kv_split value_text_def)
  have start: "?low \<noteq> ''[interface]''" "?low \<noteq> ''[peer]''"
  proof -
    from k obtain c cs where c: "k = c # cs" "name_char c" by (cases k) (auto simp: key_text_def)
    then have "hd ?low \<noteq> CHR ''[''" unfolding low using name_char_lower_bracket by simp
    then show "?low \<noteq> ''[interface]''" "?low \<noteq> ''[peer]''" by auto
  qed
  have ne: "?line \<noteq> []" "v \<noteq> []" using v by (simp_all add: kv_split value_text_def)
  have len: "\<not> length ?low < ?n" unfolding low by simp
  show ?thesis
    unfolding wgquick_line_def Let_def line idx option.case key val
    using st start ne len by (simp add: dispatch_def)
qed

section \<open>Folding the switch\<close>

text \<open>A list of keys and values, run through the switch of a section.\<close>

definition run_interface :: "interface \<Rightarrow> (string \<times> string) list \<Rightarrow> conf_error + interface" where
  "run_interface = rfold (\<lambda>i (k, v). interface_key (map lower_char k) v i)"

definition run_peer :: "peer \<Rightarrow> (string \<times> string) list \<Rightarrow> conf_error + peer" where
  "run_peer = rfold (\<lambda>p (k, v). peer_key (map lower_char k) v p)"

definition good_kv :: "string \<times> string \<Rightarrow> bool" where
  "good_kv kvp \<longleftrightarrow> key_text (fst kvp) \<and> value_text (snd kvp)"

abbreviation kv_line :: "string \<times> string \<Rightarrow> string" where "kv_line p \<equiv> kv (fst p) (snd p)"

lemma fold_interface_lines:
  assumes "list_all good_kv kvs" and "p_state st = InInterfaceSection"
    and "run_interface (Interface (p_conf st)) kvs = Inr i"
  shows "rfold (wgquick_line u) st (map kv_line kvs) =
    Inr (st\<lparr>p_conf := (p_conf st)\<lparr>Interface := i\<rparr>,
            p_saw := (p_saw st \<or> (\<exists>p\<in>set kvs. map lower_char (fst p) = ''privatekey''))\<rparr>)"
  using assms
proof (induction kvs arbitrary: st)
  case Nil
  then show ?case by (simp add: run_interface_def)
next
  case (Cons p kvs)
  from Cons.prems(3) obtain i1 where
    i1: "interface_key (map lower_char (fst p)) (snd p) (Interface (p_conf st)) = Inr i1"
    and rest: "run_interface i1 kvs = Inr i"
    by (auto simp: run_interface_def rbind_Inr_iff split: prod.splits)
  define st1 where "st1 = st\<lparr>p_conf := (p_conf st)\<lparr>Interface := i1\<rparr>,
      p_saw := (p_saw st \<or> map lower_char (fst p) = ''privatekey'')\<rparr>"
  have "wgquick_line u st (kv_line p) = Inr st1"
    using wgquick_line_kv [of "fst p" "snd p" st u] Cons.prems(1,2) i1
    by (simp add: good_kv_def dispatch_def st1_def)
  moreover have "rfold (wgquick_line u) st1 (map kv_line kvs) =
    Inr (st1\<lparr>p_conf := (p_conf st1)\<lparr>Interface := i\<rparr>,
            p_saw := (p_saw st1 \<or> (\<exists>p\<in>set kvs. map lower_char (fst p) = ''privatekey''))\<rparr>)"
    by (rule Cons.IH) (use Cons.prems rest in \<open>simp_all add: st1_def\<close>)
  ultimately show ?case by (simp add: st1_def disj_assoc)
qed

lemma fold_peer_lines:
  assumes "list_all good_kv kvs" and "p_state st = InPeerSection" and "p_peer st = Some p"
    and "run_peer p kvs = Inr q"
  shows "rfold (wgquick_line u) st (map kv_line kvs) = Inr (st\<lparr>p_peer := Some q\<rparr>)"
  using assms
proof (induction kvs arbitrary: st p)
  case Nil
  then show ?case by (simp add: run_peer_def)
next
  case (Cons kvp kvs)
  from Cons.prems(4) obtain p1 where
    p1: "peer_key (map lower_char (fst kvp)) (snd kvp) p = Inr p1" and rest: "run_peer p1 kvs = Inr q"
    by (auto simp: run_peer_def rbind_Inr_iff split: prod.splits)
  have "wgquick_line u st (kv_line kvp) = Inr (st\<lparr>p_peer := Some p1\<rparr>)"
    using wgquick_line_kv [of "fst kvp" "snd kvp" st u] Cons.prems(1-3) p1
    by (simp add: good_kv_def dispatch_def)
  moreover have "rfold (wgquick_line u) (st\<lparr>p_peer := Some p1\<rparr>) (map kv_line kvs) =
      Inr ((st\<lparr>p_peer := Some p1\<rparr>)\<lparr>p_peer := Some q\<rparr>)"
    by (rule Cons.IH) (use Cons.prems rest in simp_all)
  ultimately show ?case by simp
qed

section \<open>The interface\<close>

definition opt_kv :: "bool \<Rightarrow> string \<Rightarrow> string \<Rightarrow> (string \<times> string) list" where
  "opt_kv b k v = (if b then [(k, v)] else [])"

lemma opt_kv_lines: "opt_line b (kv k v) = map kv_line (opt_kv b k v)"
  by (simp add: opt_line_def opt_kv_def)

lemma good_opt_kv [simp]: "list_all good_kv (opt_kv b k v) \<longleftrightarrow> (b \<longrightarrow> key_text k \<and> value_text v)"
  by (simp add: opt_kv_def good_kv_def)

definition wf_value :: "string \<Rightarrow> bool" where "wf_value v \<longleftrightarrow> (v \<noteq> [] \<longrightarrow> value_text v)"

lemma run_opt:
  assumes "b \<Longrightarrow> interface_key (map lower_char k) v r = Inr r'" and "\<not> b \<Longrightarrow> r' = r"
  shows "run_interface r (opt_kv b k v @ rest) = run_interface r' rest"
  using assms by (simp add: run_interface_def opt_kv_def)

named_theorems run_steps \<open>one written line, run through the switch\<close>

lemma not_pos_word: "\<not> 0 < (v :: 'a::len word) \<longleftrightarrow> v = 0"
  using word_gt_0 [of v] by auto

lemma run_numbers [run_steps]:
  "ListenPort r = 0 \<Longrightarrow>
   run_interface r (opt_kv (0 < v) ''ListenPort'' (num16 v) @ rest) = run_interface (r\<lparr>ListenPort := v\<rparr>) rest"
  "JunkPacketCount r = 0 \<Longrightarrow>
   run_interface r (opt_kv (0 < v) ''Jc'' (num16 v) @ rest) = run_interface (r\<lparr>JunkPacketCount := v\<rparr>) rest"
  "JunkPacketMinSize r = 0 \<Longrightarrow>
   run_interface r (opt_kv (0 < v) ''Jmin'' (num16 v) @ rest) = run_interface (r\<lparr>JunkPacketMinSize := v\<rparr>) rest"
  "JunkPacketMaxSize r = 0 \<Longrightarrow>
   run_interface r (opt_kv (0 < v) ''Jmax'' (num16 v) @ rest) = run_interface (r\<lparr>JunkPacketMaxSize := v\<rparr>) rest"
  "InitPacketJunkSize r = 0 \<Longrightarrow>
   run_interface r (opt_kv (0 < v) ''S1'' (num16 v) @ rest) = run_interface (r\<lparr>InitPacketJunkSize := v\<rparr>) rest"
  "ResponsePacketJunkSize r = 0 \<Longrightarrow>
   run_interface r (opt_kv (0 < v) ''S2'' (num16 v) @ rest) = run_interface (r\<lparr>ResponsePacketJunkSize := v\<rparr>) rest"
  "CookieReplyPacketJunkSize r = 0 \<Longrightarrow>
   run_interface r (opt_kv (0 < v) ''S3'' (num16 v) @ rest) = run_interface (r\<lparr>CookieReplyPacketJunkSize := v\<rparr>) rest"
  "TransportPacketJunkSize r = 0 \<Longrightarrow>
   run_interface r (opt_kv (0 < v) ''S4'' (num16 v) @ rest) = run_interface (r\<lparr>TransportPacketJunkSize := v\<rparr>) rest"
  by (auto intro!: run_opt interface.equality simp: interface_key_def set_uint16_def not_pos_word)

lemma run_headers [run_steps]:
  "InitPacketMagicHeader r = [] \<Longrightarrow>
   run_interface r (opt_kv (v \<noteq> []) ''H1'' v @ rest) = run_interface (r\<lparr>InitPacketMagicHeader := v\<rparr>) rest"
  "ResponsePacketMagicHeader r = [] \<Longrightarrow>
   run_interface r (opt_kv (v \<noteq> []) ''H2'' v @ rest) = run_interface (r\<lparr>ResponsePacketMagicHeader := v\<rparr>) rest"
  "UnderloadPacketMagicHeader r = [] \<Longrightarrow>
   run_interface r (opt_kv (v \<noteq> []) ''H3'' v @ rest) = run_interface (r\<lparr>UnderloadPacketMagicHeader := v\<rparr>) rest"
  "TransportPacketMagicHeader r = [] \<Longrightarrow>
   run_interface r (opt_kv (v \<noteq> []) ''H4'' v @ rest) = run_interface (r\<lparr>TransportPacketMagicHeader := v\<rparr>) rest"
  by (auto intro!: run_opt interface.equality simp: interface_key_def)

lemma run_timings [run_steps]:
  "ContentPaddingAddition r = [] \<Longrightarrow>
   run_interface r (opt_kv (v \<noteq> []) ''ContentPaddingAddition'' v @ rest) = run_interface (r\<lparr>ContentPaddingAddition := v\<rparr>) rest"
  "RekeyAfterTime r = [] \<Longrightarrow>
   run_interface r (opt_kv (v \<noteq> []) ''RekeyAfterTime'' v @ rest) = run_interface (r\<lparr>RekeyAfterTime := v\<rparr>) rest"
  "RekeyTimeout r = [] \<Longrightarrow>
   run_interface r (opt_kv (v \<noteq> []) ''RekeyTimeout'' v @ rest) = run_interface (r\<lparr>RekeyTimeout := v\<rparr>) rest"
  "RejectAfterTime r = [] \<Longrightarrow>
   run_interface r (opt_kv (v \<noteq> []) ''RejectAfterTime'' v @ rest) = run_interface (r\<lparr>RejectAfterTime := v\<rparr>) rest"
  "KeepaliveTimeout r = [] \<Longrightarrow>
   run_interface r (opt_kv (v \<noteq> []) ''KeepaliveTimeout'' v @ rest) = run_interface (r\<lparr>KeepaliveTimeout := v\<rparr>) rest"
  "MaxHandshakeAttempts r = [] \<Longrightarrow>
   run_interface r (opt_kv (v \<noteq> []) ''MaxHandshakeAttempts'' v @ rest) = run_interface (r\<lparr>MaxHandshakeAttempts := v\<rparr>) rest"
  "RandomTrailers r = [] \<Longrightarrow>
   run_interface r (opt_kv (v \<noteq> []) ''RandomTrailers'' v @ rest) = run_interface (r\<lparr>RandomTrailers := v\<rparr>) rest"
  "DisableCookies r = [] \<Longrightarrow>
   run_interface r (opt_kv (v \<noteq> []) ''DisableCookies'' v @ rest) = run_interface (r\<lparr>DisableCookies := v\<rparr>) rest"
  by (auto intro!: run_opt interface.equality simp: interface_key_def)

lemma run_scripts [run_steps]:
  "PreUp r = [] \<Longrightarrow>
   run_interface r (opt_kv (v \<noteq> []) ''PreUp'' v @ rest) = run_interface (r\<lparr>PreUp := v\<rparr>) rest"
  "PostUp r = [] \<Longrightarrow>
   run_interface r (opt_kv (v \<noteq> []) ''PostUp'' v @ rest) = run_interface (r\<lparr>PostUp := v\<rparr>) rest"
  "PreDown r = [] \<Longrightarrow>
   run_interface r (opt_kv (v \<noteq> []) ''PreDown'' v @ rest) = run_interface (r\<lparr>PreDown := v\<rparr>) rest"
  "PostDown r = [] \<Longrightarrow>
   run_interface r (opt_kv (v \<noteq> []) ''PostDown'' v @ rest) = run_interface (r\<lparr>PostDown := v\<rparr>) rest"
  "PinEndpointVia r = [] \<Longrightarrow>
   run_interface r (opt_kv (v \<noteq> []) ''PinEndpointVia'' v @ rest) = run_interface (r\<lparr>PinEndpointVia := v\<rparr>) rest"
  by (auto intro!: run_opt interface.equality simp: interface_key_def)

lemma run_keys [run_steps]:
  "wf_key k \<Longrightarrow>
   run_interface r ((''PrivateKey'', key_string k) # rest) = run_interface (r\<lparr>PrivateKey := k\<rparr>) rest"
  "wf_key k \<Longrightarrow> HeaderProtectionKey r = zero_key \<Longrightarrow>
   run_interface r (opt_kv (\<not> key_is_zero k) ''HeaderProtectionKey'' (key_string k) @ rest) =
   run_interface (r\<lparr>HeaderProtectionKey := k\<rparr>) rest"
  by (simp add: run_interface_def interface_key_def key64.parse_print)
     (auto intro!: run_opt interface.equality
       simp: interface_key_def key64.parse_print key64.print_nonempty key_is_zero_def)

lemma parse_addresses_print:
  "as \<noteq> [] \<Longrightarrow> list_all wf_ipcidr as \<Longrightarrow>
   parse_addresses (comma_list (map ipcidr_string as)) = Inr as"
  unfolding parse_addresses_def by (rule prefix.list_roundtrip)

definition wf_search :: "string \<Rightarrow> bool" where
  "wf_search s \<longleftrightarrow> list_item s \<and> parse_ip s = None"

lemma parse_dns_print:
  assumes "list_all (\<lambda>a. length a = 16) ips" and "list_all wf_search names"
  shows "parse_dns (map ip_string ips @ names) = (ips, names)"
proof -
  have ip: "parse_ip (ip_string a) = Some a" if "a \<in> set ips" for a
    using assms(1) that by (simp add: list_all_iff parse_ip_string to16_def)
  have "filter (\<lambda>s. parse_ip s \<noteq> None) (map ip_string ips) = map ip_string ips"
    "filter (\<lambda>s. parse_ip s = None) (map ip_string ips) = []"
    using ip by (auto simp: filter_empty_conv)
  moreover have "filter (\<lambda>s. parse_ip s \<noteq> None) names = []"
    "filter (\<lambda>s. parse_ip s = None) names = names"
    using assms(2) by (auto simp: list_all_iff wf_search_def filter_empty_conv intro!: filter_True)
  moreover have "map (\<lambda>s. the (parse_ip s)) (map ip_string ips) = ips"
    using ip by (simp add: map_idI)
  ultimately show ?thesis by (simp add: parse_dns_def)
qed

lemma dns_split:
  assumes "list_all (\<lambda>a. length a = 16) ips" and "list_all wf_search names"
    and "ips \<noteq> [] \<or> names \<noteq> []"
  shows "splitList (comma_list (map ip_string ips @ names)) = Inr (map ip_string ips @ names)"
proof (rule splitList_comma_list)
  show "map ip_string ips @ names \<noteq> []" using assms(3) by simp
  show "list_all list_item (map ip_string ips @ names)"
    using assms(2) dns.print_items [OF assms(1)] by (auto simp: list_all_iff wf_search_def)
qed

lemma run_network [run_steps]:
  "Addresses r = [] \<Longrightarrow> list_all wf_ipcidr as \<Longrightarrow>
   run_interface r (opt_kv (as \<noteq> []) ''Address'' (comma_list (map ipcidr_string as)) @ rest) =
   run_interface (r\<lparr>Addresses := as\<rparr>) rest"
  "DNS r = [] \<Longrightarrow> DNSSearch r = [] \<Longrightarrow>
   list_all (\<lambda>a. length a = 16) ips \<Longrightarrow> list_all wf_search names \<Longrightarrow>
   run_interface r (opt_kv (ips = [] \<longrightarrow> names \<noteq> []) ''DNS''
     (comma_list (map ip_string ips @ names)) @ rest) =
   run_interface (r\<lparr>DNS := ips, DNSSearch := names\<rparr>) rest"
  "576 \<le> unat m \<Longrightarrow>
   run_interface r (opt_kv (0 < m) ''MTU'' (num16 m) @ rest) = run_interface (r\<lparr>MTU := m\<rparr>) rest"
  "\<not> TableOff r \<Longrightarrow>
   run_interface r (opt_kv b ''Table'' ''off'' @ rest) = run_interface (r\<lparr>TableOff := b\<rparr>) rest"
  by (auto intro!: run_opt interface.equality
      simp: interface_key_def parse_addresses_print parse_dns_print dns_split
        parseMTU_num16 not_pos_word parseTableOff_def)

text \<open>The special packets, visited in any order.\<close>

definition packet_keys :: "string list" where
  "packet_keys = [''i1'', ''i2'', ''i3'', ''i4'', ''i5'']"

lemma to_upper_packet: "is_digit d \<Longrightarrow> to_upper u [CHR ''i'', d] = [CHR ''I'', d]"
proof -
  assume d: "is_digit d"
  then have "list_all is_ascii [CHR ''i'', d]" by (simp add: is_ascii_def is_digit_def)
  moreover have "(char_of (73 :: nat) :: char) = CHR ''I''" by (simp add: char_of_def bit_iff_odd)
  ultimately show ?thesis using runes_ascii [of "[CHR ''i'', d]"] d
    by (simp add: to_upper_def upper_rune_def encode_rune_ascii is_digit_def)
qed

lemma packet_key_digit: "k \<in> set packet_keys \<longleftrightarrow> (\<exists>d\<in>set ''12345''. k = [CHR ''i'', d])"
  by (auto simp: packet_keys_def)

lemma packet_key_case:
  assumes "k \<in> set packet_keys"
  shows "map lower_char (to_upper u k) = k \<and> key_text (to_upper u k)"
proof -
  from assms obtain d where d: "d \<in> set ''12345''" "k = [CHR ''i'', d]"
    by (auto simp: packet_key_digit)
  then have "is_digit d" "d \<noteq> CHR ''=''" by (auto simp: is_digit_def)
  then show ?thesis
    by (simp add: to_upper_packet d(2) key_text_def name_char_def is_digit_def)
qed

lemma interface_key_packet:
  assumes "k \<in> set packet_keys" and "v \<noteq> []"
  shows "interface_key k v r = Inr (r\<lparr>IPackets := (IPackets r)(k \<mapsto> v)\<rparr>)"
proof -
  from assms(1) consider "k = ''i1''" | "k = ''i2''" | "k = ''i3''" | "k = ''i4''" | "k = ''i5''"
    by (auto simp: packet_keys_def)
  then show ?thesis using assms(2) by cases (simp_all add: interface_key_def)
qed

lemma run_packets:
  assumes "set ord \<subseteq> set packet_keys" and "\<And>k. k \<in> set ord \<Longrightarrow> value_text (f k)"
  shows "run_interface r (map (\<lambda>k. (to_upper u k, f k)) ord @ rest) =
    run_interface (r\<lparr>IPackets := (\<lambda>k. if k \<in> set ord then Some (f k) else IPackets r k)\<rparr>) rest"
  using assms
proof (induction ord arbitrary: r)
  case Nil
  then show ?case by simp
next
  case (Cons k ord)
  then have "interface_key (map lower_char (to_upper u k)) (f k) r
      = Inr (r\<lparr>IPackets := (IPackets r)(k \<mapsto> f k)\<rparr>)"
    using packet_key_case [of k u] by (simp add: interface_key_packet value_text_def)
  then have "run_interface r (map (\<lambda>k. (to_upper u k, f k)) (k # ord) @ rest) =
      run_interface (r\<lparr>IPackets := (IPackets r)(k \<mapsto> f k)\<rparr>) (map (\<lambda>k. (to_upper u k, f k)) ord @ rest)"
    by (simp add: run_interface_def)
  also have "\<dots> = run_interface (r\<lparr>IPackets := (\<lambda>j. if j \<in> set (k # ord) then Some (f j) else IPackets r j)\<rparr>) rest"
    using Cons by (auto intro!: arg_cong2 [where f = run_interface] interface.equality)
  finally show ?case .
qed

lemma run_packets_all:
  assumes "dom m \<subseteq> set packet_keys" and "\<forall>v\<in>ran m. value_text v" and "set ord = dom m"
    and "IPackets r = Map.empty"
  shows "run_interface r (map (\<lambda>k. (to_upper u k, the (m k))) ord @ rest) =
    run_interface (r\<lparr>IPackets := m\<rparr>) rest"
proof -
  have "value_text (the (m k))" if "k \<in> set ord" for k
    using that assms(2,3) by (auto intro: ranI)
  moreover have "(\<lambda>k. if k \<in> set ord then Some (the (m k)) else IPackets r k) = m"
    using assms(3,4) by (auto simp: fun_eq_iff domIff)
  ultimately show ?thesis using run_packets [of ord "\<lambda>k. the (m k)" r u rest] assms(1,3) by simp
qed

definition wf_interface :: "interface \<Rightarrow> bool" where
  "wf_interface i \<longleftrightarrow>
     wf_key (PrivateKey i) \<and> wf_key (HeaderProtectionKey i)
     \<and> list_all wf_ipcidr (Addresses i) \<and> list_all (\<lambda>a. length a = 16) (DNS i)
     \<and> list_all wf_search (DNSSearch i) \<and> 576 \<le> unat (MTU i)
     \<and> dom (IPackets i) \<subseteq> set packet_keys \<and> (\<forall>v\<in>ran (IPackets i). value_text v)
     \<and> list_all wf_value
         [PreUp i, PostUp i, PreDown i, PostDown i, PinEndpointVia i,
          InitPacketMagicHeader i, ResponsePacketMagicHeader i, UnderloadPacketMagicHeader i,
          TransportPacketMagicHeader i, ContentPaddingAddition i, RekeyAfterTime i, RekeyTimeout i,
          RejectAfterTime i, KeepaliveTimeout i, MaxHandshakeAttempts i, RandomTrailers i,
          DisableCookies i]"

definition junk_kvs :: "interface \<Rightarrow> (string \<times> string) list" where
  "junk_kvs i =
     opt_kv (0 < ListenPort i) ''ListenPort'' (num16 (ListenPort i))
     @ opt_kv (0 < JunkPacketCount i) ''Jc'' (num16 (JunkPacketCount i))
     @ opt_kv (0 < JunkPacketMinSize i) ''Jmin'' (num16 (JunkPacketMinSize i))
     @ opt_kv (0 < JunkPacketMaxSize i) ''Jmax'' (num16 (JunkPacketMaxSize i))
     @ opt_kv (0 < InitPacketJunkSize i) ''S1'' (num16 (InitPacketJunkSize i))
     @ opt_kv (0 < ResponsePacketJunkSize i) ''S2'' (num16 (ResponsePacketJunkSize i))
     @ opt_kv (0 < CookieReplyPacketJunkSize i) ''S3'' (num16 (CookieReplyPacketJunkSize i))
     @ opt_kv (0 < TransportPacketJunkSize i) ''S4'' (num16 (TransportPacketJunkSize i))
     @ opt_kv (InitPacketMagicHeader i \<noteq> []) ''H1'' (InitPacketMagicHeader i)
     @ opt_kv (ResponsePacketMagicHeader i \<noteq> []) ''H2'' (ResponsePacketMagicHeader i)
     @ opt_kv (UnderloadPacketMagicHeader i \<noteq> []) ''H3'' (UnderloadPacketMagicHeader i)
     @ opt_kv (TransportPacketMagicHeader i \<noteq> []) ''H4'' (TransportPacketMagicHeader i)"

definition timing_kvs :: "interface \<Rightarrow> (string \<times> string) list" where
  "timing_kvs i =
     opt_kv (\<not> key_is_zero (HeaderProtectionKey i)) ''HeaderProtectionKey''
         (key_string (HeaderProtectionKey i))
     @ opt_kv (ContentPaddingAddition i \<noteq> []) ''ContentPaddingAddition'' (ContentPaddingAddition i)
     @ opt_kv (RekeyAfterTime i \<noteq> []) ''RekeyAfterTime'' (RekeyAfterTime i)
     @ opt_kv (RekeyTimeout i \<noteq> []) ''RekeyTimeout'' (RekeyTimeout i)
     @ opt_kv (RejectAfterTime i \<noteq> []) ''RejectAfterTime'' (RejectAfterTime i)
     @ opt_kv (KeepaliveTimeout i \<noteq> []) ''KeepaliveTimeout'' (KeepaliveTimeout i)
     @ opt_kv (MaxHandshakeAttempts i \<noteq> []) ''MaxHandshakeAttempts'' (MaxHandshakeAttempts i)
     @ opt_kv (RandomTrailers i \<noteq> []) ''RandomTrailers'' (RandomTrailers i)
     @ opt_kv (DisableCookies i \<noteq> []) ''DisableCookies'' (DisableCookies i)"

definition network_kvs :: "interface \<Rightarrow> (string \<times> string) list" where
  "network_kvs i =
     opt_kv (Addresses i \<noteq> []) ''Address'' (comma_list (map ipcidr_string (Addresses i)))
     @ opt_kv (DNS i \<noteq> [] \<or> DNSSearch i \<noteq> []) ''DNS'' (comma_list (map ip_string (DNS i) @ DNSSearch i))
     @ opt_kv (0 < MTU i) ''MTU'' (num16 (MTU i))
     @ opt_kv (PreUp i \<noteq> []) ''PreUp'' (PreUp i)
     @ opt_kv (PostUp i \<noteq> []) ''PostUp'' (PostUp i)
     @ opt_kv (PreDown i \<noteq> []) ''PreDown'' (PreDown i)
     @ opt_kv (PostDown i \<noteq> []) ''PostDown'' (PostDown i)
     @ opt_kv (TableOff i) ''Table'' ''off''
     @ opt_kv (PinEndpointVia i \<noteq> []) ''PinEndpointVia'' (PinEndpointVia i)"

definition interface_kvs :: "unicode \<Rightarrow> string list \<Rightarrow> interface \<Rightarrow> (string \<times> string) list" where
  "interface_kvs u ord i =
     (''PrivateKey'', key_string (PrivateKey i)) # junk_kvs i
     @ map (\<lambda>k. (to_upper u k, the (IPackets i k))) ord @ timing_kvs i @ network_kvs i @ []"

lemma interface_lines_kvs:
  "interface_lines u ord i = ''[Interface]'' # map kv_line (interface_kvs u ord i)"
  by (simp add: interface_lines_def interface_kvs_def junk_lines_def junk_kvs_def timing_lines_def
      timing_kvs_def network_lines_def network_kvs_def opt_kv_lines comp_def)

lemma run_interface_kvs:
  assumes wf: "wf_interface i" and ord: "set ord = dom (IPackets i)"
    and start: "r = zero_interface\<lparr>MTU := m\<rparr>"
  shows "run_interface r (interface_kvs u ord i) = Inr i"
proof -
  have "run_interface r (interface_kvs u ord i) =
    run_interface (zero_interface\<lparr>MTU := m, PrivateKey := PrivateKey i,
      ListenPort := ListenPort i, JunkPacketCount := JunkPacketCount i,
      JunkPacketMinSize := JunkPacketMinSize i, JunkPacketMaxSize := JunkPacketMaxSize i,
      InitPacketJunkSize := InitPacketJunkSize i, ResponsePacketJunkSize := ResponsePacketJunkSize i,
      CookieReplyPacketJunkSize := CookieReplyPacketJunkSize i,
      TransportPacketJunkSize := TransportPacketJunkSize i,
      InitPacketMagicHeader := InitPacketMagicHeader i,
      ResponsePacketMagicHeader := ResponsePacketMagicHeader i,
      UnderloadPacketMagicHeader := UnderloadPacketMagicHeader i,
      TransportPacketMagicHeader := TransportPacketMagicHeader i, IPackets := IPackets i\<rparr>)
      (timing_kvs i @ network_kvs i @ [])"
    using wf unfolding interface_kvs_def junk_kvs_def start wf_interface_def
    by (simp add: run_steps run_packets_all ord zero_interface_def)
  also have "\<dots> = run_interface i []"
    using wf unfolding timing_kvs_def network_kvs_def wf_interface_def
    by (simp add: run_steps zero_interface_def del: append_Nil2)
       (auto simp: run_interface_def intro!: interface.equality)
  finally show ?thesis by (simp add: run_interface_def)
qed

lemma good_interface_kvs:
  assumes wf: "wf_interface i" and ord: "set ord = dom (IPackets i)"
  shows "list_all good_kv (interface_kvs u ord i)"
proof -
  have "list_all good_kv (map (\<lambda>k. (to_upper u k, the (IPackets i k))) ord)"
    using wf ord packet_key_case by (force simp: list_all_iff good_kv_def wf_interface_def intro: ranI)
  moreover have "good_kv (''PrivateKey'', key_string (PrivateKey i))"
    using wf key64.print_value by (simp add: good_kv_def wf_interface_def key_text_def name_char_def)
  moreover have "list_all good_kv (junk_kvs i)"
    using wf by (simp add: junk_kvs_def key_text_def name_char_def is_digit_def wf_interface_def wf_value_def)
  moreover have "list_all good_kv (timing_kvs i)"
    using wf key64.print_value
    by (simp add: timing_kvs_def key_text_def name_char_def wf_interface_def wf_value_def)
  moreover have "value_text (comma_list (map ip_string (DNS i) @ DNSSearch i))"
    if "DNS i \<noteq> [] \<or> DNSSearch i \<noteq> []"
    using that wf dns.print_items [of "DNS i"]
    by (intro comma_list_value) (auto simp: wf_interface_def list_all_iff wf_search_def)
  moreover have "value_text ''off''" by (rule value_text_graphic) (simp_all add: is_graphic_def)
  ultimately show ?thesis
    using wf prefix.list_value
    by (simp add: interface_kvs_def network_kvs_def key_text_def name_char_def wf_interface_def wf_value_def)
qed

section \<open>Peers\<close>

text \<open>
  The values the writer leaves out are the ones the reader starts from: no counters, and no
  keepalive instead of a zero one.
\<close>

definition wf_peer :: "peer \<Rightarrow> bool" where
  "wf_peer p \<longleftrightarrow>
     wf_key (PublicKey p) \<and> \<not> key_is_zero (PublicKey p) \<and> wf_key (PresharedKey p)
     \<and> list_all wf_ipcidr (AllowedIPs p)
     \<and> (Endpoint p = zero_endpoint \<or> wf_endpoint (Endpoint p))
     \<and> wf_value (PersistentKeepalive p)
     \<and> PersistentKeepalive p \<notin> {''0'', ''off'', ''(off)''}
     \<and> RxBytes p = 0 \<and> TxBytes p = 0 \<and> LastHandshakeTime p = 0"

definition peer_kvs :: "peer \<Rightarrow> (string \<times> string) list" where
  "peer_kvs p =
     (''PublicKey'', key_string (PublicKey p))
     # opt_kv (\<not> key_is_zero (PresharedKey p)) ''PresharedKey'' (key_string (PresharedKey p))
     @ opt_kv (AllowedIPs p \<noteq> []) ''AllowedIPs'' (comma_list (map ipcidr_string (AllowedIPs p)))
     @ opt_kv (\<not> endpoint_is_empty (Endpoint p)) ''Endpoint'' (endpoint_string (Endpoint p))
     @ opt_kv (PersistentKeepalive p \<noteq> [] \<and> PersistentKeepalive p \<noteq> ''0''
                 \<and> PersistentKeepalive p \<noteq> ''off'')
         ''PersistentKeepalive'' (PersistentKeepalive p) @ []"

lemma peer_lines_kvs: "peer_lines p = [[], ''[Peer]''] @ map kv_line (peer_kvs p)"
  by (simp add: peer_lines_def peer_kvs_def opt_kv_lines)

lemma run_peer_opt:
  assumes "b \<Longrightarrow> peer_key (map lower_char k) v p = Inr q" and "\<not> b \<Longrightarrow> q = p"
  shows "run_peer p (opt_kv b k v @ rest) = run_peer q rest"
  using assms by (simp add: run_peer_def opt_kv_def)

lemma run_peer_steps:
  "wf_key k \<Longrightarrow>
   run_peer p ((''PublicKey'', key_string k) # rest) = run_peer (p\<lparr>PublicKey := k\<rparr>) rest"
  "wf_key k \<Longrightarrow> PresharedKey p = zero_key \<Longrightarrow>
   run_peer p (opt_kv (\<not> key_is_zero k) ''PresharedKey'' (key_string k) @ rest) =
   run_peer (p\<lparr>PresharedKey := k\<rparr>) rest"
  "AllowedIPs p = [] \<Longrightarrow> list_all wf_ipcidr as \<Longrightarrow>
   run_peer p (opt_kv (as \<noteq> []) ''AllowedIPs'' (comma_list (map ipcidr_string as)) @ rest) =
   run_peer (p\<lparr>AllowedIPs := as\<rparr>) rest"
  "Endpoint p = zero_endpoint \<Longrightarrow> e = zero_endpoint \<or> wf_endpoint e \<Longrightarrow>
   run_peer p (opt_kv (\<not> endpoint_is_empty e) ''Endpoint'' (endpoint_string e) @ rest) =
   run_peer (p\<lparr>Endpoint := e\<rparr>) rest"
  "PersistentKeepalive p = [] \<Longrightarrow> v \<notin> {''0'', ''off'', ''(off)''} \<Longrightarrow>
   run_peer p (opt_kv (v \<noteq> []) ''PersistentKeepalive'' v @ rest) =
   run_peer (p\<lparr>PersistentKeepalive := v\<rparr>) rest"
  by (simp add: run_peer_def peer_key_def key64.parse_print)
     (auto intro!: run_peer_opt peer.equality
       simp: peer_key_def key64.parse_print key_is_zero_def parse_addresses_print
         endpoint.parse_print endpoint_is_empty_def parsePersistentKeepalive_def wf_endpoint_def
         wf_host_def zero_endpoint_def)

lemma run_peer_kvs: "wf_peer p \<Longrightarrow> run_peer zero_peer (peer_kvs p) = Inr p"
proof -
  assume wf: "wf_peer p"
  then have "run_peer zero_peer (peer_kvs p) = run_peer p []"
    unfolding peer_kvs_def wf_peer_def by (simp add: run_peer_steps zero_peer_def del: append_Nil2)
      (auto simp: run_peer_def intro!: peer.equality)
  moreover have "run_peer p [] = Inr p" by (simp add: run_peer_def)
  ultimately show "run_peer zero_peer (peer_kvs p) = Inr p" by simp
qed

lemma good_peer_kvs: "wf_peer p \<Longrightarrow> list_all good_kv (peer_kvs p)"
  using key64.print_value prefix.list_value endpoint.print_value [of "Endpoint p"]
  by (auto simp: peer_kvs_def wf_peer_def good_kv_def key_text_def name_char_def wf_value_def
      endpoint_is_empty_def zero_endpoint_def)

lemma line_blank [simp]: "wgquick_line u st [] = Inr st"
  by (simp add: wgquick_line_def cut_comment_def)

lemma header_trimmed: "trimmed ''[Interface]''" "trimmed ''[Peer]''"
  by (simp_all add: trimmed_all_graphic is_graphic_def)

lemma header_lower:
  "to_lower u ''[Interface]'' = ''[interface]''" "to_lower u ''[Peer]'' = ''[peer]''"
  by (simp_all add: to_lower_ascii is_ascii_def)

lemma line_interface:
  "wgquick_line u st ''[Interface]'' =
   Inr (st\<lparr>p_conf := maybeAddPeer (p_conf st) (p_peer st), p_state := InInterfaceSection\<rparr>)"
  by (simp add: wgquick_line_def cut_comment_def header_trimmed header_lower)

lemma line_peer:
  "wgquick_line u st ''[Peer]'' =
   Inr (st\<lparr>p_conf := maybeAddPeer (p_conf st) (p_peer st), p_peer := Some zero_peer,
           p_state := InPeerSection\<rparr>)"
  by (simp add: wgquick_line_def cut_comment_def header_trimmed header_lower)

lemma fold_peer_block:
  assumes "wf_peer p"
  shows "rfold (wgquick_line u) st (peer_lines p) =
    Inr (st\<lparr>p_conf := maybeAddPeer (p_conf st) (p_peer st), p_peer := Some p,
            p_state := InPeerSection\<rparr>)"
proof -
  let ?st = "st\<lparr>p_conf := maybeAddPeer (p_conf st) (p_peer st), p_peer := Some zero_peer,
                p_state := InPeerSection\<rparr>"
  have "rfold (wgquick_line u) ?st (map kv_line (peer_kvs p)) = Inr (?st\<lparr>p_peer := Some p\<rparr>)"
    by (rule fold_peer_lines [where p = zero_peer]) (use assms in \<open>simp_all add: good_peer_kvs run_peer_kvs\<close>)
  then show ?thesis by (simp add: peer_lines_kvs line_peer)
qed

lemma fold_peers:
  "list_all wf_peer ps \<Longrightarrow>
   \<exists>st'. rfold (wgquick_line u) st (concat (map peer_lines ps)) = Inr st'
     \<and> maybeAddPeer (p_conf st') (p_peer st') =
         (maybeAddPeer (p_conf st) (p_peer st))
           \<lparr>Peers := Peers (maybeAddPeer (p_conf st) (p_peer st)) @ ps\<rparr>
     \<and> p_saw st' = p_saw st"
proof (induction ps arbitrary: st)
  case Nil
  then show ?case by simp
next
  case (Cons p ps)
  then show ?case
    using Cons.IH [of "st\<lparr>p_conf := maybeAddPeer (p_conf st) (p_peer st), p_peer := Some p,
            p_state := InPeerSection\<rparr>"]
    by (auto simp: rfold_append fold_peer_block) (auto simp: maybeAddPeer_def)
qed

section \<open>The whole file\<close>

definition wf_config :: "unicode \<Rightarrow> config \<Rightarrow> bool" where
  "wf_config u c \<longleftrightarrow>
     TunnelNameIsValid u (Name c) \<and> wf_interface (Interface c) \<and> list_all wf_peer (Peers c)"

lemma wgquick_no_newline:
  assumes "wf_interface (Interface c)" and "list_all wf_peer (Peers c)"
    and "set ord = dom (IPackets (Interface c))"
    and "l \<in> set (interface_lines u ord (Interface c) @ concat (map peer_lines (Peers c)))"
  shows "NL \<notin> set l"
proof -
  have kvs: "NL \<notin> set l" if "list_all good_kv kvs" "l \<in> set (map kv_line kvs)" for kvs
    using that kv_no_newline by (auto simp: list_all_iff good_kv_def)
  from assms(4) consider "l \<in> {''[Interface]'', [], ''[Peer]''}"
    | "l \<in> set (map kv_line (interface_kvs u ord (Interface c)))"
    | p where "p \<in> set (Peers c)" "l \<in> set (map kv_line (peer_kvs p))"
    by (auto simp: interface_lines_kvs peer_lines_kvs split: if_splits)
  then show ?thesis
    using kvs good_interface_kvs [OF assms(1,3)] good_peer_kvs assms(2)
    by cases (auto simp: list_all_iff [of wf_peer])
qed

lemma FromWgQuick_ToWgQuick_aux:
  assumes wf: "wf_config u c" and ord: "set ord = dom (IPackets (Interface c))"
  shows "FromWgQuick u (ToWgQuick u ord c) (Name c) = Inr c"
proof -
  let ?i = "Interface c"
  from wf have name: "TunnelNameIsValid u (Name c)" and wfi: "wf_interface ?i"
    and wfp: "list_all wf_peer (Peers c)"
    by (simp_all add: wf_config_def)
  define st0 where "st0 = (start_parser (Name c))\<lparr>p_state := InInterfaceSection\<rparr>"
  define st1 where "st1 = st0\<lparr>p_conf := (p_conf st0)\<lparr>Interface := ?i\<rparr>, p_saw := True\<rparr>"
  have lines: "split_on NL (ToWgQuick u ord c) =
      interface_lines u ord ?i @ concat (map peer_lines (Peers c)) @ [[]]"
    unfolding ToWgQuick_def
    by (subst split_unlines) (use wgquick_no_newline [OF wfi wfp ord] in \<open>auto\<close>)
  have "rfold (wgquick_line u) st0 (map kv_line (interface_kvs u ord ?i)) = Inr st1"
  proof -
    have "run_interface (Interface (p_conf st0)) (interface_kvs u ord ?i) = Inr ?i"
      by (rule run_interface_kvs [OF wfi ord]) (simp add: st0_def start_parser_def)
    from fold_interface_lines [OF good_interface_kvs [OF wfi ord] _ this, of u]
    show ?thesis by (simp add: st1_def st0_def interface_kvs_def)
  qed
  then have head: "rfold (wgquick_line u) (start_parser (Name c)) (interface_lines u ord ?i) = Inr st1"
    by (simp add: interface_lines_kvs line_interface st0_def start_parser_def maybeAddPeer_def)
  obtain st2 where st2: "rfold (wgquick_line u) st1 (concat (map peer_lines (Peers c))) = Inr st2"
    "maybeAddPeer (p_conf st2) (p_peer st2) =
       (maybeAddPeer (p_conf st1) (p_peer st1))
         \<lparr>Peers := Peers (maybeAddPeer (p_conf st1) (p_peer st1)) @ Peers c\<rparr>"
    "p_saw st2 = p_saw st1"
    using fold_peers [OF wfp, of u st1] by blast
  have conf: "maybeAddPeer (p_conf st2) (p_peer st2) = c"
    unfolding st2(2) by (simp add: st1_def st0_def start_parser_def maybeAddPeer_def)
  moreover have "\<not> list_ex (\<lambda>p. key_is_zero (PublicKey p)) (Peers c)"
    using wfp by (auto simp: list_ex_iff list_all_iff wf_peer_def)
  ultimately have "finish_parser st2 = Inr c"
    using st2(3) by (simp add: finish_parser_def st1_def)
  then show ?thesis
    using name by (simp add: FromWgQuick_def lines rfold_append head st2(1))
qed

end
