(* ===== verification/ConfStore.thy ===== *)
theory ConfStore
  imports WgQuickRoundtrip
begin

text \<open>
  The configuration store, \<open>upstream-conf/store.go\<close>, \<open>chainconf.go\<close> and
  \<open>migration_windows.go\<close>: a directory of files, plain ones for chain hops and encrypted ones
  for ordinary tunnels.

  A directory is the list of its entries in the order of \<open>os.ReadDir\<close> (sorted by name). File
  names are compared exactly: the case folding of NTFS is not modelled. DPAPI is a parameter
  (\<open>dpapi\<close>), as are the decoders of the parser and the visiting order of the map.
\<close>

datatype store_error =
    NoDirectory | NotExist string | Unreadable string | BadPath | InvalidName
  | CryptError | AlreadyExists | WriteFailed | ConfError conf_error

record dir_entry =
  d_name :: string
  d_regular :: bool
  d_info :: bool                 \<comment> \<open>\<open>Info\<close> succeeds\<close>
  d_perm :: bool                 \<comment> \<open>some read permission bit is set\<close>
  d_data :: "string option"      \<comment> \<open>what \<open>os.ReadFile\<close> gives\<close>

type_synonym directory = "dir_entry list"

record dpapi =
  encrypt :: "string \<Rightarrow> string \<Rightarrow> string option"
  decrypt :: "string \<Rightarrow> string \<Rightarrow> string option"

record store_env =
  env_unicode :: unicode
  env_decoders :: "(string \<Rightarrow> string option) list"
  env_order :: "config \<Rightarrow> string list"
  env_dpapi :: dpapi

definition configFileSuffix :: string where "configFileSuffix = ''.conf.dpapi''"
definition configFileUnencryptedSuffix :: string where "configFileUnencryptedSuffix = ''.conf''"

definition find_entry :: "directory \<Rightarrow> string \<Rightarrow> dir_entry option" where
  "find_entry d n = find (\<lambda>e. d_name e = n) d"

definition exists_file :: "directory \<Rightarrow> string \<Rightarrow> bool" where
  "exists_file d n \<longleftrightarrow> find_entry d n \<noteq> None"

definition read_file :: "directory \<Rightarrow> string \<Rightarrow> store_error + string" where
  "read_file d n =
     (case find_entry d n of
        None \<Rightarrow> Inl (NotExist n)
      | Some e \<Rightarrow> (case d_data e of None \<Rightarrow> Inl (Unreadable n) | Some t \<Rightarrow> Inr t))"

definition put_entry :: "dir_entry \<Rightarrow> directory \<Rightarrow> directory" where
  "put_entry e d =
     (if exists_file d (d_name e) then map (\<lambda>f. if d_name f = d_name e then e else f) d
      else insort_key d_name e d)"

definition remove_entry :: "string \<Rightarrow> directory \<Rightarrow> directory" where
  "remove_entry n d = filter (\<lambda>e. d_name e \<noteq> n) d"

section \<open>Chain hops in plain text\<close>

text \<open>
  \<open>bufio.Scanner\<close> over lines: a final empty piece is no token, one carriage return is dropped,
  and a line that does not fit the buffer of 65536 bytes with its newline ends the scan.
\<close>

definition drop_cr :: "string \<Rightarrow> string" where
  "drop_cr l = (if l \<noteq> [] \<and> last l = CHR 0x0D then butlast l else l)"

definition scan_lines :: "string \<Rightarrow> string list" where
  "scan_lines text =
     (let pieces = split_on NL text;
          tokens = (if last pieces = [] then butlast pieces else pieces)
      in map drop_cr (takeWhile (\<lambda>l. length l \<le> 65535) tokens))"

definition line_is_pin :: "unicode \<Rightarrow> string \<Rightarrow> bool" where
  "line_is_pin u raw =
     (let line = trim_space raw in
      if line = [] \<or> has_prefix line ''#'' \<or> has_prefix line '';'' then False
      else (case index_byte (CHR ''='') line of
              None \<Rightarrow> False
            | Some i \<Rightarrow>
                if i = 0 then False
                else (let key = to_lower u (trim_space (take i line));
                          val = trim_space (drop (Suc i) line)
                      in key = ''pinendpointvia'' \<and> val \<noteq> [])))"

definition textIsChainHop :: "unicode \<Rightarrow> string \<Rightarrow> bool" where
  "textIsChainHop u text = list_ex (line_is_pin u) (scan_lines text)"

definition fileIsChainHop :: "unicode \<Rightarrow> directory \<Rightarrow> string \<Rightarrow> bool" where
  "fileIsChainHop u d path =
     (if has_suffix path configFileSuffix then False
      else (case read_file d path of Inl _ \<Rightarrow> False | Inr t \<Rightarrow> textIsChainHop u t))"

definition chainPlainPath :: "unicode \<Rightarrow> directory \<Rightarrow> string \<Rightarrow> string option" where
  "chainPlainPath u d name =
     (let path = name @ configFileUnencryptedSuffix in
      if fileIsChainHop u d path then Some path else None)"

section \<open>Names\<close>

definition readable_entry :: "dir_entry \<Rightarrow> bool" where
  "readable_entry e \<longleftrightarrow> d_regular e \<and> d_info e \<and> d_perm e"

definition plainConfigName :: "unicode \<Rightarrow> directory \<Rightarrow> dir_entry \<Rightarrow> string option" where
  "plainConfigName u d e =
     (let name = d_name e in
      if length name \<le> length configFileUnencryptedSuffix
         \<or> \<not> has_suffix name configFileUnencryptedSuffix then None
      else if \<not> readable_entry e then None
      else (let base = trim_suffix name configFileUnencryptedSuffix in
            if \<not> TunnelNameIsValid u base then None
            else if exists_file d (base @ configFileSuffix) then None
            else Some base))"

definition encryptedConfigName :: "unicode \<Rightarrow> dir_entry \<Rightarrow> string option" where
  "encryptedConfigName u e =
     (let name = d_name e in
      if length name \<le> length configFileSuffix \<or> \<not> has_suffix name configFileSuffix then None
      else if \<not> readable_entry e then None
      else (let base = trim_suffix name configFileSuffix in
            if \<not> TunnelNameIsValid u base then None else Some base))"

fun list_names :: "unicode \<Rightarrow> directory \<Rightarrow> dir_entry list \<Rightarrow> string list" where
  "list_names u d [] = []"
| "list_names u d (e # es) =
     (case plainConfigName u d e of
        Some n \<Rightarrow> n # list_names u d es
      | None \<Rightarrow>
          (case encryptedConfigName u e of
             Some n \<Rightarrow> n # list_names u d es
           | None \<Rightarrow> list_names u d es))"

definition ListConfigNames :: "unicode \<Rightarrow> directory option \<Rightarrow> store_error + string list" where
  "ListConfigNames u dir =
     (case dir of None \<Rightarrow> Inl NoDirectory | Some d \<Rightarrow> Inr (list_names u d d))"

definition NameFromPath :: "unicode \<Rightarrow> string \<Rightarrow> store_error + string" where
  "NameFromPath u path =
     (if \<not> ((length configFileSuffix < length path \<and> has_suffix path configFileSuffix)
           \<or> (length configFileUnencryptedSuffix < length path
              \<and> has_suffix path configFileUnencryptedSuffix))
      then Inl BadPath
      else (let name = (if has_suffix path configFileSuffix then trim_suffix path configFileSuffix
                        else trim_suffix path configFileUnencryptedSuffix)
            in if \<not> TunnelNameIsValid u name then Inl InvalidName else Inr name))"

section \<open>Loading and saving\<close>

definition LoadFromPath :: "store_env \<Rightarrow> directory \<Rightarrow> string \<Rightarrow> store_error + config" where
  "LoadFromPath env d path =
     rbind (NameFromPath (env_unicode env) path) (\<lambda>name.
     rbind (read_file d path) (\<lambda>raw.
     rbind (if has_suffix path configFileSuffix
            then (case decrypt (env_dpapi env) raw name of
                    None \<Rightarrow> Inl CryptError | Some t \<Rightarrow> Inr t)
            else Inr raw) (\<lambda>text.
       (case FromWgQuickWithUnknownEncoding (env_unicode env) (env_decoders env) text name of
          Inl e \<Rightarrow> Inl (ConfError e) | Inr c \<Rightarrow> Inr c))))"

definition LoadFromName :: "store_env \<Rightarrow> directory option \<Rightarrow> string \<Rightarrow> store_error + config" where
  "LoadFromName env dir name =
     (case dir of
        None \<Rightarrow> Inl NoDirectory
      | Some d \<Rightarrow>
          (case chainPlainPath (env_unicode env) d name of
             Some plain \<Rightarrow> LoadFromPath env d plain
           | None \<Rightarrow>
               if \<not> exists_file d (name @ configFileSuffix)
                  \<and> exists_file d (name @ configFileUnencryptedSuffix)
               then LoadFromPath env d (name @ configFileUnencryptedSuffix)
               else LoadFromPath env d (name @ configFileSuffix)))"

text \<open>
  \<open>writeLockedDownFile\<close>: a temporary file renamed over the destination. \<open>os_ok\<close> is whether the
  operating system grants it; without \<open>overwrite\<close> an existing destination is an error.
\<close>

definition writeLockedDownFile ::
  "bool \<Rightarrow> directory \<Rightarrow> string \<Rightarrow> bool \<Rightarrow> string \<Rightarrow> store_error + directory"
where
  "writeLockedDownFile os_ok d dest overwrite contents =
     (if \<not> os_ok then Inl WriteFailed
      else if \<not> overwrite \<and> exists_file d dest then Inl AlreadyExists
      else Inr (put_entry \<lparr> d_name = dest, d_regular = True, d_info = True, d_perm = True,
                            d_data = Some contents \<rparr> d))"

definition Save ::
  "store_env \<Rightarrow> bool \<Rightarrow> directory option \<Rightarrow> config \<Rightarrow> bool \<Rightarrow> store_error + directory"
where
  "Save env os_ok dir c overwrite =
     (let u = env_unicode env; text = ToWgQuick u (env_order env c) c in
      if \<not> TunnelNameIsValid u (Name c) then Inl InvalidName
      else (case dir of
              None \<Rightarrow> Inl NoDirectory
            | Some d \<Rightarrow>
                if PinEndpointVia (Interface c) \<noteq> [] then
                  writeLockedDownFile os_ok d (Name c @ configFileUnencryptedSuffix) overwrite text
                else
                  (case encrypt (env_dpapi env) text (Name c) of
                     None \<Rightarrow> Inl CryptError
                   | Some raw \<Rightarrow>
                       writeLockedDownFile os_ok d (Name c @ configFileSuffix) overwrite raw)))"

definition Path :: "unicode \<Rightarrow> directory option \<Rightarrow> config \<Rightarrow> store_error + string" where
  "Path u dir c =
     (if \<not> TunnelNameIsValid u (Name c) then Inl InvalidName
      else (case dir of
              None \<Rightarrow> Inl NoDirectory
            | Some d \<Rightarrow>
                (case chainPlainPath u d (Name c) of
                   Some plain \<Rightarrow> Inr plain
                 | None \<Rightarrow> Inr (Name c @ configFileSuffix))))"

text \<open>
  \<open>DeleteName\<close>: both files are removed; \<open>can_remove\<close> is the operating system's answer for an
  existing file. An error counts only when nothing was removed.
\<close>

definition DeleteName ::
  "unicode \<Rightarrow> (string \<Rightarrow> bool) \<Rightarrow> directory option \<Rightarrow> string \<Rightarrow> store_error + directory"
where
  "DeleteName u can_remove dir name =
     (if \<not> TunnelNameIsValid u name then Inl InvalidName
      else (case dir of
              None \<Rightarrow> Inl NoDirectory
            | Some d \<Rightarrow>
                (let present = filter (exists_file d)
                       [name @ configFileSuffix, name @ configFileUnencryptedSuffix];
                     removed = filter can_remove present;
                     lastErr = filter (\<lambda>f. \<not> can_remove f) present
                 in if lastErr \<noteq> [] \<and> removed = [] then Inl (Unreadable (last lastErr))
                    else Inr (foldr remove_entry removed d))))"

section \<open>Migration of plain files\<close>

text \<open>
  One file of \<open>migrateUnencryptedConfigs\<close>. \<open>busy\<close> is a file another process holds open: it is
  skipped and a later run is scheduled, as every other failure leaves the file alone.
\<close>

definition migrate_entry ::
  "store_env \<Rightarrow> (string \<Rightarrow> bool) \<Rightarrow> (string \<Rightarrow> bool) \<Rightarrow> (string \<Rightarrow> bool) \<Rightarrow> directory \<Rightarrow> dir_entry
   \<Rightarrow> directory"
where
  "migrate_entry env busy can_write can_remove d e =
     (let u = env_unicode env; path = d_name e in
      if length path \<le> length configFileUnencryptedSuffix
         \<or> \<not> has_suffix path configFileUnencryptedSuffix then d
      else if \<not> readable_entry e then d
      else if fileIsChainHop u d path then d
      else if busy path then d
      else (case read_file d path of
              Inl _ \<Rightarrow> d
            | Inr text \<Rightarrow>
                (case FromWgQuickWithUnknownEncoding u (env_decoders env) text
                        (trim_suffix path configFileUnencryptedSuffix) of
                   Inl _ \<Rightarrow> d
                 | Inr c \<Rightarrow>
                     (case Save env (can_write path) (Some d) c False of
                        Inl _ \<Rightarrow> d
                      | Inr d' \<Rightarrow> if can_remove path then remove_entry path d' else d'))))"

definition migrateUnencryptedConfigs ::
  "store_env \<Rightarrow> (string \<Rightarrow> bool) \<Rightarrow> (string \<Rightarrow> bool) \<Rightarrow> (string \<Rightarrow> bool) \<Rightarrow> directory option
   \<Rightarrow> directory option"
where
  "migrateUnencryptedConfigs env busy can_write can_remove dir =
     map_option (\<lambda>d. foldl (migrate_entry env busy can_write can_remove) d d) dir"

section \<open>Files after an operation\<close>

lemma find_entry_map_other:
  "n \<noteq> d_name e \<Longrightarrow>
   find_entry (map (\<lambda>f. if d_name f = d_name e then e else f) d) n = find_entry d n"
  by (induction d) (auto simp: find_entry_def)

lemma find_entry_map_same:
  "find_entry d (d_name e) \<noteq> None \<Longrightarrow>
   find_entry (map (\<lambda>f. if d_name f = d_name e then e else f) d) (d_name e) = Some e"
  by (induction d) (auto simp: find_entry_def)

lemma find_entry_insort:
  "find_entry d (d_name e) = None \<Longrightarrow>
   find_entry (insort_key d_name e d) n = (if n = d_name e then Some e else find_entry d n)"
  by (induction d) (auto simp: find_entry_def split: if_splits)

lemma find_put_entry:
  "find_entry (put_entry e d) n = (if n = d_name e then Some e else find_entry d n)"
  by (cases "n = d_name e")
     (auto simp: put_entry_def exists_file_def find_entry_map_other find_entry_map_same find_entry_insort)

lemma find_remove_entry:
  "find_entry (remove_entry m d) n = (if n = m then None else find_entry d n)"
  by (induction d) (auto simp: find_entry_def remove_entry_def)

lemma exists_put_entry: "exists_file (put_entry e d) n \<longleftrightarrow> n = d_name e \<or> exists_file d n"
  by (simp add: exists_file_def find_put_entry)

lemma read_put_entry:
  "read_file (put_entry e d) n =
     (if n = d_name e
      then (case d_data e of None \<Rightarrow> Inl (Unreadable n) | Some t \<Rightarrow> Inr t) else read_file d n)"
  by (simp add: read_file_def find_put_entry split: option.split)

lemma suffixes_differ:
  "\<not> has_suffix (n @ configFileUnencryptedSuffix) configFileSuffix"
  "has_suffix (n @ configFileSuffix) configFileSuffix"
  "n @ configFileUnencryptedSuffix \<noteq> m @ configFileSuffix"
  "configFileUnencryptedSuffix \<noteq> configFileSuffix"
proof -
  have "last (n @ configFileUnencryptedSuffix) \<noteq> last (t @ configFileSuffix)" for t
    by (simp add: configFileUnencryptedSuffix_def configFileSuffix_def)
  then show "\<not> has_suffix (n @ configFileUnencryptedSuffix) configFileSuffix"
    "n @ configFileUnencryptedSuffix \<noteq> m @ configFileSuffix"
    by (metis has_suffix_ex)+
qed (simp_all add: configFileUnencryptedSuffix_def configFileSuffix_def)

lemma NameFromPath_plain:
  assumes "TunnelNameIsValid u n"
  shows "NameFromPath u (n @ configFileUnencryptedSuffix) = Inr n"
    and "NameFromPath u (n @ configFileSuffix) = Inr n"
proof -
  have "n \<noteq> []" using valid_name_length [OF assms] by auto
  with assms suffixes_differ show "NameFromPath u (n @ configFileUnencryptedSuffix) = Inr n"
    "NameFromPath u (n @ configFileSuffix) = Inr n"
    by (simp_all add: NameFromPath_def)
qed

section \<open>The written text of a chain hop is recognised\<close>

lemma line_is_pin_written:
  assumes "value_text v"
  shows "line_is_pin u (drop_cr (kv ''PinEndpointVia'' v))"
proof -
  have k: "key_text ''PinEndpointVia''" by (simp add: key_text_def name_char_def)
  have t: "trimmed (kv ''PinEndpointVia'' v)" by (rule kv_trimmed [OF k assms])
  have v: "v \<noteq> []" "trimmed v" using assms by (simp_all add: value_text_def)
  have "last v \<noteq> CHR 0x0D"
  proof
    assume "last v = CHR 0x0D"
    with v(1) obtain w where w: "v = w @ [CHR 0x0D]" by (metis append_butlast_last_id)
    have "starts_with_any (map rev go_spaces) (rev v)"
      unfolding starts_with_any_def list_ex_iff w
      by (intro bexI [of _ "[CHR 0x0D]"]) (simp_all add: has_prefix_def go_spaces_def ascii_spaces_def)
    with v(2) show False by (simp add: trimmed_def)
  qed
  then have cr: "drop_cr (kv ''PinEndpointVia'' v) = kv ''PinEndpointVia'' v"
    using v(1) by (simp add: drop_cr_def kv_def)
  have idx: "index_byte (CHR ''='') (kv ''PinEndpointVia'' v) = Some 15" by (simp add: kv_def)
  have key: "trim_space (take 15 (kv ''PinEndpointVia'' v)) = ''PinEndpointVia''"
  proof -
    have g: "trimmed ''PinEndpointVia''" by (simp add: trimmed_all_graphic is_graphic_def)
    then have "\<not> starts_with_any go_spaces ''PinEndpointVia''" by (simp add: trimmed_def)
    from trim_space_tail_blank [OF this] g show ?thesis by (simp add: kv_def)
  qed
  have val: "trim_space (drop 16 (kv ''PinEndpointVia'' v)) = v" using v(2) by (simp add: kv_def)
  have low: "to_lower u ''PinEndpointVia'' = ''pinendpointvia''"
    by (simp add: to_lower_ascii is_ascii_def)
  have "kv ''PinEndpointVia'' v \<noteq> []" "\<not> has_prefix (kv ''PinEndpointVia'' v) ''#''"
    "\<not> has_prefix (kv ''PinEndpointVia'' v) '';''"
    by (simp_all add: kv_def has_prefix_def)
  then show ?thesis
    unfolding cr line_is_pin_def Let_def trim_space_id [OF t] idx option.case
    using key val low v(1) by simp
qed

definition short_lines :: "string \<Rightarrow> bool" where
  "short_lines text \<longleftrightarrow> list_all (\<lambda>l. length l \<le> 65535) (split_on NL text)"

lemma split_on_length: "l \<in> set (split_on c s) \<Longrightarrow> length l \<le> length s"
  by (induction s arbitrary: l) (auto split: list.splits if_splits simp: le_SucI)

lemma short_text_lines: "length text \<le> 65535 \<Longrightarrow> short_lines text"
  using split_on_length [of _ NL "text"] by (auto simp: short_lines_def list_all_iff intro: order_trans)

lemma textIsChainHop_written:
  assumes wf: "wf_config u c" and ord: "set ord = dom (IPackets (Interface c))"
    and pin: "PinEndpointVia (Interface c) \<noteq> []" and short: "short_lines (ToWgQuick u ord c)"
  shows "textIsChainHop u (ToWgQuick u ord c)"
proof -
  let ?i = "Interface c"
  define ls where "ls = interface_lines u ord ?i @ concat (map peer_lines (Peers c))"
  let ?pin = "kv ''PinEndpointVia'' (PinEndpointVia ?i)"
  from wf have wfi: "wf_interface ?i" and wfp: "list_all wf_peer (Peers c)"
    by (simp_all add: wf_config_def)
  have split: "split_on NL (ToWgQuick u ord c) = ls @ [[]]"
    unfolding ToWgQuick_def ls_def
    by (subst split_unlines) (use wgquick_no_newline [OF wfi wfp ord] in auto)
  with short have "scan_lines (ToWgQuick u ord c) = map drop_cr ls"
    by (simp add: scan_lines_def short_lines_def takeWhile_eq_all_conv [THEN iffD2] list_all_iff)
  moreover have "?pin \<in> set ls"
    using pin by (simp add: ls_def interface_lines_def network_lines_def opt_line_def)
  moreover have "value_text (PinEndpointVia ?i)"
    using wfi pin by (simp add: wf_interface_def wf_value_def)
  ultimately show ?thesis
    using line_is_pin_written by (auto simp: textIsChainHop_def list_ex_iff)
qed

section \<open>Save, then load\<close>

lemma load_unknown_written:
  assumes "wf_config u c" and "set ord = dom (IPackets (Interface c))"
  shows "FromWgQuickWithUnknownEncoding u ds (ToWgQuick u ord c) (Name c) = Inr c"
  using FromWgQuick_ToWgQuick_aux [OF assms] by (simp add: FromWgQuickWithUnknownEncoding_def)

lemma LoadFromName_hop:
  assumes wf: "wf_config (env_unicode env) c" and ord: "set ord = dom (IPackets (Interface c))"
    and pin: "PinEndpointVia (Interface c) \<noteq> []" and short: "short_lines (ToWgQuick (env_unicode env) ord c)"
    and read: "read_file d (Name c @ configFileUnencryptedSuffix) = Inr (ToWgQuick (env_unicode env) ord c)"
  shows "LoadFromName env (Some d) (Name c) = Inr c"
    and "Path (env_unicode env) (Some d) c = Inr (Name c @ configFileUnencryptedSuffix)"
proof -
  let ?u = "env_unicode env" and ?p = "Name c @ configFileUnencryptedSuffix"
  have name: "TunnelNameIsValid ?u (Name c)" using wf by (simp add: wf_config_def)
  have "chainPlainPath ?u d (Name c) = Some ?p"
    using read textIsChainHop_written [OF wf ord pin short] suffixes_differ
    by (simp add: chainPlainPath_def fileIsChainHop_def)
  then show "LoadFromName env (Some d) (Name c) = Inr c" "Path ?u (Some d) c = Inr ?p"
    using name read NameFromPath_plain load_unknown_written [OF wf ord] suffixes_differ
    by (simp_all add: LoadFromName_def LoadFromPath_def Path_def)
qed

lemma Save_chain_hop:
  assumes wf: "wf_config (env_unicode env) c"
    and ord: "set (env_order env c) = dom (IPackets (Interface c))"
    and pin: "PinEndpointVia (Interface c) \<noteq> []"
    and short: "short_lines (ToWgQuick (env_unicode env) (env_order env c) c)"
    and save: "Save env ok (Some d) c ow = Inr d'"
  shows "LoadFromName env (Some d') (Name c) = Inr c"
    and "Path (env_unicode env) (Some d') c = Inr (Name c @ configFileUnencryptedSuffix)"
proof -
  let ?u = "env_unicode env"
  have "TunnelNameIsValid ?u (Name c)" using wf by (simp add: wf_config_def)
  with save pin have "read_file d' (Name c @ configFileUnencryptedSuffix)
      = Inr (ToWgQuick ?u (env_order env c) c)"
    by (auto simp: Save_def Let_def writeLockedDownFile_def read_put_entry split: if_splits)
  then show "LoadFromName env (Some d') (Name c) = Inr c"
    "Path ?u (Some d') c = Inr (Name c @ configFileUnencryptedSuffix)"
    using LoadFromName_hop [OF wf ord pin short] by blast+
qed

lemma Save_ordinary:
  assumes wf: "wf_config (env_unicode env) c"
    and ord: "set (env_order env c) = dom (IPackets (Interface c))"
    and pin: "PinEndpointVia (Interface c) = []"
    and plain: "\<not> fileIsChainHop (env_unicode env) d (Name c @ configFileUnencryptedSuffix)"
    and crypt: "\<And>t r n. encrypt (env_dpapi env) t n = Some r \<Longrightarrow> decrypt (env_dpapi env) r n = Some t"
    and save: "Save env ok (Some d) c ow = Inr d'"
  shows "LoadFromName env (Some d') (Name c) = Inr c"
    and "Path (env_unicode env) (Some d') c = Inr (Name c @ configFileSuffix)"
proof -
  let ?u = "env_unicode env" and ?p = "Name c @ configFileSuffix"
  let ?text = "ToWgQuick ?u (env_order env c) c"
  have name: "TunnelNameIsValid ?u (Name c)" using wf by (simp add: wf_config_def)
  from save pin name obtain raw where raw: "encrypt (env_dpapi env) ?text (Name c) = Some raw"
    and d': "d' = put_entry \<lparr> d_name = ?p, d_regular = True, d_info = True, d_perm = True,
                            d_data = Some raw \<rparr> d"
    by (auto simp: Save_def Let_def writeLockedDownFile_def split: if_splits option.splits)
  have "\<not> fileIsChainHop ?u d' (Name c @ configFileUnencryptedSuffix)"
    using plain suffixes_differ by (simp add: fileIsChainHop_def d' read_put_entry)
  then have "chainPlainPath ?u d' (Name c) = None" by (simp add: chainPlainPath_def)
  moreover have "read_file d' ?p = Inr raw" "exists_file d' ?p"
    by (simp_all add: d' read_put_entry exists_put_entry)
  ultimately show "LoadFromName env (Some d') (Name c) = Inr c" "Path ?u (Some d') c = Inr ?p"
    using name NameFromPath_plain crypt [OF raw] load_unknown_written [OF wf ord] suffixes_differ
    by (simp_all add: LoadFromName_def LoadFromPath_def Path_def)
qed

lemma list_names_valid: "n \<in> set (list_names u d es) \<Longrightarrow> TunnelNameIsValid u n"
  by (induction es)
     (auto simp: plainConfigName_def encryptedConfigName_def Let_def split: option.splits if_splits)

end
