(* ===== verification/ConfInvariant.thy ===== *)
theory ConfInvariant
  imports ConfParser
begin

text \<open>
  What every configuration that leaves \<open>FromWgQuick\<close> satisfies: keys of 32 bytes, prefixes
  whose length fits their family, name servers of 16 bytes, an admissible MTU, and peers with
  a public key. The invariant is kept by every line, whatever the input.
\<close>

definition ok_interface :: "interface \<Rightarrow> bool" where
  "ok_interface i \<longleftrightarrow>
     length (PrivateKey i) = 32 \<and> length (HeaderProtectionKey i) = 32
     \<and> list_all wf_ipcidr (Addresses i) \<and> list_all (\<lambda>a. length a = 16) (DNS i)
     \<and> 576 \<le> unat (MTU i)
     \<and> dom (IPackets i) \<subseteq> {''i1'', ''i2'', ''i3'', ''i4'', ''i5''}"

definition ok_peer :: "peer \<Rightarrow> bool" where
  "ok_peer p \<longleftrightarrow>
     length (PublicKey p) = 32 \<and> length (PresharedKey p) = 32
     \<and> list_all wf_ipcidr (AllowedIPs p)"

definition ok_config :: "config \<Rightarrow> bool" where
  "ok_config c \<longleftrightarrow> ok_interface (Interface c) \<and> list_all ok_peer (Peers c)"

lemma parseIPCidr_wf: "parseIPCidr s = Inr (Some r) \<Longrightarrow> wf_ipcidr r"
proof -
  assume p: "parseIPCidr s = Inr (Some r)"
  have small: "unat (word_of_int c :: 8 word) \<le> n" if "0 \<le> c" "c \<le> int n" "n \<le> 128" for c :: int and n
  proof -
    from that have "c < 256" by linarith
    with that(1) have "uint (word_of_int c :: 8 word) = c"
      by (simp add: unsigned_of_int take_bit_int_eq_self)
    then show ?thesis using that(2) by (simp add: unat_eq_nat_uint)
  qed
  from p obtain a16 addr where a: "parse_ip addr = Some a16"
    and IP: "IP r = (case to4 a16 of Some v4 \<Rightarrow> v4 | None \<Rightarrow> a16)"
    and Cidr: "(\<exists>c. 0 \<le> c \<and> c \<le> 128 \<and> (to4 a16 \<noteq> None \<longrightarrow> c \<le> 32) \<and> Cidr r = word_of_int c)
       \<or> Cidr r = (if to4 a16 \<noteq> None then 32 else 128)"
    unfolding parseIPCidr_def Let_def
    by (auto split: prod.splits option.splits sum.splits if_splits simp: not_less) force+
  have len: "length a16 = 16" using a by (rule parse_ip_length)
  show ?thesis
  proof (cases "to4 a16")
    case None
    with Cidr have "unat (Cidr r) \<le> 128" using small [of _ 128] by auto
    with None IP len show ?thesis by (simp add: wf_ipcidr_def)
  next
    case (Some v4)
    with Cidr have "unat (Cidr r) \<le> 32" using small [of _ 32] by auto
    with Some IP to4_length [OF Some] show ?thesis by (simp add: wf_ipcidr_def)
  qed
qed

lemma deref_IPCidr_wf:
  assumes "deref_IPCidr s = Inr r"
  shows "wf_ipcidr r"
proof -
  from assms have "parseIPCidr s = Inr (Some r)"
    unfolding deref_IPCidr_def by (cases "parseIPCidr s") (simp_all split: option.split_asm)
  then show ?thesis by (rule parseIPCidr_wf)
qed

lemma parse_addresses_wf:
  assumes "parse_addresses v = Inr as"
  shows "list_all wf_ipcidr as"
proof -
  from assms obtain xs where "rmap deref_IPCidr xs = Inr as"
    unfolding parse_addresses_def by (rule rbind_InrE)
  then have "\<exists>x\<in>set xs. deref_IPCidr x = Inr a" if "a \<in> set as" for a
    using that by (rule rmap_Inr_set)
  then have "wf_ipcidr a" if "a \<in> set as" for a
    using that deref_IPCidr_wf by (metis (no_types))
  then show ?thesis by (simp add: list_all_iff)
qed

lemma check_key_length:
  assumes "check_key s r = Inr k"
  shows "length k = 32"
proof -
  from assms have "length k = KeyLength"
    unfolding check_key_def by (cases r) (auto split: if_split_asm)
  then show ?thesis by (simp only: KeyLength_def)
qed

lemma parseKeyBase64_length: "parseKeyBase64 s = Inr k \<Longrightarrow> length k = 32"
  unfolding parseKeyBase64_def by (rule check_key_length)

lemma parseKeyHex_length: "parseKeyHex s = Inr k \<Longrightarrow> length k = 32"
  unfolding parseKeyHex_def by (rule check_key_length)

lemma parseMTU_range: "parseMTU s = Inr m \<Longrightarrow> 576 \<le> unat m"
proof -
  assume "parseMTU s = Inr m"
  then obtain n where n: "576 \<le> n" "n \<le> 65535" "m = word_of_int n"
    by (force simp: parseMTU_def rbind_Inr_iff not_less split: if_splits)
  then have "uint m = n" by (simp add: unsigned_of_int take_bit_int_eq_self)
  with n show ?thesis by (simp add: unat_eq_nat_uint)
qed

lemma parse_dns_lengths: "parse_dns xs = (ips, names) \<Longrightarrow> list_all (\<lambda>a. length a = 16) ips"
  by (auto simp: parse_dns_def list_all_iff parse_ip_length)

lemma set_uint16_ok:
  "(\<And>n. ok_interface (upd (\<lambda>_. n) i)) \<Longrightarrow> rholds ok_interface (set_uint16 v nm upd i)"
  by (auto simp: set_uint16_def intro: rholds_bind)

lemma interface_key_ok:
  assumes "ok_interface i"
  shows "rholds ok_interface (interface_key k v i)"
  unfolding interface_key_def
  by (intro rholds_if rholds_bind set_uint16_ok)
     (use assms in \<open>auto simp: ok_interface_def zero_key_def
        dest: parseKeyBase64_length parseMTU_range parse_addresses_wf parse_dns_lengths split: prod.splits\<close>)

lemma peer_key_ok:
  assumes "ok_peer p"
  shows "rholds ok_peer (peer_key k v p)"
  unfolding peer_key_def
  by (intro rholds_if rholds_bind)
     (use assms in \<open>auto simp: ok_peer_def dest: parseKeyBase64_length parse_addresses_wf\<close>)

text \<open>The invariant of the parser state: a peer section has a peer.\<close>

definition ok_parser :: "string \<Rightarrow> parser \<Rightarrow> bool" where
  "ok_parser name st \<longleftrightarrow>
     Name (p_conf st) = name \<and> ok_config (p_conf st)
     \<and> (\<forall>p. p_peer st = Some p \<longrightarrow> ok_peer p)
     \<and> (p_state st = InPeerSection \<longrightarrow> p_peer st \<noteq> None)"

lemma zero_peer_ok: "ok_peer zero_peer"
  by (simp add: ok_peer_def zero_peer_def zero_key_def)

lemma maybeAddPeer_ok:
  "ok_config c \<Longrightarrow> (\<And>p. q = Some p \<Longrightarrow> ok_peer p) \<Longrightarrow> ok_config (maybeAddPeer c q)"
  by (auto simp: maybeAddPeer_def ok_config_def split: option.splits)

lemma maybeAddPeer_Name [simp]: "Name (maybeAddPeer c q) = Name c"
  by (simp add: maybeAddPeer_def split: option.splits)

lemma start_parser_ok: "ok_parser name (start_parser name)"
  by (simp add: ok_parser_def start_parser_def ok_config_def ok_interface_def zero_interface_def
      zero_key_def)

lemma wgquick_line_ok:
  assumes "ok_parser name st" and "wgquick_line u st l = Inr st'"
  shows "ok_parser name st'"
proof -
  have add: "ok_config (maybeAddPeer (p_conf st) (p_peer st))"
    using assms(1) by (auto simp: ok_parser_def intro: maybeAddPeer_ok)
  have ifc: "ok_interface j" if "interface_key k v (Interface (p_conf st)) = Inr j" for k v j
    using that assms(1) interface_key_ok [of "Interface (p_conf st)" k v]
    by (simp add: ok_parser_def ok_config_def)
  have peer: "ok_peer q" if "peer_key k v p = Inr q" "p_peer st = Some p" for k v p q
    using that assms(1) peer_key_ok [of p k v] by (simp add: ok_parser_def)
  show ?thesis
    using assms add
    by (auto simp: wgquick_line_def Let_def rbind_Inr_iff ok_parser_def ok_config_def zero_peer_ok
        split: if_splits option.splits parser_state.splits intro: ifc peer)
qed

lemma FromWgQuick_ok:
  assumes "FromWgQuick u s name = Inr c"
  shows "Name c = name" and "ok_config c"
    and "\<forall>p\<in>set (Peers c). \<not> key_is_zero (PublicKey p)" and "TunnelNameIsValid u name"
proof -
  from assms obtain st where st: "rfold (wgquick_line u) (start_parser name) (split_on NL s) = Inr st"
    and fin: "finish_parser st = Inr c" and name: "TunnelNameIsValid u name"
    by (auto simp: FromWgQuick_def rbind_Inr_iff split: if_splits)
  have inv: "ok_parser name st"
    using st start_parser_ok by (rule rfold_invariant) (erule wgquick_line_ok)
  from fin have c: "c = maybeAddPeer (p_conf st) (p_peer st)"
    and keys: "\<not> list_ex (\<lambda>p. key_is_zero (PublicKey p)) (Peers c)"
    by (auto simp: finish_parser_def Let_def split: if_splits)
  show "Name c = name" using inv by (simp add: c ok_parser_def)
  show "ok_config c" using inv unfolding c by (auto simp: ok_parser_def intro: maybeAddPeer_ok)
  show "\<forall>p\<in>set (Peers c). \<not> key_is_zero (PublicKey p)" using keys by (simp add: list_ex_iff)
  show "TunnelNameIsValid u name" by (rule name)
qed

end
