(* ===== verification/ChainBuild.thy ===== *)
theory ChainBuild
  imports ConfWriter ConfInvariant
begin

text \<open>
  Two configurations become one chain: \<open>upstream-conf/chainbuild.go\<close>, \<open>chainipv6.go\<close> and
  \<open>chainroles.go\<close>. Names of the pair, recognition of the outer (WARP) hop, and the rewriting
  of the two configurations. The messages of the errors are the constructors of \<open>chain_error\<close>.
\<close>

section \<open>Names\<close>

definition ChainPairBase :: string where "ChainPairBase = ''warpam''"
definition ChainHiddenSuffix :: string where "ChainHiddenSuffix = ''-hop1''"
definition ChainLegacyInner :: string where "ChainLegacyInner = ''hop2-amnezia''"
definition ChainLegacyOuter :: string where "ChainLegacyOuter = ''hop1-warp''"
definition ChainHop1MTU :: "16 word" where "ChainHop1MTU = 1420"
definition ChainHop2MTU :: "16 word" where "ChainHop2MTU = 1360"

definition ChainHiddenHopName :: "unicode \<Rightarrow> string \<Rightarrow> string" where
  "ChainHiddenHopName u visible0 =
     (let visible = trim_space visible0 in
      if equal_fold u visible ChainLegacyInner then ChainLegacyOuter
      else visible @ ChainHiddenSuffix)"

definition ChainIsHiddenHopName :: "unicode \<Rightarrow> string \<Rightarrow> bool" where
  "ChainIsHiddenHopName u name =
     (let lower = to_lower u (trim_space name) in
      has_suffix lower ChainHiddenSuffix \<or> has_prefix lower ''hop1-'')"

definition name_is_free :: "unicode \<Rightarrow> string list \<Rightarrow> string \<Rightarrow> bool" where
  "name_is_free u taken candidate =
     (let used = map (\<lambda>n. to_lower u (trim_space n)) taken in
      if List.member used (to_lower u candidate) then False
      else \<not> List.member used (to_lower u (ChainHiddenHopName u candidate)))"

definition ChainNextPairName :: "unicode \<Rightarrow> string list \<Rightarrow> string" where
  "ChainNextPairName u taken =
     (if name_is_free u taken ChainPairBase then ChainPairBase
      else (case find (\<lambda>i. name_is_free u taken (ChainPairBase @ dec i)) [1..<1000] of
              Some i \<Rightarrow> ChainPairBase @ dec i
            | None \<Rightarrow> ChainPairBase @ ''-new''))"

section \<open>Which configuration is the outer hop\<close>

definition chainWarpBlocks :: "string list" where
  "chainWarpBlocks = [''162.159.192.0/19'', ''188.114.96.0/20'', ''8.6.112.0/20'']"

text \<open>\<open>strings.Trim(host, "[]")\<close>.\<close>

definition trim_brackets :: "string \<Rightarrow> string" where
  "trim_brackets s =
     rev (dropWhile (\<lambda>c. c = CHR ''['' \<or> c = CHR '']'')
       (rev (dropWhile (\<lambda>c. c = CHR ''['' \<or> c = CHR '']'') s)))"

definition in_warp_block :: "ip \<Rightarrow> bool" where
  "in_warp_block a =
     list_ex (\<lambda>b. case parse_cidr b of None \<Rightarrow> False | Some (_, network) \<Rightarrow> net_contains network a)
       chainWarpBlocks"

definition warp_peer :: "unicode \<Rightarrow> peer \<Rightarrow> bool" where
  "warp_peer u p =
     (let host = to_lower u (trim_space (Host (Endpoint p))) in
      if host = [] then False
      else if contains_str host ''cloudflare'' then True
      else (case parse_ip (trim_brackets host) of None \<Rightarrow> False | Some a \<Rightarrow> in_warp_block a))"

definition warp_address :: "ipcidr \<Rightarrow> bool" where
  "warp_address a =
     (case to4 (IP a) of
        None \<Rightarrow> False
      | Some four \<Rightarrow> four ! 0 = 172 \<and> 16 \<le> four ! 1 \<and> four ! 1 \<le> 31)"

text \<open>A configuration that may be \<open>nil\<close> is an option.\<close>

definition ChainLooksLikeWarp :: "unicode \<Rightarrow> config option \<Rightarrow> bool" where
  "ChainLooksLikeWarp u c =
     (case c of
        None \<Rightarrow> False
      | Some c \<Rightarrow>
          if list_ex (warp_peer u) (Peers c) then True
          else list_ex warp_address (Addresses (Interface c)))"

datatype chain_error =
    NeedTwoConfigs | BothWarp | NeitherWarp
  | NoOuterAdapter | BadPairName string | BadHiddenName string
  | WarpWithoutEndpoint | InnerWithoutEndpoint

definition ChainSortRoles ::
  "unicode \<Rightarrow> config option \<Rightarrow> config option \<Rightarrow> chain_error + config \<times> config"
where
  "ChainSortRoles u a b =
     (case (a, b) of
        (Some ca, Some cb) \<Rightarrow>
          (let aWarp = ChainLooksLikeWarp u a; bWarp = ChainLooksLikeWarp u b in
           if aWarp \<and> \<not> bWarp then Inr (ca, cb)
           else if bWarp \<and> \<not> aWarp then Inr (cb, ca)
           else if aWarp \<and> bWarp then Inl BothWarp
           else Inl NeitherWarp)
      | _ \<Rightarrow> Inl NeedTwoConfigs)"

text \<open>The score looks at the printed text too; \<open>ord\<close> is the visiting order of its map.\<close>

definition ChainWarpScore :: "unicode \<Rightarrow> (config \<Rightarrow> string list) \<Rightarrow> config option \<Rightarrow> nat" where
  "ChainWarpScore u ord c =
     (case c of
        None \<Rightarrow> 0
      | Some cfg \<Rightarrow>
          (let score = (if ChainLooksLikeWarp u c then 2 else 0);
               score' = (if contains_str (ToWgQuick u (ord cfg) cfg) ''172.16.0.''
                         then score + 1 else score)
           in if 3 < score' then 3 else score'))"

definition ChainRolesAreCertain ::
  "unicode \<Rightarrow> (config \<Rightarrow> string list) \<Rightarrow> config option \<Rightarrow> config option \<Rightarrow> bool"
where
  "ChainRolesAreCertain u ord a b =
     (let sa = ChainWarpScore u ord a; sb = ChainWarpScore u ord b in
      if sa = sb then False else if sb < sa then 2 \<le> sa else 2 \<le> sb)"

definition ChainSortRolesScored ::
  "unicode \<Rightarrow> (config \<Rightarrow> string list) \<Rightarrow> config option \<Rightarrow> config option
   \<Rightarrow> config option \<times> config option \<times> bool"
where
  "ChainSortRolesScored u ord a b =
     (let sure = ChainRolesAreCertain u ord a b in
      if ChainWarpScore u ord a < ChainWarpScore u ord b then (b, a, sure) else (a, b, sure))"

definition ChainSortRolesForced :: "'c \<Rightarrow> 'c \<Rightarrow> bool \<Rightarrow> 'c \<times> 'c" where
  "ChainSortRolesForced a b swap = (if swap then (b, a) else (a, b))"

section \<open>IPv6\<close>

definition ChainConfigHasIPv6 :: "config \<Rightarrow> bool" where
  "ChainConfigHasIPv6 c =
     list_ex (\<lambda>a. IP a \<noteq> [] \<and> to4 (IP a) = None) (Addresses (Interface c))"

definition chainSplitDefault :: "ipcidr list" where
  "chainSplitDefault =
     [\<lparr> IP = [0, 0, 0, 0], Cidr = 1 \<rparr>, \<lparr> IP = [128, 0, 0, 0], Cidr = 1 \<rparr>]"

definition chainSplitDefaultV6 :: "ipcidr list" where
  "chainSplitDefaultV6 =
     [\<lparr> IP = (case parse_ip ''::'' of Some a \<Rightarrow> a | None \<Rightarrow> []), Cidr = 1 \<rparr>,
      \<lparr> IP = (case parse_ip ''8000::'' of Some a \<Rightarrow> a | None \<Rightarrow> []), Cidr = 1 \<rparr>]"

definition chainSplitDefaultFor :: "config \<Rightarrow> ipcidr list" where
  "chainSplitDefaultFor hop =
     chainSplitDefault @ (if ChainConfigHasIPv6 hop then chainSplitDefaultV6 else [])"

definition chainFilterDNS :: "ip list \<Rightarrow> bool \<Rightarrow> ip list" where
  "chainFilterDNS servers allowV6 =
     (if allowV6 then servers else filter (\<lambda>a. a \<noteq> [] \<and> to4 a \<noteq> None) servers)"

section \<open>Building the pair\<close>

definition chainHasEndpoint :: "config \<Rightarrow> bool" where
  "chainHasEndpoint c = list_ex (\<lambda>p. \<not> endpoint_is_empty (Endpoint p)) (Peers c)"

definition chainCopyPeers :: "peer list \<Rightarrow> peer list" where
  "chainCopyPeers ps =
     map (\<lambda>p. let ka = trim_space (PersistentKeepalive p) in
              p\<lparr>RxBytes := 0, TxBytes := 0, LastHandshakeTime := 0,
                PersistentKeepalive :=
                  (if ka = [] \<or> ka = ''0'' \<or> ka = ''off'' then ''25'' else PersistentKeepalive p)\<rparr>) ps"

text \<open>\<open>IP.IsUnspecified\<close>: 0.0.0.0 or ::, in either form.\<close>

definition is_unspecified :: "ip \<Rightarrow> bool" where
  "is_unspecified a \<longleftrightarrow>
     a = replicate 4 0 \<or> a = v4_mapped (replicate 4 0) \<or> a = replicate 16 0"

definition chainCoversEverything :: "ipcidr list \<Rightarrow> bool" where
  "chainCoversEverything ips = list_ex (\<lambda>a. Cidr a = 0 \<and> IP a \<noteq> [] \<and> is_unspecified (IP a)) ips"

definition cloudflare_dns :: "ip list" where
  "cloudflare_dns = [v4_mapped [1, 1, 1, 1], v4_mapped [1, 0, 0, 1]]"

text \<open>The two halves of \<open>ChainBuild\<close> after its checks.\<close>

definition build_hop1 :: "config \<Rightarrow> string \<Rightarrow> string \<Rightarrow> config" where
  "build_hop1 warp hiddenName outerAlias =
     warp\<lparr>Name := hiddenName,
          Interface := (Interface warp)
            \<lparr>TableOff := True, PinEndpointVia := outerAlias, MTU := ChainHop1MTU,
             DNS := [], DNSSearch := []\<rparr>,
          Peers := chainCopyPeers (Peers warp)\<rparr>"

definition build_hop2 :: "config \<Rightarrow> string \<Rightarrow> string \<Rightarrow> config" where
  "build_hop2 inner pairName hiddenName =
     (let dns0 = DNS (Interface inner);
          dns1 = (if dns0 = [] then cloudflare_dns else dns0);
          hop2 = inner\<lparr>Name := pairName,
            Interface := (Interface inner)
              \<lparr>TableOff := False, PinEndpointVia := hiddenName, MTU := ChainHop2MTU,
               DNS := chainFilterDNS dns1 (ChainConfigHasIPv6 inner)\<rparr>\<rparr>
      in hop2\<lparr>Peers := map (\<lambda>p. if chainCoversEverything (AllowedIPs p)
                               then p\<lparr>AllowedIPs := chainSplitDefaultFor hop2\<rparr> else p)
                         (chainCopyPeers (Peers inner))\<rparr>)"

definition ChainBuild ::
  "unicode \<Rightarrow> config option \<Rightarrow> config option \<Rightarrow> string \<Rightarrow> string \<Rightarrow> chain_error + config \<times> config"
where
  "ChainBuild u warp0 inner0 outerAlias0 pairName0 =
     (case (warp0, inner0) of
        (Some warp, Some inner) \<Rightarrow>
          (let outerAlias = trim_space outerAlias0; pairName = trim_space pairName0 in
           if outerAlias = [] then Inl NoOuterAdapter
           else if \<not> TunnelNameIsValid u pairName then Inl (BadPairName pairName)
           else (let hiddenName = ChainHiddenHopName u pairName in
             if \<not> TunnelNameIsValid u hiddenName then Inl (BadHiddenName hiddenName)
             else if \<not> chainHasEndpoint warp then Inl WarpWithoutEndpoint
             else if \<not> chainHasEndpoint inner then Inl InnerWithoutEndpoint
             else Inr (build_hop1 warp hiddenName outerAlias, build_hop2 inner pairName hiddenName)))
      | _ \<Rightarrow> Inl NeedTwoConfigs)"

definition chainEndpointOfConfig :: "config \<Rightarrow> string option" where
  "chainEndpointOfConfig c =
     map_option (\<lambda>p. endpoint_string (Endpoint p))
       (find (\<lambda>p. \<not> endpoint_is_empty (Endpoint p)) (Peers c))"

section \<open>Facts about the names\<close>

lemma dec_ascii: "list_all is_ascii (dec n)"
  using dec_graphic [of n] graphic_ascii by (auto simp: list_all_iff)

lemma lower_digit: "is_digit c \<Longrightarrow> lower_char c = c"
  by (simp add: is_digit_def)

lemma map_lower_dec: "map lower_char (dec n) = dec n"
  using dec_digits [of n] by (intro map_idI) (auto simp: list_all_iff lower_digit)

lemma dec_inject: "dec m = dec n \<longleftrightarrow> m = n"
proof
  assume eq: "dec m = dec n"
  have m: "digits_val (max m n) 0 (dec m) = Inr m" by (simp add: digits_val_dec)
  have n: "digits_val (max m n) 0 (dec n) = Inr n" by (simp add: digits_val_dec)
  from m n show "m = n" unfolding eq by (rule Inr_inject [OF trans [OF sym]])
qed simp

definition pair_candidate :: "nat \<Rightarrow> string" where
  "pair_candidate i = ChainPairBase @ (if i = 0 then [] else dec i)"

lemma pair_candidate_chars: "list_all name_char (pair_candidate i)"
proof -
  have "list_all name_char (dec i)"
    using dec_digits [of i] by (auto simp: list_all_iff name_char_def)
  then show ?thesis by (simp add: pair_candidate_def ChainPairBase_def name_char_def)
qed

lemma pair_candidate_lower:
  "to_lower u (pair_candidate i) = pair_candidate i"
  "to_lower u (pair_candidate i @ ChainHiddenSuffix) = pair_candidate i @ ChainHiddenSuffix"
  using dec_ascii [of i]
  by (simp_all add: to_lower_ascii pair_candidate_def ChainPairBase_def ChainHiddenSuffix_def
      is_ascii_def map_lower_dec)

lemma pair_candidate_hidden:
  "ChainHiddenHopName u (pair_candidate i) = pair_candidate i @ ChainHiddenSuffix"
proof -
  have "trimmed (pair_candidate i)"
    using pair_candidate_chars [of i] name_char_graphic
    by (intro trimmed_all_graphic) (auto simp: list_all_iff)
  moreover have "\<not> equal_fold u (pair_candidate i) ChainLegacyInner"
  proof
    assume "equal_fold u (pair_candidate i) ChainLegacyInner"
    moreover have "list_all is_ascii (pair_candidate i)"
      using pair_candidate_chars [of i] name_char_graphic graphic_ascii by (auto simp: list_all_iff)
    moreover have "list_all is_ascii ChainLegacyInner" by (simp add: ChainLegacyInner_def is_ascii_def)
    ultimately have "map lower_char (pair_candidate i) = map lower_char ChainLegacyInner"
      by (simp add: equal_fold_ascii)
    then show False by (simp add: pair_candidate_def ChainPairBase_def ChainLegacyInner_def)
  qed
  ultimately show ?thesis by (simp add: ChainHiddenHopName_def)
qed

lemma dash_not_in_candidate: "CHR ''-'' \<notin> set (pair_candidate i)"
  using dec_digits [of i]
  by (auto simp: pair_candidate_def ChainPairBase_def list_all_iff is_digit_def)

lemma pair_candidate_inject: "pair_candidate i = pair_candidate j \<longleftrightarrow> i = j"
  using dec_nonempty [of j] dec_nonempty [of i] by (auto simp: pair_candidate_def dec_inject simp del: dec_nonempty)

lemma candidate_not_hidden: "pair_candidate i \<noteq> pair_candidate j @ ChainHiddenSuffix"
proof
  assume "pair_candidate i = pair_candidate j @ ChainHiddenSuffix"
  then have "CHR ''-'' \<in> set (pair_candidate i)" by (simp add: ChainHiddenSuffix_def)
  then show False using dash_not_in_candidate by blast
qed

definition used_names :: "unicode \<Rightarrow> string list \<Rightarrow> string list" where
  "used_names u taken = map (\<lambda>n. to_lower u (trim_space n)) taken"

lemma name_is_free_candidate:
  "name_is_free u taken (pair_candidate i) \<longleftrightarrow>
   pair_candidate i \<notin> set (used_names u taken)
   \<and> pair_candidate i @ ChainHiddenSuffix \<notin> set (used_names u taken)"
  by (simp add: name_is_free_def used_names_def pair_candidate_lower pair_candidate_hidden
      Let_def)

text \<open>Every blocked candidate uses up a taken name of its own.\<close>

lemma blocked_candidates:
  assumes "\<And>i. i < n \<Longrightarrow> \<not> name_is_free u taken (pair_candidate i)"
  shows "n \<le> length taken"
proof -
  define f where "f i = (if pair_candidate i \<in> set (used_names u taken) then pair_candidate i
                         else pair_candidate i @ ChainHiddenSuffix)" for i
  have "f ` {..<n} \<subseteq> set (used_names u taken)"
    using assms by (auto simp: name_is_free_candidate f_def)
  moreover have "inj_on f {..<n}"
    by (auto simp: inj_on_def f_def pair_candidate_inject candidate_not_hidden
        candidate_not_hidden [symmetric] split: if_splits)
  ultimately have "n \<le> card (set (used_names u taken))"
    using card_mono [of "set (used_names u taken)" "f ` {..<n}"] by (simp add: card_image)
  also have "\<dots> \<le> length taken" using card_length [of "used_names u taken"] by (simp add: used_names_def)
  finally show ?thesis .
qed

lemma ChainNextPairName_candidate:
  assumes "length taken < 1000"
  shows "\<exists>i<1000. ChainNextPairName u taken = pair_candidate i
    \<and> name_is_free u taken (pair_candidate i)"
proof -
  have base: "pair_candidate 0 = ChainPairBase" by (simp add: pair_candidate_def)
  have num: "ChainPairBase @ dec i = pair_candidate i" if "0 < i" for i
    using that by (simp add: pair_candidate_def)
  have "\<not> (\<forall>i<1000. \<not> name_is_free u taken (pair_candidate i))"
    using blocked_candidates [of 1000 u taken] assms by auto
  then obtain i where i: "i < 1000" "name_is_free u taken (pair_candidate i)" by blast
  show ?thesis
  proof (cases "name_is_free u taken ChainPairBase")
    case True
    then show ?thesis using base by (intro exI [of _ 0]) (simp add: ChainNextPairName_def)
  next
    case False
    with i base have "i \<noteq> 0" by metis
    with i have ex: "\<exists>j\<in>set [1..<1000]. name_is_free u taken (ChainPairBase @ dec j)"
      using num by (intro bexI [of _ i]) auto
    then obtain j where j: "find (\<lambda>i. name_is_free u taken (ChainPairBase @ dec i)) [1..<1000] = Some j"
      by (cases "find (\<lambda>i. name_is_free u taken (ChainPairBase @ dec i)) [1..<1000]")
         (auto simp: find_None_iff simp del: upt_rec_numeral)
    then have "name_is_free u taken (ChainPairBase @ dec j)" "0 < j" "j < 1000"
      by (auto simp: find_Some_iff simp del: upt_rec_numeral)
    with False j num show ?thesis
      by (intro exI [of _ j]) (simp add: ChainNextPairName_def del: upt_rec_numeral)
  qed
qed

lemma dec_length_Suc: "length (dec (n div 10)) \<le> k \<Longrightarrow> length (dec n) \<le> Suc k"
  by (subst dec.simps) simp

lemma pair_candidate_length: "i < 1000 \<Longrightarrow> length (pair_candidate i) \<le> 9"
proof -
  assume "i < 1000"
  then have "length (dec (i div 10 div 10)) \<le> 1" by (subst dec.simps) (simp add: div_mult2_eq [symmetric])
  from dec_length_Suc [OF dec_length_Suc [OF this]] have "length (dec i) \<le> 3" by simp
  then show ?thesis by (simp add: pair_candidate_def ChainPairBase_def)
qed

lemma pair_name_valid:
  assumes "list_all name_char s" and "length s \<le> 26" and "s = ChainPairBase @ t"
  shows "TunnelNameIsValid u s" and "TunnelNameIsValid u (s @ ChainHiddenSuffix)"
proof -
  have valid: "TunnelNameIsValid u n"
    if n: "list_all name_char n" "length n \<le> 32" "n = ChainPairBase @ r" for n r
  proof -
    have ascii: "list_all is_ascii n"
      using n(1) name_char_graphic graphic_ascii by (auto simp: list_all_iff)
    have "\<not> equal_fold u n w" if "w \<in> set reservedNames" for w
    proof
      assume "equal_fold u n w"
      moreover have "list_all is_ascii w"
        using that by (auto simp: reservedNames_def is_ascii_def)
      ultimately have "map lower_char n = map lower_char w"
        using ascii by (simp add: equal_fold_ascii)
      then show False using that n(3) by (auto simp: reservedNames_def ChainPairBase_def)
    qed
    then have "\<not> isReserved u n" by (auto simp: isReserved_def list_ex_iff)
    moreover have "\<not> hasSpecialChars n"
    proof -
      have low: "\<not> name_char (char_of k)" if "k < 32" for k :: nat
        using name_char_graphic [of "char_of k"] that by (auto simp: is_graphic_def of_char_of take_bit_eq_mod)
      have "\<forall>c\<in>set (specialChars @ netshellDllForbidden @ serviceNameForbidden). \<not> name_char c"
        using low
        by (auto simp: specialChars_def netshellDllForbidden_def serviceNameForbidden_def
            simp del: upt_rec_numeral) (simp_all add: name_char_def is_digit_def)
      then show ?thesis
        using n(1) by (auto simp: hasSpecialChars_def contains_any_def list_ex_iff list_all_iff)
    qed
    ultimately show ?thesis
      using n by (simp add: TunnelNameIsValid_def allowedNameFormat_def ChainPairBase_def)
  qed
  show "TunnelNameIsValid u s" by (rule valid) (use assms in auto)
  show "TunnelNameIsValid u (s @ ChainHiddenSuffix)"
    by (rule valid) (use assms in \<open>auto simp: ChainHiddenSuffix_def name_char_def is_digit_def\<close>)
qed

end
