(* ===== verification/ChainOrder.thy ===== *)
theory ChainOrder
  imports ConfStore ChainBuild
begin

text \<open>
  Which tunnel rides on which: \<open>upstream-manager/chainmanager.go\<close>, the name queries of
  \<open>chainorder.go\<close> and \<open>chainHopOrder\<close> of \<open>chainguard.go\<close>. The relation is read from the
  \<open>PinEndpointVia\<close> field of the stored configurations; an unreadable one has no parent.
  A Go empty string as an answer is the empty list here too.
\<close>

definition chainMaxDepth :: nat where "chainMaxDepth = 4"

definition isChainHop :: "config option \<Rightarrow> bool" where
  "isChainHop c =
     (case c of None \<Rightarrow> False | Some c \<Rightarrow> trim_space (PinEndpointVia (Interface c)) \<noteq> [])"

definition chainSiblings :: "unicode \<Rightarrow> config \<Rightarrow> config \<Rightarrow> bool" where
  "chainSiblings u a b =
     (if \<not> isChainHop (Some a) \<or> \<not> isChainHop (Some b) then False
      else if equal_fold u (trim_space (PinEndpointVia (Interface a))) (trim_space (Name b)) then True
      else if equal_fold u (trim_space (PinEndpointVia (Interface b))) (trim_space (Name a)) then True
      else False)"

definition loaded :: "store_env \<Rightarrow> directory option \<Rightarrow> string \<Rightarrow> config option" where
  "loaded env dir name =
     (case LoadFromName env dir name of Inl _ \<Rightarrow> None | Inr c \<Rightarrow> Some c)"

definition chainHopByName :: "store_env \<Rightarrow> directory option \<Rightarrow> string \<Rightarrow> bool" where
  "chainHopByName env dir name = isChainHop (loaded env dir name)"

definition chainParentOfConfig :: "store_env \<Rightarrow> directory option \<Rightarrow> config option \<Rightarrow> string" where
  "chainParentOfConfig env dir c =
     (case c of
        None \<Rightarrow> []
      | Some c \<Rightarrow>
          (let via = trim_space (PinEndpointVia (Interface c)) in
           if via = [] then []
           else (case ListConfigNames (env_unicode env) dir of
                   Inl _ \<Rightarrow> []
                 | Inr names \<Rightarrow>
                     (case find (\<lambda>n. equal_fold (env_unicode env) (trim_space n) via) names of
                        Some n \<Rightarrow> n
                      | None \<Rightarrow> []))))"

definition chainParentName :: "store_env \<Rightarrow> directory option \<Rightarrow> string \<Rightarrow> string" where
  "chainParentName env dir name = chainParentOfConfig env dir (loaded env dir name)"

definition chainChildNames :: "store_env \<Rightarrow> directory option \<Rightarrow> string \<Rightarrow> string list" where
  "chainChildNames env dir name =
     (let u = env_unicode env in
      case ListConfigNames u dir of
        Inl _ \<Rightarrow> []
      | Inr names \<Rightarrow>
          filter (\<lambda>n. \<not> equal_fold u n name
            \<and> (case loaded env dir n of
                  None \<Rightarrow> False
                | Some c \<Rightarrow> equal_fold u (trim_space (PinEndpointVia (Interface c))) (trim_space name)))
            names)"

definition chainHiddenParentOf :: "store_env \<Rightarrow> directory option \<Rightarrow> string \<Rightarrow> string" where
  "chainHiddenParentOf env dir name =
     (let parent = chainParentName env dir name in
      if parent = [] then []
      else if \<not> ChainIsHiddenHopName (env_unicode env) parent then []
      else parent)"

text \<open>The loop of \<open>chainHopOrder\<close> prepends parents, at most \<open>chainMaxDepth\<close> of them.\<close>

fun climb :: "store_env \<Rightarrow> directory option \<Rightarrow> nat \<Rightarrow> string \<Rightarrow> string list \<Rightarrow> string list" where
  "climb env dir 0 name order = order"
| "climb env dir (Suc k) name order =
     (let parent = chainParentName env dir name in
      if parent = [] then order else climb env dir k parent (parent # order))"

definition chainHopOrder :: "store_env \<Rightarrow> directory option \<Rightarrow> string \<Rightarrow> string list" where
  "chainHopOrder env dir leaf = climb env dir chainMaxDepth leaf [leaf]"

section \<open>Facts\<close>

lemma chainSiblings_sym: "chainSiblings u a b = chainSiblings u b a"
  by (auto simp: chainSiblings_def)

lemma parentE:
  assumes "chainParentName env dir name = p" and "p \<noteq> []"
  obtains c names where "loaded env dir name = Some c"
    and "ListConfigNames (env_unicode env) dir = Inr names" and "p \<in> set names"
    and "equal_fold (env_unicode env) (trim_space p) (trim_space (PinEndpointVia (Interface c)))"
proof -
  let ?u = "env_unicode env"
  from assms obtain c where c: "loaded env dir name = Some c"
    by (auto simp: chainParentName_def chainParentOfConfig_def split: option.splits)
  let ?via = "trim_space (PinEndpointVia (Interface c))"
  from assms c obtain names where names: "ListConfigNames ?u dir = Inr names"
    by (auto simp: chainParentName_def chainParentOfConfig_def Let_def split: sum.splits if_splits)
  from assms c names have "find (\<lambda>n. equal_fold ?u (trim_space n) ?via) names = Some p"
    by (auto simp: chainParentName_def chainParentOfConfig_def Let_def split: option.splits if_splits)
  then have "p \<in> set names" "equal_fold ?u (trim_space p) ?via"
    by (auto simp: find_Some_iff)
  with c names that show thesis by blast
qed

lemma ListConfigNames_valid:
  "ListConfigNames u dir = Inr names \<Longrightarrow> n \<in> set names \<Longrightarrow> TunnelNameIsValid u n"
  by (auto simp: ListConfigNames_def list_names_valid split: option.splits)

text \<open>The chain below a name: each element is the parent of the next one.\<close>

fun linked :: "store_env \<Rightarrow> directory option \<Rightarrow> string list \<Rightarrow> bool" where
  "linked env dir (p # n # rest) \<longleftrightarrow> chainParentName env dir n = p \<and> p \<noteq> [] \<and> linked env dir (n # rest)"
| "linked env dir _ \<longleftrightarrow> True"

lemma climb_linked:
  "linked env dir (name # rest) \<Longrightarrow> linked env dir (climb env dir k name (name # rest))"
  by (induction k arbitrary: name rest) (auto simp: Let_def)

lemma climb_last: "order \<noteq> [] \<Longrightarrow> last (climb env dir k name order) = last order"
  by (induction k arbitrary: name order) (auto simp: Let_def)

lemma climb_length: "length (climb env dir k name order) \<le> length order + k"
proof (induction k arbitrary: name order)
  case (Suc k)
  then show ?case
    using Suc.IH [of "chainParentName env dir name" "chainParentName env dir name # order"]
    by (simp add: Let_def)
qed simp

lemma climb_nonempty: "order \<noteq> [] \<Longrightarrow> climb env dir k name order \<noteq> []"
  by (induction k arbitrary: name order) (auto simp: Let_def)

lemma climb_root:
  "length (climb env dir k name (name # rest)) < Suc (length rest) + k \<Longrightarrow>
   chainParentName env dir (hd (climb env dir k name (name # rest))) = []"
proof (induction k arbitrary: name rest)
  case 0
  then show ?case by simp
next
  case (Suc k)
  show ?case
  proof (cases "chainParentName env dir name = []")
    case True
    then show ?thesis by simp
  next
    case False
    with Suc.prems have
      "length (climb env dir k (chainParentName env dir name)
         (chainParentName env dir name # name # rest)) < Suc (length (name # rest)) + k"
      by (simp add: Let_def)
    from Suc.IH [OF this] False show ?thesis by (simp add: Let_def)
  qed
qed

lemma chainHopOrder_facts:
  "linked env dir (chainHopOrder env dir leaf)"
  "last (chainHopOrder env dir leaf) = leaf"
  "chainHopOrder env dir leaf \<noteq> []"
  "length (chainHopOrder env dir leaf) \<le> 5"
  "length (chainHopOrder env dir leaf) < 5 \<Longrightarrow>
   chainParentName env dir (hd (chainHopOrder env dir leaf)) = []"
  unfolding chainHopOrder_def chainMaxDepth_def
  using climb_linked [of env dir leaf "[]" 4] climb_last [of "[leaf]" env dir 4 leaf]
    climb_nonempty [of "[leaf]" env dir 4 leaf] climb_length [of env dir 4 leaf "[leaf]"]
    climb_root [of env dir 4 leaf "[]"]
  by simp_all

end
