(* ===== verification/ChainFirewall.thy ===== *)
theory ChainFirewall
  imports GoNet
begin

text \<open>
  The kill switch, \<open>fork-sources/chainfirewall.go\<close>, and the IPv6 block,
  \<open>templates/p55-chainipv6fw.go.txt\<close>. A dynamic WFP session is the list of the filters added
  in it; a closed session has none.

  The WFP engine and the helpers of the upstream package that are not in this repository
  (\<open>permitTunInterface\<close>, \<open>permitLoopback\<close>, \<open>permitDHCPIPv4\<close>, \<open>blockAll\<close>, \<open>runTransaction\<close>)
  are the parameter \<open>fw_api\<close>. \<open>documented_api\<close> states what they do as far as the theorems
  need it. Filters with the same weight are treated as the worst case: one that permits wins.
\<close>

datatype fw_layer = ConnectV4 | AcceptV4 | ConnectV6 | AcceptV6

datatype fw_cond =
    AppId string
  | Protocol "8 word"
  | RemoteAddr "32 word"
  | RemoteNet "32 word" "32 word"
  | RemotePort "16 word"
  | LocalInterface "64 word"
  | OtherCond nat

datatype fw_action = Permit | BlockIt

record wfp_filter =
  f_layer :: fw_layer
  f_weight :: nat
  f_conds :: "fw_cond list"
  f_action :: fw_action

datatype fw_error =
    AlreadyEnabled | NoConfiguration | NeedBothLUIDs | NeedIPv4Endpoints | NeedAnApp
  | EngineError | OnlyIPv4Endpoints | NoIPv4DNSServer

record chain_firewall_config =
  Hop1LUID :: "64 word"
  Hop2LUID :: "64 word"
  Hop1Endpoint :: ip
  Hop1Port :: "16 word"
  Hop2Endpoint :: ip
  Hop2Port :: "16 word"
  DNSServers :: "ip list"
  AllowedApps :: "string list"
  AllowedLANs :: "ipnet list"

record fw_api =
  api_open :: bool
  api_base :: bool
  api_app :: "string \<Rightarrow> bool"
  api_add :: "wfp_filter list \<Rightarrow> wfp_filter \<Rightarrow> bool"
  permit_tun_interface :: "nat \<Rightarrow> 64 word \<Rightarrow> fw_error + wfp_filter list"
  permit_loopback :: "nat \<Rightarrow> fw_error + wfp_filter list"
  permit_dhcp_ipv4 :: "nat \<Rightarrow> fw_error + wfp_filter list"
  block_all :: "nat \<Rightarrow> fw_error + wfp_filter list"
  run_transaction :: "fw_error + wfp_filter list \<Rightarrow> fw_error + wfp_filter list"

section \<open>Filters\<close>

definition chainLayersV4 :: "fw_layer list" where "chainLayersV4 = [ConnectV4, AcceptV4]"

definition chainLayersBoth :: "fw_layer list" where
  "chainLayersBoth = [ConnectV4, AcceptV4, ConnectV6, AcceptV6]"

definition IPPROTO_UDP :: "8 word" where "IPPROTO_UDP = 17"
definition IPPROTO_TCP :: "8 word" where "IPPROTO_TCP = 6"

definition dnsPortAndProtocolConditions :: "fw_cond list" where
  "dnsPortAndProtocolConditions =
     [RemotePort 53, RemotePort 853, Protocol IPPROTO_UDP, Protocol IPPROTO_TCP]"

definition be32 :: "bytes \<Rightarrow> 32 word" where
  "be32 b = foldl (\<lambda>a x. a * 256 + ucast x) 0 b"

text \<open>Adding a filter to every layer of a list; the engine may refuse each of them.\<close>

fun add_filters :: "fw_api \<Rightarrow> wfp_filter list \<Rightarrow> wfp_filter list \<Rightarrow> fw_error + wfp_filter list" where
  "add_filters api acc [] = Inr acc"
| "add_filters api acc (f # fs) =
     (if api_add api acc f then add_filters api (acc @ [f]) fs else Inl EngineError)"

definition on_layers :: "fw_layer list \<Rightarrow> nat \<Rightarrow> fw_cond list \<Rightarrow> fw_action \<Rightarrow> wfp_filter list" where
  "on_layers ls w cs act =
     map (\<lambda>l. \<lparr> f_layer = l, f_weight = w, f_conds = cs, f_action = act \<rparr>) ls"

definition endpoint_conditions ::
  "string \<Rightarrow> 32 word \<Rightarrow> 16 word \<Rightarrow> 64 word \<Rightarrow> fw_cond list"
where
  "endpoint_conditions app address port luid =
     [AppId app, Protocol IPPROTO_UDP, RemoteAddr address, RemotePort port]
     @ (if luid \<noteq> 0 then [LocalInterface luid] else [])"

definition permitEndpoint ::
  "fw_api \<Rightarrow> wfp_filter list \<Rightarrow> nat \<Rightarrow> string list \<Rightarrow> ip \<Rightarrow> 16 word \<Rightarrow> 64 word
   \<Rightarrow> fw_error + wfp_filter list"
where
  "permitEndpoint api acc w apps a port luid =
     (case to4 a of
        None \<Rightarrow> Inl OnlyIPv4Endpoints
      | Some ip4 \<Rightarrow>
          add_filters api acc
            (concat (map (\<lambda>app. on_layers chainLayersV4 w
               (endpoint_conditions app (be32 ip4) port luid) Permit) apps)))"

definition dns_addresses :: "ip list \<Rightarrow> 32 word list" where
  "dns_addresses servers =
     map (\<lambda>a. be32 (the (to4 a))) (filter (\<lambda>a. to4 a \<noteq> None) servers)"

definition permitChainDNS ::
  "fw_api \<Rightarrow> wfp_filter list \<Rightarrow> nat \<Rightarrow> ip list \<Rightarrow> 64 word \<Rightarrow> fw_error + wfp_filter list"
where
  "permitChainDNS api acc w servers luid =
     (if dns_addresses servers = [] then Inl NoIPv4DNSServer
      else add_filters api acc
        (on_layers chainLayersV4 w
           (LocalInterface luid # dnsPortAndProtocolConditions
              @ map RemoteAddr (dns_addresses servers)) Permit))"

definition blockDNSPorts :: "fw_api \<Rightarrow> wfp_filter list \<Rightarrow> nat \<Rightarrow> fw_error + wfp_filter list" where
  "blockDNSPorts api acc w =
     add_filters api acc (on_layers chainLayersBoth w dnsPortAndProtocolConditions BlockIt)"

definition lan_masks :: "ipnet list \<Rightarrow> (32 word \<times> 32 word) list" where
  "lan_masks lans =
     map (\<lambda>n. (be32 (the (to4 (net_ip n))), be32 (net_mask n)))
       (filter (\<lambda>n. to4 (net_ip n) \<noteq> None \<and> length (net_mask n) = 4) lans)"

definition permitLANs ::
  "fw_api \<Rightarrow> wfp_filter list \<Rightarrow> nat \<Rightarrow> ipnet list \<Rightarrow> fw_error + wfp_filter list"
where
  "permitLANs api acc w lans =
     add_filters api acc
       (concat (map (\<lambda>(a, m). on_layers chainLayersV4 w [RemoteNet a m] Permit) (lan_masks lans)))"

section \<open>The rule sets\<close>

definition chain_installer :: "fw_api \<Rightarrow> chain_firewall_config \<Rightarrow> fw_error + wfp_filter list" where
  "chain_installer api cfg =
     (if \<not> api_base api then Inl EngineError
      else if \<not> list_all (api_app api) (AllowedApps cfg) then Inl EngineError
      else
        rbind (permitEndpoint api [] 15 (AllowedApps cfg) (Hop1Endpoint cfg) (Hop1Port cfg) 0) (\<lambda>a1.
        rbind (permitEndpoint api a1 15 (AllowedApps cfg) (Hop2Endpoint cfg) (Hop2Port cfg)
                 (Hop1LUID cfg)) (\<lambda>a2.
        rbind (if DNSServers cfg = [] then Inr a2
               else permitChainDNS api a2 14 (DNSServers cfg) (Hop2LUID cfg)) (\<lambda>a3.
        rbind (blockDNSPorts api a3 13) (\<lambda>a4.
        rbind (permit_tun_interface api 12 (Hop2LUID cfg)) (\<lambda>t.
        rbind (permit_loopback api 11) (\<lambda>l.
        rbind (permit_dhcp_ipv4 api 10) (\<lambda>d.
        rbind (if AllowedLANs cfg = [] then Inr (a4 @ t @ l @ d)
               else permitLANs api (a4 @ t @ l @ d) 10 (AllowedLANs cfg)) (\<lambda>a5.
        rbind (block_all api 0) (\<lambda>b. Inr (a5 @ b)))))))))))"

text \<open>The session variable is \<open>None\<close> for the handle 0.\<close>

type_synonym session = "wfp_filter list option"

definition EnableChainFirewall ::
  "fw_api \<Rightarrow> chain_firewall_config option \<Rightarrow> session \<Rightarrow> fw_error + session"
where
  "EnableChainFirewall api cfg0 chainSession =
     (if chainSession \<noteq> None then Inl AlreadyEnabled
      else (case cfg0 of
              None \<Rightarrow> Inl NoConfiguration
            | Some cfg \<Rightarrow>
                if Hop1LUID cfg = 0 \<or> Hop2LUID cfg = 0 then Inl NeedBothLUIDs
                else if to4 (Hop1Endpoint cfg) = None \<or> to4 (Hop2Endpoint cfg) = None
                then Inl NeedIPv4Endpoints
                else if AllowedApps cfg = [] then Inl NeedAnApp
                else if \<not> api_open api then Inl EngineError
                else rbind (run_transaction api (chain_installer api cfg)) (\<lambda>fs. Inr (Some fs))))"

definition DisableChainFirewall :: "session \<Rightarrow> session" where
  "DisableChainFirewall chainSession = None"

definition blockIPv6 :: "fw_api \<Rightarrow> wfp_filter list \<Rightarrow> nat \<Rightarrow> fw_error + wfp_filter list" where
  "blockIPv6 api acc w = add_filters api acc (on_layers [ConnectV6, AcceptV6] w [] BlockIt)"

definition ipv6_installer :: "fw_api \<Rightarrow> fw_error + wfp_filter list" where
  "ipv6_installer api =
     (if \<not> api_base api then Inl EngineError
      else rbind (permit_loopback api 11) (\<lambda>l. blockIPv6 api l 0))"

definition EnableIPv6Block :: "fw_api \<Rightarrow> session \<Rightarrow> fw_error + session" where
  "EnableIPv6Block api ipv6Session =
     (if ipv6Session \<noteq> None then Inr ipv6Session
      else if \<not> api_open api then Inl EngineError
      else rbind (run_transaction api (ipv6_installer api)) (\<lambda>fs. Inr (Some fs)))"

definition DisableIPv6Block :: "session \<Rightarrow> session" where
  "DisableIPv6Block ipv6Session = None"

definition IPv6BlockIsOn :: "session \<Rightarrow> bool" where
  "IPv6BlockIsOn ipv6Session \<longleftrightarrow> ipv6Session \<noteq> None"

section \<open>What a rule set lets through\<close>

record packet =
  k_layer :: fw_layer
  k_app :: string
  k_proto :: "8 word"
  k_remote :: "32 word"
  k_port :: "16 word"
  k_luid :: "64 word"
  k_other :: "nat \<Rightarrow> bool"

text \<open>Conditions on one field are alternatives, conditions on different fields all hold.\<close>

fun cond_field :: "fw_cond \<Rightarrow> nat" where
  "cond_field (AppId _) = 0"
| "cond_field (Protocol _) = 1"
| "cond_field (RemoteAddr _) = 2"
| "cond_field (RemoteNet _ _) = 2"
| "cond_field (RemotePort _) = 3"
| "cond_field (LocalInterface _) = 4"
| "cond_field (OtherCond n) = 5 + n"

fun cond_holds :: "packet \<Rightarrow> fw_cond \<Rightarrow> bool" where
  "cond_holds k (AppId a) = (k_app k = a)"
| "cond_holds k (Protocol p) = (k_proto k = p)"
| "cond_holds k (RemoteAddr a) = (k_remote k = a)"
| "cond_holds k (RemoteNet a m) = (and (k_remote k) m = and a m)"
| "cond_holds k (RemotePort p) = (k_port k = p)"
| "cond_holds k (LocalInterface l) = (k_luid k = l)"
| "cond_holds k (OtherCond n) = k_other k n"

definition matches :: "packet \<Rightarrow> wfp_filter \<Rightarrow> bool" where
  "matches k f \<longleftrightarrow>
     f_layer f = k_layer k
     \<and> list_all (\<lambda>c. list_ex (\<lambda>d. cond_field d = cond_field c \<and> cond_holds k d) (f_conds f)) (f_conds f)"

text \<open>A packet no filter matches is let through.\<close>

definition permitted :: "wfp_filter list \<Rightarrow> packet \<Rightarrow> bool" where
  "permitted fs k =
     (let ms = filter (matches k) fs in
      ms = [] \<or> list_ex (\<lambda>f. f_action f = Permit \<and> list_all (\<lambda>g. f_weight g \<le> f_weight f) ms) ms)"

definition session_permits :: "session \<Rightarrow> packet \<Rightarrow> bool" where
  "session_permits s k = (case s of None \<Rightarrow> True | Some fs \<Rightarrow> permitted fs k)"

definition is_dns :: "packet \<Rightarrow> bool" where
  "is_dns k \<longleftrightarrow>
     (k_port k = 53 \<or> k_port k = 853) \<and> (k_proto k = IPPROTO_UDP \<or> k_proto k = IPPROTO_TCP)"

definition is_v4 :: "packet \<Rightarrow> bool" where
  "is_v4 k \<longleftrightarrow> k_layer k = ConnectV4 \<or> k_layer k = AcceptV4"

text \<open>
  What the helpers outside the repository do: they add filters of the weight they are given,
  the permitting ones matching no packet but those of their interface, loopback or DHCP, and
  \<open>blockAll\<close> an unconditional block at each layer. A transaction commits what its body added
  and reports its error.
\<close>

definition documented_api :: "fw_api \<Rightarrow> (packet \<Rightarrow> bool) \<Rightarrow> (packet \<Rightarrow> bool) \<Rightarrow> bool" where
  "documented_api api loopback dhcp \<longleftrightarrow>
     (\<forall>w luid fs f. permit_tun_interface api w luid = Inr fs \<longrightarrow> f \<in> set fs \<longrightarrow>
        f_weight f = w \<and> f_action f = Permit \<and> (\<forall>k. matches k f \<longrightarrow> k_luid k = luid))
     \<and> (\<forall>w fs f. permit_loopback api w = Inr fs \<longrightarrow> f \<in> set fs \<longrightarrow>
        f_weight f = w \<and> f_action f = Permit \<and> (\<forall>k. matches k f \<longrightarrow> loopback k))
     \<and> (\<forall>w fs f. permit_dhcp_ipv4 api w = Inr fs \<longrightarrow> f \<in> set fs \<longrightarrow>
        f_weight f = w \<and> f_action f = Permit \<and> (\<forall>k. matches k f \<longrightarrow> dhcp k \<and> is_v4 k))
     \<and> (\<forall>w fs. block_all api w = Inr fs \<longrightarrow>
        (\<forall>f\<in>set fs. f_weight f = w \<and> f_action f = BlockIt) \<and> (\<forall>k. \<exists>f\<in>set fs. matches k f))
     \<and> (\<forall>r. run_transaction api r = r \<or> run_transaction api r = Inl EngineError)"

lemma documentedD:
  assumes "documented_api api loopback dhcp"
  shows "permit_tun_interface api w luid = Inr fs \<Longrightarrow> f \<in> set fs \<Longrightarrow>
      f_weight f = w \<and> f_action f = Permit \<and> (matches k f \<longrightarrow> k_luid k = luid)"
    and "permit_loopback api w = Inr fs \<Longrightarrow> f \<in> set fs \<Longrightarrow>
      f_weight f = w \<and> f_action f = Permit \<and> (matches k f \<longrightarrow> loopback k)"
    and "permit_dhcp_ipv4 api w = Inr fs \<Longrightarrow> f \<in> set fs \<Longrightarrow>
      f_weight f = w \<and> f_action f = Permit \<and> (matches k f \<longrightarrow> dhcp k \<and> is_v4 k)"
    and "block_all api w = Inr fs \<Longrightarrow> f \<in> set fs \<Longrightarrow> f_weight f = w \<and> f_action f = BlockIt"
    and "block_all api w = Inr fs \<Longrightarrow> \<exists>f\<in>set fs. matches k f"
    and "run_transaction api r = Inr fs \<Longrightarrow> r = Inr fs"
  using assms unfolding documented_api_def by (blast, blast, blast, blast, blast, metis sum.distinct(1))

lemma add_filters_result: "add_filters api acc fs = Inr r \<Longrightarrow> r = acc @ fs"
  by (induction fs arbitrary: acc) (fastforce split: if_splits)+

lemma set_on_layers:
  "f \<in> set (on_layers ls w cs act) \<longleftrightarrow>
   f_layer f \<in> set ls \<and> f_weight f = w \<and> f_conds f = cs \<and> f_action f = act"
  by (cases f) (auto simp: on_layers_def)

section \<open>The filters of the kill switch\<close>

definition endpoint_filter :: "chain_firewall_config \<Rightarrow> wfp_filter \<Rightarrow> bool" where
  "endpoint_filter cfg f \<longleftrightarrow>
     f_weight f = 15 \<and> f_action f = Permit \<and> f_layer f \<in> set chainLayersV4 \<and>
     (\<exists>app\<in>set (AllowedApps cfg).
        f_conds f = endpoint_conditions app (be32 (the (to4 (Hop1Endpoint cfg)))) (Hop1Port cfg) 0
        \<or> f_conds f = endpoint_conditions app (be32 (the (to4 (Hop2Endpoint cfg)))) (Hop2Port cfg)
            (Hop1LUID cfg))"

definition dns_filter :: "chain_firewall_config \<Rightarrow> wfp_filter \<Rightarrow> bool" where
  "dns_filter cfg f \<longleftrightarrow>
     f_weight f = 14 \<and> f_action f = Permit \<and> f_layer f \<in> set chainLayersV4 \<and>
     dns_addresses (DNSServers cfg) \<noteq> [] \<and>
     f_conds f = LocalInterface (Hop2LUID cfg) # dnsPortAndProtocolConditions
                   @ map RemoteAddr (dns_addresses (DNSServers cfg))"

definition dns_block :: "wfp_filter \<Rightarrow> bool" where
  "dns_block f \<longleftrightarrow>
     f_weight f = 13 \<and> f_action f = BlockIt \<and> f_conds f = dnsPortAndProtocolConditions"

definition lan_filter :: "chain_firewall_config \<Rightarrow> wfp_filter \<Rightarrow> bool" where
  "lan_filter cfg f \<longleftrightarrow>
     f_weight f = 10 \<and> f_action f = Permit \<and> f_layer f \<in> set chainLayersV4 \<and>
     (\<exists>(a, m)\<in>set (lan_masks (AllowedLANs cfg)). f_conds f = [RemoteNet a m])"

lemma chain_installer_filters:
  assumes inst: "chain_installer api cfg = Inr fs"
    and v4: "to4 (Hop1Endpoint cfg) \<noteq> None" "to4 (Hop2Endpoint cfg) \<noteq> None"
  obtains e n b t l d ns ba where
    "fs = e @ n @ b @ t @ l @ d @ ns @ ba"
    and "\<forall>f. f \<in> set e \<longleftrightarrow> endpoint_filter cfg f" and "\<forall>f. f \<in> set n \<longleftrightarrow> dns_filter cfg f"
    and "b = on_layers chainLayersBoth 13 dnsPortAndProtocolConditions BlockIt"
    and "permit_tun_interface api 12 (Hop2LUID cfg) = Inr t"
    and "permit_loopback api 11 = Inr l" and "permit_dhcp_ipv4 api 10 = Inr d"
    and "\<forall>f\<in>set ns. lan_filter cfg f" and "block_all api 0 = Inr ba"
proof -
  from v4 obtain x y where xy: "to4 (Hop1Endpoint cfg) = Some x" "to4 (Hop2Endpoint cfg) = Some y"
    by auto
  let ?e1 = "concat (map (\<lambda>app. on_layers chainLayersV4 15
      (endpoint_conditions app (be32 x) (Hop1Port cfg) 0) Permit) (AllowedApps cfg))"
  let ?e2 = "concat (map (\<lambda>app. on_layers chainLayersV4 15
      (endpoint_conditions app (be32 y) (Hop2Port cfg) (Hop1LUID cfg)) Permit) (AllowedApps cfg))"
  let ?b = "on_layers chainLayersBoth 13 dnsPortAndProtocolConditions BlockIt"
  from inst have ok: "api_base api" "list_all (api_app api) (AllowedApps cfg)"
    by (auto simp: chain_installer_def split: if_split_asm)
  from inst obtain a1 a2 a3 a4 t l d a5 ba where
    a1: "permitEndpoint api [] 15 (AllowedApps cfg) (Hop1Endpoint cfg) (Hop1Port cfg) 0 = Inr a1"
    and a2: "permitEndpoint api a1 15 (AllowedApps cfg) (Hop2Endpoint cfg) (Hop2Port cfg)
               (Hop1LUID cfg) = Inr a2"
    and a3': "(if DNSServers cfg = [] then Inr a2
          else permitChainDNS api a2 14 (DNSServers cfg) (Hop2LUID cfg)) = Inr a3"
    and a4: "blockDNSPorts api a3 13 = Inr a4"
    and t: "permit_tun_interface api 12 (Hop2LUID cfg) = Inr t"
    and l: "permit_loopback api 11 = Inr l" and d: "permit_dhcp_ipv4 api 10 = Inr d"
    and a5': "(if AllowedLANs cfg = [] then Inr (a4 @ t @ l @ d)
              else permitLANs api (a4 @ t @ l @ d) 10 (AllowedLANs cfg)) = Inr a5"
    and ba: "block_all api 0 = Inr ba" and fs: "fs = a5 @ ba"
    unfolding chain_installer_def by (simp only: ok not_True_eq_False if_False rbind_Inr_iff) blast
  have e: "a1 = ?e1" "a2 = ?e1 @ ?e2" "a4 = a3 @ ?b"
    using a1 a2 a4 by (auto simp: permitEndpoint_def xy blockDNSPorts_def dest!: add_filters_result)
  note a3 = a3' [unfolded e] and a5 = a5' [unfolded e]
  let ?n = "on_layers chainLayersV4 14
           (LocalInterface (Hop2LUID cfg) # dnsPortAndProtocolConditions
              @ map RemoteAddr (dns_addresses (DNSServers cfg))) Permit"
  have "a3 = ?e1 @ ?e2 @ (if DNSServers cfg = [] then [] else ?n)
      \<and> (DNSServers cfg = [] \<or> dns_addresses (DNSServers cfg) \<noteq> [])"
    using a3 by (auto simp: permitChainDNS_def split: if_split_asm dest!: add_filters_result)
  moreover have "f \<in> set ?n \<and> dns_addresses (DNSServers cfg) \<noteq> [] \<longleftrightarrow> dns_filter cfg f" for f
    by (auto simp: dns_filter_def set_on_layers)
  moreover have "DNSServers cfg = [] \<Longrightarrow> dns_addresses (DNSServers cfg) = []"
    by (simp add: dns_addresses_def)
  ultimately obtain n where n: "a3 = ?e1 @ ?e2 @ n" "\<forall>f. f \<in> set n \<longleftrightarrow> dns_filter cfg f"
    by (cases "DNSServers cfg = []") (force+)
  let ?ns = "concat (map (\<lambda>(a, m). on_layers chainLayersV4 10 [RemoteNet a m] Permit)
      (lan_masks (AllowedLANs cfg)))"
  have lans: "\<forall>f\<in>set ?ns. lan_filter cfg f"
    by (fastforce simp: lan_filter_def set_on_layers)
  from a5 have "a5 = (a3 @ ?b) @ t @ l @ d @ [] \<or> a5 = (a3 @ ?b) @ t @ l @ d @ ?ns"
    by (auto simp: permitLANs_def split: if_split_asm dest!: add_filters_result)
  with lans obtain ns where ns: "a5 = (a3 @ ?b) @ t @ l @ d @ ns" "\<forall>f\<in>set ns. lan_filter cfg f"
    by (metis empty_iff list.set(1))
  have "\<forall>f. f \<in> set (?e1 @ ?e2) \<longleftrightarrow> endpoint_filter cfg f"
    by (auto simp: endpoint_filter_def set_on_layers xy)
  then show thesis using that [of "?e1 @ ?e2" n ?b t l d ns ba] n ns t l d ba fs by simp
qed

section \<open>What the kill switch lets out\<close>

definition to_endpoint :: "chain_firewall_config \<Rightarrow> packet \<Rightarrow> bool" where
  "to_endpoint cfg k \<longleftrightarrow>
     is_v4 k \<and> k_app k \<in> set (AllowedApps cfg) \<and> k_proto k = IPPROTO_UDP \<and>
     (Some (k_remote k) = map_option be32 (to4 (Hop1Endpoint cfg)) \<and> k_port k = Hop1Port cfg
      \<or> Some (k_remote k) = map_option be32 (to4 (Hop2Endpoint cfg)) \<and> k_port k = Hop2Port cfg
        \<and> k_luid k = Hop1LUID cfg)"

definition to_resolver :: "chain_firewall_config \<Rightarrow> packet \<Rightarrow> bool" where
  "to_resolver cfg k \<longleftrightarrow>
     is_v4 k \<and> is_dns k \<and> k_luid k = Hop2LUID cfg
     \<and> k_remote k \<in> set (dns_addresses (DNSServers cfg))"

definition to_lan :: "chain_firewall_config \<Rightarrow> packet \<Rightarrow> bool" where
  "to_lan cfg k \<longleftrightarrow>
     is_v4 k \<and> (\<exists>(a, m)\<in>set (lan_masks (AllowedLANs cfg)). and (k_remote k) m = and a m)"

lemma layers_v4: "f_layer f \<in> set chainLayersV4 \<Longrightarrow> matches k f \<Longrightarrow> is_v4 k"
  by (auto simp: chainLayersV4_def matches_def is_v4_def)

lemma endpoint_filter_matches:
  assumes "endpoint_filter cfg f" and m: "matches k f" and "Hop1LUID cfg \<noteq> 0"
    and v4: "to4 (Hop1Endpoint cfg) \<noteq> None" "to4 (Hop2Endpoint cfg) \<noteq> None"
  shows "to_endpoint cfg k"
proof -
  have "is_v4 k" using assms layers_v4 by (auto simp: endpoint_filter_def)
  then show ?thesis
    using assms by (auto simp: endpoint_filter_def to_endpoint_def matches_def endpoint_conditions_def)
qed

lemma dns_filter_matches:
  assumes "dns_filter cfg f" and m: "matches k f"
  shows "to_resolver cfg k"
proof -
  have "is_v4 k" using assms layers_v4 by (auto simp: dns_filter_def)
  moreover obtain a as where as: "dns_addresses (DNSServers cfg) = a # as"
    using assms(1) by (cases "dns_addresses (DNSServers cfg)") (auto simp: dns_filter_def)
  ultimately show ?thesis
    using assms
    by (auto simp: dns_filter_def to_resolver_def is_dns_def matches_def dnsPortAndProtocolConditions_def
        list_ex_iff list_all_iff)
qed

lemma dns_block_matches: "dns_block f \<Longrightarrow> matches k f \<longleftrightarrow> f_layer f = k_layer k \<and> is_dns k"
  by (auto simp: dns_block_def matches_def is_dns_def dnsPortAndProtocolConditions_def)

lemma lan_filter_matches:
  assumes lan: "lan_filter cfg f" and m: "matches k f"
  shows "to_lan cfg k"
proof -
  from lan obtain a m' where am: "(a, m') \<in> set (lan_masks (AllowedLANs cfg))"
    and cs: "f_conds f = [RemoteNet a m']" by (auto simp: lan_filter_def)
  have "is_v4 k" using lan m layers_v4 by (auto simp: lan_filter_def)
  with am cs m show ?thesis by (auto simp: to_lan_def matches_def intro!: bexI [OF _ am])
qed

lemma permitted_iff:
  assumes "\<exists>f\<in>set fs. matches k f"
  shows "permitted fs k \<longleftrightarrow>
    (\<exists>f\<in>set fs. matches k f \<and> f_action f = Permit
       \<and> (\<forall>g\<in>set fs. matches k g \<longrightarrow> f_weight g \<le> f_weight f))"
  using assms by (auto simp: permitted_def Let_def filter_empty_conv list_ex_iff list_all_iff)

lemma dns_block_covers:
  "is_dns k \<Longrightarrow>
   \<exists>f\<in>set (on_layers chainLayersBoth 13 dnsPortAndProtocolConditions BlockIt). matches k f \<and> f_weight f = 13"
  by (intro bexI [of _ "\<lparr> f_layer = k_layer k, f_weight = 13,
        f_conds = dnsPortAndProtocolConditions, f_action = BlockIt \<rparr>"])
     (cases "k_layer k"; simp add: dns_block_matches dns_block_def set_on_layers chainLayersBoth_def)+

text \<open>Every packet the rule set lets through falls under one of these heads.\<close>

lemma chain_installer_permits:
  assumes inst: "chain_installer api cfg = Inr fs" and doc: "documented_api api loopback dhcp"
    and v4: "to4 (Hop1Endpoint cfg) \<noteq> None" "to4 (Hop2Endpoint cfg) \<noteq> None"
    and luid: "Hop1LUID cfg \<noteq> 0" and perm: "permitted fs k"
  shows "to_endpoint cfg k \<or> to_resolver cfg k
    \<or> \<not> is_dns k \<and> (k_luid k = Hop2LUID cfg \<or> loopback k \<or> dhcp k \<or> to_lan cfg k)"
proof -
  obtain e n b t l d ns ba where fs: "fs = e @ n @ b @ t @ l @ d @ ns @ ba"
    and e: "\<forall>f. f \<in> set e \<longleftrightarrow> endpoint_filter cfg f"
    and n: "\<forall>f. f \<in> set n \<longleftrightarrow> dns_filter cfg f"
    and b: "b = on_layers chainLayersBoth 13 dnsPortAndProtocolConditions BlockIt"
    and t: "permit_tun_interface api 12 (Hop2LUID cfg) = Inr t"
    and l: "permit_loopback api 11 = Inr l" and d: "permit_dhcp_ipv4 api 10 = Inr d"
    and ns: "\<forall>f\<in>set ns. lan_filter cfg f" and ba: "block_all api 0 = Inr ba"
    by (rule chain_installer_filters [OF inst v4])
  note doc = documentedD [OF doc]
  have "\<exists>f\<in>set fs. matches k f" using doc(5) [OF ba, of k] by (auto simp: fs)
  with perm obtain f where f: "f \<in> set fs" "matches k f" "f_action f = Permit"
    and top: "\<And>g. g \<in> set fs \<Longrightarrow> matches k g \<Longrightarrow> f_weight g \<le> f_weight f"
    by (auto simp: permitted_iff)
  have dns: "is_dns k \<Longrightarrow> 13 \<le> f_weight f"
  proof -
    assume "is_dns k"
    then obtain g where g: "g \<in> set b" "matches k g" "f_weight g = 13"
      using dns_block_covers unfolding b by blast
    have "g \<in> set fs" using g(1) by (simp add: fs)
    from top [OF this g(2)] g(3) show ?thesis by simp
  qed
  have low: "f_weight f \<le> 12 \<Longrightarrow> \<not> is_dns k" using dns by linarith
  from f(1) consider "f \<in> set e" | "f \<in> set n" | "f \<in> set b" | "f \<in> set t" | "f \<in> set l"
    | "f \<in> set d" | "f \<in> set ns" | "f \<in> set ba" by (auto simp: fs)
  then show ?thesis
  proof cases
    case 1 then show ?thesis using endpoint_filter_matches e f(2) luid v4 by blast
  next
    case 2 then show ?thesis using dns_filter_matches n f(2) by blast
  next
    case 3 then show ?thesis using f(3) by (simp add: b set_on_layers)
  next
    case 4 then show ?thesis using doc(1) [OF t 4, of k] f(2) low by simp
  next
    case 5 then show ?thesis using doc(2) [OF l 5, of k] f(2) low by simp
  next
    case 6 then show ?thesis using doc(3) [OF d 6, of k] f(2) low by simp
  next
    case 7
    then have "lan_filter cfg f" using ns by blast
    then show ?thesis using lan_filter_matches f(2) low by (auto simp: lan_filter_def)
  next
    case 8 then show ?thesis using doc(4) [OF ba 8] f(3) by simp
  qed
qed

text \<open>The other direction: the two endpoints and the resolver of the chain are reachable.\<close>

lemma chain_installer_weights:
  assumes inst: "chain_installer api cfg = Inr fs" and doc: "documented_api api loopback dhcp"
    and v4: "to4 (Hop1Endpoint cfg) \<noteq> None" "to4 (Hop2Endpoint cfg) \<noteq> None" and f: "f \<in> set fs"
  shows "f_weight f \<le> 15 \<and> (f_action f = BlockIt \<longrightarrow> f_weight f \<le> 13)"
proof -
  obtain e n b t l d ns ba where fs: "fs = e @ n @ b @ t @ l @ d @ ns @ ba"
    and e: "\<forall>f. f \<in> set e \<longleftrightarrow> endpoint_filter cfg f"
    and n: "\<forall>f. f \<in> set n \<longleftrightarrow> dns_filter cfg f"
    and b: "b = on_layers chainLayersBoth 13 dnsPortAndProtocolConditions BlockIt"
    and t: "permit_tun_interface api 12 (Hop2LUID cfg) = Inr t"
    and l: "permit_loopback api 11 = Inr l" and d: "permit_dhcp_ipv4 api 10 = Inr d"
    and ns: "\<forall>f\<in>set ns. lan_filter cfg f" and ba: "block_all api 0 = Inr ba"
    by (rule chain_installer_filters [OF inst v4])
  note doc = documentedD(1) [OF doc t] documentedD(2) [OF doc l] documentedD(3) [OF doc d]
    documentedD(4) [OF doc ba]
  from f consider "endpoint_filter cfg f" | "dns_filter cfg f" | "f \<in> set b" | "f \<in> set t" | "f \<in> set l"
    | "f \<in> set d" | "lan_filter cfg f" | "f \<in> set ba" using e n ns by (auto simp: fs)
  then show ?thesis
    by cases (auto simp: endpoint_filter_def dns_filter_def lan_filter_def b set_on_layers dest: doc)
qed

lemma chain_installer_reach:
  assumes inst: "chain_installer api cfg = Inr fs" and doc: "documented_api api loopback dhcp"
    and v4: "to4 (Hop1Endpoint cfg) \<noteq> None" "to4 (Hop2Endpoint cfg) \<noteq> None"
  shows "to_endpoint cfg k \<Longrightarrow> permitted fs k" and "to_resolver cfg k \<Longrightarrow> permitted fs k"
proof -
  obtain e n b t l d ns ba where fs: "fs = e @ n @ b @ t @ l @ d @ ns @ ba"
    and e: "\<forall>f. f \<in> set e \<longleftrightarrow> endpoint_filter cfg f"
    and n: "\<forall>f. f \<in> set n \<longleftrightarrow> dns_filter cfg f"
    by (rule chain_installer_filters [OF inst v4])
  have w: "g \<in> set fs \<Longrightarrow> f_weight g \<le> 15 \<and> (f_action g = BlockIt \<longrightarrow> f_weight g \<le> 13)" for g
    using chain_installer_weights [OF inst doc v4] .
  have hit: "permitted fs k"
    if "f \<in> set fs" "matches k f" "f_action f = Permit" "14 \<le> f_weight f" for f
  proof -
    define ws where "ws = f_weight ` {g \<in> set fs. matches k g}"
    have ws: "finite ws" "ws \<noteq> {}" using that by (auto simp: ws_def)
    then have "Max ws \<in> ws" "f_weight f \<le> Max ws" using that by (auto simp: ws_def intro: Max_ge)
    then obtain g where g: "g \<in> set fs" "matches k g" "f_weight g = Max ws" by (auto simp: ws_def)
    have "f_action g = Permit"
      using w [OF g(1)] g(3) \<open>f_weight f \<le> Max ws\<close> that(4) by (cases "f_action g") auto
    moreover have "h \<in> set fs \<Longrightarrow> matches k h \<Longrightarrow> f_weight h \<le> f_weight g" for h
      using ws(1) by (auto simp: g(3) ws_def intro: Max_ge)
    ultimately show ?thesis using g(1,2) by (subst permitted_iff) blast+
  qed
  show "permitted fs k" if k: "to_endpoint cfg k"
  proof -
    let ?P = "\<lambda>luid r p. k_remote k = r \<and> k_port k = p \<and> (luid = 0 \<or> k_luid k = luid)
      \<and> (r = be32 (the (to4 (Hop1Endpoint cfg))) \<and> p = Hop1Port cfg \<and> luid = 0
        \<or> r = be32 (the (to4 (Hop2Endpoint cfg))) \<and> p = Hop2Port cfg \<and> luid = Hop1LUID cfg)"
    from k v4 have "?P 0 (k_remote k) (k_port k) \<or> ?P (Hop1LUID cfg) (k_remote k) (k_port k)"
      by (auto simp: to_endpoint_def)
    then obtain luid r p where lp: "k_remote k = r" "k_port k = p" "luid = 0 \<or> k_luid k = luid"
      and r: "r = be32 (the (to4 (Hop1Endpoint cfg))) \<and> p = Hop1Port cfg \<and> luid = 0
        \<or> r = be32 (the (to4 (Hop2Endpoint cfg))) \<and> p = Hop2Port cfg \<and> luid = Hop1LUID cfg"
      by blast
    let ?f = "\<lparr> f_layer = k_layer k, f_weight = 15,
      f_conds = endpoint_conditions (k_app k) r p luid, f_action = Permit \<rparr>"
    have "endpoint_filter cfg ?f"
      using k r by (auto simp: endpoint_filter_def to_endpoint_def is_v4_def chainLayersV4_def)
    moreover have "matches k ?f"
      using k lp by (auto simp: matches_def endpoint_conditions_def to_endpoint_def)
    ultimately show ?thesis using hit [of ?f] e by (simp add: fs)
  qed
  show "permitted fs k" if k: "to_resolver cfg k"
  proof -
    let ?f = "\<lparr> f_layer = k_layer k, f_weight = 14,
      f_conds = LocalInterface (Hop2LUID cfg) # dnsPortAndProtocolConditions
        @ map RemoteAddr (dns_addresses (DNSServers cfg)), f_action = Permit \<rparr>"
    have "dns_filter cfg ?f"
      using k by (auto simp: dns_filter_def to_resolver_def is_v4_def chainLayersV4_def)
    moreover have "matches k ?f"
      using k by (auto simp: matches_def to_resolver_def is_dns_def dnsPortAndProtocolConditions_def
          list_ex_iff list_all_iff)
    ultimately show ?thesis using hit [of ?f] n by (simp add: fs)
  qed
qed

lemma EnableChainFirewall_cases:
  assumes "EnableChainFirewall api c s = Inr s'" and "documented_api api loopback dhcp"
  obtains cfg fs where "s = None" "c = Some cfg" "Hop1LUID cfg \<noteq> 0" "Hop2LUID cfg \<noteq> 0"
    "to4 (Hop1Endpoint cfg) \<noteq> None" "to4 (Hop2Endpoint cfg) \<noteq> None" "AllowedApps cfg \<noteq> []"
    "chain_installer api cfg = Inr fs" "s' = Some fs"
proof -
  obtain cfg where c: "s = None" "c = Some cfg" "Hop1LUID cfg \<noteq> 0" "Hop2LUID cfg \<noteq> 0"
    "to4 (Hop1Endpoint cfg) \<noteq> None" "to4 (Hop2Endpoint cfg) \<noteq> None" "AllowedApps cfg \<noteq> []"
    and r: "rbind (run_transaction api (chain_installer api cfg)) (\<lambda>fs. Inr (Some fs)) = Inr s'"
    using assms(1) by (auto simp: EnableChainFirewall_def split: if_split_asm option.splits)
  from r obtain fs where "run_transaction api (chain_installer api cfg) = Inr fs" "s' = Some fs"
    by (auto simp: rbind_Inr_iff)
  with documentedD(6) [OF assms(2)] have "chain_installer api cfg = Inr fs" "s' = Some fs" by auto
  with c show thesis by (rule that)
qed

lemma enabled_permits:
  assumes "documented_api api loopback dhcp"
    and "EnableChainFirewall api (Some cfg) None = Inr s" and "session_permits s k"
  shows "to_endpoint cfg k \<or> to_resolver cfg k
    \<or> \<not> is_dns k \<and> (k_luid k = Hop2LUID cfg \<or> loopback k \<or> dhcp k \<or> to_lan cfg k)"
proof -
  from EnableChainFirewall_cases [OF assms(2,1)] obtain fs where fs: "chain_installer api cfg = Inr fs"
    "s = Some fs" and cfg: "to4 (Hop1Endpoint cfg) \<noteq> None" "to4 (Hop2Endpoint cfg) \<noteq> None"
      "Hop1LUID cfg \<noteq> 0" by (metis option.inject)
  from assms(3) fs(2) have "permitted fs k" by (simp add: session_permits_def)
  then show ?thesis by (rule chain_installer_permits [OF fs(1) assms(1) cfg])
qed

lemma enabled_session: "EnableChainFirewall api c s = Inr s' \<Longrightarrow> s' \<noteq> None"
  by (auto simp: EnableChainFirewall_def rbind_Inr_iff split: if_splits option.splits)

end
