(* ===== verification/ManagerWorld.thy ===== *)
theory ManagerWorld
  imports ChainOrder ChainFirewall ConfUAPI
begin

text \<open>
  What the manager service (\<open>upstream-manager/\<close>) runs in: its process-wide variables
  and the machine around it.

  Everything the machine answers (the service control manager, the adapters, the route table,
  the pipes of the tunnels, files other than the store) is a function of the history, the list
  of the actions the manager has carried out so far: reading changes nothing, acting and
  sleeping do. Time is counted in nanoseconds and passes in the sleeps, by the time asked for
  and whatever \<open>os_delay\<close> adds.
\<close>

datatype svc_state = SvcStopped | SvcStopPending | SvcRunning | SvcStartPending | SvcOther

datatype tunnel_state =
  TunnelUnknown | TunnelStarted | TunnelStopped | TunnelStarting | TunnelStopping

datatype win_error =
  ERROR_SERVICE_DOES_NOT_EXIST | ERROR_SERVICE_MARKED_FOR_DELETE | ERROR_ACCESS_DENIED
  | WinError nat

datatype manager_error =
    MStore store_error
  | MConf conf_error
  | MWin win_error
  | MPanic panic
  | FinishActivating string
  | HandshakeTimeout string
  | CannotRaise string manager_error
  | AlreadyInstalled
  | NoEndpoint string

datatype action =
    Sleep nat
  | ControlStop string
  | DeleteService string
  | CloseService string
  | CreateService string string
  | StartService string
  | TrackService string
  | WriteSettings
  | WriteStore
  | OpenFirewall chain_firewall_config
  | CloseFirewall
  | OpenIPv6Block
  | CloseIPv6Block
  | StartGuard "string list"
  | SignalGuard
  | KillGuard nat
  | Spawn nat

type_synonym history = "action list"

record tunnel_settings =
  KillSwitch :: bool
  BlockIPv6 :: bool
  AllowLAN :: bool

record global_settings =
  RaiseOnStart :: bool
  RaiseTunnel :: string
  LiftLockOnQuit :: bool

record settings_book =
  Global :: global_settings
  Tunnels :: "string \<rightharpoonup> tunnel_settings"
  Inherited :: bool

datatype write_result = Written | Refused | Torn

record route_row =
  r_luid :: "64 word"
  r_hop :: ip
  r_prefix :: ipnet

text \<open>
  The machine. \<open>os_store\<close> is the environment of the configuration store, \<open>os_elevated\<close>
  whether the client of the manager holds the elevated token, \<open>os_service_name\<close> is
  \<open>services.ServiceNameOfTunnel\<close>, \<open>os_manager\<close> is \<open>serviceManager\<close>, \<open>os_uapi\<close> the answer to
  \<open>get=1\<close> on the pipe of a tunnel, and \<open>os_tracked\<close> the table of the tracker in the order a
  range visits it.
\<close>

record os =
  os_store :: store_env
  os_elevated :: bool
  os_delay :: "history \<Rightarrow> nat"
  os_service_name :: "string \<Rightarrow> manager_error + string"
  os_manager :: "history \<Rightarrow> win_error option"
  os_executable :: "history \<Rightarrow> string option"
  os_open :: "history \<Rightarrow> string \<Rightarrow> win_error option"
  os_query :: "history \<Rightarrow> string \<Rightarrow> win_error + svc_state"
  os_delete :: "history \<Rightarrow> string \<Rightarrow> win_error option"
  os_close :: "history \<Rightarrow> string \<Rightarrow> win_error option"
  os_create :: "history \<Rightarrow> string \<Rightarrow> win_error option"
  os_start :: "history \<Rightarrow> string \<Rightarrow> win_error option"
  os_uapi :: "history \<Rightarrow> string \<Rightarrow> win_error + string"
  os_tracked :: "history \<Rightarrow> (string \<times> tunnel_state) list"
  os_adapters :: "history \<Rightarrow> (string \<times> 64 word) list option"
  os_routes :: "history \<Rightarrow> route_row list option"
  os_lookup_ip :: "history \<Rightarrow> string \<Rightarrow> ip list option"
  os_no_autoguard :: "history \<Rightarrow> bool"
  os_no_inproc_lock :: "history \<Rightarrow> bool"
  os_file_exists :: "history \<Rightarrow> string \<Rightarrow> bool"
  os_state_dir :: string
  os_pid :: nat
  os_start_guard :: "history \<Rightarrow> string list \<Rightarrow> nat option"
  os_alive :: "history \<Rightarrow> nat \<Rightarrow> bool"
  os_firewall :: "history \<Rightarrow> fw_api"
  os_write_settings :: "history \<Rightarrow> write_result"
  os_store_ok :: "history \<Rightarrow> bool"
  os_can_remove :: "history \<Rightarrow> string \<Rightarrow> bool"

abbreviation os_unicode :: "os \<Rightarrow> unicode" where
  "os_unicode os \<equiv> env_unicode (os_store os)"

text \<open>
  The goroutines the manager starts: stop the tunnels in the way of a new one, arm the chain
  when its top hop is up, watch a chain, listen for the stop event, wait for the guard process.
  Channels are numbered; \<open>w_closed\<close> holds the closed ones.
\<close>

datatype task =
    StopIntersecting "string list"
  | ArmWhenReady string
  | Watch string nat
  | ListenStop nat
  | ReapGuard nat

record world =
  w_history :: history
  w_now :: nat
  w_dir :: "directory option"
  w_tasks :: "task list"
  w_channels :: nat
  w_closed :: "nat set"
  w_book_file :: "settings_book option"
  chainSettingsCache :: "settings_book option"
  chainSession :: session
  ipv6Session :: session
  chainLockOn :: bool
  chainLockLeaf :: string
  chainLockStop :: "nat option"
  chainGuardProcess :: "nat option"
  chainGuardArmedBy :: string
  chainWatchCancel :: "nat option"
  chainGuardDeaths :: nat
  chainGuardLastArm :: "nat option"

definition act :: "action \<Rightarrow> world \<Rightarrow> world" where
  "act a w = w\<lparr>w_history := w_history w @ [a]\<rparr>"

definition second :: nat where "second = 1000000000"

definition sleep :: "os \<Rightarrow> nat \<Rightarrow> world \<Rightarrow> world" where
  "sleep os d w = act (Sleep d) w\<lparr>w_now := w_now w + d + os_delay os (w_history w)\<rparr>"

definition spawn :: "task \<Rightarrow> world \<Rightarrow> world" where
  "spawn t w = act (Spawn (length (w_tasks w))) w\<lparr>w_tasks := w_tasks w @ [t]\<rparr>"

definition new_channel :: "world \<Rightarrow> nat \<times> world" where
  "new_channel w = (w_channels w, w\<lparr>w_channels := Suc (w_channels w)\<rparr>)"

definition close_channel :: "nat \<Rightarrow> world \<Rightarrow> world" where
  "close_channel ch w = w\<lparr>w_closed := insert ch (w_closed w)\<rparr>"

text \<open>The protection of the machine: the variables of the lock and its two WFP sessions.\<close>

definition lock_part :: "world \<Rightarrow> session \<times> session \<times> bool \<times> string \<times> nat option" where
  "lock_part w = (chainSession w, ipv6Session w, chainLockOn w, chainLockLeaf w, chainLockStop w)"

definition guard_part :: "world \<Rightarrow> nat option \<times> string \<times> nat option \<times> nat" where
  "guard_part w = (chainGuardProcess w, chainGuardArmedBy w, chainWatchCancel w, chainGuardDeaths w)"

lemma act_parts [simp]:
  "w_dir (act a w) = w_dir w" "w_now (act a w) = w_now w" "w_tasks (act a w) = w_tasks w"
  "lock_part (act a w) = lock_part w" "guard_part (act a w) = guard_part w"
  "w_history (act a w) = w_history w @ [a]" "chainSettingsCache (act a w) = chainSettingsCache w"
  "w_book_file (act a w) = w_book_file w" "w_closed (act a w) = w_closed w"
  "w_channels (act a w) = w_channels w"
  by (simp_all add: act_def lock_part_def guard_part_def)

lemma sleep_parts [simp]:
  "w_dir (sleep os d w) = w_dir w" "w_tasks (sleep os d w) = w_tasks w"
  "lock_part (sleep os d w) = lock_part w" "guard_part (sleep os d w) = guard_part w"
  "w_history (sleep os d w) = w_history w @ [Sleep d]"
  "chainSettingsCache (sleep os d w) = chainSettingsCache w"
  "w_now (sleep os d w) = w_now w + d + os_delay os (w_history w)"
  by (simp_all add: sleep_def act_def lock_part_def guard_part_def)

lemma spawn_parts [simp]:
  "w_dir (spawn t w) = w_dir w" "w_now (spawn t w) = w_now w"
  "lock_part (spawn t w) = lock_part w" "guard_part (spawn t w) = guard_part w"
  "w_tasks (spawn t w) = w_tasks w @ [t]" "chainSettingsCache (spawn t w) = chainSettingsCache w"
  by (simp_all add: spawn_def lock_part_def guard_part_def act_def)

lemma act_fields [simp]:
  "chainSession (act a w) = chainSession w"
  "ipv6Session (act a w) = ipv6Session w"
  "chainLockOn (act a w) = chainLockOn w"
  "chainLockLeaf (act a w) = chainLockLeaf w"
  "chainLockStop (act a w) = chainLockStop w"
  "chainGuardProcess (act a w) = chainGuardProcess w"
  "chainGuardArmedBy (act a w) = chainGuardArmedBy w"
  "chainWatchCancel (act a w) = chainWatchCancel w"
  "chainGuardDeaths (act a w) = chainGuardDeaths w"
  by (simp_all add: act_def)

lemma sleep_fields [simp]:
  "chainSession (sleep os d w) = chainSession w"
  "ipv6Session (sleep os d w) = ipv6Session w"
  "chainLockOn (sleep os d w) = chainLockOn w"
  "chainLockLeaf (sleep os d w) = chainLockLeaf w"
  "chainLockStop (sleep os d w) = chainLockStop w"
  "chainGuardProcess (sleep os d w) = chainGuardProcess w"
  "chainGuardArmedBy (sleep os d w) = chainGuardArmedBy w"
  "chainWatchCancel (sleep os d w) = chainWatchCancel w"
  "chainGuardDeaths (sleep os d w) = chainGuardDeaths w"
  by (simp_all add: sleep_def)

lemma spawn_fields [simp]:
  "chainSession (spawn t w) = chainSession w"
  "ipv6Session (spawn t w) = ipv6Session w"
  "chainLockOn (spawn t w) = chainLockOn w"
  "chainLockLeaf (spawn t w) = chainLockLeaf w"
  "chainLockStop (spawn t w) = chainLockStop w"
  "chainGuardProcess (spawn t w) = chainGuardProcess w"
  "chainGuardArmedBy (spawn t w) = chainGuardArmedBy w"
  "chainWatchCancel (spawn t w) = chainWatchCancel w"
  "chainGuardDeaths (spawn t w) = chainGuardDeaths w"
  by (simp_all add: spawn_def)

end
