(* ===== verification/ChainSettings.thy ===== *)
theory ChainSettings
  imports ManagerWorld
begin

text \<open>
  The check boxes, \<open>upstream-manager/chainsettings.go\<close> and the service side of
  \<open>chainsettingsipc.go\<close>: the book of settings with its cache, and the IPv6 filter it rules.
  The JSON file holds a book; a missing file or one that is not a book is \<open>None\<close>.
\<close>

definition chainSettingsDefaults :: tunnel_settings where
  "chainSettingsDefaults = \<lparr> KillSwitch = True, BlockIPv6 = True, AllowLAN = True \<rparr>"

definition default_book :: settings_book where
  "default_book =
     \<lparr> Global = \<lparr> RaiseOnStart = False, RaiseTunnel = [], LiftLockOnQuit = True \<rparr>,
       Tunnels = Map.empty, Inherited = True \<rparr>"

definition chainSettingsLoadLocked :: "world \<Rightarrow> settings_book \<times> world" where
  "chainSettingsLoadLocked w =
     (case chainSettingsCache w of
        Some book \<Rightarrow> (book, w)
      | None \<Rightarrow>
          (let book = (case w_book_file w of Some stored \<Rightarrow> stored | None \<Rightarrow> default_book)
           in (book, w\<lparr>chainSettingsCache := Some book\<rparr>)))"

definition chainSettingsStoreLocked :: "os \<Rightarrow> world \<Rightarrow> bool \<times> world" where
  "chainSettingsStoreLocked os w =
     (case chainSettingsCache w of
        None \<Rightarrow> (True, w)
      | Some book \<Rightarrow>
          (case os_write_settings os (w_history w) of
             Written \<Rightarrow> (True, act WriteSettings w\<lparr>w_book_file := Some book\<rparr>)
           | Refused \<Rightarrow> (False, act WriteSettings w)
           | Torn \<Rightarrow> (False, act WriteSettings w\<lparr>w_book_file := None\<rparr>)))"

definition book_settings :: "unicode \<Rightarrow> settings_book \<Rightarrow> string \<Rightarrow> tunnel_settings" where
  "book_settings u book name =
     (case Tunnels book (to_lower u name) of
        None \<Rightarrow> chainSettingsDefaults
      | Some settings \<Rightarrow> if Inherited book then settings\<lparr>AllowLAN := True\<rparr> else settings)"

definition ChainSettingsFor :: "os \<Rightarrow> string \<Rightarrow> world \<Rightarrow> tunnel_settings \<times> world" where
  "ChainSettingsFor os name w =
     (let (book, w1) = chainSettingsLoadLocked w in (book_settings (os_unicode os) book name, w1))"

definition ChainSettingsSave :: "os \<Rightarrow> string \<Rightarrow> tunnel_settings \<Rightarrow> world \<Rightarrow> bool \<times> world" where
  "ChainSettingsSave os name settings w =
     (let (book, w1) = chainSettingsLoadLocked w;
          book' = book\<lparr>Tunnels := (Tunnels book)(to_lower (os_unicode os) name \<mapsto> settings),
                       Inherited := False\<rparr>
      in chainSettingsStoreLocked os (w1\<lparr>chainSettingsCache := Some book'\<rparr>))"

definition ChainGlobal :: "world \<Rightarrow> global_settings \<times> world" where
  "ChainGlobal w = (let (book, w1) = chainSettingsLoadLocked w in (Global book, w1))"

definition ChainGlobalSave :: "os \<Rightarrow> global_settings \<Rightarrow> world \<Rightarrow> bool \<times> world" where
  "ChainGlobalSave os global w =
     (let (book, w1) = chainSettingsLoadLocked w
      in chainSettingsStoreLocked os (w1\<lparr>chainSettingsCache := Some (book\<lparr>Global := global\<rparr>)\<rparr>))"

section \<open>The IPv6 filter\<close>

definition chainDropIPv6Block :: "world \<Rightarrow> world" where
  "chainDropIPv6Block w =
     (if \<not> IPv6BlockIsOn (ipv6Session w) then w
      else act CloseIPv6Block w\<lparr>ipv6Session := DisableIPv6Block (ipv6Session w)\<rparr>)"

definition chainApplyIPv6For :: "os \<Rightarrow> string \<Rightarrow> world \<Rightarrow> world" where
  "chainApplyIPv6For os leaf w =
     (let (settings, w1) = ChainSettingsFor os leaf w in
      if \<not> BlockIPv6 settings then chainDropIPv6Block w1
      else (case EnableIPv6Block (os_firewall os (w_history w1)) (ipv6Session w1) of
              Inl _ \<Rightarrow> act OpenIPv6Block w1
            | Inr s \<Rightarrow> act OpenIPv6Block w1\<lparr>ipv6Session := s\<rparr>))"

definition chainSettingsApplyNow :: "os \<Rightarrow> string \<Rightarrow> world \<Rightarrow> world" where
  "chainSettingsApplyNow os name w =
     (if \<not> IPv6BlockIsOn (ipv6Session w) then w
      else (let (settings, w1) = ChainSettingsFor os name w in
            if \<not> BlockIPv6 settings then chainDropIPv6Block w1 else w1))"

definition chainServeSettingsSet :: "os \<Rightarrow> string \<Rightarrow> tunnel_settings \<Rightarrow> world \<Rightarrow> bool \<times> world" where
  "chainServeSettingsSet os name settings w =
     (let (ok, w1) = ChainSettingsSave os name settings w in
      if ok then (ok, chainSettingsApplyNow os name w1) else (ok, w1))"

section \<open>Facts\<close>

text \<open>The settings in force: those of the cached book, or of the file that would be cached.\<close>

definition current_book :: "world \<Rightarrow> settings_book" where
  "current_book w =
     (case chainSettingsCache w of
        Some book \<Rightarrow> book
      | None \<Rightarrow> (case w_book_file w of Some stored \<Rightarrow> stored | None \<Rightarrow> default_book))"

lemma load_book:
  "chainSettingsLoadLocked w = (current_book w, w\<lparr>chainSettingsCache := Some (current_book w)\<rparr>)"
  by (auto simp: chainSettingsLoadLocked_def current_book_def split: option.split)

lemma current_book_cached [simp]: "current_book (w\<lparr>chainSettingsCache := Some b\<rparr>) = b"
  by (simp add: current_book_def)

lemma ChainSettingsFor_eq:
  "ChainSettingsFor os name w =
     (book_settings (os_unicode os) (current_book w) name,
      w\<lparr>chainSettingsCache := Some (current_book w)\<rparr>)"
  by (simp add: ChainSettingsFor_def load_book)

lemma ChainSettingsSave_eq:
  "ChainSettingsSave os name s w =
     (let b = (current_book w)\<lparr>Tunnels := (Tunnels (current_book w))(to_lower (os_unicode os) name \<mapsto> s),
                Inherited := False\<rparr>
      in chainSettingsStoreLocked os (w\<lparr>chainSettingsCache := Some b\<rparr>))"
  by (simp add: ChainSettingsSave_def load_book)

lemma store_keeps_cache: "chainSettingsCache (snd (chainSettingsStoreLocked os w)) = chainSettingsCache w"
  by (simp add: chainSettingsStoreLocked_def act_def split: option.split write_result.split)

lemma ChainSettingsSave_book:
  "current_book (snd (ChainSettingsSave os name s w)) =
     (current_book w)\<lparr>Tunnels := (Tunnels (current_book w))(to_lower (os_unicode os) name \<mapsto> s),
        Inherited := False\<rparr>"
  by (simp add: ChainSettingsSave_eq Let_def current_book_def store_keeps_cache)

lemma ChainSettingsSave_other:
  "to_lower (os_unicode os) m \<noteq> to_lower (os_unicode os) n \<Longrightarrow> \<not> Inherited (current_book w) \<Longrightarrow>
   fst (ChainSettingsFor os m (snd (ChainSettingsSave os n s w))) = fst (ChainSettingsFor os m w)"
  by (simp add: ChainSettingsFor_eq ChainSettingsSave_book book_settings_def split: option.split)

lemma ChainSettingsSave_read:
  "fst (ChainSettingsFor os n (snd (ChainSettingsSave os n s w))) = s"
  by (simp add: ChainSettingsFor_eq ChainSettingsSave_book book_settings_def split: option.split)

lemma ChainSettingsSave_file:
  assumes "fst (ChainSettingsSave os n s w)"
  shows "w_book_file (snd (ChainSettingsSave os n s w))
    = Some (current_book (snd (ChainSettingsSave os n s w)))"
  using assms
  by (auto simp: ChainSettingsSave_eq Let_def chainSettingsStoreLocked_def current_book_def act_def
      split: write_result.splits)

end
