(* ===== verification/ChainLock.thy ===== *)
theory ChainLock
  imports ChainSettings
begin

text \<open>
  The kill switch inside the manager: \<open>upstream-manager/chainlock.go\<close>, the queries of
  \<open>chainguard.go\<close> it is built from, and the re-arming after a repair of
  \<open>chainrelock.go\<close>.

  \<open>os.Executable\<close> answers with a clean absolute path, so the directory of it is what precedes
  the last backslash.
\<close>

section \<open>Endpoints, resolvers and networks of a hop\<close>

definition usable_endpoint :: "os \<Rightarrow> history \<Rightarrow> endpoint \<Rightarrow> string option" where
  "usable_endpoint os h e =
     (if endpoint_is_empty e then None
      else (let host = trim_brackets (trim_space (Host e));
                ip = (case parse_ip host of
                        Some a \<Rightarrow> Some a
                      | None \<Rightarrow>
                          (case os_lookup_ip os h host of
                             None \<Rightarrow> None
                           | Some resolved \<Rightarrow> find (\<lambda>a. to4 a \<noteq> None) resolved))
            in case ip of
                 None \<Rightarrow> None
               | Some a \<Rightarrow>
                   if to4 a = None then None
                   else Some (ip_string a @ '':'' @ dec (unat (Port e)))))"

fun first_some :: "('a \<Rightarrow> 'b option) \<Rightarrow> 'a list \<Rightarrow> 'b option" where
  "first_some f [] = None"
| "first_some f (x # xs) = (case f x of Some y \<Rightarrow> Some y | None \<Rightarrow> first_some f xs)"

definition chainEndpointOf :: "os \<Rightarrow> string \<Rightarrow> world \<Rightarrow> manager_error + string" where
  "chainEndpointOf os name w =
     (case LoadFromName (os_store os) (w_dir w) name of
        Inl e \<Rightarrow> Inl (MStore e)
      | Inr c \<Rightarrow>
          (case first_some (\<lambda>p. usable_endpoint os (w_history w) (Endpoint p)) (Peers c) of
             None \<Rightarrow> Inl (NoEndpoint name)
           | Some t \<Rightarrow> Inr t))"

definition chainDNSOf :: "os \<Rightarrow> string \<Rightarrow> world \<Rightarrow> string" where
  "chainDNSOf os name w =
     (case LoadFromName (os_store os) (w_dir w) name of
        Inl _ \<Rightarrow> []
      | Inr c \<Rightarrow> join '','' (map ip_string (DNS (Interface c))))"

definition chainAdapterLUID :: "os \<Rightarrow> string \<Rightarrow> world \<Rightarrow> (64 word) option" where
  "chainAdapterLUID os name w =
     (if trim_space name = [] then None
      else (case os_adapters os (w_history w) of
              None \<Rightarrow> None
            | Some adapters \<Rightarrow>
                map_option snd
                  (find (\<lambda>a. equal_fold (os_unicode os) (fst a) (trim_space name)) adapters)))"

text \<open>\<open>IPMask.Size\<close> for a canonical mask, \<open>IP.IsPrivate\<close> for IPv4 and \<open>IPNet.String\<close>.\<close>

definition mask_size :: "bytes \<Rightarrow> nat \<times> nat" where
  "mask_size m =
     (case find (\<lambda>n. cidr_mask (int n) (8 * length m) = Some m) [0..<Suc (8 * length m)] of
        None \<Rightarrow> (0, 0)
      | Some n \<Rightarrow> (n, 8 * length m))"

definition is_private_v4 :: "bytes \<Rightarrow> bool" where
  "is_private_v4 a \<longleftrightarrow>
     a ! 0 = 10 \<or> (a ! 0 = 172 \<and> and (a ! 1) 240 = 16) \<or> (a ! 0 = 192 \<and> a ! 1 = 168)"

definition local_prefix :: "64 word \<Rightarrow> route_row \<Rightarrow> string option" where
  "local_prefix luid row =
     (let (ones, bits) = mask_size (net_mask (r_prefix row)) in
      if r_luid row \<noteq> luid then None
      else if r_hop row \<noteq> [] \<and> \<not> is_unspecified (r_hop row) then None
      else (case to4 (net_ip (r_prefix row)) of
              None \<Rightarrow> None
            | Some a \<Rightarrow>
                if bits \<noteq> 32 \<or> ones < 8 \<or> 30 < ones then None
                else if \<not> is_private_v4 a then None
                else Some (ip_string a @ ''/'' @ dec ones)))"

fun collect_prefixes :: "64 word \<Rightarrow> string list \<Rightarrow> route_row list \<Rightarrow> string list" where
  "collect_prefixes luid result [] = result"
| "collect_prefixes luid result (row # rows) =
     (case local_prefix luid row of
        None \<Rightarrow> collect_prefixes luid result rows
      | Some text \<Rightarrow>
          if text \<in> set result then collect_prefixes luid result rows
          else collect_prefixes luid (result @ [text]) rows)"

definition chainLocalNetworks :: "os \<Rightarrow> string \<Rightarrow> world \<Rightarrow> string list" where
  "chainLocalNetworks os adapter w =
     (case chainAdapterLUID os adapter w of
        None \<Rightarrow> []
      | Some luid \<Rightarrow>
          (case os_routes os (w_history w) of
             None \<Rightarrow> []
           | Some rows \<Rightarrow> collect_prefixes luid [] rows))"

section \<open>The configuration of the lock\<close>

text \<open>\<open>net.SplitHostPort\<close>; an error is \<open>None\<close>.\<close>

definition split_host_port :: "string \<Rightarrow> (string \<times> string) option" where
  "split_host_port s =
     (case last_index_byte (CHR '':'') s of
        None \<Rightarrow> None
      | Some i \<Rightarrow>
          if s ! 0 = CHR ''['' then
            (case index_byte (CHR '']'') s of
               None \<Rightarrow> None
             | Some e \<Rightarrow>
                 if Suc e \<noteq> i then None
                 else if CHR ''['' \<in> set (drop 1 s) \<or> CHR '']'' \<in> set (drop (Suc e) s) then None
                 else Some (drop 1 (take e s), drop (Suc i) s))
          else if CHR '':'' \<in> set (take i s) then None
          else if CHR ''['' \<in> set s \<or> CHR '']'' \<in> set s then None
          else Some (take i s, drop (Suc i) s))"

definition chainParseEndpoint :: "string \<Rightarrow> (ip \<times> 16 word) option" where
  "chainParseEndpoint value =
     (case split_host_port (trim_space value) of
        None \<Rightarrow> None
      | Some (host, portText) \<Rightarrow>
          (case parse_ip host of
             None \<Rightarrow> None
           | Some a \<Rightarrow>
               if to4 a = None then None
               else (case parse_uint 16 portText of
                       Inl _ \<Rightarrow> None
                     | Inr port \<Rightarrow> Some (a, of_nat port))))"

definition path_sibling :: "string \<Rightarrow> string \<Rightarrow> string" where
  "path_sibling path name =
     (case last_index_byte (CHR 0x5C) path of
        None \<Rightarrow> name
      | Some i \<Rightarrow> take (Suc i) path @ name)"

definition chainLockApps :: "os \<Rightarrow> world \<Rightarrow> string list" where
  "chainLockApps os w =
     (case os_executable os (w_history w) of
        None \<Rightarrow> []
      | Some self \<Rightarrow>
          (let neighbour = path_sibling self ''awgchain.exe'' in
           if \<not> equal_fold (os_unicode os) neighbour self
              \<and> os_file_exists os (w_history w) neighbour
           then [self, neighbour] else [self]))"

definition chainLockDNS :: "os \<Rightarrow> string \<Rightarrow> world \<Rightarrow> ip list" where
  "chainLockDNS os topHop w =
     List.map_filter (\<lambda>text. parse_ip (trim_space text)) (split_on (CHR '','') (chainDNSOf os topHop w))"

definition pin_of :: "os \<Rightarrow> string \<Rightarrow> world \<Rightarrow> string" where
  "pin_of os name w =
     (case loaded (os_store os) (w_dir w) name of
        None \<Rightarrow> []
      | Some c \<Rightarrow> trim_space (PinEndpointVia (Interface c)))"

definition chainLockLANs :: "os \<Rightarrow> string \<Rightarrow> world \<Rightarrow> ipnet list" where
  "chainLockLANs os root w =
     List.map_filter (\<lambda>text. map_option snd (parse_cidr text))
       (chainLocalNetworks os (pin_of os root w) w)"

definition chainSettingsLANs :: "os \<Rightarrow> string \<Rightarrow> string \<Rightarrow> world \<Rightarrow> ipnet list \<times> world" where
  "chainSettingsLANs os root leaf w =
     (let (settings, w1) = ChainSettingsFor os leaf w in
      (if \<not> AllowLAN settings then [] else chainLockLANs os root w1, w1))"

section \<open>Arming and lifting\<close>

definition enable_lock :: "os \<Rightarrow> chain_firewall_config \<Rightarrow> world \<Rightarrow> bool \<times> world" where
  "enable_lock os cfg w =
     (let w1 = act (OpenFirewall cfg) w in
      case EnableChainFirewall (os_firewall os (w_history w)) (Some cfg) (chainSession w) of
        Inl _ \<Rightarrow> (False, w1)
      | Inr s \<Rightarrow> (True, w1\<lparr>chainSession := s\<rparr>))"

definition disable_lock :: "world \<Rightarrow> world" where
  "disable_lock w = act CloseFirewall w\<lparr>chainSession := DisableChainFirewall (chainSession w)\<rparr>"

definition lock_endpoints ::
  "os \<Rightarrow> string \<Rightarrow> string \<Rightarrow> world \<Rightarrow> (ip \<times> 16 word \<times> ip \<times> 16 word) option"
where
  "lock_endpoints os root topHop w =
     (case chainEndpointOf os root w of
        Inl _ \<Rightarrow> None
      | Inr rootText \<Rightarrow>
     (case chainEndpointOf os topHop w of
        Inl _ \<Rightarrow> None
      | Inr topText \<Rightarrow>
     (case chainParseEndpoint rootText of
        None \<Rightarrow> None
      | Some (rootIP, rootPort) \<Rightarrow>
     (case chainParseEndpoint topText of
        None \<Rightarrow> None
      | Some (topIP, topPort) \<Rightarrow> Some (rootIP, rootPort, topIP, topPort)))))"

text \<open>The rule set for the chain that ends at \<open>leaf\<close>, or \<open>None\<close> where the code falls back.\<close>

definition lock_config :: "os \<Rightarrow> string \<Rightarrow> world \<Rightarrow> (chain_firewall_config \<times> world) option" where
  "lock_config os leaf w =
     (let hops = chainHopOrder (os_store os) (w_dir w) leaf; root = hd hops; topHop = last hops in
      if length hops < 2 then None
      else (case lock_endpoints os root topHop w of
        None \<Rightarrow> None
      | Some (rootIP, rootPort, topIP, topPort) \<Rightarrow>
     (case (chainAdapterLUID os root w, chainAdapterLUID os topHop w) of
        (Some rootLUID, Some topLUID) \<Rightarrow>
          (let apps = chainLockApps os w in
           if apps = [] then None
           else (let (lans, w1) = chainSettingsLANs os root leaf w in
             Some (\<lparr> Hop1LUID = rootLUID, Hop2LUID = topLUID,
                     Hop1Endpoint = rootIP, Hop1Port = rootPort,
                     Hop2Endpoint = topIP, Hop2Port = topPort,
                     DNSServers = chainLockDNS os topHop w, AllowedApps = apps,
                     AllowedLANs = lans \<rparr>, w1)))
      | _ \<Rightarrow> None)))"

definition chainArmLockInProc :: "os \<Rightarrow> string \<Rightarrow> world \<Rightarrow> bool \<times> world" where
  "chainArmLockInProc os leaf w =
     (let (settings, w1) = ChainSettingsFor os leaf w in
      if \<not> KillSwitch settings then (True, chainApplyIPv6For os leaf w1)
      else if os_no_inproc_lock os (w_history w1) then (False, w1)
      else if chainLockOn w1 then (True, w1)
      else (case lock_config os leaf w1 of
              None \<Rightarrow> (False, w1)
            | Some (cfg, w2) \<Rightarrow>
                (let (ok, w3) = enable_lock os cfg w2;
                     (ok', w4) = (if ok then (ok, w3) else enable_lock os cfg (disable_lock w3))
                 in if \<not> ok' then (False, w4)
                    else (let (stop, w5) = new_channel w4;
                              w6 = w5\<lparr>chainLockOn := True, chainLockLeaf := leaf,
                                      chainLockStop := Some stop\<rparr>
                          in (True, spawn (ListenStop stop) (chainApplyIPv6For os leaf w6))))))"

definition close_opt :: "nat option \<Rightarrow> world \<Rightarrow> world" where
  "close_opt ch w = (case ch of None \<Rightarrow> w | Some c \<Rightarrow> close_channel c w)"

definition chainDisarmLockInProc :: "world \<Rightarrow> bool \<times> world" where
  "chainDisarmLockInProc w =
     (let on = chainLockOn w; stop = chainLockStop w;
          w1 = w\<lparr>chainLockOn := False, chainLockLeaf := [], chainLockStop := None\<rparr>
      in if \<not> on then (False, w1)
         else (True, chainDropIPv6Block (disable_lock (close_opt stop w1))))"

definition chainServeLiftLock :: "world \<Rightarrow> world" where
  "chainServeLiftLock w = chainDropIPv6Block (snd (chainDisarmLockInProc w))"

text \<open>The listener for the stop event: one wake-up of it, with \<open>signalled\<close> the state of the event.\<close>

definition chainLockWatchStopEvent :: "nat \<Rightarrow> bool \<Rightarrow> world \<Rightarrow> bool \<times> world" where
  "chainLockWatchStopEvent stop signalled w =
     (if stop \<in> w_closed w then (True, w)
      else if signalled then (True, snd (chainDisarmLockInProc w))
      else (False, w))"

section \<open>Re-arming after a repair\<close>

definition chainRelockTries :: nat where "chainRelockTries = 100"
definition chainRelockGap :: nat where "chainRelockGap = 200000000"

definition chainRelockAdaptersReady :: "os \<Rightarrow> string \<Rightarrow> world \<Rightarrow> bool" where
  "chainRelockAdaptersReady os leaf w =
     (let hops = chainHopOrder (os_store os) (w_dir w) leaf in
      if length hops < 2 then False
      else chainAdapterLUID os (hd hops) w \<noteq> None \<and> chainAdapterLUID os (last hops) w \<noteq> None)"

text \<open>The two loops, by the number of tries left.\<close>

fun relock_wait :: "os \<Rightarrow> string \<Rightarrow> nat \<Rightarrow> world \<Rightarrow> bool \<times> world" where
  "relock_wait os leaf 0 w = (True, w)"
| "relock_wait os leaf (Suc k) w =
     (if chainRelockAdaptersReady os leaf w then (True, w)
      else if k = 0 then (False, w)
      else relock_wait os leaf k (sleep os chainRelockGap w))"

fun relock_arm :: "os \<Rightarrow> string \<Rightarrow> nat \<Rightarrow> world \<Rightarrow> world" where
  "relock_arm os leaf 0 w = w"
| "relock_arm os leaf (Suc k) w =
     (let (armed, w1) = chainArmLockInProc os leaf w in
      if armed then w1 else relock_arm os leaf k (sleep os chainRelockGap w1))"

definition chainRearmLockAfterRepair :: "os \<Rightarrow> string \<Rightarrow> world \<Rightarrow> world" where
  "chainRearmLockAfterRepair os leaf w =
     (if os_no_inproc_lock os (w_history w) then w
      else if \<not> chainLockOn w then w
      else (let (ready, w1) = relock_wait os leaf chainRelockTries w in
            if \<not> ready then w1
            else relock_arm os leaf chainRelockTries (snd (chainDisarmLockInProc w1))))"

section \<open>The invariant of the lock\<close>

text \<open>The variables agree: the lock is on exactly while its session stands, and then it can be signalled.\<close>

definition lock_inv :: "world \<Rightarrow> bool" where
  "lock_inv w \<longleftrightarrow>
     (chainLockOn w \<longleftrightarrow> chainSession w \<noteq> None)
     \<and> (chainLockOn w \<longleftrightarrow> chainLockStop w \<noteq> None)
     \<and> (\<not> chainLockOn w \<longrightarrow> chainLockLeaf w = [])
     \<and> (\<forall>ch. chainLockStop w = Some ch \<longrightarrow> ch < w_channels w \<and> ch \<notin> w_closed w)
     \<and> (\<forall>ch\<in>w_closed w. ch < w_channels w)"

lemma cache_parts [simp]:
  "lock_part (w\<lparr>chainSettingsCache := c\<rparr>) = lock_part w"
  "lock_inv (w\<lparr>chainSettingsCache := c\<rparr>) = lock_inv w"
  by (simp_all add: lock_part_def lock_inv_def)

lemma act_channels [simp]:
  "w_channels (sleep os d w) = w_channels w" "w_closed (sleep os d w) = w_closed w"
  "w_channels (spawn t w) = w_channels w" "w_closed (spawn t w) = w_closed w"
  by (simp_all add: sleep_def spawn_def)

lemma lock_inv_act [simp]: "lock_inv (act a w) = lock_inv w" "lock_inv (sleep os d w) = lock_inv w"
  "lock_inv (spawn t w) = lock_inv w"
  by (simp_all add: lock_inv_def)

lemma lock_inv_ipv6 [simp]: "lock_inv (w\<lparr>ipv6Session := s\<rparr>) = lock_inv w"
  by (simp add: lock_inv_def)

lemma chainDropIPv6Block_inv [simp]: "lock_inv (chainDropIPv6Block w) = lock_inv w"
  "chainLockOn (chainDropIPv6Block w) = chainLockOn w"
  "chainSession (chainDropIPv6Block w) = chainSession w"
  "chainLockStop (chainDropIPv6Block w) = chainLockStop w"
  "chainLockLeaf (chainDropIPv6Block w) = chainLockLeaf w"
  "w_channels (chainDropIPv6Block w) = w_channels w"
  "w_closed (chainDropIPv6Block w) = w_closed w"
  by (simp_all add: chainDropIPv6Block_def)

lemma chainApplyIPv6For_inv [simp]: "lock_inv (chainApplyIPv6For os leaf w) = lock_inv w"
  "chainLockOn (chainApplyIPv6For os leaf w) = chainLockOn w"
  "chainSession (chainApplyIPv6For os leaf w) = chainSession w"
  by (simp_all add: chainApplyIPv6For_def ChainSettingsFor_eq split: sum.split)

lemma disable_lock_fields [simp]:
  "chainSession (disable_lock w) = None" "chainLockOn (disable_lock w) = chainLockOn w"
  "chainLockStop (disable_lock w) = chainLockStop w" "chainLockLeaf (disable_lock w) = chainLockLeaf w"
  "w_channels (disable_lock w) = w_channels w" "w_closed (disable_lock w) = w_closed w"
  by (simp_all add: disable_lock_def DisableChainFirewall_def)

lemma enable_lock_fields [simp]:
  "chainLockOn (snd (enable_lock os cfg w)) = chainLockOn w"
  "chainLockStop (snd (enable_lock os cfg w)) = chainLockStop w"
  "chainLockLeaf (snd (enable_lock os cfg w)) = chainLockLeaf w"
  "w_channels (snd (enable_lock os cfg w)) = w_channels w"
  "w_closed (snd (enable_lock os cfg w)) = w_closed w"
  by (simp_all add: enable_lock_def Let_def split: sum.split)

lemma enable_lock_session:
  "fst (enable_lock os cfg w) \<Longrightarrow> chainSession (snd (enable_lock os cfg w)) \<noteq> None"
  "\<not> fst (enable_lock os cfg w) \<Longrightarrow> chainSession (snd (enable_lock os cfg w)) = chainSession w"
  by (auto simp: enable_lock_def EnableChainFirewall_def rbind_Inr_iff Let_def
      split: sum.splits option.splits if_splits)

lemma enable_lock_filters:
  assumes "fst (enable_lock os cfg w)"
  shows "EnableChainFirewall (os_firewall os (w_history w)) (Some cfg) None
     = Inr (chainSession (snd (enable_lock os cfg w)))"
proof -
  have "EnableChainFirewall api (Some cfg) (Some s) = Inl AlreadyEnabled" for api s
    by (simp add: EnableChainFirewall_def)
  then show ?thesis
    using assms by (cases "chainSession w") (auto simp: enable_lock_def Let_def split: sum.splits)
qed

lemma lock_config_fields:
  assumes "lock_config os leaf w = Some (cfg, w')"
  shows "let hops = chainHopOrder (os_store os) (w_dir w) leaf in
    2 \<le> length hops \<and> chainAdapterLUID os (hd hops) w = Some (Hop1LUID cfg)
    \<and> chainAdapterLUID os (last hops) w = Some (Hop2LUID cfg)
    \<and> lock_endpoints os (hd hops) (last hops) w
      = Some (Hop1Endpoint cfg, Hop1Port cfg, Hop2Endpoint cfg, Hop2Port cfg)
    \<and> AllowedApps cfg = chainLockApps os w
    \<and> (\<not> AllowLAN (fst (ChainSettingsFor os leaf w)) \<longrightarrow> AllowedLANs cfg = [])"
  using assms
  by (auto simp: lock_config_def Let_def chainSettingsLANs_def ChainSettingsFor_eq
      split: if_splits option.splits prod.splits)

lemma lock_config_world:
  "lock_config os leaf w = Some (cfg, w') \<Longrightarrow> w' = w\<lparr>chainSettingsCache := Some (current_book w)\<rparr>"
  by (auto simp: lock_config_def Let_def chainSettingsLANs_def ChainSettingsFor_eq
      split: if_splits option.splits prod.splits)

definition switch_on :: "string \<Rightarrow> world \<Rightarrow> world" where
  "switch_on leaf w =
     w\<lparr>w_channels := Suc (w_channels w), chainLockOn := True, chainLockLeaf := leaf,
       chainLockStop := Some (w_channels w)\<rparr>"

lemma switch_on_inv:
  "chainSession w \<noteq> None \<Longrightarrow> \<forall>ch\<in>w_closed w. ch < w_channels w \<Longrightarrow> lock_inv (switch_on leaf w)"
  "chainLockOn (switch_on leaf w)" "chainSession (switch_on leaf w) = chainSession w"
  by (auto simp: lock_inv_def switch_on_def)

text \<open>The three outcomes of arming, told apart by the guards of the code.\<close>

definition wants_lock :: "os \<Rightarrow> string \<Rightarrow> world \<Rightarrow> bool" where
  "wants_lock os leaf w \<longleftrightarrow> KillSwitch (fst (ChainSettingsFor os leaf w))"

lemma chainArmLockInProc_cases:
  obtains
    (unwanted) "\<not> wants_lock os leaf w"
      "chainArmLockInProc os leaf w =
         (True, chainApplyIPv6For os leaf (w\<lparr>chainSettingsCache := Some (current_book w)\<rparr>))"
  | (already) "wants_lock os leaf w" "chainLockOn w"
      "chainArmLockInProc os leaf w = (True, w\<lparr>chainSettingsCache := Some (current_book w)\<rparr>)"
  | (failed) w' where "wants_lock os leaf w" "chainArmLockInProc os leaf w = (False, w')"
      "lock_inv w \<Longrightarrow> lock_inv w'" "chainLockOn w' = chainLockOn w"
      "chainSession w' = chainSession w \<or> chainSession w' = None \<and> \<not> chainLockOn w"
  | (armed) cfg w' h where "wants_lock os leaf w" "\<not> chainLockOn w"
      "\<exists>w1. lock_config os leaf (w\<lparr>chainSettingsCache := Some (current_book w)\<rparr>) = Some (cfg, w1)"
      "EnableChainFirewall (os_firewall os h) (Some cfg) None = Inr (chainSession w')"
      "chainArmLockInProc os leaf w = (True, w')"
      "lock_inv w \<Longrightarrow> lock_inv w'" "chainLockOn w'" "chainSession w' \<noteq> None"
proof -
  let ?c = "w\<lparr>chainSettingsCache := Some (current_book w)\<rparr>"
  show thesis
  proof (cases "wants_lock os leaf w")
    case False
    then show ?thesis
      by (intro unwanted) (simp_all add: chainArmLockInProc_def ChainSettingsFor_eq wants_lock_def)
  next
    case wants: True
    show ?thesis
    proof (cases "\<not> os_no_inproc_lock os (w_history w) \<and> chainLockOn w")
      case True
      then show ?thesis
        using wants by (intro already)
          (simp_all add: chainArmLockInProc_def ChainSettingsFor_eq wants_lock_def)
    next
      case noton: False
      show ?thesis
      proof (cases "os_no_inproc_lock os (w_history w) \<or> lock_config os leaf ?c = None")
        case True
        then have "chainArmLockInProc os leaf w = (False, ?c)"
          using wants noton
          by (auto simp: chainArmLockInProc_def ChainSettingsFor_eq wants_lock_def)
        then show ?thesis using wants by (intro failed [of ?c]) simp_all
      next
        case False
        then obtain cfg w2 where cfg: "lock_config os leaf ?c = Some (cfg, w2)" by auto
        then have w2: "w2 = ?c" using lock_config_world [OF cfg] by simp
        define e1 where "e1 = enable_lock os cfg w2"
        define e2 where "e2 = (if fst e1 then e1 else enable_lock os cfg (disable_lock (snd e1)))"
        have off: "\<not> chainLockOn w" using noton False by blast
        have fields: "chainLockOn (snd e2) = chainLockOn w" "chainLockStop (snd e2) = chainLockStop w"
          "chainLockLeaf (snd e2) = chainLockLeaf w" "w_channels (snd e2) = w_channels w"
          "w_closed (snd e2) = w_closed w"
          by (simp_all add: e2_def e1_def w2)
        have arm: "chainArmLockInProc os leaf w =
            (if \<not> fst e2 then (False, snd e2)
             else (let (stop, w5) = new_channel (snd e2);
                       w6 = w5\<lparr>chainLockOn := True, chainLockLeaf := leaf, chainLockStop := Some stop\<rparr>
                   in (True, spawn (ListenStop stop) (chainApplyIPv6For os leaf w6))))"
          using wants False off cfg
          by (simp add: chainArmLockInProc_def ChainSettingsFor_eq wants_lock_def e1_def e2_def
              split: prod.split)
        show ?thesis
        proof (cases "fst e2")
          case True
          then have "chainSession (snd e2) \<noteq> None"
            using enable_lock_session(1) by (fastforce simp: e2_def e1_def split: if_splits)
          then have on: "lock_inv w \<Longrightarrow> lock_inv (switch_on leaf (snd e2))"
            "chainLockOn (switch_on leaf (snd e2))" "chainSession (switch_on leaf (snd e2)) \<noteq> None"
            using switch_on_inv [where w = "snd e2" and leaf = leaf] fields(4,5) by (simp_all add: lock_inv_def [of w])
          have res: "chainArmLockInProc os leaf w = (True, spawn (ListenStop (w_channels (snd e2)))
              (chainApplyIPv6For os leaf (switch_on leaf (snd e2))))"
            using True by (simp add: arm new_channel_def switch_on_def)
          have "\<exists>h. EnableChainFirewall (os_firewall os h) (Some cfg) None = Inr (chainSession (snd e2))"
            using True enable_lock_filters unfolding e2_def e1_def by (metis (full_types))
          then obtain h where
            fw: "EnableChainFirewall (os_firewall os h) (Some cfg) None = Inr (chainSession (snd e2))" ..
          then have fw: "EnableChainFirewall (os_firewall os h) (Some cfg) None
              = Inr (chainSession (spawn (ListenStop (w_channels (snd e2)))
                  (chainApplyIPv6For os leaf (switch_on leaf (snd e2)))))"
            using switch_on_inv(3) by simp
          show ?thesis by (rule armed [OF wants off _ fw res]) (use cfg in \<open>auto simp: on\<close>)
        next
          case False
          then have "chainSession (snd e2) = None"
            by (auto simp: e2_def e1_def enable_lock_session split: if_splits)
          then show ?thesis
            using False wants off fields arm
            by (intro failed [OF wants, of "snd e2"]) (simp_all add: lock_inv_def)
        qed
      qed
    qed
  qed
qed

lemma chainArmLockInProc_inv: "lock_inv w \<Longrightarrow> lock_inv (snd (chainArmLockInProc os leaf w))"
  by (rule chainArmLockInProc_cases [of os leaf w]) simp_all

lemma chainArmLockInProc_on:
  "fst (chainArmLockInProc os leaf w) \<Longrightarrow> wants_lock os leaf w \<Longrightarrow>
   chainLockOn (snd (chainArmLockInProc os leaf w))"
  by (rule chainArmLockInProc_cases [of os leaf w]) simp_all

lemma chainArmLockInProc_keeps_on:
  "chainLockOn w \<Longrightarrow> chainLockOn (snd (chainArmLockInProc os leaf w))"
  by (rule chainArmLockInProc_cases [of os leaf w]) simp_all

lemma chainDisarmLockInProc_off:
  "\<not> chainLockOn (snd (chainDisarmLockInProc w))"
  "lock_inv w \<Longrightarrow> lock_inv (snd (chainDisarmLockInProc w))"
  "lock_inv w \<Longrightarrow> chainSession (snd (chainDisarmLockInProc w)) = None"
  "fst (chainDisarmLockInProc w) = chainLockOn w"
  by (auto simp: chainDisarmLockInProc_def Let_def lock_inv_def close_opt_def close_channel_def
      split: option.splits)

lemma chainDisarmLockInProc_ipv6:
  "ipv6Session (snd (chainDisarmLockInProc w)) = (if chainLockOn w then None else ipv6Session w)"
  by (auto simp: chainDisarmLockInProc_def Let_def chainDropIPv6Block_def disable_lock_def
      IPv6BlockIsOn_def DisableIPv6Block_def close_opt_def close_channel_def split: option.splits)

lemma relock_wait_same:
  "lock_part (snd (relock_wait os leaf k w)) = lock_part w"
  "lock_inv (snd (relock_wait os leaf k w)) = lock_inv w"
  "w_dir (snd (relock_wait os leaf k w)) = w_dir w"
  by (induction k arbitrary: w) auto

lemma relock_wait_ready:
  "fst (relock_wait os leaf (Suc k) w) \<Longrightarrow> chainRelockAdaptersReady os leaf (snd (relock_wait os leaf (Suc k) w))"
proof (induction k arbitrary: w)
  case (Suc k)
  then show ?case by (subst relock_wait.simps) (auto split: if_splits simp del: relock_wait.simps simp: relock_wait.simps(2) [of os leaf "Suc k" w])
qed (auto split: if_splits)

lemma relock_arm_inv: "lock_inv w \<Longrightarrow> lock_inv (relock_arm os leaf k w)"
proof (induction k arbitrary: w)
  case (Suc k)
  then show ?case
    using chainArmLockInProc_inv [OF Suc.prems, of os leaf] by (auto simp: Let_def split: prod.split)
qed simp

lemma chainRearmLockAfterRepair_inv: "lock_inv w \<Longrightarrow> lock_inv (chainRearmLockAfterRepair os leaf w)"
  using relock_wait_same(2) [of os leaf chainRelockTries w]
  by (auto simp: chainRearmLockAfterRepair_def
      intro!: relock_arm_inv chainDisarmLockInProc_off split: prod.split)

text \<open>With an engine that does not open, no try succeeds.\<close>

lemma shut_engine_never_arms:
  assumes "\<And>h. \<not> api_open (os_firewall os h)"
  shows "\<not> chainLockOn w \<Longrightarrow> \<not> chainLockOn (relock_arm os leaf k w)"
proof (induction k arbitrary: w)
  case (Suc k)
  have "EnableChainFirewall (os_firewall os h) (Some cfg) None \<noteq> Inr s" for h cfg s
    using assms by (simp add: EnableChainFirewall_def)
  then have "\<not> chainLockOn (snd (chainArmLockInProc os leaf w))"
    using Suc.prems by (rule_tac chainArmLockInProc_cases [of os leaf w]) auto
  with Suc.IH show ?case by (simp add: case_prod_beta Let_def)
qed simp

section \<open>Every endpoint the lock composes is understood\<close>

lemma first_some_Some: "first_some f xs = Some y \<Longrightarrow> \<exists>x\<in>set xs. f x = Some y"
  by (induction xs) (auto split: option.splits)

lemma ip_string_to4: "to4 a = Some v \<Longrightarrow> ip_string a = v4_string v \<and> length v = 4"
  by (auto simp: ip_string_def to4_def split: if_splits)

lemma chainParseEndpoint_print:
  assumes "to4 a = Some v"
  shows "chainParseEndpoint (ip_string a @ '':'' @ dec (unat (p :: 16 word))) = Some (v4_mapped v, p)"
proof -
  let ?h = "v4_string v" and ?d = "dec (unat p)"
  have v: "ip_string a = ?h" "length v = 4" using ip_string_to4 [OF assms] by simp_all
  have chars: "set ?h \<subseteq> insert (CHR ''.'') (Collect is_digit)" "set ?d \<subseteq> Collect is_digit"
    using set_v4_string dec_digits [of "unat p"] by (auto simp: list_all_iff)
  then have graphic: "list_all is_graphic (?h @ CHR '':'' # ?d)"
    by (auto simp: list_all_iff is_graphic_def is_digit_def)
  have colon: "last_index_byte (CHR '':'') (?h @ CHR '':'' # ?d) = Some (length ?h)"
    by (rule last_index_byte_append) (use chars in \<open>auto simp: is_digit_def\<close>)
  have plain: "CHR '':'' \<notin> set ?h" "CHR ''['' \<notin> set (?h @ CHR '':'' # ?d)"
    "CHR '']'' \<notin> set (?h @ CHR '':'' # ?d)"
    using chars by (auto simp: is_digit_def)
  have "(?h @ CHR '':'' # ?d) ! 0 \<in> set (?h @ CHR '':'' # ?d)" by (rule nth_mem) simp
  with plain(2) have "(?h @ CHR '':'' # ?d) ! 0 \<noteq> CHR ''[''" by metis
  then have "split_host_port (?h @ CHR '':'' # ?d) = Some (?h, ?d)"
    using plain by (simp add: split_host_port_def colon)
  moreover have "parse_uint 16 ?d = Inr (unat p)"
    by (rule parse_uint_dec) (rule order_less_le_trans [OF unsigned_less], simp)
  moreover have "to4 (v4_mapped v) = Some v" using v(2) by (simp add: to4_def v4_mapped_def nth_append)
  ultimately show ?thesis
    using v graphic by (simp add: chainParseEndpoint_def trim_space_id trimmed_all_graphic parse_ip_v4)
qed

lemma chainEndpointOf_understood:
  assumes "chainEndpointOf os name w = Inr t"
  shows "\<exists>a p. chainParseEndpoint t = Some (a, p) \<and> to4 a \<noteq> None"
proof -
  from assms obtain q :: peer where "usable_endpoint os (w_history w) (Endpoint q) = Some t"
    by (auto simp: chainEndpointOf_def split: sum.splits option.splits dest!: first_some_Some)
  then obtain a v where a: "to4 a = Some v" "t = ip_string a @ '':'' @ dec (unat (Port (Endpoint q)))"
    by (auto simp: usable_endpoint_def Let_def split: if_splits option.splits)
  moreover have "to4 (v4_mapped v) \<noteq> None"
    using ip_string_to4 [OF a(1)] by (simp add: to4_def v4_mapped_def nth_append)
  ultimately show ?thesis using chainParseEndpoint_print [OF a(1)] by blast
qed
end
