(* ===== verification/TunnelServices.thy ===== *)
theory TunnelServices
  imports ManagerWorld
begin

text \<open>
  Tunnel services: \<open>InstallTunnel\<close> and \<open>UninstallTunnel\<close> of \<open>upstream-manager/install.go\<close>,
  \<open>State\<close> and \<open>RuntimeConfig\<close> of \<open>ipc_server.go\<close>, and the waiting loops of
  \<open>chainorder.go\<close> and \<open>chainguard.go\<close>.

  An operation returns its error, if any, and the world after it. The loop of \<open>InstallTunnel\<close>
  that waits for a deleted service to vanish has no bound, so it is a partial function and its
  answer an option. The retry of \<open>RuntimeConfig\<close> on a closed pipe is part of \<open>os_uapi\<close>; a panic
  while the answer is parsed counts as an error of that call.
\<close>

type_synonym outcome = "manager_error option \<times> world"

definition State :: "os \<Rightarrow> string \<Rightarrow> world \<Rightarrow> manager_error + tunnel_state" where
  "State os name w =
     (case os_service_name os name of
        Inl e \<Rightarrow> Inl e
      | Inr svc \<Rightarrow>
          (case os_manager os (w_history w) of
             Some e \<Rightarrow> Inl (MWin e)
           | None \<Rightarrow>
               (case os_open os (w_history w) svc of
                  Some _ \<Rightarrow> Inr TunnelStopped
                | None \<Rightarrow>
                    (case os_query os (w_history w) svc of
                       Inl _ \<Rightarrow> Inr TunnelUnknown
                     | Inr SvcStopped \<Rightarrow> Inr TunnelStopped
                     | Inr SvcStopPending \<Rightarrow> Inr TunnelStopping
                     | Inr SvcRunning \<Rightarrow> Inr TunnelStarted
                     | Inr SvcStartPending \<Rightarrow> Inr TunnelStarting
                     | Inr SvcOther \<Rightarrow> Inr TunnelUnknown))))"

definition RuntimeConfig :: "os \<Rightarrow> string \<Rightarrow> world \<Rightarrow> manager_error + config" where
  "RuntimeConfig os name w =
     (case LoadFromName (os_store os) (w_dir w) name of
        Inl e \<Rightarrow> Inl (MStore e)
      | Inr stored \<Rightarrow>
          (case os_uapi os (w_history w) name of
             Inl e \<Rightarrow> Inl (MWin e)
           | Inr answer \<Rightarrow>
               (case FromUAPI (os_unicode os) answer stored of
                  Inl e \<Rightarrow> Inl (MConf e)
                | Inr c \<Rightarrow> Inr (if os_elevated os then c else redact c))))"

definition StoredConfig :: "os \<Rightarrow> string \<Rightarrow> world \<Rightarrow> manager_error + config" where
  "StoredConfig os name w =
     (case LoadFromName (os_store os) (w_dir w) name of
        Inl e \<Rightarrow> Inl (MStore e)
      | Inr c \<Rightarrow> Inr (if os_elevated os then c else redact c))"

definition chainHopHandshook :: "os \<Rightarrow> string \<Rightarrow> world \<Rightarrow> bool" where
  "chainHopHandshook os name w =
     (case RuntimeConfig os name w of
        Inl _ \<Rightarrow> False
      | Inr c \<Rightarrow> list_ex (\<lambda>p. \<not> handshake_is_empty (LastHandshakeTime p)) (Peers c))"

definition hop_is_up :: "os \<Rightarrow> string \<Rightarrow> world \<Rightarrow> bool" where
  "hop_is_up os name w \<longleftrightarrow>
     State os name w = Inr TunnelStarted \<and> chainHopHandshook os name w"

section \<open>Waiting\<close>

definition chainHopUpTimeout :: nat where "chainHopUpTimeout = 45 * second"
definition chainPollInterval :: nat where "chainPollInterval = second"
definition chainStopWait :: nat where "chainStopWait = 20 * second"
definition chainStopPoll :: nat where "chainStopPoll = 200000000"

function wait_hop :: "os \<Rightarrow> string \<Rightarrow> nat \<Rightarrow> world \<Rightarrow> outcome" where
  "wait_hop os name deadline w =
     (if w_now w < deadline then
        (if hop_is_up os name w then (None, w)
         else wait_hop os name deadline (sleep os chainPollInterval w))
      else (Some (HandshakeTimeout name), w))"
  by pat_completeness auto
termination
  by (relation "measure (\<lambda>(os, name, deadline, w). deadline - w_now w)")
     (auto simp: chainPollInterval_def second_def)

declare wait_hop.simps [simp del]

definition chainWaitForHop :: "os \<Rightarrow> string \<Rightarrow> world \<Rightarrow> outcome" where
  "chainWaitForHop os name w = wait_hop os name (w_now w + chainHopUpTimeout) w"

function wait_stopped :: "os \<Rightarrow> string \<Rightarrow> nat \<Rightarrow> world \<Rightarrow> world" where
  "wait_stopped os name deadline w =
     (if w_now w < deadline then
        (case State os name w of
           Inl _ \<Rightarrow> w
         | Inr s \<Rightarrow> if s = TunnelStopped then w
                    else wait_stopped os name deadline (sleep os chainStopPoll w))
      else w)"
  by pat_completeness auto
termination
  by (relation "measure (\<lambda>(os, name, deadline, w). deadline - w_now w)")
     (auto simp: chainStopPoll_def)

declare wait_stopped.simps [simp del]

definition chainWaitStopped :: "os \<Rightarrow> string \<Rightarrow> world \<Rightarrow> world" where
  "chainWaitStopped os name w = wait_stopped os name (w_now w + chainStopWait) w"

section \<open>Installing and uninstalling\<close>

text \<open>\<open>OpenService\<close> hands out no handle with the error "marked for delete"; closing it is a nil dereference.\<close>

partial_function (option) wait_gone :: "os \<Rightarrow> string \<Rightarrow> world \<Rightarrow> outcome option" where
  "wait_gone os svc w =
     (case os_open os (w_history w) svc of
        None \<Rightarrow> wait_gone os svc (sleep os 333333333 (act (CloseService svc) w))
      | Some ERROR_SERVICE_MARKED_FOR_DELETE \<Rightarrow> Some (Some (MPanic NilDeref), w)
      | Some _ \<Rightarrow> Some (None, w))"

definition create_and_start :: "os \<Rightarrow> string \<Rightarrow> string \<Rightarrow> world \<Rightarrow> outcome" where
  "create_and_start os svc path w =
     (let w1 = act (CreateService svc path) w in
      case os_create os (w_history w) svc of
        Some e \<Rightarrow> (Some (MWin e), w1)
      | None \<Rightarrow>
          (map_option MWin (os_start os (w_history w1) svc),
           act (TrackService svc) (act (StartService svc) w1)))"

definition ignore_marked :: "win_error option \<Rightarrow> win_error option" where
  "ignore_marked e = (if e = Some ERROR_SERVICE_MARKED_FOR_DELETE then None else e)"

definition delete_and_create :: "os \<Rightarrow> string \<Rightarrow> string \<Rightarrow> world \<Rightarrow> outcome option" where
  "delete_and_create os svc path w =
     (let w1 = act (CloseService svc) (act (DeleteService svc) w) in
      case ignore_marked (os_delete os (w_history w) svc) of
        Some e \<Rightarrow> Some (Some (MWin e), w1)
      | None \<Rightarrow>
          (case wait_gone os svc w1 of
             None \<Rightarrow> None
           | Some (Some e, w2) \<Rightarrow> Some (Some e, w2)
           | Some (None, w2) \<Rightarrow> Some (create_and_start os svc path w2)))"

definition InstallTunnel :: "os \<Rightarrow> string \<Rightarrow> world \<Rightarrow> outcome option" where
  "InstallTunnel os path w =
     (case os_manager os (w_history w) of
        Some e \<Rightarrow> Some (Some (MWin e), w)
      | None \<Rightarrow>
     (case os_executable os (w_history w) of
        None \<Rightarrow> Some (None, w)
      | Some _ \<Rightarrow>
     (case NameFromPath (os_unicode os) path of
        Inl e \<Rightarrow> Some (Some (MStore e), w)
      | Inr name \<Rightarrow>
     (case os_service_name os name of
        Inl e \<Rightarrow> Some (Some e, w)
      | Inr svc \<Rightarrow>
     (case os_open os (w_history w) svc of
        Some _ \<Rightarrow> Some (create_and_start os svc path w)
      | None \<Rightarrow>
     (case os_query os (w_history w) svc of
        Inl e \<Rightarrow>
          if e \<noteq> ERROR_SERVICE_MARKED_FOR_DELETE
          then Some (Some (MWin e), act (CloseService svc) w)
          else delete_and_create os svc path w
      | Inr s \<Rightarrow>
          if s \<noteq> SvcStopped then
            if chainHopByName (os_store os) (w_dir w) name
            then Some (None, act (TrackService svc) w)
            else Some (Some AlreadyInstalled, act (CloseService svc) w)
          else delete_and_create os svc path w))))))"

definition UninstallTunnel :: "os \<Rightarrow> string \<Rightarrow> world \<Rightarrow> outcome" where
  "UninstallTunnel os name w =
     (case os_manager os (w_history w) of
        Some e \<Rightarrow> (Some (MWin e), w)
      | None \<Rightarrow>
     (case os_service_name os name of
        Inl e \<Rightarrow> (Some e, w)
      | Inr svc \<Rightarrow>
     (case os_open os (w_history w) svc of
        Some e \<Rightarrow> (Some (MWin e), w)
      | None \<Rightarrow>
          (let w1 = act (ControlStop svc) w;
               e1 = os_delete os (w_history w1) svc;
               w2 = act (DeleteService svc) w1;
               e2 = os_close os (w_history w2) svc;
               w3 = act (CloseService svc) w2
           in case ignore_marked e1 of
                Some e \<Rightarrow> (Some (MWin e), w3)
              | None \<Rightarrow> (map_option MWin e2, w3)))))"

section \<open>Facts\<close>

text \<open>
  Nothing but time, the history and the list of goroutines moves from the first world to the
  second: the store, the protection and the settings are untouched, and no goroutine that has to
  do with the protection is started.
\<close>

fun guarding :: "task \<Rightarrow> bool" where
  "guarding (Watch leaf stop) = True"
| "guarding (ListenStop stop) = True"
| "guarding (ReapGuard pid) = True"
| "guarding (StopIntersecting tt) = False"
| "guarding (ArmWhenReady leaf) = False"

definition quiet :: "world \<Rightarrow> world \<Rightarrow> bool" where
  "quiet w w' \<longleftrightarrow>
     w_dir w' = w_dir w \<and> lock_part w' = lock_part w \<and> guard_part w' = guard_part w
     \<and> chainSettingsCache w' = chainSettingsCache w \<and> chainGuardLastArm w' = chainGuardLastArm w
     \<and> w_channels w' = w_channels w \<and> w_closed w' = w_closed w
     \<and> filter guarding (w_tasks w') = filter guarding (w_tasks w)
     \<and> prefix (w_history w) (w_history w') \<and> prefix (w_tasks w) (w_tasks w') \<and> w_now w \<le> w_now w'"

lemma quiet_refl [simp]: "quiet w w"
  by (simp add: quiet_def)

lemma quiet_trans: "quiet u v \<Longrightarrow> quiet v w \<Longrightarrow> quiet u w"
  by (auto simp: quiet_def intro: prefix_order.trans)

lemma quiet_act [simp]: "quiet w v \<Longrightarrow> quiet w (act a v)"
  by (auto simp: quiet_def act_def guard_part_def lock_part_def)

lemma quiet_sleep [simp]: "quiet w v \<Longrightarrow> quiet w (sleep os d v)"
  by (auto simp: quiet_def sleep_def act_def guard_part_def lock_part_def)

lemma quiet_spawn [simp]: "quiet w v \<Longrightarrow> \<not> guarding t \<Longrightarrow> quiet w (spawn t v)"
  by (auto simp: quiet_def spawn_def act_def guard_part_def lock_part_def)

lemma wait_hop_quiet: "quiet w (snd (wait_hop os name deadline w))"
proof (induction os name deadline w rule: wait_hop.induct)
  case (1 os name deadline w)
  then show ?case
    by (subst wait_hop.simps) (auto intro: quiet_trans [rotated])
qed

lemma wait_stopped_quiet: "quiet w (wait_stopped os name deadline w)"
proof (induction os name deadline w rule: wait_stopped.induct)
  case (1 os name deadline w)
  then show ?case
    by (subst wait_stopped.simps) (auto intro: quiet_trans [rotated] split: sum.split)
qed

lemma wait_gone_quiet:
  assumes "wait_gone os svc w = Some r"
  shows "quiet w (snd r)"
proof (rule wait_gone.raw_induct [of "\<lambda>os svc w r. quiet w (snd r)", OF _ assms])
  fix rec :: "os \<Rightarrow> string \<Rightarrow> world \<Rightarrow> outcome option" and os svc w r
  assume IH: "\<And>os svc w r. rec os svc w = Some r \<Longrightarrow> quiet w (snd r)"
  let ?v = "sleep os 333333333 (act (CloseService svc) w)"
  assume "(case os_open os (w_history w) svc of
      None \<Rightarrow> rec os svc ?v
    | Some ERROR_SERVICE_MARKED_FOR_DELETE \<Rightarrow> Some (Some (MPanic NilDeref), w)
    | Some _ \<Rightarrow> Some (None, w)) = Some r"
  then have "rec os svc ?v = Some r \<or> snd r = w"
    by (auto split: option.splits win_error.splits)
  moreover have "quiet w ?v" by simp
  ultimately show "quiet w (snd r)" using IH quiet_trans quiet_refl by metis
qed

lemma create_and_start_quiet: "quiet w (snd (create_and_start os svc path w))"
  by (simp add: create_and_start_def Let_def split: option.split)

lemma delete_and_create_quiet:
  assumes "delete_and_create os svc path w = Some r"
  shows "quiet w (snd r)"
proof -
  let ?w1 = "act (CloseService svc) (act (DeleteService svc) w)"
  have w1: "quiet w ?w1" by simp
  from assms consider "snd r = ?w1" | e w2 where "wait_gone os svc ?w1 = Some (e, w2)"
    and "snd r = w2 \<or> snd r = snd (create_and_start os svc path w2)"
    by (auto simp: delete_and_create_def Let_def split: option.splits prod.splits)
  then show ?thesis
  proof cases
    case 1
    then show ?thesis using w1 by simp
  next
    case 2
    from wait_gone_quiet [OF 2(1)] have "quiet w w2"
      using w1 quiet_trans by (metis snd_conv)
    with 2(2) show ?thesis using create_and_start_quiet quiet_trans by metis
  qed
qed

lemma InstallTunnel_quiet:
  assumes "InstallTunnel os path w = Some r"
  shows "quiet w (snd r)"
  using assms delete_and_create_quiet
  by (auto simp: InstallTunnel_def create_and_start_quiet split: option.splits sum.splits if_splits)

lemma UninstallTunnel_quiet: "quiet w (snd (UninstallTunnel os name w))"
  by (simp add: UninstallTunnel_def Let_def split: option.split sum.split)

text \<open>A wait that succeeds ends with the hop up, and no wait is longer than its bound and one poll.\<close>

lemma wait_hop_up: "wait_hop os name deadline w = (None, w') \<Longrightarrow> hop_is_up os name w'"
proof (induction os name deadline w rule: wait_hop.induct)
  case (1 os name deadline w)
  from 1(2) show ?case
    by (subst (asm) wait_hop.simps) (auto split: if_splits dest: 1(1))
qed

lemma chainWaitForHop_up: "chainWaitForHop os name w = (None, w') \<Longrightarrow> hop_is_up os name w'"
  by (simp add: chainWaitForHop_def wait_hop_up)

lemma wait_hop_timeout:
  "wait_hop os name deadline w = (Some e, w') \<Longrightarrow>
   e = HandshakeTimeout name \<and> deadline \<le> w_now w'"
proof (induction os name deadline w rule: wait_hop.induct)
  case (1 os name deadline w)
  from 1(2) show ?case
    by (subst (asm) wait_hop.simps) (auto split: if_splits dest: 1(1))
qed

lemma wait_stopped_result:
  "State os name (wait_stopped os name deadline w) = Inr TunnelStopped
   \<or> (\<exists>e. State os name (wait_stopped os name deadline w) = Inl e)
   \<or> deadline \<le> w_now (wait_stopped os name deadline w)"
proof (induction os name deadline w rule: wait_stopped.induct)
  case (1 os name deadline w)
  then show ?case
    by (subst (1 2 3) wait_stopped.simps) (auto split: sum.splits)
qed

end
