(* ===== verification/ChainPair.thy ===== *)
theory ChainPair
  imports ChainOrder
begin

text \<open>
  Facts about the pair \<open>ChainBuild\<close> returns: how the two hops refer to each other, that
  they can be stored, and which addresses the inner hop routes.
\<close>

section \<open>Shape\<close>

lemma ChainBuild_cases:
  assumes "ChainBuild u warp inner adapter pair = Inr (hop1, hop2)"
  obtains w i where "warp = Some w" "inner = Some i"
    "hop1 = build_hop1 w (ChainHiddenHopName u (trim_space pair)) (trim_space adapter)"
    "hop2 = build_hop2 i (trim_space pair) (ChainHiddenHopName u (trim_space pair))"
    "trim_space adapter \<noteq> []" "TunnelNameIsValid u (trim_space pair)"
    "TunnelNameIsValid u (ChainHiddenHopName u (trim_space pair))"
    "chainHasEndpoint w" "chainHasEndpoint i"
  using assms by (auto simp: ChainBuild_def Let_def split: option.splits if_split_asm)

lemma hop1_fields [simp]:
  "Name (build_hop1 w h a) = h" "PinEndpointVia (Interface (build_hop1 w h a)) = a"
  "TableOff (Interface (build_hop1 w h a))" "MTU (Interface (build_hop1 w h a)) = ChainHop1MTU"
  "DNS (Interface (build_hop1 w h a)) = []" "DNSSearch (Interface (build_hop1 w h a)) = []"
  "Addresses (Interface (build_hop1 w h a)) = Addresses (Interface w)"
  "PrivateKey (Interface (build_hop1 w h a)) = PrivateKey (Interface w)"
  "Peers (build_hop1 w h a) = chainCopyPeers (Peers w)"
  by (simp_all add: build_hop1_def)

lemma hop2_fields [simp]:
  "Name (build_hop2 i n h) = n" "PinEndpointVia (Interface (build_hop2 i n h)) = h"
  "\<not> TableOff (Interface (build_hop2 i n h))" "MTU (Interface (build_hop2 i n h)) = ChainHop2MTU"
  "Addresses (Interface (build_hop2 i n h)) = Addresses (Interface i)"
  "PrivateKey (Interface (build_hop2 i n h)) = PrivateKey (Interface i)"
  by (simp_all add: build_hop2_def Let_def)

lemma hop2_v6: "ChainConfigHasIPv6 (build_hop2 i n h) = ChainConfigHasIPv6 i"
  by (simp add: ChainConfigHasIPv6_def)

lemma chainSplitDefaultFor_v6:
  "ChainConfigHasIPv6 c = ChainConfigHasIPv6 d \<Longrightarrow> chainSplitDefaultFor c = chainSplitDefaultFor d"
  by (simp add: chainSplitDefaultFor_def)

lemma hop2_peers:
  "Peers (build_hop2 i n h) =
     map (\<lambda>p. if chainCoversEverything (AllowedIPs p) then p\<lparr>AllowedIPs := chainSplitDefaultFor i\<rparr> else p)
       (chainCopyPeers (Peers i))"
proof -
  have "ChainConfigHasIPv6 (i\<lparr>Name := n, Interface := j\<rparr>) = ChainConfigHasIPv6 i"
    if "Addresses j = Addresses (Interface i)" for j
    using that by (simp add: ChainConfigHasIPv6_def)
  then show ?thesis by (simp add: build_hop2_def Let_def cong: chainSplitDefaultFor_v6)
qed

lemma chainCopyPeers_fields:
  "map PublicKey (chainCopyPeers ps) = map PublicKey ps"
  "map Endpoint (chainCopyPeers ps) = map Endpoint ps"
  "map AllowedIPs (chainCopyPeers ps) = map AllowedIPs ps"
  by (induction ps) (simp_all add: chainCopyPeers_def Let_def)

lemma map_rerouted:
  assumes "\<And>p. f (p\<lparr>AllowedIPs := ips\<rparr>) = f p"
  shows "map f (map (\<lambda>p. if full p then p\<lparr>AllowedIPs := ips\<rparr> else p) ps) = map f ps"
  using assms by (induction ps) simp_all

lemma hop2_peer_fields:
  "map PublicKey (Peers (build_hop2 i n h)) = map PublicKey (Peers i)"
  "map Endpoint (Peers (build_hop2 i n h)) = map Endpoint (Peers i)"
  unfolding hop2_peers by (subst map_rerouted, simp, rule chainCopyPeers_fields)+

lemma valid_name_trimmed: "TunnelNameIsValid u n \<Longrightarrow> trim_space n = n"
proof -
  assume "TunnelNameIsValid u n"
  then have "list_all is_graphic n"
    using valid_name_chars name_char_graphic by (auto simp: list_all_iff)
  then show ?thesis by (auto intro: trim_space_id trimmed_all_graphic)
qed

lemma valid_name_nonempty: "TunnelNameIsValid u n \<Longrightarrow> n \<noteq> []"
  using valid_name_length by fastforce

text \<open>The two hops are siblings: the inner one is pinned through the outer one.\<close>

lemma pair_siblings:
  assumes "ChainBuild u warp inner adapter pair = Inr (hop1, hop2)"
  shows "chainSiblings u hop1 hop2" and "PinEndpointVia (Interface hop2) = Name hop1"
    and "Name hop1 = ChainHiddenHopName u (Name hop2)"
proof -
  from assms obtain w i where
    h: "hop1 = build_hop1 w (ChainHiddenHopName u (trim_space pair)) (trim_space adapter)"
      "hop2 = build_hop2 i (trim_space pair) (ChainHiddenHopName u (trim_space pair))"
    and a: "trim_space adapter \<noteq> []" and n: "TunnelNameIsValid u (ChainHiddenHopName u (trim_space pair))"
    by (rule ChainBuild_cases)
  from n have "ChainHiddenHopName u (trim_space pair) \<noteq> []" by (rule valid_name_nonempty)
  with a valid_name_trimmed [OF n] show "chainSiblings u hop1 hop2"
    by (simp add: h chainSiblings_def isChainHop_def)
  show "PinEndpointVia (Interface hop2) = Name hop1" "Name hop1 = ChainHiddenHopName u (Name hop2)"
    by (simp_all add: h)
qed

section \<open>The pair can be stored\<close>

lemma valid_name_value: "TunnelNameIsValid u n \<Longrightarrow> value_text n"
proof -
  assume n: "TunnelNameIsValid u n"
  then have chars: "list_all name_char n" by (rule valid_name_chars)
  then have "CHR ''#'' \<notin> set n" by (auto simp: list_all_iff name_char_def is_digit_def)
  moreover have "list_all is_graphic n" using chars name_char_graphic by (auto simp: list_all_iff)
  ultimately show ?thesis using valid_name_nonempty [OF n] by (intro value_text_graphic)
qed

lemma copied_peer_wf:
  assumes "list_all wf_peer ps"
  shows "list_all wf_peer (chainCopyPeers ps)"
proof -
  have "wf_value ''25''" "(''25'' :: string) \<notin> {''0'', ''off'', ''(off)''}"
    by (simp_all add: wf_value_def value_text_graphic is_graphic_def)
  with assms show ?thesis
    by (auto simp: chainCopyPeers_def Let_def list_all_iff wf_peer_def)
qed

lemma rerouted_peers_wf:
  assumes "list_all wf_peer ps" and "list_all wf_ipcidr ips"
  shows "list_all wf_peer (map (\<lambda>p. if full p then p\<lparr>AllowedIPs := ips\<rparr> else p) ps)"
  using assms by (induction ps) (simp_all add: wf_peer_def)

lemma parse_unspecified: "parse_ip ''::'' = Some (0 # replicate 15 0)"
  by (simp add: parse_ip_def parse_v6_def has_prefix_def) (simp add: numeral_eq_Suc)

lemma parse_upper_half: "parse_ip ''8000::'' = Some (128 # replicate 15 0)"
proof -
  have hex: "hex_val (CHR ''8'') = Some 8" "hex_val (CHR ''0'') = Some 0" "hex_val (CHR '':'') = None"
    by (simp_all add: hex_val_def is_digit_def)
  have "v6_loop (Suc 7) None [] ''8000::'' = Some (Some 2, [128, 0])"
    unfolding v6_loop.simps(2) by (simp add: is_hex_def hex hex_acc_def group_bytes_def)
  then have "v6_loop 8 None [] ''8000::'' = Some (Some 2, [128, 0])" by simp
  then have "parse_v6 ''8000::'' = Some (128 # replicate 15 0)"
    unfolding parse_v6_def by (simp add: has_prefix_def v6_finish_def) (simp add: numeral_eq_Suc)
  then show ?thesis by (simp add: parse_ip_def)
qed

lemma chainSplitDefaultV6_eq:
  "chainSplitDefaultV6 =
     [\<lparr> IP = 0 # replicate 15 0, Cidr = 1 \<rparr>, \<lparr> IP = 128 # replicate 15 0, Cidr = 1 \<rparr>]"
  by (simp add: chainSplitDefaultV6_def parse_unspecified parse_upper_half)

lemma zeros_not_v4: "to4 (b # replicate 15 0) = None"
  by (simp add: to4_def nth_Cons')

lemma split_default_wf: "list_all wf_ipcidr (chainSplitDefaultFor c)"
proof -
  have "list_all wf_ipcidr chainSplitDefault" by code_simp
  moreover have "list_all wf_ipcidr chainSplitDefaultV6"
    by (simp add: chainSplitDefaultV6_eq wf_ipcidr_def zeros_not_v4)
  ultimately show ?thesis by (simp add: chainSplitDefaultFor_def)
qed

lemma chainFilterDNS_subset: "set (chainFilterDNS ds b) \<subseteq> set ds"
  by (auto simp: chainFilterDNS_def)

lemma ChainBuild_wf:
  assumes build: "ChainBuild u (Some w) (Some i) adapter pair = Inr (hop1, hop2)"
    and w: "wf_config u w" and i: "wf_config u i" and adapter: "value_text (trim_space adapter)"
  shows "wf_config u hop1 \<and> wf_config u hop2"
proof -
  from build have
    h: "hop1 = build_hop1 w (ChainHiddenHopName u (trim_space pair)) (trim_space adapter)"
      "hop2 = build_hop2 i (trim_space pair) (ChainHiddenHopName u (trim_space pair))"
    and n: "TunnelNameIsValid u (trim_space pair)"
      "TunnelNameIsValid u (ChainHiddenHopName u (trim_space pair))"
    by (auto elim: ChainBuild_cases)
  have mtu: "576 \<le> unat ChainHop1MTU" "576 \<le> unat ChainHop2MTU"
    by (simp_all add: ChainHop1MTU_def ChainHop2MTU_def)
  have 1: "wf_config u hop1"
    using w n adapter mtu copied_peer_wf [of "Peers w"]
    by (simp add: h build_hop1_def wf_config_def wf_interface_def wf_value_def)
  have dns: "list_all (\<lambda>a. length a = 16) (DNS (Interface (build_hop2 i m v)))" for m v
  proof -
    have cloud: "list_all (\<lambda>a. length a = 16) cloudflare_dns"
      by (simp add: cloudflare_dns_def v4_mapped_def)
    have all: "list_all (\<lambda>a. length a = 16) (chainFilterDNS ds b)"
      if "list_all (\<lambda>a. length a = 16) ds" for ds b
      using that chainFilterDNS_subset [of ds b] by (auto simp: list_all_iff)
    show ?thesis
      using i cloud all by (simp add: build_hop2_def Let_def wf_config_def wf_interface_def)
  qed
  have "list_all wf_peer (Peers hop2)"
    unfolding h hop2_peers
    by (rule rerouted_peers_wf) (use copied_peer_wf i split_default_wf in \<open>auto simp: wf_config_def\<close>)
  moreover have "wf_interface (Interface hop2)"
    using i n dns mtu valid_name_value [OF n(2)]
    by (simp add: h wf_config_def wf_interface_def wf_value_def build_hop2_def Let_def)
  ultimately show ?thesis using 1 n by (simp add: wf_config_def h)
qed

section \<open>The halves of the address space\<close>

lemma and_mask_zeros: "length xs = k \<Longrightarrow> and_mask xs (replicate k 0) = replicate k 0"
  by (induction xs arbitrary: k) (auto simp: and_mask_def)

lemma one_bit_mask:
  "cidr_mask 1 32 = Some (128 # replicate 3 0)" "cidr_mask 1 128 = Some (128 # replicate 15 0)"
  by code_simp+

lemma half_contains:
  assumes x: "length x = Suc k" and k: "k = 3 \<or> k = 15 \<and> to4 x = None \<and> to4 (b # replicate k 0) = None"
    and hd: "and (hd x) 128 = b"
  shows "net_contains (ipcidr_ipnet \<lparr> IP = b # replicate k 0, Cidr = 1 \<rparr>) x"
proof -
  let ?p = "\<lparr> IP = b # replicate k 0, Cidr = 1 \<rparr>" and ?m = "128 # replicate k (0 :: 8 word)"
  obtain y ys where xs: "x = y # ys" "length ys = k" using x by (cases x) auto
  have to4: "(case to4 x of Some v \<Rightarrow> v | None \<Rightarrow> x) = x"
    using k x by (auto simp: to4_v4)
  have "network_number (ipcidr_ipnet ?p) = Some (b # replicate k 0, ?m)"
    using k by (auto simp: network_number_def ipcidr_ipnet_def ipcidr_bits_def one_bit_mask to4_v4)
  moreover have "and_mask (b # replicate k 0) ?m = and_mask x ?m"
  proof -
    have "and b 128 = b" using hd by (auto simp: and.assoc)
    then show ?thesis
      using hd xs and_mask_zeros [of "replicate k 0" k] and_mask_zeros [of ys k]
      by (simp add: and_mask_def)
  qed
  ultimately show ?thesis using x by (simp add: net_contains_def to4)
qed

lemma bit_128: "n < 8 \<Longrightarrow> bit (128 :: 8 word) n \<longleftrightarrow> n = 7"
proof -
  have "bit (2 ^ 7 :: 8 word) n \<longleftrightarrow> n = 7" by (subst bit_exp_iff) auto
  then show ?thesis by simp
qed

lemma top_bit: "and (w :: 8 word) 128 = 0 \<or> and w 128 = 128"
proof -
  have "and w 128 = (if bit w 7 then 128 else 0)"
  proof (rule bit_word_eqI)
    fix n assume "n < LENGTH(8)"
    then have "n < 8" by simp
    from bit_128 [OF this] show "bit (and w 128) n = bit (if bit w 7 then 128 else 0 :: 8 word) n"
      by (auto simp: bit_and_iff)
  qed
  then show ?thesis by simp
qed

lemma split_default_v4:
  assumes "length x = 4"
  shows "\<exists>p\<in>set (chainSplitDefaultFor c). net_contains (ipcidr_ipnet p) x"
proof -
  have "net_contains (ipcidr_ipnet \<lparr> IP = and (hd x) 128 # replicate 3 0, Cidr = 1 \<rparr>) x"
    by (rule half_contains) (use assms in auto)
  then show ?thesis
    using top_bit [of "hd x"] by (auto simp: chainSplitDefaultFor_def chainSplitDefault_def numeral_3_eq_3)
qed

lemma split_default_v6:
  assumes "ChainConfigHasIPv6 c" and "length x = 16" and "to4 x = None"
  shows "\<exists>p\<in>set (chainSplitDefaultFor c). net_contains (ipcidr_ipnet p) x"
proof -
  have "net_contains (ipcidr_ipnet \<lparr> IP = and (hd x) 128 # replicate 15 0, Cidr = 1 \<rparr>) x"
    by (rule half_contains) (use assms zeros_not_v4 in auto)
  then show ?thesis
    using assms(1) top_bit [of "hd x"]
    by (auto simp: chainSplitDefaultFor_def chainSplitDefaultV6_eq)
qed

end
