(* ===== verification/Samples.thy ===== *)
theory Samples
  imports ChainLock TunnelServices ConfInvariant ChainPair
begin

text \<open>
  Concrete values at which the hypotheses of the properties hold: a Unicode table that only
  knows ASCII, an outer and an inner configuration with the pair built from them, and a WFP
  engine that does what it is documented to do.
\<close>

definition ascii_unicode :: unicode where
  "ascii_unicode = \<lparr> rune_lower = id, rune_upper = id, same_fold = (=) \<rparr>"

definition sample_key :: key where "sample_key = replicate 31 1 @ [7]"

definition v4 :: "8 word \<Rightarrow> 8 word \<Rightarrow> 8 word \<Rightarrow> 8 word \<Rightarrow> 8 word \<Rightarrow> ipcidr" where
  "v4 a b c d n = \<lparr> IP = [a, b, c, d], Cidr = n \<rparr>"

definition warp_conf :: config where
  "warp_conf =
     \<lparr> Name = ''warp'',
       Interface = zero_interface
         \<lparr>PrivateKey := sample_key, Addresses := [v4 172 16 0 2 32], MTU := 1280,
          DNS := [v4_mapped [1, 1, 1, 1]], JunkPacketCount := 4\<rparr>,
       Peers = [zero_peer
         \<lparr>PublicKey := sample_key, AllowedIPs := [v4 0 0 0 0 0],
          Endpoint := \<lparr> Host = ''162.159.192.1'', Port = 500 \<rparr>\<rparr>] \<rparr>"

definition inner_conf :: config where
  "inner_conf =
     \<lparr> Name = ''inner'',
       Interface = zero_interface
         \<lparr>PrivateKey := sample_key, Addresses := [v4 10 8 0 2 32], MTU := 1420,
          DNS := [v4_mapped [9, 9, 9, 9]]\<rparr>,
       Peers = [zero_peer
         \<lparr>PublicKey := sample_key, AllowedIPs := [v4 0 0 0 0 0],
          Endpoint := \<lparr> Host = ''203.0.113.5'', Port = 443 \<rparr>,
          PersistentKeepalive := ''25''\<rparr>] \<rparr>"

definition hop1_conf :: config where "hop1_conf = build_hop1 warp_conf ''pair-hop1'' ''Ethernet''"

definition hop2_conf :: config where "hop2_conf = build_hop2 inner_conf ''pair'' ''pair-hop1''"

lemmas sample_defs =
  ascii_unicode_def sample_key_def v4_def warp_conf_def inner_conf_def hop1_conf_def hop2_conf_def
  zero_interface_def zero_peer_def zero_endpoint_def

section \<open>The firewall\<close>

definition filter_at :: "nat \<Rightarrow> fw_cond list \<Rightarrow> fw_action \<Rightarrow> fw_layer \<Rightarrow> wfp_filter" where
  "filter_at w cs a l = \<lparr> f_layer = l, f_weight = w, f_conds = cs, f_action = a \<rparr>"

text \<open>Loopback traffic satisfies the condition numbered 0, DHCP the one numbered 1.\<close>

definition sample_api :: fw_api where
  "sample_api =
     \<lparr> api_open = True, api_base = True, api_app = (\<lambda>_. True), api_add = (\<lambda>_ _. True),
       permit_tun_interface = (\<lambda>w luid. Inr (map (filter_at w [LocalInterface luid] Permit) chainLayersBoth)),
       permit_loopback = (\<lambda>w. Inr (map (filter_at w [OtherCond 0] Permit) chainLayersBoth)),
       permit_dhcp_ipv4 = (\<lambda>w. Inr (map (filter_at w [OtherCond 1] Permit) chainLayersV4)),
       block_all = (\<lambda>w. Inr (map (filter_at w [] BlockIt) chainLayersBoth)),
       run_transaction = id \<rparr>"

lemma sample_api_documented: "documented_api sample_api (\<lambda>k. k_other k 0) (\<lambda>k. k_other k 1)"
proof -
  have all: "\<exists>f\<in>set (map (filter_at w [] BlockIt) chainLayersBoth). matches k f" for w k
    by (cases "k_layer k") (auto simp: chainLayersBoth_def filter_at_def matches_def)
  show ?thesis
    unfolding documented_api_def using all
    by (auto simp: sample_api_def filter_at_def matches_def chainLayersV4_def is_v4_def)
qed

definition sample_firewall :: chain_firewall_config where
  "sample_firewall =
     \<lparr> Hop1LUID = 17, Hop2LUID = 18,
       Hop1Endpoint = [162, 159, 192, 1], Hop1Port = 500,
       Hop2Endpoint = [203, 0, 113, 5], Hop2Port = 443,
       DNSServers = [[9, 9, 9, 9]], AllowedApps = [''awgchain.exe''],
       AllowedLANs = [\<lparr> net_ip = [192, 168, 1, 0], net_mask = [255, 255, 255, 0] \<rparr>] \<rparr>"

definition sample_session :: session where
  "sample_session =
     (case EnableChainFirewall sample_api (Some sample_firewall) None of Inl _ \<Rightarrow> None | Inr s \<Rightarrow> s)"

lemma sample_enabled: "EnableChainFirewall sample_api (Some sample_firewall) None = Inr sample_session"
proof -
  have "\<not> isl (EnableChainFirewall sample_api (Some sample_firewall) None)"
    by code_simp
  then show ?thesis
    by (cases "EnableChainFirewall sample_api (Some sample_firewall) None") (auto simp: sample_session_def)
qed

section \<open>The configurations are well formed\<close>

lemma sample_names: "list_all (TunnelNameIsValid ascii_unicode) [''warp'', ''inner'', ''pair'', ''pair-hop1'']"
  by code_simp

lemma sample_values: "list_all value_text [''<b 0x01>'', ''25'', ''Ethernet'', ''pair-hop1'']"
  by code_simp

lemma sample_endpoints: "list_all wf_endpoint (map Endpoint (Peers warp_conf @ Peers inner_conf))"
  by code_simp

lemma sample_prefixes:
  "list_all wf_ipcidr (Addresses (Interface warp_conf) @ Addresses (Interface inner_conf)
     @ concat (map AllowedIPs (Peers warp_conf @ Peers inner_conf @ Peers hop2_conf)))"
  by code_simp

lemma sample_keys: "wf_key sample_key" "\<not> key_is_zero sample_key" "wf_key zero_key"
  by code_simp+

lemma sample_wf:
  "wf_config ascii_unicode warp_conf" "wf_config ascii_unicode inner_conf"
  using sample_names sample_values sample_endpoints sample_prefixes sample_keys
  by (simp_all add: wf_config_def wf_interface_def wf_peer_def wf_value_def packet_keys_def
      warp_conf_def inner_conf_def zero_interface_def zero_peer_def v4_mapped_def)

lemma pair_texts:
  "trim_space ''Ethernet'' = ''Ethernet''" "trim_space ''pair'' = ''pair''"
  "ChainHiddenHopName ascii_unicode ''pair'' = ''pair-hop1''"
  "chainHasEndpoint warp_conf" "chainHasEndpoint inner_conf"
  by code_simp+

lemma pair_built:
  "ChainBuild ascii_unicode (Some warp_conf) (Some inner_conf) ''Ethernet'' ''pair''
   = Inr (hop1_conf, hop2_conf)"
  using sample_names by (simp add: ChainBuild_def Let_def pair_texts hop1_conf_def hop2_conf_def)

lemma hop_wf: "wf_config ascii_unicode hop1_conf" "wf_config ascii_unicode hop2_conf"
  using ChainBuild_wf [OF pair_built sample_wf] sample_values by (simp_all add: pair_texts)

lemma hop2_peer:
  "Peers hop2_conf = [zero_peer\<lparr>PublicKey := sample_key, AllowedIPs := chainSplitDefault,
     Endpoint := \<lparr> Host = ''203.0.113.5'', Port = 443 \<rparr>, PersistentKeepalive := ''25''\<rparr>]"
proof -
  have "chainCoversEverything [v4 0 0 0 0 0]" "\<not> ChainConfigHasIPv6 inner_conf"
    "trim_space ''25'' = ''25''" by code_simp+
  then show ?thesis
    by (simp add: hop2_conf_def hop2_peers chainCopyPeers_def inner_conf_def chainSplitDefaultFor_def
        zero_peer_def)
qed

lemma b64_encode_length: "length (b64_encode bs) = 4 * ((length bs + 2) div 3)"
  by (induction bs rule: b64_encode.induct) (simp_all add: Let_def, presburger)

lemma length_unlines: "length (unlines ls) = length (concat ls) + length ls"
  by (induction ls) simp_all

lemma key_length: "length (key_string sample_key) = 44"
  by (simp add: key_string_def b64_encode_length sample_key_def)

lemma interface_texts:
  "length (concat (network_lines (Interface hop2_conf))) \<le> 300"
  "length (network_lines (Interface hop2_conf)) \<le> 20"
  "length (concat (network_lines (Interface hop1_conf))) \<le> 300"
  "length (network_lines (Interface hop1_conf)) \<le> 20"
  "length (comma_list (map ipcidr_string chainSplitDefault)) \<le> 100"
  "length (comma_list (map ipcidr_string [v4 0 0 0 0 0])) \<le> 100"
  "length (endpoint_string \<lparr> Host = ''203.0.113.5'', Port = 443 \<rparr>) \<le> 100"
  "length (endpoint_string \<lparr> Host = ''162.159.192.1'', Port = 500 \<rparr>) \<le> 100"
  "dec 4 = ''4''"
  by code_simp+

lemma hop2_text_length: "length (ToWgQuick ascii_unicode [] hop2_conf) \<le> 1000"
proof -
  let ?i = "Interface hop2_conf"
  have "junk_lines ?i = []" "timing_lines ?i = []" "PrivateKey ?i = sample_key"
    by (simp_all add: junk_lines_def timing_lines_def opt_line_def hop2_conf_def build_hop2_def Let_def
        inner_conf_def zero_interface_def key_is_zero_def)
  then show ?thesis
    using interface_texts
    by (simp add: ToWgQuick_def interface_lines_def length_unlines hop2_peer peer_lines_def
        opt_line_def zero_peer_def key_is_zero_def kv_def key_length)
qed

lemma hop1_peer:
  "Peers hop1_conf = [zero_peer\<lparr>PublicKey := sample_key, AllowedIPs := [v4 0 0 0 0 0],
     Endpoint := \<lparr> Host = ''162.159.192.1'', Port = 500 \<rparr>, PersistentKeepalive := ''25''\<rparr>]"
proof -
  have "trim_space [] = []" by code_simp
  then show ?thesis by (simp add: hop1_conf_def chainCopyPeers_def warp_conf_def zero_peer_def)
qed

lemma hop1_text_length: "length (ToWgQuick ascii_unicode [] hop1_conf) \<le> 1000"
proof -
  let ?i = "Interface hop1_conf"
  have "junk_lines ?i = [''Jc = 4'']" "timing_lines ?i = []" "PrivateKey ?i = sample_key"
    using interface_texts(9)
    by (simp_all add: junk_lines_def timing_lines_def opt_line_def hop1_conf_def build_hop1_def Let_def
        warp_conf_def zero_interface_def key_is_zero_def kv_def)
  then show ?thesis
    using interface_texts
    by (simp add: ToWgQuick_def interface_lines_def length_unlines hop1_peer peer_lines_def
        opt_line_def zero_peer_def key_is_zero_def kv_def key_length)
qed

section \<open>The store\<close>

definition sample_env :: store_env where
  "sample_env =
     \<lparr> env_unicode = ascii_unicode, env_decoders = [],
       env_order = (\<lambda>_. []),
       env_dpapi = \<lparr> encrypt = (\<lambda>t n. Some (CHR ''!'' # t)),
                     decrypt = (\<lambda>r n. if r = [] then None else Some (tl r)) \<rparr> \<rparr>"

lemma sample_env_simps [simp]: "env_unicode sample_env = ascii_unicode" "env_order sample_env c = []"
  by (simp_all add: sample_env_def)

lemma sample_order:
  "IPackets (Interface hop1_conf) = Map.empty" "IPackets (Interface hop2_conf) = Map.empty"
  "IPackets (Interface inner_conf) = Map.empty"
  by (simp_all add: hop1_conf_def hop2_conf_def build_hop1_def build_hop2_def Let_def
      warp_conf_def inner_conf_def zero_interface_def)

lemma sample_short:
  "short_lines (ToWgQuick ascii_unicode [] hop1_conf)" "short_lines (ToWgQuick ascii_unicode [] hop2_conf)"
  using hop1_text_length hop2_text_length by (simp_all add: short_text_lines)

lemma hop_names [simp]:
  "Name hop1_conf = ''pair-hop1''" "Name hop2_conf = ''pair''"
  "PinEndpointVia (Interface hop1_conf) = ''Ethernet''" "PinEndpointVia (Interface hop2_conf) = ''pair-hop1''"
  by (simp_all add: hop1_conf_def hop2_conf_def)

text \<open>The directory in which the pair is stored.\<close>

definition plain_file :: "string \<Rightarrow> string \<Rightarrow> dir_entry" where
  "plain_file n t =
     \<lparr> d_name = n @ configFileUnencryptedSuffix, d_regular = True, d_info = True, d_perm = True,
       d_data = Some t \<rparr>"

definition sample_dir :: directory where
  "sample_dir =
     [plain_file ''pair-hop1'' (ToWgQuick ascii_unicode [] hop1_conf),
      plain_file ''pair'' (ToWgQuick ascii_unicode [] hop2_conf)]"

lemma sample_load:
  "LoadFromName sample_env (Some sample_dir) ''pair-hop1'' = Inr hop1_conf"
  "LoadFromName sample_env (Some sample_dir) ''pair'' = Inr hop2_conf"
proof -
  have read: "read_file sample_dir (''pair-hop1'' @ configFileUnencryptedSuffix)
      = Inr (ToWgQuick ascii_unicode [] hop1_conf)"
    "read_file sample_dir (''pair'' @ configFileUnencryptedSuffix) = Inr (ToWgQuick ascii_unicode [] hop2_conf)"
    by (simp_all add: read_file_def find_entry_def sample_dir_def plain_file_def configFileUnencryptedSuffix_def)
  show "LoadFromName sample_env (Some sample_dir) ''pair-hop1'' = Inr hop1_conf"
    using LoadFromName_hop(1) [where env = sample_env and c = hop1_conf and ord = "[]" and d = sample_dir]
      hop_wf sample_short read sample_order by simp
  show "LoadFromName sample_env (Some sample_dir) ''pair'' = Inr hop2_conf"
    using LoadFromName_hop(1) [where env = sample_env and c = hop2_conf and ord = "[]" and d = sample_dir]
      hop_wf sample_short read sample_order by simp
qed

lemma sample_list: "ListConfigNames ascii_unicode (Some sample_dir) = Inr [''pair-hop1'', ''pair'']"
proof -
  have "has_suffix ''pair-hop1.conf'' ''.conf''" "has_suffix ''pair.conf'' ''.conf''"
    "trim_suffix ''pair-hop1.conf'' ''.conf'' = ''pair-hop1''" "trim_suffix ''pair.conf'' ''.conf'' = ''pair''"
    by code_simp+
  then show ?thesis
    using sample_names
    by (simp add: ListConfigNames_def sample_dir_def plain_file_def plainConfigName_def readable_entry_def
        configFileUnencryptedSuffix_def configFileSuffix_def exists_file_def find_entry_def Let_def)
qed

lemma sample_folds:
  "trim_space ''pair-hop1'' = ''pair-hop1''" "trim_space ''pair'' = ''pair''"
  "trim_space ''Ethernet'' = ''Ethernet''"
  "\<not> equal_fold ascii_unicode ''pair-hop1'' ''Ethernet''" "\<not> equal_fold ascii_unicode ''pair'' ''Ethernet''"
  "\<not> equal_fold ascii_unicode ''pair'' ''pair-hop1''" "\<not> equal_fold ascii_unicode ''pair-hop1'' ''pair''"
  "\<not> equal_fold ascii_unicode ''Ethernet'' ''pair-hop1''" "\<not> equal_fold ascii_unicode ''Ethernet'' ''pair''"
  by code_simp+

lemma sample_hops: "chainHopOrder sample_env (Some sample_dir) ''pair'' = [''pair-hop1'', ''pair'']"
proof -
  have "chainParentName sample_env (Some sample_dir) ''pair'' = ''pair-hop1''"
    "chainParentName sample_env (Some sample_dir) ''pair-hop1'' = []"
    by (simp_all add: chainParentName_def chainParentOfConfig_def loaded_def sample_load sample_list
        sample_folds Let_def)
  then show ?thesis by (simp add: chainHopOrder_def chainMaxDepth_def numeral_eq_Suc Let_def)
qed

section \<open>A machine\<close>

text \<open>A service is up when it was started and not stopped since; the adapters are always there.\<close>

definition svc_up :: "history \<Rightarrow> string \<Rightarrow> bool" where
  "svc_up h svc \<longleftrightarrow>
     find (\<lambda>a. a = StartService svc \<or> a = ControlStop svc) (rev h) = Some (StartService svc)"

definition self_path :: string where "self_path = ''C:'' @ [CHR 0x5C] @ ''awgchain.exe''"

definition sample_os :: os where
  "sample_os =
     \<lparr> os_store = sample_env, os_elevated = True, os_delay = (\<lambda>_. 0),
       os_service_name = (\<lambda>n. Inr (''AwgTunnel'' @ n)), os_manager = (\<lambda>_. None),
       os_executable = (\<lambda>_. Some self_path),
       os_open = (\<lambda>h svc. if svc_up h svc then None else Some ERROR_SERVICE_DOES_NOT_EXIST),
       os_query = (\<lambda>_ _. Inr SvcRunning), os_delete = (\<lambda>_ _. None), os_close = (\<lambda>_ _. None),
       os_create = (\<lambda>_ _. None), os_start = (\<lambda>_ _. None),
       os_uapi = (\<lambda>_ _. Inl (WinError 2)), os_tracked = (\<lambda>_. []),
       os_adapters = (\<lambda>_. Some [(''Ethernet'', 5), (''pair-hop1'', 17), (''pair'', 18)]),
       os_routes = (\<lambda>_. None), os_lookup_ip = (\<lambda>_ _. None),
       os_no_autoguard = (\<lambda>_. False), os_no_inproc_lock = (\<lambda>_. False),
       os_file_exists = (\<lambda>_ _. False), os_state_dir = ''C:'', os_pid = 4,
       os_start_guard = (\<lambda>_ _. None), os_alive = (\<lambda>_ _. False), os_firewall = (\<lambda>_. sample_api),
       os_write_settings = (\<lambda>_. Written), os_store_ok = (\<lambda>_. True), os_can_remove = (\<lambda>_ _. True) \<rparr>"

definition sample_world :: world where
  "sample_world =
     \<lparr> w_history = [], w_now = 0, w_dir = Some sample_dir, w_tasks = [], w_channels = 0, w_closed = {},
       w_book_file = None, chainSettingsCache = None, chainSession = None, ipv6Session = None,
       chainLockOn = False, chainLockLeaf = [], chainLockStop = None, chainGuardProcess = None,
       chainGuardArmedBy = [], chainWatchCancel = None, chainGuardDeaths = 0, chainGuardLastArm = None \<rparr>"

lemma sample_os_simps [simp]:
  "os_store sample_os = sample_env" "os_firewall sample_os = (\<lambda>_. sample_api)"
  "os_no_inproc_lock sample_os h = False" "os_write_settings sample_os h = Written"
  by (simp_all add: sample_os_def)

lemma sample_world_simps [simp]:
  "w_dir sample_world = Some sample_dir" "chainLockOn sample_world = False"
  "chainSession sample_world = None"
  by (simp_all add: sample_world_def)

lemma sample_world_inv: "lock_inv sample_world"
  by (simp add: lock_inv_def sample_world_def)

lemma sample_settings: "current_book sample_world = default_book"
  "ChainSettingsFor sample_os n sample_world
   = (chainSettingsDefaults, sample_world\<lparr>chainSettingsCache := Some default_book\<rparr>)"
proof -
  show book: "current_book sample_world = default_book" by (simp add: current_book_def sample_world_def)
  then show "ChainSettingsFor sample_os n sample_world
   = (chainSettingsDefaults, sample_world\<lparr>chainSettingsCache := Some default_book\<rparr>)"
    by (simp add: ChainSettingsFor_eq book_settings_def default_book_def)
qed

lemma sample_endpoint_texts:
  "trim_brackets (trim_space ''162.159.192.1'') = ''162.159.192.1''"
  "trim_brackets (trim_space ''203.0.113.5'') = ''203.0.113.5''"
  "parse_ip ''162.159.192.1'' = Some (v4_mapped [162, 159, 192, 1])"
  "parse_ip ''203.0.113.5'' = Some (v4_mapped [203, 0, 113, 5])"
  "to4 (v4_mapped [162, 159, 192, 1]) = Some [162, 159, 192, 1]"
  "to4 (v4_mapped [203, 0, 113, 5]) = Some [203, 0, 113, 5]"
  by code_simp+

lemma sample_add_filters: "add_filters sample_api acc fs = Inr (acc @ fs)"
  by (induction fs arbitrary: acc) (simp_all add: sample_api_def)

lemma sample_api_fields:
  "api_open sample_api" "api_base sample_api" "api_app sample_api a" "run_transaction sample_api r = r"
  "\<exists>t. permit_tun_interface sample_api w luid = Inr t" "\<exists>t. permit_loopback sample_api w = Inr t"
  "\<exists>t. permit_dhcp_ipv4 sample_api w = Inr t" "\<exists>t. block_all sample_api w = Inr t"
  by (simp_all add: sample_api_def)

lemma sample_api_enables:
  assumes "Hop1LUID cfg \<noteq> 0" "Hop2LUID cfg \<noteq> 0" "to4 (Hop1Endpoint cfg) \<noteq> None"
    "to4 (Hop2Endpoint cfg) \<noteq> None" "AllowedApps cfg \<noteq> []"
    "DNSServers cfg \<noteq> [] \<longrightarrow> dns_addresses (DNSServers cfg) \<noteq> []"
  shows "\<exists>fs. EnableChainFirewall sample_api (Some cfg) None = Inr (Some fs)"
proof -
  have bind: "\<exists>b. rbind r f = Inr b" if "\<exists>a. r = Inr a" "\<And>a. \<exists>b. f a = Inr b"
    for r :: "fw_error + wfp_filter list" and f :: "wfp_filter list \<Rightarrow> fw_error + wfp_filter list"
    using that by (auto simp: rbind_Inr_iff)
  have "\<exists>fs. chain_installer sample_api cfg = Inr fs"
    unfolding chain_installer_def
    using assms
    by (cases "AllowedLANs cfg = []")
       (auto simp: sample_api_fields permitEndpoint_def permitChainDNS_def blockDNSPorts_def permitLANs_def
        sample_add_filters list_all_iff intro!: bind)
  then show ?thesis using assms by (auto simp: EnableChainFirewall_def sample_api_fields)
qed

lemma sample_hop_endpoints:
  assumes "w_dir w = Some sample_dir"
  shows "chainEndpointOf sample_os ''pair-hop1'' w = Inr (ip_string (v4_mapped [162, 159, 192, 1]) @ '':'' @ dec 500)"
    "chainEndpointOf sample_os ''pair'' w = Inr (ip_string (v4_mapped [203, 0, 113, 5]) @ '':'' @ dec 443)"
  using assms
  by (simp_all add: chainEndpointOf_def sample_load hop1_peer hop2_peer zero_peer_def usable_endpoint_def
      sample_endpoint_texts endpoint_is_empty_def Let_def)

lemma sample_lock_config:
  assumes "w_dir w = Some sample_dir"
  shows "\<exists>cfg w'. lock_config sample_os ''pair'' w = Some (cfg, w')
    \<and> Hop1LUID cfg = 17 \<and> Hop2LUID cfg = 18 \<and> AllowedApps cfg = [self_path]
    \<and> Hop1Endpoint cfg = v4_mapped [162, 159, 192, 1] \<and> Hop2Endpoint cfg = v4_mapped [203, 0, 113, 5]
    \<and> DNSServers cfg = [v4_mapped [9, 9, 9, 9]]"
proof -
  have ends: "lock_endpoints sample_os ''pair-hop1'' ''pair'' w
      = Some (v4_mapped [162, 159, 192, 1], 500, v4_mapped [203, 0, 113, 5], 443)"
    using chainParseEndpoint_print [OF sample_endpoint_texts(5), of 500]
      chainParseEndpoint_print [OF sample_endpoint_texts(6), of 443]
    by (simp add: lock_endpoints_def sample_hop_endpoints [OF assms])
  have luids: "chainAdapterLUID sample_os ''pair-hop1'' w = Some 17" "chainAdapterLUID sample_os ''pair'' w = Some 18"
    by (simp_all add: chainAdapterLUID_def sample_folds) (simp_all add: sample_os_def sample_folds)
  have "path_sibling self_path ''awgchain.exe'' = self_path" by code_simp
  then have apps: "chainLockApps sample_os w = [self_path]"
    by (simp add: chainLockApps_def) (simp add: sample_os_def)
  have "DNS (Interface hop2_conf) = [v4_mapped [9, 9, 9, 9]]" "ip_string (v4_mapped [9, 9, 9, 9]) = ''9.9.9.9''"
    "split_on (CHR '','') ''9.9.9.9'' = [''9.9.9.9'']" "trim_space ''9.9.9.9'' = ''9.9.9.9''"
    "parse_ip ''9.9.9.9'' = Some (v4_mapped [9, 9, 9, 9])"
    by code_simp+
  then have dns: "chainLockDNS sample_os ''pair'' w = [v4_mapped [9, 9, 9, 9]]"
    using assms by (simp add: chainLockDNS_def chainDNSOf_def sample_load map_filter_simps)
  show ?thesis
    using assms by (simp add: lock_config_def sample_hops ends luids apps dns Let_def split: prod.split)
qed

lemma sample_arm:
  "\<exists>w'. chainArmLockInProc sample_os ''pair'' sample_world = (True, w') \<and> chainLockOn w'"
proof -
  let ?c = "sample_world\<lparr>chainSettingsCache := Some default_book\<rparr>"
  from sample_lock_config [of ?c] obtain cfg w2 where
    cfg: "lock_config sample_os ''pair'' ?c = Some (cfg, w2)" and
    f: "Hop1LUID cfg = 17" "Hop2LUID cfg = 18" "AllowedApps cfg = [self_path]"
      "Hop1Endpoint cfg = v4_mapped [162, 159, 192, 1]" "Hop2Endpoint cfg = v4_mapped [203, 0, 113, 5]"
      "DNSServers cfg = [v4_mapped [9, 9, 9, 9]]" by auto
  have "to4 (v4_mapped [9, 9, 9, 9]) \<noteq> None" by code_simp
  then obtain fs where "EnableChainFirewall sample_api (Some cfg) None = Inr (Some fs)"
    using sample_api_enables [of cfg] f by (auto simp: sample_endpoint_texts dns_addresses_def)
  moreover have "w2 = ?c" using lock_config_world [OF cfg] by (simp add: current_book_def)
  ultimately have "fst (enable_lock sample_os cfg w2)" by (simp add: enable_lock_def Let_def)
  then have "fst (chainArmLockInProc sample_os ''pair'' sample_world)"
    using cfg by (simp add: chainArmLockInProc_def sample_settings chainSettingsDefaults_def new_channel_def
        case_prod_beta Let_def)
  then show ?thesis
    using chainArmLockInProc_on [of sample_os "''pair''" sample_world]
    by (cases "chainArmLockInProc sample_os ''pair'' sample_world")
       (simp add: wants_lock_def sample_settings chainSettingsDefaults_def)
qed

end
