(* ===== verification/ConfClaims.thy ===== *)
theory ConfClaims
  imports Samples
begin

text \<open>
  The properties of the configuration package \<open>upstream-conf/\<close>: reading and writing, names,
  overlap and duplicates. Each rests on the lemmas of the theory that models the operation.
\<close>

section \<open>Reading and writing\<close>

text \<open>
  C12: Reading back what \<open>ToWgQuick\<close> writes gives the configuration that was written, whatever
  order the map of junk packets is visited in, for every well-formed configuration: keys of 32
  bytes, prefixes and addresses in the parser's form, an MTU of at least 576, and texts without
  a comment sign, a line break or blanks at their ends.
\<close>

theorem wgquick_roundtrip:
  assumes "wf_config u c" and "set ord = dom (IPackets (Interface c))"
  shows "FromWgQuick u (ToWgQuick u ord c) (Name c) = Inr c"
  using assms by (rule FromWgQuick_ToWgQuick_aux)

definition packet_conf :: config where
  "packet_conf = hop1_conf\<lparr>Interface := (Interface hop1_conf)
     \<lparr>IPackets := [''i1'' \<mapsto> ''<b 0x01>'', ''i3'' \<mapsto> ''<t>'']\<rparr>\<rparr>"

lemma packet_conf_wf: "wf_config ascii_unicode packet_conf"
proof -
  have "value_text ''<t>''" by code_simp
  then show ?thesis
    using hop_wf(1) sample_values
    by (auto simp: packet_conf_def wf_config_def wf_interface_def packet_keys_def)
qed

theorem wgquick_roundtrip_witness:
  "FromWgQuick ascii_unicode (ToWgQuick ascii_unicode [''i3'', ''i1''] packet_conf) ''pair-hop1'' = Inr packet_conf"
proof -
  have "set [''i3'', ''i1''] = dom (IPackets (Interface packet_conf))" by (auto simp: packet_conf_def)
  from wgquick_roundtrip [OF packet_conf_wf this] show ?thesis by (simp add: packet_conf_def)
qed

text \<open>
  C24: Every configuration the parser accepts carries the name it was given, which is a valid
  tunnel name, keys of 32 bytes with no peer key zero, well-formed prefixes, addresses of 16
  bytes and an MTU in range.
\<close>

theorem parsed_config_valid:
  assumes "FromWgQuick u s name = Inr c"
  shows "Name c = name \<and> ok_config c \<and> (\<forall>p\<in>set (Peers c). \<not> key_is_zero (PublicKey p))
    \<and> TunnelNameIsValid u name"
  using FromWgQuick_ok [OF assms] by blast

theorem parsed_config_valid_witness:
  "ok_config hop2_conf \<and> TunnelNameIsValid ascii_unicode (Name hop2_conf)"
proof -
  have "FromWgQuick ascii_unicode (ToWgQuick ascii_unicode [] hop2_conf) (Name hop2_conf) = Inr hop2_conf"
    by (rule FromWgQuick_ToWgQuick_aux [OF hop_wf(2)]) (simp add: sample_order)
  from parsed_config_valid [OF this] show ?thesis by blast
qed

text \<open>
  A prefix and an endpoint survive being printed and parsed, so do both forms of a key.
\<close>

theorem values_roundtrip:
  assumes "wf_ipcidr r" and "wf_endpoint e" and "length k = KeyLength"
  shows "parseIPCidr (ipcidr_string r) = Inr (Some r) \<and> parseEndpoint (endpoint_string e) = Inr e
    \<and> parseKeyBase64 (key_string k) = Inr k \<and> parseKeyHex (key_hex_string k) = Inr k"
  using assms parseIPCidr_string endpoint_roundtrip key64.parse_print keyhex.parse_print
  by (simp add: wf_key_def)

theorem values_roundtrip_witness:
  "parseIPCidr (ipcidr_string (v4 10 8 0 2 32)) = Inr (Some (v4 10 8 0 2 32))
   \<and> parseEndpoint (endpoint_string \<lparr> Host = ''203.0.113.5'', Port = 443 \<rparr>)
     = Inr \<lparr> Host = ''203.0.113.5'', Port = 443 \<rparr>"
proof -
  have "wf_ipcidr (v4 10 8 0 2 32)" "length sample_key = KeyLength" by code_simp+
  moreover have "wf_endpoint \<lparr> Host = ''203.0.113.5'', Port = 443 \<rparr>"
    using sample_endpoints by (simp add: inner_conf_def zero_peer_def)
  ultimately show ?thesis using values_roundtrip by blast
qed

section \<open>Where the parser fails\<close>

text \<open>
  A prefix length that is a number out of range is not rejected: \<open>parseIPCidr\<close> answers with
  a nil pointer and no error, and the line that holds it ends the reader in a nil dereference.
\<close>

theorem prefix_out_of_range_panics:
  assumes "parse_ip a = Some b" and "n > 128" and "n < 9223372036854775808" and "CHR ''/'' \<notin> set a"
  shows "parseIPCidr (a @ ''/'' @ dec n) = Inr None
    \<and> deref_IPCidr (a @ ''/'' @ dec n) = Inl (Panic NilDeref)"
proof -
  have idx: "index_byte (CHR ''/'') (a @ CHR ''/'' # dec n) = Some (length a)"
    using assms(4) by (rule index_byte_append)
  have "parseIPCidr (a @ ''/'' @ dec n) = Inr None"
    using assms(1,2) atoi_dec [OF assms(3)] by (simp add: parseIPCidr_def idx)
  then show ?thesis by (simp add: deref_IPCidr_def)
qed

theorem prefix_out_of_range_panics_witness:
  "deref_IPCidr (''::'' @ ''/'' @ dec 129) = Inl (Panic NilDeref)"
  using prefix_out_of_range_panics [OF parse_unspecified, of 129] by simp

text \<open>
  A section header \<open>[Interface]\<close> after a \<open>[Peer]\<close> section adds the peer and keeps it as the
  current one, so the peer is in the configuration twice.
\<close>

theorem interface_after_peer_duplicates:
  assumes "p_peer st = Some p"
  shows "\<exists>st'. wgquick_line u st ''[Interface]'' = Inr st'
    \<and> Peers (maybeAddPeer (p_conf st') (p_peer st')) = Peers (p_conf st) @ [p, p]"
proof -
  have line: "trim_space (cut_comment ''[Interface]'') = ''[Interface]''" by code_simp
  have "to_lower u ''[Interface]'' = ''[interface]''" by (simp add: to_lower_ascii is_ascii_def)
  then show ?thesis using assms by (simp add: wgquick_line_def line maybeAddPeer_def)
qed

theorem interface_after_peer_duplicates_witness:
  "\<exists>st'. wgquick_line ascii_unicode
       \<lparr> p_state = InPeerSection, p_conf = warp_conf\<lparr>Peers := []\<rparr>, p_saw = True, p_peer = Some zero_peer \<rparr>
       ''[Interface]'' = Inr st'
     \<and> Peers (maybeAddPeer (p_conf st') (p_peer st')) = [zero_peer, zero_peer]"
  using interface_after_peer_duplicates
    [of "\<lparr> p_state = InPeerSection, p_conf = warp_conf\<lparr>Peers := []\<rparr>, p_saw = True, p_peer = Some zero_peer \<rparr>"
      zero_peer ascii_unicode]
  by simp

text \<open>
  \<open>strings.ToLower\<close> can shorten a line (the Kelvin sign has three bytes, its lower case one),
  and the equals sign is looked up in the line as it was: two such signs before it slice past
  the end of the lower-case line, and the reader panics.
\<close>

definition kelvin_line :: string where
  "kelvin_line = [CHR 0xE2, CHR 0x84, CHR 0xAA, CHR 0xE2, CHR 0x84, CHR 0xAA, CHR ''='', CHR ''1'']"

theorem kelvin_sign_panics:
  assumes "rune_lower u 8490 = 107" and "p_state st \<noteq> NotInASection"
  shows "wgquick_line u st kelvin_line = Inl (Panic SliceBounds)"
proof -
  have line: "trim_space (cut_comment kelvin_line) = kelvin_line" by code_simp
  have "runes kelvin_line = [8490, 8490, 61, 49]"
    by (simp add: kelvin_line_def runes.simps cont_in_def)
  then have lower: "to_lower u kelvin_line = ''kk=1''"
    using assms(1) by (simp add: to_lower_def lower_rune_def encode_rune_def char_of_def bit_iff_odd)
  have "index_byte (CHR ''='') kelvin_line = Some 6" by (simp add: kelvin_line_def)
  moreover have "kelvin_line \<noteq> []" by (simp add: kelvin_line_def)
  ultimately show ?thesis using assms(2) by (simp add: wgquick_line_def line lower)
qed

theorem kelvin_sign_panics_witness:
  "wgquick_line (ascii_unicode\<lparr>rune_lower := (\<lambda>r. if r = 8490 then 107 else r)\<rparr>)
     ((start_parser ''a'')\<lparr>p_state := InInterfaceSection\<rparr>) kelvin_line = Inl (Panic SliceBounds)"
  by (rule kelvin_sign_panics) simp_all

section \<open>Overlap and duplicates\<close>

text \<open>
  C33: On configurations with well-formed prefixes \<open>IntersectsWith\<close> never fails, and answers
  whether the two claim a route in common: an own address in full length, or the masked form
  of an address or of an allowed prefix. So the answer does not depend on which is asked.
\<close>

theorem intersects_with_routes:
  assumes "wf_ips c" and "wf_ips d"
  shows "(\<exists>c' d'. intersects_with c d = Inr (config_routes c \<inter> config_routes d \<noteq> {}, c', d'))
    \<and> (\<exists>c' d'. intersects_with d c = Inr (config_routes c \<inter> config_routes d \<noteq> {}, d', c'))"
  using intersects_with_wf [OF assms] intersects_with_wf [OF assms(2,1)] Int_commute by metis

theorem intersects_with_routes_witness:
  "\<exists>c' d'. intersects_with warp_conf inner_conf = Inr (True, c', d')"
proof -
  have "wf_ips warp_conf" "wf_ips inner_conf"
    using sample_prefixes by (simp_all add: wf_ips_def warp_conf_def inner_conf_def)
  note both = intersects_with_routes [OF this]
  have "own_route (masked (v4 0 0 0 0 0)) \<in> config_routes warp_conf"
    "own_route (masked (v4 0 0 0 0 0)) \<in> config_routes inner_conf"
    by (simp_all add: config_routes_def peer_routes_def warp_conf_def inner_conf_def)
  then have "(config_routes warp_conf \<inter> config_routes inner_conf \<noteq> {}) = True" by auto
  with both show ?thesis by (simp only:)
qed

text \<open>
  \<open>DeduplicateNetworkEntries\<close> leaves no two addresses and no two resolvers of the interface
  that print alike and loses none; the allowed prefixes of a peer keep their number, so
  duplicates among them remain.
\<close>

theorem deduplicate_entries:
  "let i = Interface c; j = Interface (deduplicate_network_entries c) in
     distinct (map ipcidr_string (Addresses j)) \<and> distinct (map ip_string (DNS j))
     \<and> ipcidr_string ` set (Addresses j) = ipcidr_string ` set (Addresses i)
     \<and> ip_string ` set (DNS j) = ip_string ` set (DNS i)
     \<and> map (length \<circ> AllowedIPs) (Peers (deduplicate_network_entries c))
       = map (length \<circ> AllowedIPs) (Peers c)"
  by (simp add: deduplicate_network_entries_def first_by_distinct first_by_keys dedup_peer_length
      del: image_ident)

section \<open>Names\<close>

lemma one_letter_key:
  assumes "c \<in> set ''abc''"
  shows "name_key u [c] = [TextKey [c]]"
proof -
  have "TunnelName.fields ''a'' = [''a'']" "TunnelName.fields ''b'' = [''b'']"
    "TunnelName.fields ''c'' = [''c'']" by code_simp+
  then have "TunnelName.fields [c] = [[c]]" using assms by auto
  moreover have "to_lower u [c] = [c]" using assms by (auto simp: to_lower_ascii is_ascii_def)
  moreover have "key_of_token (sort_token [c]) = TextKey [c]"
    using assms
    by (auto simp: sort_token_def key_of_token_def parse_int64_def parse_uint_def is_digit_def)
  ultimately show ?thesis by (simp add: name_key_def newNaturalSortString_def)
qed

text \<open>
  \<open>TunnelNameIsLess\<close> is a strict weak order, so sorting by it is well defined: no name is
  less than itself, the relation is transitive, and two names neither of which is less have the
  same sequence of text and number tokens.
\<close>

theorem tunnel_name_order:
  "\<not> TunnelNameIsLess u a a
   \<and> (TunnelNameIsLess u a b \<and> TunnelNameIsLess u b c \<longrightarrow> TunnelNameIsLess u a c)
   \<and> (\<not> TunnelNameIsLess u a b \<and> \<not> TunnelNameIsLess u b a \<longleftrightarrow> name_key u a = name_key u b)"
  by (auto simp: TunnelNameIsLess_key)

theorem tunnel_name_order_witness:
  "TunnelNameIsLess ascii_unicode ''a'' ''b'' \<and> TunnelNameIsLess ascii_unicode ''b'' ''c''
   \<and> TunnelNameIsLess ascii_unicode ''a'' ''c''"
proof -
  have "TunnelNameIsLess ascii_unicode ''a'' ''b''" "TunnelNameIsLess ascii_unicode ''b'' ''c''"
    by (simp_all add: TunnelNameIsLess_key one_letter_key less_token_key_def less_char_def)
  then show ?thesis using tunnel_name_order [of ascii_unicode "''a''" "''b''" "''c''"] by blast
qed

end
