(* ===== verification/PairShape.thy ===== *)
theory PairShape
  imports ChainPair
begin

text \<open>
  What \<open>ChainBuild\<close> (\<open>upstream-conf/chainbuild.go\<close>) keeps of the two configurations it is given, as
  whole records, and the order \<open>chainHopOrder\<close> (\<open>upstream-manager/chainguard.go\<close>) reads from the store
  once both hops are in it.
\<close>

section \<open>What is kept\<close>

text \<open>Two interfaces that differ in routing and name resolution only: every key, address and parameter is the same.\<close>

definition rerouted :: "interface \<Rightarrow> interface \<Rightarrow> bool" where
  "rerouted i j \<longleftrightarrow>
     j = i\<lparr>MTU := MTU j, DNS := DNS j, DNSSearch := DNSSearch j, TableOff := TableOff j,
           PinEndpointVia := PinEndpointVia j\<rparr>"

lemma rerouted_keys:
  "rerouted i j \<Longrightarrow> PrivateKey j = PrivateKey i \<and> Addresses j = Addresses i"
  unfolding rerouted_def by (cases i; cases j) simp

text \<open>A peer with its counters at zero, a keepalive, and the prefixes \<open>ips\<close>.\<close>

definition carried :: "(ipcidr list \<Rightarrow> ipcidr list) \<Rightarrow> peer \<Rightarrow> peer" where
  "carried ips p =
     \<lparr> PublicKey = PublicKey p, PresharedKey = PresharedKey p, AllowedIPs = ips (AllowedIPs p),
       Endpoint = Endpoint p,
       PersistentKeepalive =
         (if trim_space (PersistentKeepalive p) \<in> {'''', ''0'', ''off''} then ''25'' else PersistentKeepalive p),
       RxBytes = 0, TxBytes = 0, LastHandshakeTime = 0 \<rparr>"

definition halved :: "config \<Rightarrow> ipcidr list \<Rightarrow> ipcidr list" where
  "halved c ips = (if chainCoversEverything ips then chainSplitDefaultFor c else ips)"

lemma copied_peers: "chainCopyPeers ps = map (carried (\<lambda>ips. ips)) ps"
  by (simp add: chainCopyPeers_def carried_def Let_def)

lemma hop1_kept:
  "rerouted (Interface w) (Interface (build_hop1 w h a))"
  "Peers (build_hop1 w h a) = map (carried (\<lambda>ips. ips)) (Peers w)"
  by (simp_all add: rerouted_def build_hop1_def copied_peers)

lemma hop2_kept:
  "rerouted (Interface i) (Interface (build_hop2 i n h))"
  "Peers (build_hop2 i n h) = map (carried (halved i)) (Peers i)"
  "DNSSearch (Interface (build_hop2 i n h)) = DNSSearch (Interface i)"
  "set (DNS (Interface (build_hop2 i n h))) =
     {a \<in> set (if DNS (Interface i) = [] then cloudflare_dns else DNS (Interface i)). ChainConfigHasIPv6 i \<or> to4 a \<noteq> None}"
proof -
  show "rerouted (Interface i) (Interface (build_hop2 i n h))"
    "DNSSearch (Interface (build_hop2 i n h)) = DNSSearch (Interface i)"
    by (simp_all add: rerouted_def build_hop2_def Let_def)
  show "Peers (build_hop2 i n h) = map (carried (halved i)) (Peers i)"
    by (simp add: hop2_peers copied_peers carried_def halved_def)
  have "to4 [] = None" by (simp add: to4_def)
  then show "set (DNS (Interface (build_hop2 i n h))) =
     {a \<in> set (if DNS (Interface i) = [] then cloudflare_dns else DNS (Interface i)). ChainConfigHasIPv6 i \<or> to4 a \<noteq> None}"
    by (auto simp: build_hop2_def Let_def chainFilterDNS_def)
qed

section \<open>The order of the hops\<close>

text \<open>Both hops can be read, the hidden name is unique up to case, and no tunnel is named like the adapter.\<close>

definition pair_in_store :: "store_env \<Rightarrow> directory option \<Rightarrow> config \<Rightarrow> config \<Rightarrow> bool" where
  "pair_in_store env dir hop1 hop2 \<longleftrightarrow>
     LoadFromName env dir (Name hop1) = Inr hop1 \<and> LoadFromName env dir (Name hop2) = Inr hop2
     \<and> (case ListConfigNames (env_unicode env) dir of
          Inl _ \<Rightarrow> False
        | Inr names \<Rightarrow> Name hop1 \<in> set names
            \<and> list_all (\<lambda>n. (equal_fold (env_unicode env) n (Name hop1) \<longrightarrow> n = Name hop1)
                \<and> \<not> equal_fold (env_unicode env) n (trim_space (PinEndpointVia (Interface hop1)))) names)"

lemma find_only:
  assumes "x \<in> set xs" and "P x" and "\<And>y. y \<in> set xs \<Longrightarrow> P y \<Longrightarrow> y = x"
  shows "find P xs = Some x"
proof (cases "find P xs")
  case None
  with assms(1,2) show ?thesis by (auto simp: find_None_iff)
next
  case (Some y)
  then have "y \<in> set xs" "P y" by (auto simp: find_Some_iff)
  with Some assms(3) show ?thesis by blast
qed

lemma pair_order:
  assumes build: "ChainBuild (env_unicode env) (Some warp) (Some inner) adapter pair = Inr (hop1, hop2)"
    and store: "pair_in_store env dir hop1 hop2"
  shows "chainHopOrder env dir (Name hop2) = [Name hop1, Name hop2]"
proof -
  let ?u = "env_unicode env"
  from store obtain names where names: "ListConfigNames ?u dir = Inr names" and here: "Name hop1 \<in> set names"
    and only: "\<And>n. n \<in> set names \<Longrightarrow> equal_fold ?u n (Name hop1) \<Longrightarrow> n = Name hop1"
    and other: "\<And>n. n \<in> set names \<Longrightarrow> \<not> equal_fold ?u n (trim_space (PinEndpointVia (Interface hop1)))"
    and load: "LoadFromName env dir (Name hop1) = Inr hop1" "LoadFromName env dir (Name hop2) = Inr hop2"
    by (auto simp: pair_in_store_def list_all_iff split: sum.splits)
  have trimmed_names: "trim_space n = n" if "n \<in> set names" for n
    using that ListConfigNames_valid [OF names] valid_name_trimmed by blast
  have "find (\<lambda>n. equal_fold ?u (trim_space n) (trim_space (PinEndpointVia (Interface hop1)))) names = None"
    using other trimmed_names by (simp add: find_None_iff)
  then have root: "chainParentName env dir (Name hop1) = []"
    by (simp add: chainParentName_def chainParentOfConfig_def loaded_def load names Let_def)
  have pin: "PinEndpointVia (Interface hop2) = Name hop1" by (rule pair_siblings(2) [OF build])
  have nonempty: "Name hop1 \<noteq> []" using here ListConfigNames_valid [OF names] valid_name_nonempty by blast
  have "find (\<lambda>n. equal_fold ?u (trim_space n) (Name hop1)) names = Some (Name hop1)"
  proof (rule find_only [OF here])
    show "equal_fold ?u (trim_space (Name hop1)) (Name hop1)" by (simp add: trimmed_names [OF here])
    show "n = Name hop1" if "n \<in> set names" "equal_fold ?u (trim_space n) (Name hop1)" for n
      using that only [OF that(1)] trimmed_names [OF that(1)] by simp
  qed
  then have parent: "chainParentName env dir (Name hop2) = Name hop1"
    using nonempty trimmed_names [OF here]
    by (simp add: chainParentName_def chainParentOfConfig_def loaded_def load names pin Let_def)
  show ?thesis
    using nonempty by (simp add: chainHopOrder_def chainMaxDepth_def numeral_eq_Suc parent root Let_def)
qed

end
