(* ===== verification/ChainClaims.thy ===== *)
theory ChainClaims
  imports Samples PairShape
begin

text \<open>
  The properties of the chain as data: the pair that is built, the store it is kept in, and the
  order of its hops (\<open>upstream-conf/chainbuild.go\<close>, \<open>store.go\<close>, \<open>upstream-manager/chainorder.go\<close>).
\<close>

section \<open>Names of a pair\<close>

text \<open>
  With fewer than 1000 names taken, the proposed pair name is free together with the name
  of its hidden hop, ignoring case and blanks, and both are valid tunnel names.
\<close>

theorem next_pair_name_free:
  assumes "length taken < 1000"
  shows "let n = ChainNextPairName u taken in
    name_is_free u taken n \<and> TunnelNameIsValid u n \<and> TunnelNameIsValid u (ChainHiddenHopName u n)"
proof -
  from ChainNextPairName_candidate [OF assms] obtain i where
    i: "ChainNextPairName u taken = pair_candidate i" "name_is_free u taken (pair_candidate i)"
    and "i < 1000" by blast
  then have "length (pair_candidate i) \<le> 26" using pair_candidate_length by fastforce
  with pair_candidate_chars have "TunnelNameIsValid u (pair_candidate i)"
    "TunnelNameIsValid u (pair_candidate i @ ChainHiddenSuffix)"
    by (blast intro: pair_name_valid [OF _ _ pair_candidate_def])+
  then show ?thesis using i by (simp add: Let_def pair_candidate_hidden)
qed

theorem next_pair_name_free_witness:
  "name_is_free ascii_unicode [''warpam'', ''WARPAM1-hop1''] (ChainNextPairName ascii_unicode [''warpam'', ''WARPAM1-hop1''])"
  using next_pair_name_free [of "[''warpam'', ''WARPAM1-hop1'']" ascii_unicode] by (simp add: Let_def)

section \<open>The pair\<close>

text \<open>
  C18: In a pair that was built the inner hop is pinned through the outer one, whose name is the
  hidden name of the inner one, and the outer one through the adapter. Of the two configurations
  given everything else is kept: an interface differs from the given one in MTU, resolvers, search
  list, route table and pin only (so with all its keys, addresses and junk parameters), the peers
  are the given ones with their keys and endpoints, a keepalive where there was none, and, in the
  inner hop, halves for a default route. The outer hop has no resolvers and no routes of its own,
  the inner one those of the given configuration or two public ones, IPv6 only if it has an
  address for it. Once the two lie in a store where no other tunnel is named like the outer hop or
  the adapter, the manager climbs from the inner hop to exactly these two, and counts them as
  siblings whichever it asks first.
\<close>

theorem pair_shape:
  assumes "ChainBuild u (Some warp) (Some inner) adapter pair = Inr (hop1, hop2)"
  shows "Name hop2 = trim_space pair \<and> Name hop1 = ChainHiddenHopName u (Name hop2)
    \<and> PinEndpointVia (Interface hop2) = Name hop1 \<and> PinEndpointVia (Interface hop1) = trim_space adapter
    \<and> rerouted (Interface warp) (Interface hop1) \<and> rerouted (Interface inner) (Interface hop2)
    \<and> Peers hop1 = map (carried (\<lambda>ips. ips)) (Peers warp) \<and> Peers hop2 = map (carried (halved inner)) (Peers inner)
    \<and> TableOff (Interface hop1) \<and> DNS (Interface hop1) = [] \<and> DNSSearch (Interface hop1) = []
    \<and> MTU (Interface hop1) = 1420 \<and> MTU (Interface hop2) = 1360
    \<and> \<not> TableOff (Interface hop2) \<and> DNSSearch (Interface hop2) = DNSSearch (Interface inner)
    \<and> set (DNS (Interface hop2)) = {a \<in> set (if DNS (Interface inner) = [] then cloudflare_dns else DNS (Interface inner)).
        ChainConfigHasIPv6 inner \<or> to4 a \<noteq> None}
    \<and> chainSiblings u hop1 hop2 \<and> chainSiblings u hop2 hop1
    \<and> (\<forall>env dir. env_unicode env = u \<and> pair_in_store env dir hop1 hop2 \<longrightarrow>
         chainHopOrder env dir (Name hop2) = [Name hop1, Name hop2])"
proof -
  from assms have h: "hop1 = build_hop1 warp (ChainHiddenHopName u (trim_space pair)) (trim_space adapter)"
    "hop2 = build_hop2 inner (trim_space pair) (ChainHiddenHopName u (trim_space pair))"
    by (auto elim: ChainBuild_cases)
  have "\<forall>env dir. env_unicode env = u \<and> pair_in_store env dir hop1 hop2 \<longrightarrow>
      chainHopOrder env dir (Name hop2) = [Name hop1, Name hop2]"
    using pair_order assms by blast
  moreover have "Name hop2 = trim_space pair" "Name hop1 = ChainHiddenHopName u (Name hop2)"
    "PinEndpointVia (Interface hop1) = trim_space adapter" "TableOff (Interface hop1)" "\<not> TableOff (Interface hop2)"
    "DNS (Interface hop1) = []" "DNSSearch (Interface hop1) = []"
    "MTU (Interface hop1) = 1420" "MTU (Interface hop2) = 1360"
    by (simp_all add: h ChainHop1MTU_def ChainHop2MTU_def)
  moreover note pair_siblings [OF assms] chainSiblings_sym [of u hop1 hop2]
    hop1_kept [of warp "ChainHiddenHopName u (trim_space pair)" "trim_space adapter", folded h(1)]
    hop2_kept [of inner "trim_space pair" "ChainHiddenHopName u (trim_space pair)", folded h(2)]
  ultimately show ?thesis by (intro conjI) (simp_all only: simp_thms)
qed

theorem pair_shape_witness:
  "chainHopOrder sample_env (Some sample_dir) ''pair'' = [''pair-hop1'', ''pair'']
   \<and> PrivateKey (Interface hop2_conf) = PrivateKey (Interface inner_conf)"
proof -
  have "pair_in_store sample_env (Some sample_dir) hop1_conf hop2_conf"
    by (simp add: pair_in_store_def sample_load sample_list sample_folds pair_texts)
  moreover from pair_shape [OF pair_built] have
    "pair_in_store sample_env (Some sample_dir) hop1_conf hop2_conf \<longrightarrow>
       chainHopOrder sample_env (Some sample_dir) (Name hop2_conf) = [Name hop1_conf, Name hop2_conf]"
    "rerouted (Interface inner_conf) (Interface hop2_conf)" by auto
  ultimately show ?thesis using rerouted_keys by simp
qed

text \<open>
  C19: The pair built from two well-formed configurations can be stored: saving a hop and
  loading its name again gives the hop, whatever the directory held before, as long as the
  text of the configuration has no line longer than the buffer of the scanner.
\<close>

theorem built_pair_stored:
  assumes build: "ChainBuild (env_unicode env) (Some warp) (Some inner) adapter pair = Inr (hop1, hop2)"
    and wf: "wf_config (env_unicode env) warp" "wf_config (env_unicode env) inner"
      "value_text (trim_space adapter)"
    and hop: "hop = hop1 \<or> hop = hop2"
    and ord: "set (env_order env hop) = dom (IPackets (Interface hop))"
    and short: "short_lines (ToWgQuick (env_unicode env) (env_order env hop) hop)"
    and save: "Save env ok (Some d) hop True = Inr d'"
  shows "LoadFromName env (Some d') (Name hop) = Inr hop"
proof -
  have wfh: "wf_config (env_unicode env) hop" using ChainBuild_wf [OF build wf] hop by blast
  from build have "trim_space adapter \<noteq> []" "ChainHiddenHopName (env_unicode env) (trim_space pair) \<noteq> []"
    "PinEndpointVia (Interface hop1) = trim_space adapter"
    "PinEndpointVia (Interface hop2) = ChainHiddenHopName (env_unicode env) (trim_space pair)"
    by (auto elim!: ChainBuild_cases dest: valid_name_nonempty)
  with hop have pin: "PinEndpointVia (Interface hop) \<noteq> []" by auto
  show ?thesis by (rule Save_chain_hop(1) [OF wfh ord pin short save])
qed

theorem built_pair_stored_witness:
  "\<exists>d'. Save sample_env True (Some []) hop2_conf True = Inr d'
     \<and> LoadFromName sample_env (Some d') ''pair'' = Inr hop2_conf"
proof -
  have "TunnelNameIsValid ascii_unicode ''pair''" using sample_names by simp
  then obtain d' where save: "Save sample_env True (Some []) hop2_conf True = Inr d'"
    by (simp add: Save_def Let_def writeLockedDownFile_def)
  have "value_text (trim_space ''Ethernet'')" using sample_values by (simp add: pair_texts)
  from built_pair_stored [of sample_env, OF _ _ _ this, of warp_conf inner_conf "''pair''" hop1_conf hop2_conf
      hop2_conf True "[]" d']
  have "LoadFromName sample_env (Some d') (Name hop2_conf) = Inr hop2_conf"
    using pair_built sample_wf sample_order sample_short save by simp
  then show ?thesis using save by auto
qed

text \<open>
  C17: A peer of the inner configuration that takes all traffic gets the two halves of the
  address space instead of a default route, and no address is lost: every IPv4 address lies in
  one of the prefixes, and every IPv6 address when the inner hop has one.
\<close>

theorem split_default_covers:
  assumes "ChainBuild u (Some warp) (Some inner) adapter pair = Inr (hop1, hop2)"
    and "p \<in> set (Peers inner)" and "chainCoversEverything (AllowedIPs p)"
    and "length x = 4 \<or> length x = 16 \<and> to4 x = None \<and> ChainConfigHasIPv6 inner"
  shows "\<exists>q\<in>set (Peers hop2). PublicKey q = PublicKey p
    \<and> (\<exists>r\<in>set (AllowedIPs q). net_contains (ipcidr_ipnet r) x)"
proof -
  from assms(1) have h: "hop2 = build_hop2 inner (trim_space pair) (ChainHiddenHopName u (trim_space pair))"
    by (auto elim: ChainBuild_cases)
  define q where "q = hd (chainCopyPeers [p])"
  have q: "q \<in> set (chainCopyPeers (Peers inner))" "AllowedIPs q = AllowedIPs p" "PublicKey q = PublicKey p"
    using assms(2) by (auto simp: q_def chainCopyPeers_def Let_def)
  then have "q\<lparr>AllowedIPs := chainSplitDefaultFor inner\<rparr> \<in> set (Peers hop2)"
    using assms(3) by (force simp: h hop2_peers)
  moreover have "\<exists>r\<in>set (chainSplitDefaultFor inner). net_contains (ipcidr_ipnet r) x"
    using assms(4) split_default_v4 split_default_v6 by blast
  ultimately show ?thesis using q(3) by (intro bexI [of _ "q\<lparr>AllowedIPs := chainSplitDefaultFor inner\<rparr>"]) auto
qed

theorem split_default_covers_witness:
  "\<exists>q\<in>set (Peers hop2_conf). \<exists>r\<in>set (AllowedIPs q). net_contains (ipcidr_ipnet r) [203, 0, 113, 9]"
proof -
  have "chainCoversEverything (AllowedIPs (hd (Peers inner_conf)))" by code_simp
  moreover have "hd (Peers inner_conf) \<in> set (Peers inner_conf)" by (simp add: inner_conf_def)
  ultimately show ?thesis
    using split_default_covers [OF pair_built, of "hd (Peers inner_conf)" "[203, 0, 113, 9]"] by auto
qed

section \<open>The store\<close>

text \<open>
  Saving an ordinary tunnel and loading its name gives the configuration back, when the
  encryption can be undone and no chain hop of that name lies in plain text beside it.
\<close>

theorem ordinary_tunnel_stored:
  assumes wf: "wf_config (env_unicode env) c"
    and ord: "set (env_order env c) = dom (IPackets (Interface c))"
    and pin: "PinEndpointVia (Interface c) = []"
    and plain: "\<not> fileIsChainHop (env_unicode env) d (Name c @ configFileUnencryptedSuffix)"
    and crypt: "\<And>t r n. encrypt (env_dpapi env) t n = Some r \<Longrightarrow> decrypt (env_dpapi env) r n = Some t"
    and save: "Save env ok (Some d) c ow = Inr d'"
  shows "LoadFromName env (Some d') (Name c) = Inr c
    \<and> Path (env_unicode env) (Some d') c = Inr (Name c @ configFileSuffix)"
  using Save_ordinary [OF wf ord pin plain crypt save] by blast

theorem ordinary_tunnel_stored_witness:
  "\<exists>d'. Save sample_env True (Some []) inner_conf False = Inr d'
     \<and> LoadFromName sample_env (Some d') ''inner'' = Inr inner_conf"
proof -
  have "TunnelNameIsValid ascii_unicode (Name inner_conf)" using sample_wf(2) by (simp add: wf_config_def)
  moreover have pin: "PinEndpointVia (Interface inner_conf) = []" "Name inner_conf = ''inner''"
    by (simp_all add: inner_conf_def zero_interface_def)
  ultimately obtain d' where save: "Save sample_env True (Some []) inner_conf False = Inr d'"
    by (auto simp: Save_def Let_def sample_env_def writeLockedDownFile_def exists_file_def find_entry_def)
  have "\<not> fileIsChainHop (env_unicode sample_env) [] (Name inner_conf @ configFileUnencryptedSuffix)"
    by (simp add: fileIsChainHop_def read_file_def find_entry_def)
  moreover have "encrypt (env_dpapi sample_env) t n = Some r \<Longrightarrow> decrypt (env_dpapi sample_env) r n = Some t"
    for t r n by (auto simp: sample_env_def)
  ultimately have "LoadFromName sample_env (Some d') (Name inner_conf) = Inr inner_conf"
    using ordinary_tunnel_stored [OF _ _ pin(1) _ _ save] sample_wf(2) sample_order by simp
  then show ?thesis using save pin(2) by simp
qed

text \<open>
  A chain hop whose pin is taken away is saved to the encrypted file while its plain file
  stays, and the plain file is preferred: loading the name still gives the old hop.
\<close>

theorem stale_hop_preferred:
  assumes pin: "PinEndpointVia (Interface c) = []"
    and plain: "chainPlainPath (env_unicode env) d (Name c) = Some path"
    and save: "Save env ok (Some d) c ow = Inr d'"
  shows "LoadFromName env (Some d') (Name c) = LoadFromName env (Some d) (Name c)"
proof -
  let ?u = "env_unicode env" and ?p = "Name c @ configFileUnencryptedSuffix"
  have path: "path = ?p" using plain by (auto simp: chainPlainPath_def Let_def split: if_splits)
  from save pin obtain e where "d' = put_entry e d" "d_name e = Name c @ configFileSuffix"
    by (auto simp: Save_def Let_def writeLockedDownFile_def split: if_splits option.splits)
  then have read: "read_file d' ?p = read_file d ?p"
    using suffixes_differ by (simp add: read_put_entry)
  then have "fileIsChainHop ?u d' ?p = fileIsChainHop ?u d ?p" by (simp add: fileIsChainHop_def)
  then have "chainPlainPath ?u d' (Name c) = Some path" using plain by (simp add: chainPlainPath_def)
  then show ?thesis using plain read by (simp add: LoadFromName_def LoadFromPath_def path)
qed

theorem stale_hop_preferred_witness:
  "\<exists>d d'. Save sample_env True (Some []) hop2_conf True = Inr d
     \<and> Save sample_env True (Some d) (hop2_conf\<lparr>Interface := (Interface hop2_conf)\<lparr>PinEndpointVia := []\<rparr>\<rparr>) True = Inr d'
     \<and> LoadFromName sample_env (Some d') ''pair'' = LoadFromName sample_env (Some d) ''pair''"
proof -
  let ?c = "hop2_conf\<lparr>Interface := (Interface hop2_conf)\<lparr>PinEndpointVia := []\<rparr>\<rparr>"
  have name: "TunnelNameIsValid ascii_unicode ''pair''" using sample_names by simp
  obtain d where d: "Save sample_env True (Some []) hop2_conf True = Inr d"
    using name by (simp add: Save_def Let_def writeLockedDownFile_def)
  have "Path ascii_unicode (Some d) hop2_conf = Inr (''pair'' @ configFileUnencryptedSuffix)"
    using Save_chain_hop(2) [OF _ _ _ _ d] hop_wf sample_order sample_short by simp
  then have plain: "chainPlainPath ascii_unicode d ''pair'' = Some (''pair'' @ configFileUnencryptedSuffix)"
    using name suffixes_differ
    by (auto simp: Path_def chainPlainPath_def Let_def split: option.splits if_splits)
  obtain d' where d': "Save sample_env True (Some d) ?c True = Inr d'"
    using name by (auto simp: Save_def Let_def writeLockedDownFile_def sample_env_def)
  have "LoadFromName sample_env (Some d') (Name ?c) = LoadFromName sample_env (Some d) (Name ?c)"
    by (rule stale_hop_preferred [OF _ _ d']) (use plain in simp_all)
  then show ?thesis using d d' by auto
qed

text \<open>
  \<open>ListConfigNames\<close> lists every tunnel once: names are valid and distinct, although a plain
  and an encrypted file of the same tunnel may lie side by side.
\<close>

lemma list_names_entry:
  assumes "n \<in> set (list_names u d es)"
  shows "\<exists>e\<in>set es. d_name e = n @ configFileSuffix
    \<or> d_name e = n @ configFileUnencryptedSuffix \<and> \<not> exists_file d (n @ configFileSuffix)"
  using assms
proof (induction es)
  case (Cons e es)
  have "plainConfigName u d e = Some n \<Longrightarrow>
      d_name e = n @ configFileUnencryptedSuffix \<and> \<not> exists_file d (n @ configFileSuffix)"
    using has_suffix_ex [of "d_name e" configFileUnencryptedSuffix]
    by (auto simp: plainConfigName_def Let_def split: if_splits)
  moreover have "encryptedConfigName u e = Some n \<Longrightarrow> d_name e = n @ configFileSuffix"
    using has_suffix_ex [of "d_name e" configFileSuffix]
    by (auto simp: encryptedConfigName_def Let_def split: if_splits)
  ultimately show ?case using Cons by (auto split: option.splits)
qed simp

theorem listed_names_distinct:
  assumes "distinct (map d_name d)" and "ListConfigNames u (Some d) = Inr names"
  shows "distinct names \<and> (\<forall>n\<in>set names. TunnelNameIsValid u n)"
proof -
  have "distinct (list_names u d es)" if "set es \<subseteq> set d" "distinct (map d_name es)" for es
    using that
  proof (induction es)
    case (Cons e es)
    have ex: "exists_file d (d_name f)" if "f \<in> set d" for f
      using that by (auto simp: exists_file_def find_entry_def find_None_iff)
    have new: "n \<notin> set (list_names u d es)" if n: "n \<in> set (list_names u d [e])" for n
    proof
      assume "n \<in> set (list_names u d es)"
      from list_names_entry [OF this] list_names_entry [OF n] obtain f where
        f: "f \<in> set es" "f \<in> set d" "e \<in> set d" and
        ef: "d_name f = n @ configFileSuffix
          \<or> d_name f = n @ configFileUnencryptedSuffix \<and> \<not> exists_file d (n @ configFileSuffix)"
          "d_name e = n @ configFileSuffix
          \<or> d_name e = n @ configFileUnencryptedSuffix \<and> \<not> exists_file d (n @ configFileSuffix)"
        using Cons.prems(1) by auto
      have "d_name e \<noteq> d_name f" using Cons.prems(2) f(1) by auto
      with ef ex [OF f(2)] ex [OF f(3)] show False by auto
    qed
    then show ?case using Cons by (auto split: option.splits)
  qed simp
  from this [of d] assms show ?thesis by (auto simp: ListConfigNames_def dest: list_names_valid)
qed

definition two_files :: directory where
  "two_files =
     map (\<lambda>n. \<lparr> d_name = n, d_regular = True, d_info = True, d_perm = True, d_data = None \<rparr>)
       [''hop.conf'', ''hop.conf.dpapi'']"

theorem listed_names_distinct_witness:
  "\<exists>names. ListConfigNames ascii_unicode (Some two_files) = Inr names \<and> distinct names"
proof -
  have "distinct (map d_name two_files)" by (simp add: two_files_def)
  moreover obtain names where "ListConfigNames ascii_unicode (Some two_files) = Inr names"
    by (simp add: ListConfigNames_def)
  ultimately show ?thesis using listed_names_distinct by blast
qed

section \<open>The order of the hops\<close>

text \<open>
  C36: \<open>chainHopOrder\<close> answers with a chain that ends at the tunnel asked for, each element being
  the parent of the next, of at most five hops; when it is shorter it is complete, the first
  hop having no parent.
\<close>

theorem hop_order_chain:
  "let hops = chainHopOrder env dir leaf in
     hops \<noteq> [] \<and> last hops = leaf \<and> linked env dir hops \<and> length hops \<le> 5
     \<and> (length hops = 5 \<or> chainParentName env dir (hd hops) = [])"
proof -
  have "length (chainHopOrder env dir leaf) = 5 \<or> length (chainHopOrder env dir leaf) < 5"
    using chainHopOrder_facts(4) [of env dir leaf] by linarith
  then show ?thesis using chainHopOrder_facts [of env dir leaf] by (auto simp: Let_def)
qed

end
