(* ===== verification/ChainGuard.thy ===== *)
theory ChainGuard
  imports ChainLock TunnelServices
begin

text \<open>
  The guard of the chain, \<open>upstream-manager/chainguard.go\<close> without the repairs: the count of its
  early deaths, arming (the lock in the manager first, the process \<open>awgchain-guard.exe\<close> when
  that is not possible), standing down, the watch's channel, and what \<open>chainTrouble\<close> finds wrong.

  The goroutine that waits for the guard process is the task \<open>ReapGuard\<close>; \<open>chainGuardReaped\<close> is
  its body after the wait. \<open>time.Now\<close> is \<open>w_now\<close>, in nanoseconds since 1970.
\<close>

section \<open>Deaths of the guard process\<close>

definition chainGuardMaxDeaths :: nat where "chainGuardMaxDeaths = 3"
definition chainGuardQuickDeath :: nat where "chainGuardQuickDeath = 30 * second"

definition chainGuardGaveUp :: "world \<Rightarrow> bool" where
  "chainGuardGaveUp w \<longleftrightarrow> chainGuardMaxDeaths \<le> chainGuardDeaths w"

definition chainGuardNoteArm :: "world \<Rightarrow> world" where
  "chainGuardNoteArm w = w\<lparr>chainGuardLastArm := Some (w_now w)\<rparr>"

text \<open>The zero time, \<open>None\<close> here, is centuries ago.\<close>

definition chainGuardNoteDeath :: "world \<Rightarrow> (nat \<times> bool) \<times> world" where
  "chainGuardNoteDeath w =
     (if (case chainGuardLastArm w of None \<Rightarrow> False | Some t \<Rightarrow> w_now w < t + chainGuardQuickDeath)
      then ((Suc (chainGuardDeaths w), True), w\<lparr>chainGuardDeaths := Suc (chainGuardDeaths w)\<rparr>)
      else ((0, False), w\<lparr>chainGuardDeaths := 0\<rparr>))"

definition chainGuardResetDeaths :: "world \<Rightarrow> world" where
  "chainGuardResetDeaths w = w\<lparr>chainGuardDeaths := 0\<rparr>"

section \<open>Arming and standing down\<close>

definition chainGuardExeName :: string where "chainGuardExeName = ''awgchain-guard.exe''"

definition guard_log :: "os \<Rightarrow> string" where
  "guard_log os = os_state_dir os @ CHR 0x5C # ''guard-auto-log.txt''"

definition guard_args ::
  "os \<Rightarrow> string \<Rightarrow> string \<Rightarrow> string \<Rightarrow> string \<Rightarrow> string \<Rightarrow> world \<Rightarrow> string list"
where
  "guard_args os root topHop rootEndpoint topEndpoint self w =
     (let dns = chainDNSOf os topHop w;
          lans = chainLocalNetworks os (pin_of os root w) w
      in [''-hop1if'', root, ''-hop2if'', topHop, ''-hop1ep'', rootEndpoint, ''-hop2ep'', topEndpoint,
          ''-allowapp'', self, ''-logfile'', guard_log os, ''-mgrpid'', dec (os_pid os),
          ''-orphangrace'', ''120'']
         @ (if dns \<noteq> [] then [''-dns'', dns] else [])
         @ (if lans \<noteq> [] then [''-lan'', join '','' lans] else []))"

text \<open>The command line, when everything it takes is at hand.\<close>

definition guard_command :: "os \<Rightarrow> string \<Rightarrow> world \<Rightarrow> string list option" where
  "guard_command os leaf w =
     (let hops = chainHopOrder (os_store os) (w_dir w) leaf; root = hd hops; topHop = last hops in
      if length hops < 2 then None
      else (case chainEndpointOf os root w of
              Inl _ \<Rightarrow> None
            | Inr rootEndpoint \<Rightarrow>
           (case chainEndpointOf os topHop w of
              Inl _ \<Rightarrow> None
            | Inr topEndpoint \<Rightarrow>
           (case os_executable os (w_history w) of
              None \<Rightarrow> None
            | Some self \<Rightarrow>
                (let guard = path_sibling self chainGuardExeName in
                 if \<not> os_file_exists os (w_history w) guard then None
                 else Some (guard # guard_args os root topHop rootEndpoint topEndpoint self w))))))"

definition chainArmGuard :: "os \<Rightarrow> string \<Rightarrow> world \<Rightarrow> world" where
  "chainArmGuard os leaf w =
     (if chainGuardGaveUp w then w
      else if os_no_autoguard os (w_history w) then w
      else if chainGuardProcess w \<noteq> None then w
      else (let (locked, w1) = chainArmLockInProc os leaf w in
            if locked then chainGuardNoteArm w1
            else (case guard_command os leaf w1 of
                    None \<Rightarrow> w1
                  | Some command \<Rightarrow>
                      (let w2 = act (StartGuard command) w1 in
                       case os_start_guard os (w_history w1) command of
                         None \<Rightarrow> w2
                       | Some pid \<Rightarrow>
                           spawn (ReapGuard pid)
                             (chainGuardNoteArm
                               (w2\<lparr>chainGuardProcess := Some pid, chainGuardArmedBy := leaf\<rparr>))))))"

definition chainGuardReaped :: "nat \<Rightarrow> world \<Rightarrow> world" where
  "chainGuardReaped pid w =
     snd (chainGuardNoteDeath
       (if chainGuardProcess w = Some pid then w\<lparr>chainGuardProcess := None, chainGuardArmedBy := []\<rparr>
        else w))"

fun stand_down :: "os \<Rightarrow> nat \<Rightarrow> nat \<Rightarrow> world \<Rightarrow> world" where
  "stand_down os pid 0 w = act (KillGuard pid) w"
| "stand_down os pid (Suc k) w =
     (let w1 = sleep os 100000000 w in
      if \<not> os_alive os (w_history w1) pid then w1 else stand_down os pid k w1)"

text \<open>An error of \<open>chainSignalGuardStop\<close> is only logged.\<close>

definition chainDisarmGuard :: "os \<Rightarrow> world \<Rightarrow> world" where
  "chainDisarmGuard os w =
     (let w1 = snd (chainDisarmLockInProc w);
          process = chainGuardProcess w1;
          w2 = w1\<lparr>chainGuardProcess := None, chainGuardArmedBy := []\<rparr>
      in case process of
           None \<Rightarrow> w2
         | Some pid \<Rightarrow> stand_down os pid 50 (act SignalGuard w2))"

section \<open>The watch's channel, and a deliberate stop\<close>

definition chainStartWatch :: "string \<Rightarrow> world \<Rightarrow> world" where
  "chainStartWatch leaf w =
     (if chainWatchCancel w \<noteq> None then w
      else (let (stop, w1) = new_channel w
            in spawn (Watch leaf stop) (w1\<lparr>chainWatchCancel := Some stop\<rparr>)))"

definition chainStopWatch :: "world \<Rightarrow> world" where
  "chainStopWatch w =
     close_opt (chainWatchCancel w) (w\<lparr>chainWatchCancel := None\<rparr>)"

definition stop_involved :: "os \<Rightarrow> string \<Rightarrow> world \<Rightarrow> bool" where
  "stop_involved os name w =
     (let armedBy = chainGuardArmedBy w in
      if armedBy = [] \<and> chainWatchCancel w = None then False
      else if armedBy \<noteq> [] then
        list_ex (\<lambda>hop. equal_fold (os_unicode os) hop name)
          (chainHopOrder (os_store os) (w_dir w) armedBy)
      else chainHopByName (os_store os) (w_dir w) name)"

definition chainBeforeStop :: "os \<Rightarrow> string \<Rightarrow> world \<Rightarrow> world" where
  "chainBeforeStop os name w =
     (if \<not> stop_involved os name w then w
      else chainDisarmGuard os (chainGuardResetDeaths (chainStopWatch w)))"

definition chainArmWhenReady :: "os \<Rightarrow> string \<Rightarrow> world \<Rightarrow> world" where
  "chainArmWhenReady os leaf w =
     (case chainWaitForHop os leaf w of
        (Some _, w1) \<Rightarrow> chainStartWatch leaf w1
      | (None, w1) \<Rightarrow> chainStartWatch leaf (chainArmGuard os leaf w1))"

section \<open>What is wrong with the chain\<close>

definition chainHandshakeMaxAge :: int where "chainHandshakeMaxAge = 180 * 1000000000"

text \<open>
  The age is signed: a stamp ahead of the clock has a negative one, and \<open>best\<close> starts at -1, so
  a negative best counts as no handshake at all and the next one replaces it.
\<close>

fun best_age :: "int \<Rightarrow> int \<Rightarrow> peer list \<Rightarrow> int" where
  "best_age now best [] = best"
| "best_age now best (p # ps) =
     (if handshake_is_empty (LastHandshakeTime p) then best_age now best ps
      else (let age = now - sint (LastHandshakeTime p) in
            best_age now (if best < 0 \<or> age < best then age else best) ps))"

definition chainHandshakeAge :: "int \<Rightarrow> config \<Rightarrow> int option" where
  "chainHandshakeAge now c =
     (let best = best_age now (- 1) (Peers c) in if best < 0 then None else Some best)"

datatype trouble =
  CannotQuery string manager_error | NotRunning string | NoAnswer string | NeverHandshaken string
  | HandshakeOld string int

definition hop_trouble :: "os \<Rightarrow> world \<Rightarrow> string \<Rightarrow> trouble option" where
  "hop_trouble os w name =
     (case State os name w of
        Inl e \<Rightarrow> Some (CannotQuery name e)
      | Inr state \<Rightarrow>
          if state \<noteq> TunnelStarted then Some (NotRunning name)
          else (case RuntimeConfig os name w of
                  Inl _ \<Rightarrow> Some (NoAnswer name)
                | Inr runtime \<Rightarrow>
                    (case chainHandshakeAge (int (w_now w)) runtime of
                       None \<Rightarrow> Some (NeverHandshaken name)
                     | Some age \<Rightarrow>
                         if age > chainHandshakeMaxAge then Some (HandshakeOld name age) else None)))"

definition chainTrouble :: "os \<Rightarrow> string \<Rightarrow> world \<Rightarrow> trouble option" where
  "chainTrouble os leaf w = first_some (hop_trouble os w) (chainHopOrder (os_store os) (w_dir w) leaf)"

section \<open>Facts\<close>

lemma first_some_None: "first_some f xs = None \<longleftrightarrow> (\<forall>x\<in>set xs. f x = None)"
  by (induction xs) (auto split: option.splits)

lemma min_step:
  fixes age best :: int
  assumes "finite R"
  shows "Min (insert (if best < 0 \<or> age < best then age else best) R)
    = Min ((if 0 \<le> best then {best} else {}) \<union> insert age R)"
  using assms by (cases "R = {}") (auto simp: min_def)

text \<open>A stamp that is not in the future decides as its age says.\<close>

lemma best_age_nonneg:
  assumes "\<forall>p\<in>set ps. sint (LastHandshakeTime p) \<le> now" and "- 1 \<le> best"
  shows "best_age now best ps =
    (let ages = (if 0 \<le> best then {best} else {})
       \<union> (\<lambda>p. now - sint (LastHandshakeTime p)) ` {p\<in>set ps. \<not> handshake_is_empty (LastHandshakeTime p)}
     in if ages = {} then - 1 else Min ages)"
  using assms
proof (induction ps arbitrary: best)
  case Nil
  then show ?case by (auto simp: Let_def)
next
  case (Cons p ps)
  let ?age = "now - sint (LastHandshakeTime p)"
  let ?rest = "(\<lambda>p. now - sint (LastHandshakeTime p)) ` {p\<in>set ps. \<not> handshake_is_empty (LastHandshakeTime p)}"
  show ?case
  proof (cases "handshake_is_empty (LastHandshakeTime p)")
    case True
    then have "{q\<in>set (p # ps). \<not> handshake_is_empty (LastHandshakeTime q)}
        = {q\<in>set ps. \<not> handshake_is_empty (LastHandshakeTime q)}" by auto
    with True Cons show ?thesis by simp
  next
    case False
    then have split: "(\<lambda>p. now - sint (LastHandshakeTime p)) ` {q\<in>set (p # ps). \<not> handshake_is_empty (LastHandshakeTime q)}
        = insert ?age ?rest" by auto
    let ?b = "if best < 0 \<or> ?age < best then ?age else best"
    have b: "0 \<le> ?b" using Cons.prems by auto
    with Cons.IH [of ?b] Cons.prems have
      "best_age now ?b ps = Min (insert ?b ?rest)" by (simp add: Let_def)
    moreover have "Min (insert ?b ?rest) =
        Min ((if 0 \<le> best then {best} else {}) \<union> insert ?age ?rest)"
      by (rule min_step) simp
    ultimately show ?thesis using False split by (simp add: Let_def)
  qed
qed

lemma hop_trouble_None:
  "hop_trouble os w name = None \<longleftrightarrow>
     State os name w = Inr TunnelStarted
     \<and> (\<exists>c age. RuntimeConfig os name w = Inr c \<and> chainHandshakeAge (int (w_now w)) c = Some age
          \<and> age \<le> chainHandshakeMaxAge)"
  by (auto simp: hop_trouble_def split: sum.splits option.splits if_splits)

lemma chainTrouble_None:
  "chainTrouble os leaf w = None \<longleftrightarrow>
     (\<forall>name\<in>set (chainHopOrder (os_store os) (w_dir w) leaf). hop_trouble os w name = None)"
  by (simp add: chainTrouble_def first_some_None)

text \<open>So the age of a hop is recent exactly when one of its stamps is.\<close>

lemma chainHandshakeAge_recent:
  fixes c :: config
  assumes "\<forall>p\<in>set (Peers c). sint (LastHandshakeTime p) \<le> now"
  shows "(\<exists>age. chainHandshakeAge now c = Some age \<and> age \<le> bound) \<longleftrightarrow>
    (\<exists>p\<in>set (Peers c). \<not> handshake_is_empty (LastHandshakeTime p) \<and> now - sint (LastHandshakeTime p) \<le> bound)"
proof -
  let ?live = "{p\<in>set (Peers c). \<not> handshake_is_empty (LastHandshakeTime p)}"
  let ?ages = "(\<lambda>p. now - sint (LastHandshakeTime p)) ` ?live"
  have best: "best_age now (- 1) (Peers c) = (if ?ages = {} then - 1 else Min ?ages)"
    using best_age_nonneg [OF assms, of "- 1"] by (simp add: Let_def)
  show ?thesis
  proof (cases "?ages = {}")
    case False
    have fin: "finite ?ages" by simp
    from Min_in [OF fin False] have "0 \<le> Min ?ages" using assms by auto
    then have pos: "\<not> Min ?ages < 0" by (rule leD)
    have b: "best_age now (- 1) (Peers c) = Min ?ages" by (simp only: best if_not_P [OF False])
    have "chainHandshakeAge now c = Some (Min ?ages)"
      unfolding chainHandshakeAge_def b Let_def by (rule if_not_P [OF pos])
    moreover have "Min ?ages \<le> bound \<longleftrightarrow> (\<exists>a\<in>?ages. a \<le> bound)" by (rule Min_le_iff [OF fin False])
    ultimately show ?thesis by auto
  qed (use best in \<open>auto simp: chainHandshakeAge_def\<close>)
qed

end
