(* ===== verification/GuardFlags.thy ===== *)
theory GuardFlags
  imports GoNet
begin

text \<open>
  The command line of \<open>awgchain-guard.exe\<close>, \<open>upstream-manager/main.go\<close>: its flags with their
  defaults, and \<open>flag.Parse\<close> of Go's standard library as far as these flags use it. Strings, one
  kind of integer (\<open>ParseInt(s, 0, 64)\<close>) and two booleans are all there is.
\<close>

record guard_flags =
  flag_stop :: bool
  flag_dryrun :: bool
  flag_hop1if :: string
  flag_hop2if :: string
  flag_hop1ep :: string
  flag_hop2ep :: string
  flag_dns :: string
  flag_lan :: string
  flag_allowapp :: string
  flag_timeout :: int
  flag_mgrpid :: int
  flag_orphangrace :: int
  flag_logfile :: string

definition default_flags :: guard_flags where
  "default_flags =
     \<lparr> flag_stop = False, flag_dryrun = False, flag_hop1if = ''hop1-warp'', flag_hop2if = ''hop2-amnezia'',
       flag_hop1ep = [], flag_hop2ep = [], flag_dns = ''1.1.1.1,1.0.0.1'', flag_lan = [],
       flag_allowapp = [], flag_timeout = 0, flag_mgrpid = 0, flag_orphangrace = 120, flag_logfile = [] \<rparr>"

datatype flag_error =
  BadSyntax string | NotDefined string | HelpWanted | NeedsArgument string | InvalidValue string string

section \<open>Values\<close>

text \<open>
  \<open>ParseInt(s, 0, 64)\<close>: a base prefix chooses the base, a leading zero alone chooses 8, and an
  underscore may follow the prefix or a digit when a digit comes after it.
\<close>

definition lower_byte :: "char \<Rightarrow> nat" where
  "lower_byte c = (if 65 \<le> byte c \<and> byte c \<le> 90 then byte c + 32 else byte c)"

definition int_base :: "string \<Rightarrow> nat \<times> string" where
  "int_base s =
     (if s = [] \<or> hd s \<noteq> CHR ''0'' then (10, s)
      else if length s < 3 then (8, drop 1 s)
      else if lower_byte (s ! 1) = 98 then (2, drop 2 s)
      else if lower_byte (s ! 1) = 111 then (8, drop 2 s)
      else if lower_byte (s ! 1) = 120 then (16, drop 2 s)
      else (8, drop 1 s))"

fun base_digits :: "nat \<Rightarrow> nat \<Rightarrow> string \<Rightarrow> nat option" where
  "base_digits base acc [] = Some acc"
| "base_digits base acc (c # cs) =
     (if c = CHR ''_'' then base_digits base acc cs
      else (case hex_val c of
              None \<Rightarrow> None
            | Some d \<Rightarrow> if base \<le> d then None else base_digits base (acc * base + d) cs))"

text \<open>The flag says whether a digit or the prefix stands directly before.\<close>

fun underscores_ok :: "bool \<Rightarrow> string \<Rightarrow> bool" where
  "underscores_ok after [] = True"
| "underscores_ok after (c # cs) =
     (if c = CHR ''_'' then after \<and> cs \<noteq> [] \<and> underscores_ok False cs else underscores_ok True cs)"

definition parse_nat_flag :: "string \<Rightarrow> nat option" where
  "parse_nat_flag s =
     (let (base, digits) = int_base s in
      if s = [] \<or> (digits = [] \<and> s \<noteq> ''0'') then None
      else if \<not> underscores_ok (digits \<noteq> s) digits then None
      else base_digits base 0 digits)"

definition parse_int_flag :: "string \<Rightarrow> int option" where
  "parse_int_flag s =
     (let neg = (s \<noteq> [] \<and> hd s = CHR ''-'');
          rest = (if s \<noteq> [] \<and> (hd s = CHR ''-'' \<or> hd s = CHR ''+'') then tl s else s)
      in case parse_nat_flag rest of
           None \<Rightarrow> None
         | Some n \<Rightarrow>
             if \<not> neg \<and> 2 ^ 63 \<le> n then None
             else if neg \<and> 2 ^ 63 < n then None
             else Some (if neg then - int n else int n))"

definition parse_bool :: "string \<Rightarrow> bool option" where
  "parse_bool s =
     (if s \<in> {''1'', ''t'', ''T'', ''true'', ''TRUE'', ''True''} then Some True
      else if s \<in> {''0'', ''f'', ''F'', ''false'', ''FALSE'', ''False''} then Some False
      else None)"

section \<open>The flags of the guard\<close>

definition is_bool_flag :: "string \<Rightarrow> bool" where
  "is_bool_flag name \<longleftrightarrow> name = ''stop'' \<or> name = ''dryrun''"

definition is_int_flag :: "string \<Rightarrow> bool" where
  "is_int_flag name \<longleftrightarrow> name = ''timeout'' \<or> name = ''mgrpid'' \<or> name = ''orphangrace''"

definition is_string_flag :: "string \<Rightarrow> bool" where
  "is_string_flag name \<longleftrightarrow>
     List.member [''hop1if'', ''hop2if'', ''hop1ep'', ''hop2ep'', ''dns'', ''lan'', ''allowapp'', ''logfile''] name"

definition set_bool_flag :: "string \<Rightarrow> bool \<Rightarrow> guard_flags \<Rightarrow> guard_flags" where
  "set_bool_flag name b f =
     (if name = ''stop'' then f\<lparr>flag_stop := b\<rparr> else f\<lparr>flag_dryrun := b\<rparr>)"

definition set_int_flag :: "string \<Rightarrow> int \<Rightarrow> guard_flags \<Rightarrow> guard_flags" where
  "set_int_flag name n f =
     (if name = ''timeout'' then f\<lparr>flag_timeout := n\<rparr>
      else if name = ''mgrpid'' then f\<lparr>flag_mgrpid := n\<rparr>
      else f\<lparr>flag_orphangrace := n\<rparr>)"

definition set_string_flag :: "string \<Rightarrow> string \<Rightarrow> guard_flags \<Rightarrow> guard_flags" where
  "set_string_flag name v f =
     (if name = ''hop1if'' then f\<lparr>flag_hop1if := v\<rparr>
      else if name = ''hop2if'' then f\<lparr>flag_hop2if := v\<rparr>
      else if name = ''hop1ep'' then f\<lparr>flag_hop1ep := v\<rparr>
      else if name = ''hop2ep'' then f\<lparr>flag_hop2ep := v\<rparr>
      else if name = ''dns'' then f\<lparr>flag_dns := v\<rparr>
      else if name = ''lan'' then f\<lparr>flag_lan := v\<rparr>
      else if name = ''allowapp'' then f\<lparr>flag_allowapp := v\<rparr>
      else f\<lparr>flag_logfile := v\<rparr>)"

definition set_flag :: "string \<Rightarrow> string \<Rightarrow> guard_flags \<Rightarrow> flag_error + guard_flags" where
  "set_flag name v f =
     (if is_bool_flag name then
        (case parse_bool v of
           None \<Rightarrow> Inl (InvalidValue name v) | Some b \<Rightarrow> Inr (set_bool_flag name b f))
      else if is_int_flag name then
        (case parse_int_flag v of
           None \<Rightarrow> Inl (InvalidValue name v) | Some n \<Rightarrow> Inr (set_int_flag name n f))
      else Inr (set_string_flag name v f))"

text \<open>The name of a flag and the value behind its equals sign; an equals sign cannot come first.\<close>

definition flag_name :: "string \<Rightarrow> string \<times> string option" where
  "flag_name body =
     (case index_byte (CHR ''='') (drop 1 body) of
        None \<Rightarrow> (body, None)
      | Some i \<Rightarrow> (take (Suc i) body, Some (drop (i + 2) body)))"

fun parse_flags :: "string list \<Rightarrow> guard_flags \<Rightarrow> flag_error + guard_flags" where
  "parse_flags [] f = Inr f"
| "parse_flags (s # args) f =
     (if length s < 2 \<or> hd s \<noteq> CHR ''-'' then Inr f
      else if s = ''--'' then Inr f
      else (let body = (if s ! 1 = CHR ''-'' then drop 2 s else drop 1 s);
                (name, given) = flag_name body
            in if body = [] \<or> hd body = CHR ''-'' \<or> hd body = CHR ''='' then Inl (BadSyntax s)
               else if name = ''help'' \<or> name = ''h'' then Inl HelpWanted
               else if is_bool_flag name then
                 (case set_flag name (case given of None \<Rightarrow> ''true'' | Some v \<Rightarrow> v) f of
                    Inl e \<Rightarrow> Inl e
                  | Inr f' \<Rightarrow> parse_flags args f')
               else if \<not> is_int_flag name \<and> \<not> is_string_flag name then Inl (NotDefined name)
               else (case given of
                       Some v \<Rightarrow>
                         (case set_flag name v f of
                            Inl e \<Rightarrow> Inl e
                          | Inr f' \<Rightarrow> parse_flags args f')
                     | None \<Rightarrow>
                         (case args of
                            [] \<Rightarrow> Inl (NeedsArgument name)
                          | v # rest \<Rightarrow>
                              (case set_flag name v f of
                                 Inl e \<Rightarrow> Inl e
                               | Inr f' \<Rightarrow> parse_flags rest f')))))"

section \<open>What a program that starts the guard relies on\<close>

lemma base_digits_dec: "list_all is_digit s \<Longrightarrow> digits_val mx acc s = Inr n \<Longrightarrow> base_digits 10 acc s = Some n"
  by (induction mx acc s rule: digits_val.induct)
     (auto simp: hex_val_def is_digit_def Let_def split: if_splits)

lemma digits_no_underscore: "list_all is_digit s \<Longrightarrow> underscores_ok b s"
  by (induction s arbitrary: b) (auto simp: is_digit_def)

lemma parse_int_flag_dec:
  assumes "n < 2 ^ 63"
  shows "parse_int_flag (dec n) = Some (int n)"
proof -
  have digit: "is_digit (hd (dec n))" "list_all is_digit (dec n)" by (rule hd_dec, rule dec_digits)
  have "parse_nat_flag (dec n) = Some n"
  proof (cases "n = 0")
    case True
    have "dec 0 = ''0''" by code_simp
    with True show ?thesis by (simp add: parse_nat_flag_def int_base_def)
  next
    case False
    have "hd (dec n) \<noteq> CHR ''0''"
    proof
      assume zero: "hd (dec n) = CHR ''0''"
      then have "\<not> 1 < length (dec n)" using dec_hd_zero by blast
      with zero have "dec n = ''0''" using dec_nonempty [of n] by (cases "dec n") auto
      moreover have "dec 0 = ''0''" by code_simp
      ultimately have "dec n = dec 0" by simp
      then show False using False digits_val_dec [of n n] digits_val_dec [of 0 n] by simp
    qed
    moreover have "base_digits 10 0 (dec n) = Some n"
      by (rule base_digits_dec [OF digit(2) digits_val_dec [OF order_refl]])
    ultimately show ?thesis
      using digits_no_underscore [OF digit(2)] by (simp add: parse_nat_flag_def int_base_def)
  qed
  moreover have "hd (dec n) \<noteq> CHR ''-''" "hd (dec n) \<noteq> CHR ''+''"
    using digit(1) by (auto simp: is_digit_def)
  ultimately show ?thesis using assms by (simp add: parse_int_flag_def)
qed

end
