(* ===== verification/GuardMain.thy ===== *)
theory GuardMain
  imports ChainGuard GuardFlags
begin

text \<open>
  The guard process, \<open>upstream-manager/main.go\<close>: what it makes of its flags, and the loop that
  holds the kill switch while the adapters of the chain come and go.

  The machine around it is a record of oracles. \<open>g_tick\<close> counts the waits and the changes of the
  filters the process has made so far, and the answers of the machine depend on it. Time passes in
  the waits, at least as long as a wait that runs out takes.
\<close>

datatype process_query = CannotOpen | NoExitCode | ExitCode nat
datatype wait_result = Signalled | TimedOut | WaitFailed

record guard_os =
  g_unicode :: unicode
  g_executable :: "string option"
  g_reachable :: "string \<Rightarrow> bool"
  g_create_event :: "bool \<times> win_error option"
  g_set_event :: "win_error option"
  g_wait :: "nat \<Rightarrow> wait_result"
  g_delay :: "nat \<Rightarrow> nat"
  g_process :: "nat \<Rightarrow> 32 word \<Rightarrow> process_query"
  g_adapters :: "nat \<Rightarrow> (string \<times> 64 word) list option"
  g_firewall :: "nat \<Rightarrow> fw_api"

record guard_world =
  g_tick :: nat
  g_now :: nat
  g_session :: session

section \<open>Reading the flags\<close>

definition splitList :: "string \<Rightarrow> char \<Rightarrow> string list" where
  "splitList value separator =
     filter (\<lambda>item. item \<noteq> []) (map trim_space (split_on separator value))"

definition parseIPs :: "string list \<Rightarrow> ip list" where
  "parseIPs values = List.map_filter parse_ip values"

definition parseCIDRs :: "string list \<Rightarrow> ipnet list" where
  "parseCIDRs values = List.map_filter (\<lambda>v. map_option snd (parse_cidr v)) values"

definition parseGuardEndpoint :: "string \<Rightarrow> (ip \<times> 16 word) option" where
  "parseGuardEndpoint value =
     (case split_host_port value of
        None \<Rightarrow> None
      | Some (host, portString) \<Rightarrow>
          (case parse_ip host of
             None \<Rightarrow> None
           | Some a \<Rightarrow>
               if to4 a = None then None
               else (case parse_uint 16 portString of
                       Inl _ \<Rightarrow> None
                     | Inr port \<Rightarrow> Some (a, of_nat port))))"

definition luidForAlias :: "guard_os \<Rightarrow> string \<Rightarrow> nat \<Rightarrow> (64 word) option" where
  "luidForAlias go alias t =
     (case g_adapters go t of
        None \<Rightarrow> None
      | Some adapters \<Rightarrow>
          map_option snd (find (\<lambda>a. equal_fold (g_unicode go) (fst a) alias) adapters))"

datatype guard_error =
    EndpointsRequired | BadHop1Endpoint | BadHop2Endpoint | NoInterface string | NoOwnPath
  | AppNotReachable string | NoStopEvent win_error | CannotInstall fw_error

definition guard_apps :: "guard_os \<Rightarrow> guard_flags \<Rightarrow> guard_error + string list" where
  "guard_apps go f =
     (let apps = splitList (flag_allowapp f) (CHR '';'') in
      if apps \<noteq> [] then Inr apps
      else (case g_executable go of
              None \<Rightarrow> Inl NoOwnPath
            | Some self \<Rightarrow> Inr [path_sibling self ''awgchain.exe'']))"

text \<open>The rule set, from the check of the endpoints to the struct that is handed over.\<close>

definition guard_config :: "guard_os \<Rightarrow> guard_flags \<Rightarrow> nat \<Rightarrow> guard_error + chain_firewall_config" where
  "guard_config go f t =
     (if flag_hop1ep f = [] \<or> flag_hop2ep f = [] then Inl EndpointsRequired
      else (case parseGuardEndpoint (flag_hop1ep f) of
              None \<Rightarrow> Inl BadHop1Endpoint
            | Some (hop1IP, hop1Port) \<Rightarrow>
           (case parseGuardEndpoint (flag_hop2ep f) of
              None \<Rightarrow> Inl BadHop2Endpoint
            | Some (hop2IP, hop2Port) \<Rightarrow>
           (case luidForAlias go (flag_hop1if f) t of
              None \<Rightarrow> Inl (NoInterface (flag_hop1if f))
            | Some hop1LUID \<Rightarrow>
           (case luidForAlias go (flag_hop2if f) t of
              None \<Rightarrow> Inl (NoInterface (flag_hop2if f))
            | Some hop2LUID \<Rightarrow>
           (case guard_apps go f of
              Inl e \<Rightarrow> Inl e
            | Inr apps \<Rightarrow>
           (case find (\<lambda>app. \<not> g_reachable go app) apps of
              Some app \<Rightarrow> Inl (AppNotReachable app)
            | None \<Rightarrow>
                Inr \<lparr> Hop1LUID = hop1LUID, Hop2LUID = hop2LUID,
                      Hop1Endpoint = hop1IP, Hop1Port = hop1Port,
                      Hop2Endpoint = hop2IP, Hop2Port = hop2Port,
                      DNSServers = parseIPs (splitList (flag_dns f) (CHR '','')),
                      AllowedApps = apps,
                      AllowedLANs = parseCIDRs (splitList (flag_lan f) (CHR '','')) \<rparr>)))))))"

section \<open>The main function\<close>

definition ERROR_ALREADY_EXISTS :: win_error where "ERROR_ALREADY_EXISTS = WinError 183"

definition createStopEvent :: "guard_os \<Rightarrow> win_error option" where
  "createStopEvent go =
     (let (handle, err) = g_create_event go in
      if handle \<and> err = Some ERROR_ALREADY_EXISTS then None else err)"

definition signalStop :: "guard_os \<Rightarrow> win_error option" where
  "signalStop go =
     (case createStopEvent go of Some e \<Rightarrow> Some e | None \<Rightarrow> g_set_event go)"

text \<open>One change of the filters, by the process's own session.\<close>

definition guard_enable :: "guard_os \<Rightarrow> chain_firewall_config \<Rightarrow> guard_world \<Rightarrow> fw_error option \<times> guard_world" where
  "guard_enable go cfg w =
     (let w1 = w\<lparr>g_tick := Suc (g_tick w)\<rparr> in
      case EnableChainFirewall (g_firewall go (g_tick w)) (Some cfg) (g_session w) of
        Inl e \<Rightarrow> (Some e, w1)
      | Inr s \<Rightarrow> (None, w1\<lparr>g_session := s\<rparr>))"

definition guard_disable :: "guard_world \<Rightarrow> guard_world" where
  "guard_disable w = w\<lparr>g_tick := Suc (g_tick w), g_session := DisableChainFirewall (g_session w)\<rparr>"

datatype guard_result =
  StopSignaled | StopFailed win_error | GuardFail guard_error | DryRun chain_firewall_config
  | Armed chain_firewall_config

definition guard_main :: "guard_os \<Rightarrow> guard_flags \<Rightarrow> guard_world \<Rightarrow> guard_result \<times> guard_world" where
  "guard_main go f w =
     (if flag_stop f then
        (case signalStop go of Some e \<Rightarrow> (StopFailed e, w) | None \<Rightarrow> (StopSignaled, w))
      else (case guard_config go f (g_tick w) of
              Inl e \<Rightarrow> (GuardFail e, w)
            | Inr cfg \<Rightarrow>
                if flag_dryrun f then (DryRun cfg, w)
                else (case createStopEvent go of
                        Some e \<Rightarrow> (GuardFail (NoStopEvent e), w)
                      | None \<Rightarrow>
                          (case guard_enable go cfg w of
                             (Some e, w1) \<Rightarrow> (GuardFail (CannotInstall e), w1)
                           | (None, w1) \<Rightarrow> (Armed cfg, w1)))))"

section \<open>Holding the kill switch\<close>

definition chainReloadPoll :: nat where "chainReloadPoll = 3 * second"

text \<open>\<open>time.Duration(n) * time.Second\<close> on 64 bits.\<close>

definition seconds_span :: "int \<Rightarrow> int" where
  "seconds_span n = sint (word_of_int n * 1000000000 :: 64 word)"

definition processAlive :: "guard_os \<Rightarrow> int \<Rightarrow> nat \<Rightarrow> bool" where
  "processAlive go pid t =
     (if pid \<le> 0 then False
      else (case g_process go t (word_of_int pid) of
              CannotOpen \<Rightarrow> False
            | NoExitCode \<Rightarrow> True
            | ExitCode code \<Rightarrow> code = 259))"

text \<open>
  The variables of the loop. The heart beat only decides what is logged and is left out, as are
  the log lines; \<open>deadline\<close> is \<open>None\<close> for the zero time.
\<close>

record hold =
  h_cfg :: chain_firewall_config
  armed :: bool
  reloads :: nat
  mgrGoneAt :: "nat option"

datatype removal = WaitErrored | StopAsked | TimeIsUp | Orphaned

definition hold_deadline :: "guard_flags \<Rightarrow> guard_world \<Rightarrow> int option" where
  "hold_deadline f w =
     (if 0 < flag_timeout f then Some (int (g_now w) + seconds_span (flag_timeout f)) else None)"

definition new_hold :: "chain_firewall_config \<Rightarrow> hold" where
  "new_hold cfg = \<lparr> h_cfg = cfg, armed = True, reloads = 0, mgrGoneAt = None \<rparr>"

definition guard_wait :: "guard_os \<Rightarrow> guard_world \<Rightarrow> wait_result \<times> guard_world" where
  "guard_wait go w =
     (let r = g_wait go (g_tick w) in
      (r, w\<lparr>g_tick := Suc (g_tick w),
            g_now := g_now w + (if r = TimedOut then chainReloadPoll else 0) + g_delay go (g_tick w)\<rparr>))"

definition note_manager :: "guard_os \<Rightarrow> guard_flags \<Rightarrow> guard_world \<Rightarrow> nat option \<Rightarrow> nat option" where
  "note_manager go f w gone =
     (if flag_mgrpid f \<le> 0 then gone
      else if processAlive go (flag_mgrpid f) (g_tick w) then None
      else (case gone of None \<Rightarrow> Some (g_now w) | Some t \<Rightarrow> Some t))"

text \<open>Installing the filters again, and what is noted of it.\<close>

definition reload :: "guard_os \<Rightarrow> hold \<Rightarrow> guard_world \<Rightarrow> hold \<times> guard_world" where
  "reload go h w =
     (case guard_enable go (h_cfg h) w of
        (Some _, w1) \<Rightarrow> (h, w1)
      | (None, w1) \<Rightarrow> (h\<lparr>armed := True, reloads := Suc (reloads h)\<rparr>, w1))"

definition orphaned :: "guard_flags \<Rightarrow> hold \<Rightarrow> guard_world \<Rightarrow> bool" where
  "orphaned f h w =
     (case mgrGoneAt h of
        None \<Rightarrow> False
      | Some t \<Rightarrow> seconds_span (flag_orphangrace f) \<le> int (g_now w) - int t)"

text \<open>What a turn does after the reasons to stop were looked at.\<close>

definition follow_chain ::
  "guard_os \<Rightarrow> guard_flags \<Rightarrow> hold \<Rightarrow> guard_world \<Rightarrow> removal option \<times> hold \<times> guard_world"
where
  "follow_chain go f h w =
     (if \<not> armed h then (None, reload go h w)
      else (case (luidForAlias go (flag_hop1if f) (g_tick w), luidForAlias go (flag_hop2if f) (g_tick w)) of
              (Some hop1LUID, Some hop2LUID) \<Rightarrow>
                if hop1LUID = Hop1LUID (h_cfg h) \<and> hop2LUID = Hop2LUID (h_cfg h) then (None, h, w)
                else (None, reload go
                  (h\<lparr>h_cfg := h_cfg h\<lparr>Hop1LUID := hop1LUID, Hop2LUID := hop2LUID\<rparr>, armed := False\<rparr>)
                  (guard_disable w))
            | _ \<Rightarrow> if orphaned f h w then (Some Orphaned, h, guard_disable w) else (None, h, w)))"

definition hold_turn ::
  "guard_os \<Rightarrow> guard_flags \<Rightarrow> int option \<Rightarrow> hold \<Rightarrow> guard_world \<Rightarrow> removal option \<times> hold \<times> guard_world"
where
  "hold_turn go f deadline h w =
     (case guard_wait go w of
        (WaitFailed, w1) \<Rightarrow> (Some WaitErrored, h, guard_disable w1)
      | (Signalled, w1) \<Rightarrow> (Some StopAsked, h, guard_disable w1)
      | (TimedOut, w1) \<Rightarrow>
          if (case deadline of None \<Rightarrow> False | Some d \<Rightarrow> d < int (g_now w1))
          then (Some TimeIsUp, h, guard_disable w1)
          else follow_chain go f (h\<lparr>mgrGoneAt := note_manager go f w1 (mgrGoneAt h)\<rparr>) w1)"

text \<open>The loop, by the number of turns looked at; \<open>None\<close> says it is still holding after them.\<close>

fun hold_run ::
  "guard_os \<Rightarrow> guard_flags \<Rightarrow> int option \<Rightarrow> nat \<Rightarrow> hold \<Rightarrow> guard_world \<Rightarrow> removal option \<times> hold \<times> guard_world"
where
  "hold_run go f deadline 0 h w = (None, h, w)"
| "hold_run go f deadline (Suc n) h w =
     (case hold_turn go f deadline h w of
        (Some r, h1, w1) \<Rightarrow> (Some r, h1, w1)
      | (None, h1, w1) \<Rightarrow> hold_run go f deadline n h1 w1)"

definition holdKillSwitch ::
  "guard_os \<Rightarrow> guard_flags \<Rightarrow> nat \<Rightarrow> chain_firewall_config \<Rightarrow> guard_world \<Rightarrow> removal option \<times> hold \<times> guard_world"
where
  "holdKillSwitch go f n cfg w = hold_run go f (hold_deadline f w) n (new_hold cfg) w"

end
