(* ===== verification/GuardCommand.thy ===== *)
theory GuardCommand
  imports GuardMain
begin

text \<open>
  The two ends of the guard's command line: what \<open>chainArmGuard\<close> writes
  (\<open>upstream-manager/chainguard.go\<close>) and what the process makes of it
  (\<open>upstream-manager/main.go\<close>).
\<close>

section \<open>Flags one by one\<close>

lemma flag_name_plain: "CHR ''='' \<notin> set body \<Longrightarrow> flag_name body = (body, None)"
  by (auto simp: flag_name_def index_byte_None split: option.splits dest: in_set_dropD)

lemma parse_string_flag:
  assumes "is_string_flag name"
  shows "parse_flags ((CHR ''-'' # name) # v # args) f = parse_flags args (set_string_flag name v f)"
proof -
  have name: "name \<noteq> []" "hd name \<noteq> CHR ''-''" "hd name \<noteq> CHR ''=''" "CHR ''='' \<notin> set name"
    "name \<noteq> ''help''" "name \<noteq> ''h''" "\<not> is_bool_flag name" "\<not> is_int_flag name"
    using assms by (auto simp: is_string_flag_def is_bool_flag_def is_int_flag_def)
  then have "name ! 0 \<noteq> CHR ''-''" "0 < length name" by (simp_all add: hd_conv_nth)
  moreover from name have "name \<noteq> ''-''" by auto
  ultimately show ?thesis using name assms by (simp add: flag_name_plain set_flag_def)
qed

lemma parse_int_flags:
  assumes "is_int_flag name" and "parse_int_flag v = Some n"
  shows "parse_flags ((CHR ''-'' # name) # v # args) f = parse_flags args (set_int_flag name n f)"
proof -
  have name: "name \<noteq> []" "hd name \<noteq> CHR ''-''" "hd name \<noteq> CHR ''=''" "CHR ''='' \<notin> set name"
    "name \<noteq> ''help''" "name \<noteq> ''h''" "\<not> is_bool_flag name"
    using assms by (auto simp: is_bool_flag_def is_int_flag_def)
  then have "name ! 0 \<noteq> CHR ''-''" "0 < length name" by (simp_all add: hd_conv_nth)
  moreover from name have "name \<noteq> ''-''" by auto
  ultimately show ?thesis using name assms by (simp add: flag_name_plain set_flag_def)
qed

lemma string_flags [simp]:
  "is_string_flag ''hop1if''" "is_string_flag ''hop2if''" "is_string_flag ''hop1ep''"
  "is_string_flag ''hop2ep''" "is_string_flag ''dns''" "is_string_flag ''lan''"
  "is_string_flag ''allowapp''" "is_string_flag ''logfile''"
  by (simp_all add: is_string_flag_def)

lemma int_flags [simp]: "is_int_flag ''mgrpid''" "is_int_flag ''orphangrace''"
  by (simp_all add: is_int_flag_def)

lemma grace_text: "parse_int_flag ''120'' = Some 120"
proof -
  have "dec 120 = ''120''" by code_simp
  with parse_int_flag_dec [of 120] show ?thesis by simp
qed

text \<open>All flags of \<open>guard_args\<close> at once.\<close>

definition armed_flags :: "os \<Rightarrow> string \<Rightarrow> string \<Rightarrow> string \<Rightarrow> string \<Rightarrow> string \<Rightarrow> world \<Rightarrow> guard_flags" where
  "armed_flags os root topHop ep1 ep2 self w =
     default_flags\<lparr>flag_hop1if := root, flag_hop2if := topHop, flag_hop1ep := ep1, flag_hop2ep := ep2,
       flag_allowapp := self, flag_logfile := guard_log os, flag_mgrpid := int (os_pid os),
       flag_dns := (let dns = chainDNSOf os topHop w in if dns = [] then ''1.1.1.1,1.0.0.1'' else dns),
       flag_lan := join '','' (chainLocalNetworks os (pin_of os root w) w)\<rparr>"

lemma parse_guard_args:
  assumes "os_pid os < 2 ^ 63"
  shows "parse_flags (guard_args os root topHop ep1 ep2 self w) default_flags
    = Inr (armed_flags os root topHop ep1 ep2 self w)"
  using parse_int_flag_dec [OF assms]
  by (auto simp: guard_args_def Let_def parse_string_flag parse_int_flags grace_text set_string_flag_def
      set_int_flag_def armed_flags_def default_flags_def simp del: parse_flags.simps(2))

section \<open>Endpoints, resolvers and networks\<close>

lemma guard_endpoint_agrees:
  assumes "chainEndpointOf os name w = Inr t"
  shows "parseGuardEndpoint t = chainParseEndpoint t" "t \<noteq> []"
proof -
  from assms obtain q :: peer where "usable_endpoint os (w_history w) (Endpoint q) = Some t"
    by (auto simp: chainEndpointOf_def split: sum.splits option.splits dest!: first_some_Some)
  then obtain a v where a: "to4 a = Some v" "t = ip_string a @ '':'' @ dec (unat (Port (Endpoint q)))"
    by (auto simp: usable_endpoint_def Let_def split: if_splits option.splits)
  have "list_all is_graphic (ip_string a)"
    using ip_string_to4 [OF a(1)] set_v4_string [of v]
    by (auto simp: list_all_iff is_graphic_def is_digit_def)
  then have "list_all is_graphic t"
    using a(2) dec_graphic by (auto simp: list_all_iff is_graphic_def)
  then have "trim_space t = t" by (simp add: trim_space_id trimmed_all_graphic)
  then show "parseGuardEndpoint t = chainParseEndpoint t"
    by (simp add: parseGuardEndpoint_def chainParseEndpoint_def)
  show "t \<noteq> []" using a(2) by simp
qed

lemma map_filter_trimmed:
  assumes "f [] = None"
  shows "List.map_filter f (filter (\<lambda>x. x \<noteq> []) (map trim_space xs)) = List.map_filter (\<lambda>x. f (trim_space x)) xs"
  using assms by (induction xs) (auto simp: map_filter_simps split: option.split)

lemma parse_ip_Nil: "parse_ip [] = None"
  by code_simp

lemma guard_dns_agrees: "parseIPs (splitList (chainDNSOf os topHop w) (CHR '','')) = chainLockDNS os topHop w"
  by (simp add: parseIPs_def splitList_def chainLockDNS_def map_filter_trimmed parse_ip_Nil)

lemma local_prefix_text:
  assumes "local_prefix luid row = Some t"
  shows "t \<noteq> [] \<and> CHR '','' \<notin> set t \<and> trim_space t = t"
proof -
  from assms obtain a k where t: "t = ip_string a @ ''/'' @ dec k" "to4 (net_ip (r_prefix row)) = Some a"
    by (auto simp: local_prefix_def Let_def split: prod.splits if_splits option.splits)
  then have "length a = 4" using to4_length by blast
  then have "ip_string a = v4_string a" using ip_string_to4 [OF to4_v4] by simp
  then have "set t \<subseteq> insert (CHR ''/'') (insert (CHR ''.'') (Collect is_digit))"
    using t(1) set_v4_string [of a] dec_digits [of k] by (auto simp: list_all_iff)
  moreover from this have "list_all is_graphic t" by (auto simp: list_all_iff is_graphic_def is_digit_def)
  ultimately show ?thesis using t(1) by (auto simp: trim_space_id trimmed_all_graphic is_digit_def)
qed

lemma collect_prefixes_texts:
  "t \<in> set (collect_prefixes luid acc rows) \<Longrightarrow> t \<in> set acc \<or> (\<exists>row. local_prefix luid row = Some t)"
  by (induction luid acc rows rule: collect_prefixes.induct) (auto split: option.splits if_splits)

lemma chainLocalNetworks_texts:
  "t \<in> set (chainLocalNetworks os adapter w) \<Longrightarrow> t \<noteq> [] \<and> CHR '','' \<notin> set t \<and> trim_space t = t"
  using collect_prefixes_texts [of t _ "[]"] local_prefix_text
  by (fastforce simp: chainLocalNetworks_def split: option.splits)

lemma splitList_join:
  assumes "\<And>t. t \<in> set ts \<Longrightarrow> t \<noteq> [] \<and> c \<notin> set t \<and> trim_space t = t"
  shows "splitList (join [c] ts) c = ts"
proof (cases "ts = []")
  case True
  then show ?thesis by (simp add: splitList_def)
next
  case False
  have "split_on c (join [c] ts) = ts" using split_join [OF False] assms by blast
  moreover have "map trim_space ts = ts" using assms by (simp add: map_idI)
  moreover have "filter (\<lambda>item. item \<noteq> []) ts = ts" using assms by (simp add: filter_id_conv)
  ultimately show ?thesis by (simp add: splitList_def)
qed

lemma guard_lans_agree:
  "parseCIDRs (splitList (join '','' (chainLocalNetworks os (pin_of os root w) w)) (CHR '',''))
   = chainLockLANs os root w"
  by (subst splitList_join) (auto simp: chainLocalNetworks_texts parseCIDRs_def chainLockLANs_def)

section \<open>The rule set of the guard\<close>

text \<open>The guard sees the machine the manager sees.\<close>

definition same_machine :: "os \<Rightarrow> world \<Rightarrow> guard_os \<Rightarrow> nat \<Rightarrow> bool" where
  "same_machine os w go t \<longleftrightarrow>
     g_unicode go = os_unicode os \<and> g_adapters go t = os_adapters os (w_history w)"

lemma guard_luid_agrees:
  "same_machine os w go t \<Longrightarrow> trim_space name = name \<Longrightarrow> chainAdapterLUID os name w = Some l \<Longrightarrow>
   luidForAlias go name t = Some l"
  by (auto simp: same_machine_def luidForAlias_def chainAdapterLUID_def split: if_splits option.splits)

lemma guard_app:
  "self \<noteq> [] \<Longrightarrow> CHR '';'' \<notin> set self \<Longrightarrow> trim_space self = self \<Longrightarrow> flag_allowapp f = self \<Longrightarrow>
   guard_apps go f = Inr [self]"
  by (simp add: guard_apps_def splitList_def split_on_no_sep)

text \<open>What the manager's own lock would install, with the differences of the guard.\<close>

definition guard_rules :: "os \<Rightarrow> string \<Rightarrow> world \<Rightarrow> string \<Rightarrow> chain_firewall_config \<Rightarrow> chain_firewall_config" where
  "guard_rules os leaf w self cfg =
     (let hops = chainHopOrder (os_store os) (w_dir w) leaf in
      cfg\<lparr>AllowedApps := [self],
          AllowedLANs := chainLockLANs os (hd hops) w,
          DNSServers := (if chainDNSOf os (last hops) w = []
                         then [v4_mapped [1, 1, 1, 1], v4_mapped [1, 0, 0, 1]] else DNSServers cfg)\<rparr>)"

lemma default_dns: "parseIPs (splitList ''1.1.1.1,1.0.0.1'' (CHR '','')) = [v4_mapped [1, 1, 1, 1], v4_mapped [1, 0, 0, 1]]"
  by code_simp

lemma guard_rule_set:
  assumes cfg: "lock_config os leaf w = Some (cfg, w')"
    and hops: "root = hd (chainHopOrder (os_store os) (w_dir w) leaf)"
      "topHop = last (chainHopOrder (os_store os) (w_dir w) leaf)"
    and names: "trim_space root = root" "trim_space topHop = topHop"
    and ends: "chainEndpointOf os root w = Inr ep1" "chainEndpointOf os topHop w = Inr ep2"
    and self: "self \<noteq> []" "CHR '';'' \<notin> set self" "trim_space self = self" "g_reachable go self"
    and machine: "same_machine os w go t"
  shows "guard_config go (armed_flags os root topHop ep1 ep2 self w) t = Inr (guard_rules os leaf w self cfg)"
proof -
  let ?f = "armed_flags os root topHop ep1 ep2 self w"
  from cfg ends obtain a1 p1 a2 p2 l1 l2 where
    eps: "chainParseEndpoint ep1 = Some (a1, p1)" "chainParseEndpoint ep2 = Some (a2, p2)" and
    luids: "chainAdapterLUID os root w = Some l1" "chainAdapterLUID os topHop w = Some l2" and
    c: "Hop1LUID cfg = l1" "Hop2LUID cfg = l2" "Hop1Endpoint cfg = a1" "Hop1Port cfg = p1"
      "Hop2Endpoint cfg = a2" "Hop2Port cfg = p2" "DNSServers cfg = chainLockDNS os topHop w"
    by (auto simp: lock_config_def lock_endpoints_def Let_def hops split: option.splits sum.splits prod.splits if_splits)
  have flags: "flag_hop1ep ?f = ep1" "flag_hop2ep ?f = ep2" "flag_hop1if ?f = root" "flag_hop2if ?f = topHop"
    "flag_allowapp ?f = self" "flag_lan ?f = join '','' (chainLocalNetworks os (pin_of os root w) w)"
    "flag_dns ?f = (if chainDNSOf os topHop w = [] then ''1.1.1.1,1.0.0.1'' else chainDNSOf os topHop w)"
    by (simp_all add: armed_flags_def Let_def)
  have dns: "parseIPs (splitList (flag_dns ?f) (CHR '',''))
      = (if chainDNSOf os topHop w = [] then [v4_mapped [1, 1, 1, 1], v4_mapped [1, 0, 0, 1]] else DNSServers cfg)"
    by (simp add: flags default_dns guard_dns_agrees c)
  have "guard_config go ?f t = Inr \<lparr> Hop1LUID = l1, Hop2LUID = l2, Hop1Endpoint = a1, Hop1Port = p1,
      Hop2Endpoint = a2, Hop2Port = p2, DNSServers = parseIPs (splitList (flag_dns ?f) (CHR '','')),
      AllowedApps = [self], AllowedLANs = chainLockLANs os root w \<rparr>"
    using guard_endpoint_agrees [OF ends(1)] guard_endpoint_agrees [OF ends(2)] eps self(4)
      guard_luid_agrees [OF machine names(1) luids(1)] guard_luid_agrees [OF machine names(2) luids(2)]
      guard_app [OF self(1-3) flags(5)]
    by (simp add: guard_config_def flags(1-4,6) guard_lans_agree)
  also have "\<dots> = Inr (guard_rules os leaf w self cfg)"
    unfolding dns using c by (simp add: guard_rules_def Let_def flip: hops)
  finally show ?thesis .
qed

lemma guard_command_args:
  assumes "guard_command os leaf w = Some command"
  shows "\<exists>ep1 ep2 self. os_executable os (w_history w) = Some self
    \<and> chainEndpointOf os (hd (chainHopOrder (os_store os) (w_dir w) leaf)) w = Inr ep1
    \<and> chainEndpointOf os (last (chainHopOrder (os_store os) (w_dir w) leaf)) w = Inr ep2
    \<and> tl command = guard_args os (hd (chainHopOrder (os_store os) (w_dir w) leaf))
         (last (chainHopOrder (os_store os) (w_dir w) leaf)) ep1 ep2 self w"
  using assms by (auto simp: guard_command_def Let_def split: if_splits sum.splits option.splits)

end
