(* ===== verification/LockContents.thy ===== *)
theory LockContents
  imports GuardCommand ConfInvariant
begin

text \<open>
  What the fields of the kill switch's rule set are, said without the texts and the loops the
  code builds them with: the endpoints are those of a peer of the stored hop, the resolvers are
  the \<open>DNS\<close> of the stored hop, and an allowed local network is a private on-link route of the
  adapter the root is pinned to (\<open>chainEndpointOf\<close>, \<open>chainDNSOf\<close>, \<open>chainLocalNetworks\<close> of
  \<open>upstream-manager/chainguard.go\<close> and \<open>chainLockDNS\<close>, \<open>chainLockLANs\<close> of \<open>chainlock.go\<close>).
\<close>

section \<open>The promise\<close>

definition resolves_to :: "os \<Rightarrow> history \<Rightarrow> string \<Rightarrow> ip \<Rightarrow> bool" where
  "resolves_to os h host x \<longleftrightarrow>
     (case parse_ip host of
        Some a \<Rightarrow> x = a
      | None \<Rightarrow> (case os_lookup_ip os h host of None \<Rightarrow> False | Some xs \<Rightarrow> x \<in> set xs))"

definition hop_endpoint :: "os \<Rightarrow> string \<Rightarrow> world \<Rightarrow> ip \<Rightarrow> 16 word \<Rightarrow> bool" where
  "hop_endpoint os name w a p \<longleftrightarrow>
     (\<exists>c q x b. LoadFromName (os_store os) (w_dir w) name = Inr c \<and> q \<in> set (Peers c)
        \<and> p = Port (Endpoint q) \<and> to4 x = Some b \<and> a = v4_mapped b
        \<and> resolves_to os (w_history w) (trim_brackets (trim_space (Host (Endpoint q)))) x)"

definition adapter_lan :: "os \<Rightarrow> string \<Rightarrow> world \<Rightarrow> ipnet \<Rightarrow> bool" where
  "adapter_lan os adapter w l \<longleftrightarrow>
     (\<exists>luid rows row b n. chainAdapterLUID os adapter w = Some luid
        \<and> os_routes os (w_history w) = Some rows \<and> row \<in> set rows \<and> r_luid row = luid
        \<and> (r_hop row = [] \<or> is_unspecified (r_hop row))
        \<and> to4 (net_ip (r_prefix row)) = Some b \<and> is_private_v4 b
        \<and> mask_size (net_mask (r_prefix row)) = (n, 32) \<and> 8 \<le> n \<and> n \<le> 30
        \<and> cidr_mask (int n) 32 = Some (net_mask l) \<and> net_ip l = and_mask b (net_mask l))"

section \<open>Every configuration the store answers with is well formed\<close>

lemma try_decoders_ok:
  "try_decoders u ds s name e = Inr c \<Longrightarrow> ok_config c"
  by (induction ds) (auto simp: Let_def dest: FromWgQuick_ok(2) split: option.splits sum.splits conf_error.splits if_splits)

lemma unknown_encoding_ok: "FromWgQuickWithUnknownEncoding u ds s name = Inr c \<Longrightarrow> ok_config c"
  unfolding FromWgQuickWithUnknownEncoding_def
  by (cases "FromWgQuick u s name") (auto dest: FromWgQuick_ok(2) try_decoders_ok split: conf_error.splits)

lemma as_conf_error: "(case r of Inl e \<Rightarrow> Inl (ConfError e) | Inr c \<Rightarrow> Inr c) = Inr c \<longleftrightarrow> r = Inr c"
  by (cases r) auto

lemma LoadFromPath_ok: "LoadFromPath env d path = Inr c \<Longrightarrow> ok_config c"
  by (auto simp: LoadFromPath_def rbind_Inr_iff as_conf_error dest: unknown_encoding_ok)

lemma LoadFromName_ok: "LoadFromName env dir name = Inr c \<Longrightarrow> ok_config c"
  by (auto simp: LoadFromName_def dest: LoadFromPath_ok split: option.splits if_splits)

section \<open>Endpoints\<close>

lemma usable_endpoint_resolves:
  assumes "usable_endpoint os h e = Some t"
  shows "\<exists>x b. to4 x = Some b \<and> resolves_to os h (trim_brackets (trim_space (Host e))) x
    \<and> chainParseEndpoint t = Some (v4_mapped b, Port e)"
proof -
  from assms obtain x b where x: "to4 x = Some b" "t = ip_string x @ '':'' @ dec (unat (Port e))"
    and res: "resolves_to os h (trim_brackets (trim_space (Host e))) x"
    by (auto simp: usable_endpoint_def resolves_to_def Let_def find_Some_iff split: if_splits option.splits)
  with chainParseEndpoint_print [OF x(1), of "Port e"] show ?thesis by auto
qed

lemma chainEndpointOf_hop:
  assumes "chainEndpointOf os name w = Inr t" and "chainParseEndpoint t = Some (a, p)"
  shows "hop_endpoint os name w a p"
proof -
  from assms(1) obtain c where c: "LoadFromName (os_store os) (w_dir w) name = Inr c"
    and "first_some (\<lambda>p. usable_endpoint os (w_history w) (Endpoint p)) (Peers c) = Some t"
    by (auto simp: chainEndpointOf_def split: sum.splits option.splits)
  then obtain q where q: "q \<in> set (Peers c)" "usable_endpoint os (w_history w) (Endpoint q) = Some t"
    using first_some_Some by (metis (no_types, lifting))
  from usable_endpoint_resolves [OF q(2)] c q(1) assms(2) show ?thesis
    unfolding hop_endpoint_def by (metis Pair_inject option.inject)
qed

lemma lock_endpoints_hops:
  assumes "lock_endpoints os root inner w = Some (a, p, b, q)"
  shows "hop_endpoint os root w a p" "hop_endpoint os inner w b q"
    "\<exists>c. LoadFromName (os_store os) (w_dir w) inner = Inr c"
  using assms chainEndpointOf_hop [of os _ w]
  by (auto simp: lock_endpoints_def chainEndpointOf_def [of os inner] split: sum.splits option.splits)

section \<open>Resolvers\<close>

lemma map_filter_same: "(\<And>x. x \<in> set xs \<Longrightarrow> f (g x) = Some x) \<Longrightarrow> List.map_filter f (map g xs) = xs"
  by (induction xs) (simp_all add: map_filter_simps)

lemma chainLockDNS_exact:
  assumes c: "LoadFromName (os_store os) (w_dir w) inner = Inr c"
  shows "chainLockDNS os inner w = DNS (Interface c)"
proof (cases "DNS (Interface c) = []")
  case True
  then show ?thesis by (simp add: chainLockDNS_def chainDNSOf_def c map_filter_simps parse_ip_Nil)
next
  case False
  let ?ds = "DNS (Interface c)"
  have len: "length a = 16" if "a \<in> set ?ds" for a
    using that LoadFromName_ok [OF c] by (auto simp: ok_config_def ok_interface_def list_all_iff)
  have chars: "is_hex x \<or> x = CHR ''.'' \<or> x = CHR '':''" if "a \<in> set ?ds" "x \<in> set (ip_string a)" for a x
    using that ip_string_chars len by blast
  then have "CHR '','' \<notin> set (ip_string a)" if "a \<in> set ?ds" for a
    using that by (fastforce simp: is_hex_def hex_val_def is_digit_def)
  then have split: "split_on (CHR '','') (join '','' (map ip_string ?ds)) = map ip_string ?ds"
    using False by (intro split_join) auto
  have "parse_ip (trim_space (ip_string a)) = Some a" if "a \<in> set ?ds" for a
  proof -
    have "list_all is_graphic (ip_string a)"
      unfolding list_all_iff using chars [OF that] hex_graphic by (fastforce simp: is_graphic_def)
    then show ?thesis
      using parse_ip_string [of a] len [OF that] by (simp add: trim_space_id trimmed_all_graphic to16_def)
  qed
  then show ?thesis
    by (simp add: chainLockDNS_def chainDNSOf_def c split map_filter_same)
qed

section \<open>Local networks\<close>

lemma local_prefix_cidr:
  assumes "local_prefix luid row = Some t" and "parse_cidr t = Some (a, l)"
  shows "r_luid row = luid \<and> (r_hop row = [] \<or> is_unspecified (r_hop row))
    \<and> (\<exists>b n. to4 (net_ip (r_prefix row)) = Some b \<and> is_private_v4 b
        \<and> mask_size (net_mask (r_prefix row)) = (n, 32) \<and> 8 \<le> n \<and> n \<le> 30
        \<and> cidr_mask (int n) 32 = Some (net_mask l) \<and> net_ip l = and_mask b (net_mask l))"
proof -
  from assms(1) obtain b n where b: "to4 (net_ip (r_prefix row)) = Some b" "is_private_v4 b"
    and n: "mask_size (net_mask (r_prefix row)) = (n, 32)" "8 \<le> n" "n \<le> 30"
    and t: "t = ip_string b @ ''/'' @ dec n" and r: "r_luid row = luid"
      "r_hop row = [] \<or> is_unspecified (r_hop row)"
    by (auto simp: local_prefix_def Let_def split: prod.splits if_splits option.splits)
  have len: "length b = 4" using to4_length [OF b(1)] .
  then have ip: "ip_string b = v4_string b" using ip_string_to4 [OF to4_v4] by simp
  have no: "CHR ''/'' \<notin> set (v4_string b)" "CHR '':'' \<notin> set (v4_string b)"
    using set_v4_string [of b] by (auto simp: is_digit_def)
  have i: "index_byte (CHR ''/'') t = Some (length (v4_string b))"
    unfolding t ip using no(1) by (simp add: index_byte_append)
  have d: "digits_val 16777214 0 (dec n) = Inr n" using n(3) by (intro digits_val_dec) simp
  have dg: "list_all is_digit (dec n)" by (rule dec_digits)
  have "\<exists>m. cidr_mask (int n) 32 = Some m \<and> l = \<lparr> net_ip = and_mask b m, net_mask = m \<rparr>"
    using assms(2) i d dg n no(2) len parse_ip_v4 [OF len]
    by (auto simp: parse_cidr_def t ip Let_def v4_mapped_def split: option.splits)
  then show ?thesis using b n r by auto
qed

lemma collect_prefixes_rows:
  "t \<in> set (collect_prefixes luid acc rows) \<Longrightarrow> t \<in> set acc \<or> (\<exists>row\<in>set rows. local_prefix luid row = Some t)"
  by (induction luid acc rows rule: collect_prefixes.induct) (auto split: option.splits if_splits)

lemma chainLockLANs_private:
  assumes "l \<in> set (chainLockLANs os root w)"
  shows "adapter_lan os (pin_of os root w) w l"
proof -
  from assms obtain t a where t: "t \<in> set (chainLocalNetworks os (pin_of os root w) w)"
    and l: "parse_cidr t = Some (a, l)"
    by (auto simp: chainLockLANs_def List.map_filter_def)
  from t obtain luid rows where luid: "chainAdapterLUID os (pin_of os root w) w = Some luid"
    and rows: "os_routes os (w_history w) = Some rows" and "t \<in> set (collect_prefixes luid [] rows)"
    by (cases "chainAdapterLUID os (pin_of os root w) w"; cases "os_routes os (w_history w)")
       (auto simp: chainLocalNetworks_def)
  then obtain row where "row \<in> set rows" "local_prefix luid row = Some t"
    using collect_prefixes_rows [of t luid "[]" rows] by auto
  with local_prefix_cidr [OF _ l] luid rows show ?thesis unfolding adapter_lan_def by blast
qed

section \<open>The rule set\<close>

text \<open>What the configuration of the lock holds, for the chain \<open>hops\<close> and the boxes of \<open>leaf\<close>.\<close>

definition lock_contents :: "os \<Rightarrow> string \<Rightarrow> string list \<Rightarrow> world \<Rightarrow> chain_firewall_config \<Rightarrow> bool" where
  "lock_contents os leaf hops w cfg \<longleftrightarrow>
     chainAdapterLUID os (hd hops) w = Some (Hop1LUID cfg)
     \<and> chainAdapterLUID os (last hops) w = Some (Hop2LUID cfg)
     \<and> hop_endpoint os (hd hops) w (Hop1Endpoint cfg) (Hop1Port cfg)
     \<and> hop_endpoint os (last hops) w (Hop2Endpoint cfg) (Hop2Port cfg)
     \<and> (\<exists>c. LoadFromName (os_store os) (w_dir w) (last hops) = Inr c \<and> DNSServers cfg = DNS (Interface c))
     \<and> AllowedApps cfg = chainLockApps os w
     \<and> (if AllowLAN (fst (ChainSettingsFor os leaf w))
        then AllowedLANs cfg = chainLockLANs os (hd hops) w
          \<and> list_all (adapter_lan os (pin_of os (hd hops) w) w) (AllowedLANs cfg)
        else AllowedLANs cfg = [])"

lemma ChainSettingsFor_cached:
  "fst (ChainSettingsFor os leaf (w\<lparr>chainSettingsCache := Some (current_book w)\<rparr>))
   = fst (ChainSettingsFor os leaf w)"
  by (simp add: ChainSettingsFor_eq current_book_def)

lemma lock_config_contents:
  assumes "lock_config os leaf (w\<lparr>chainSettingsCache := Some (current_book w)\<rparr>) = Some (cfg, w')"
  shows "2 \<le> length (chainHopOrder (os_store os) (w_dir w) leaf)"
    and "lock_contents os leaf (chainHopOrder (os_store os) (w_dir w) leaf) w cfg"
proof -
  let ?c = "w\<lparr>chainSettingsCache := Some (current_book w)\<rparr>"
  let ?hops = "chainHopOrder (os_store os) (w_dir w) leaf"
  have same: "chainAdapterLUID os n ?c = chainAdapterLUID os n w" "hop_endpoint os n ?c = hop_endpoint os n w"
    "chainLockApps os ?c = chainLockApps os w" "pin_of os n ?c = pin_of os n w"
    "adapter_lan os n ?c = adapter_lan os n w" "chainLockLANs os n ?c = chainLockLANs os n w" for n
    by (auto simp: chainAdapterLUID_def hop_endpoint_def chainLockApps_def pin_of_def adapter_lan_def
        chainLockLANs_def chainLocalNetworks_def fun_eq_iff cong: option.case_cong)
  from assms have cfg: "2 \<le> length ?hops" "chainAdapterLUID os (hd ?hops) w = Some (Hop1LUID cfg)"
      "chainAdapterLUID os (last ?hops) w = Some (Hop2LUID cfg)" "AllowedApps cfg = chainLockApps os w"
      "lock_endpoints os (hd ?hops) (last ?hops) ?c
        = Some (Hop1Endpoint cfg, Hop1Port cfg, Hop2Endpoint cfg, Hop2Port cfg)"
    using lock_config_fields [OF assms] by (simp_all add: Let_def same)
  have lans: "AllowedLANs cfg = (if AllowLAN (fst (ChainSettingsFor os leaf w)) then chainLockLANs os (hd ?hops) w else [])"
    and dns: "DNSServers cfg = chainLockDNS os (last ?hops) ?c"
    using assms ChainSettingsFor_cached [of os leaf w] lock_config_world [OF assms]
    by (auto simp: lock_config_def Let_def chainSettingsLANs_def same
        split: if_splits option.splits prod.splits)
  show "2 \<le> length ?hops" by (rule cfg)
  show "lock_contents os leaf ?hops w cfg"
    using cfg lans dns lock_endpoints_hops [OF cfg(5)] chainLockDNS_exact [of os ?c "last ?hops"]
    by (auto simp: lock_contents_def same list_all_iff intro: chainLockLANs_private)
qed

end
