(* ===== verification/LockRetry.thy ===== *)
theory LockRetry
  imports ChainLock
begin

text \<open>
  The tries of the re-arming after a repair (\<open>chainRearmLockAfterRepair\<close> of
  \<open>upstream-manager/chainrelock.go\<close>), told one by one: a lock that is off at the end was either
  refused by every try, or the box of the kill switch was cleared while it was on.
\<close>

text \<open>\<open>k\<close> tries one after the other, a gap after each, every one answering that it failed.\<close>

fun failed_tries :: "os \<Rightarrow> string \<Rightarrow> nat \<Rightarrow> world \<Rightarrow> world \<Rightarrow> bool" where
  "failed_tries os leaf 0 w w' \<longleftrightarrow> w' = w"
| "failed_tries os leaf (Suc k) w w' \<longleftrightarrow>
     (\<not> fst (chainArmLockInProc os leaf w)
      \<and> failed_tries os leaf k (sleep os chainRelockGap (snd (chainArmLockInProc os leaf w))) w')"

section \<open>The settings stay\<close>

lemma book_fields:
  "chainSettingsCache v = chainSettingsCache w \<Longrightarrow> w_book_file v = w_book_file w \<Longrightarrow> current_book v = current_book w"
  by (simp add: current_book_def cong: option.case_cong)

lemma book_kept [simp]:
  "current_book (sleep os d w) = current_book w" "current_book (spawn t w) = current_book w"
  "current_book (act a w) = current_book w" "current_book (snd (enable_lock os cfg w)) = current_book w"
  "current_book (disable_lock w) = current_book w" "current_book (chainDropIPv6Block w) = current_book w"
  "current_book (close_opt ch w) = current_book w" "current_book (snd (new_channel w)) = current_book w"
  "current_book (w\<lparr>chainSettingsCache := Some (current_book w)\<rparr>) = current_book w"
  by (simp_all add: current_book_def sleep_def spawn_def act_def enable_lock_def disable_lock_def
      chainDropIPv6Block_def close_opt_def close_channel_def new_channel_def Let_def
      split: sum.split option.split)

lemma ipv6_book [simp]: "current_book (chainApplyIPv6For os leaf w) = current_book w"
proof -
  have "current_book (w\<lparr>ipv6Session := s\<rparr>) = current_book w" for w s by (rule book_fields) simp_all
  then show ?thesis
    by (simp add: chainApplyIPv6For_def ChainSettingsFor_eq split: sum.split)
qed

lemma arm_book [simp]: "current_book (snd (chainArmLockInProc os leaf w)) = current_book w"
proof -
  have switch: "current_book (v\<lparr>w_channels := n, chainLockOn := b, chainLockLeaf := l, chainLockStop := s\<rparr>)
      = current_book v" for v n b l s
    by (rule book_fields) simp_all
  show ?thesis
    using lock_config_world [of os leaf "w\<lparr>chainSettingsCache := Some (current_book w)\<rparr>"]
    by (auto simp: chainArmLockInProc_def ChainSettingsFor_eq new_channel_def switch case_prod_beta Let_def
        split: option.split)
qed

lemma disarm_book [simp]: "current_book (snd (chainDisarmLockInProc w)) = current_book w"
proof -
  have "current_book (v\<lparr>chainLockOn := b, chainLockLeaf := l, chainLockStop := s\<rparr>) = current_book v" for v b l s
    by (rule book_fields) simp_all
  then show ?thesis by (simp add: chainDisarmLockInProc_def Let_def)
qed

lemma wants_lock_book: "current_book v = current_book w \<Longrightarrow> wants_lock os leaf v = wants_lock os leaf w"
  by (simp add: wants_lock_def ChainSettingsFor_eq)

section \<open>Every try failed\<close>

lemma relock_arm_failed:
  "wants_lock os leaf w \<Longrightarrow> \<not> chainLockOn (relock_arm os leaf k w) \<Longrightarrow>
   failed_tries os leaf k w (relock_arm os leaf k w)"
proof (induction k arbitrary: w)
  case (Suc k)
  let ?v = "sleep os chainRelockGap (snd (chainArmLockInProc os leaf w))"
  have fail: "\<not> fst (chainArmLockInProc os leaf w)"
    using Suc.prems chainArmLockInProc_on [of os leaf w] by (auto simp: case_prod_beta Let_def split: if_splits)
  then have next_try: "relock_arm os leaf (Suc k) w = relock_arm os leaf k ?v"
    by (simp add: case_prod_beta Let_def)
  have "wants_lock os leaf ?v" using Suc.prems(1) wants_lock_book [of ?v w] by simp
  with Suc.IH [of ?v] Suc.prems(2) fail show ?case unfolding next_try by simp
qed simp

lemma relock_arm_unwanted:
  assumes "\<not> wants_lock os leaf w"
  shows "chainArmLockInProc os leaf w = (True, relock_arm os leaf (Suc k) w)"
  by (rule chainArmLockInProc_cases [of os leaf w]) (use assms in auto)

lemma relock_arm_outcome:
  assumes "\<not> chainLockOn (relock_arm os leaf (Suc k) w)"
  shows "if wants_lock os leaf w then failed_tries os leaf (Suc k) w (relock_arm os leaf (Suc k) w)
    else chainArmLockInProc os leaf w = (True, relock_arm os leaf (Suc k) w)"
  using relock_arm_failed [OF _ assms] relock_arm_unwanted [of os leaf w k] by (simp del: relock_arm.simps failed_tries.simps)

lemma rearm_outcome:
  assumes "\<not> chainLockOn (relock_arm os leaf chainRelockTries (snd (chainDisarmLockInProc w)))"
  shows "if wants_lock os leaf w
    then failed_tries os leaf chainRelockTries (snd (chainDisarmLockInProc w))
      (relock_arm os leaf chainRelockTries (snd (chainDisarmLockInProc w)))
    else chainArmLockInProc os leaf (snd (chainDisarmLockInProc w))
      = (True, relock_arm os leaf chainRelockTries (snd (chainDisarmLockInProc w)))"
proof -
  have tries: "\<exists>k. chainRelockTries = Suc k" by (simp add: chainRelockTries_def)
  have "wants_lock os leaf (snd (chainDisarmLockInProc w)) = wants_lock os leaf w"
    by (rule wants_lock_book) simp
  with relock_arm_outcome [of os leaf] assms tries show ?thesis by metis
qed

lemma relock_wait_book: "current_book (snd (relock_wait os leaf k w)) = current_book w"
  by (induction k arbitrary: w) auto

text \<open>The whole of the re-arming, when the lock is off after it.\<close>

lemma chainRearmLockAfterRepair_failed:
  assumes "lock_inv w" and "chainLockOn w" and off: "\<not> chainLockOn (chainRearmLockAfterRepair os leaf w)"
  shows "\<exists>w1. chainRelockAdaptersReady os leaf w1 \<and> lock_part w1 = lock_part w \<and> chainLockOn w1
    \<and> (if wants_lock os leaf w
       then failed_tries os leaf chainRelockTries (snd (chainDisarmLockInProc w1)) (chainRearmLockAfterRepair os leaf w)
       else chainArmLockInProc os leaf (snd (chainDisarmLockInProc w1))
         = (True, chainRearmLockAfterRepair os leaf w))"
proof -
  let ?r = "relock_wait os leaf chainRelockTries w"
  have part: "lock_part (snd ?r) = lock_part w" by (rule relock_wait_same)
  then have on: "chainLockOn (snd ?r)" using assms(2) by (simp add: lock_part_def)
  then have ready: "fst ?r"
    using off assms(2) by (auto simp: chainRearmLockAfterRepair_def split: prod.splits if_splits)
  have seen: "chainRelockAdaptersReady os leaf (snd ?r)"
    using ready relock_wait_ready [of os leaf 99 w] by (simp add: chainRelockTries_def)
  have res: "chainRearmLockAfterRepair os leaf w
      = relock_arm os leaf chainRelockTries (snd (chainDisarmLockInProc (snd ?r)))"
    using ready off assms(2) by (auto simp: chainRearmLockAfterRepair_def split: prod.splits)
  have "wants_lock os leaf (snd ?r) = wants_lock os leaf w" by (rule wants_lock_book) (rule relock_wait_book)
  with rearm_outcome [of os leaf "snd ?r"] off seen part on show ?thesis unfolding res by metis
qed

end
