(* ===== verification/GuardClaims.thy ===== *)
theory GuardClaims
  imports Samples LockContents LockRetry
begin

text \<open>
  The properties of the protection: the filters of the kill switch and of the IPv6 block, the
  settings that rule them, and the lock the manager keeps
  (\<open>fork-sources/chainfirewall.go\<close>, \<open>upstream-manager/chainsettings.go\<close>, \<open>chainlock.go\<close>,
  \<open>chainrelock.go\<close>).
\<close>

section \<open>The filters\<close>

text \<open>
  C1: While the kill switch stands, a packet is let out only if it goes from an allowed
  application over UDP to one of the two endpoints (to the inner one through the outer tunnel),
  or is a query to a resolver of the chain through the inner tunnel, or is not a query at all
  and goes through the inner tunnel, stays on the machine, is DHCP or stays in an allowed local
  network. No name is ever resolved outside the chain.
\<close>

theorem kill_switch_no_leak:
  assumes "documented_api api loopback dhcp"
    and "EnableChainFirewall api (Some cfg) None = Inr s" and "session_permits s k"
  shows "to_endpoint cfg k \<or> to_resolver cfg k
    \<or> \<not> is_dns k \<and> (k_luid k = Hop2LUID cfg \<or> loopback k \<or> dhcp k \<or> to_lan cfg k)"
  using assms by (rule enabled_permits)

definition query_outside :: packet where
  "query_outside = \<lparr> k_layer = ConnectV4, k_app = ''browser.exe'', k_proto = 17,
     k_remote = be32 [8, 8, 8, 8], k_port = 53, k_luid = 5, k_other = (\<lambda>_. False) \<rparr>"

theorem kill_switch_no_leak_witness: "\<not> session_permits sample_session query_outside"
  using kill_switch_no_leak [OF sample_api_documented sample_enabled, of query_outside]
  by (auto simp: query_outside_def to_endpoint_def to_resolver_def is_dns_def sample_firewall_def
      IPPROTO_UDP_def)

text \<open>
  C35: The kill switch does not cut the chain itself: packets to the endpoints and queries to
  the resolvers of the chain are let out, whatever else the machine filters at lower weights.
\<close>

theorem kill_switch_keeps_chain:
  assumes "documented_api api loopback dhcp"
    and "EnableChainFirewall api (Some cfg) None = Inr s" and "to_endpoint cfg k \<or> to_resolver cfg k"
  shows "session_permits s k"
proof -
  from EnableChainFirewall_cases [OF assms(2,1)] obtain fs where fs: "chain_installer api cfg = Inr fs"
    "s = Some fs" and cfg: "to4 (Hop1Endpoint cfg) \<noteq> None" "to4 (Hop2Endpoint cfg) \<noteq> None"
    by (metis option.inject)
  from chain_installer_reach [OF fs(1) assms(1) cfg] assms(3) show ?thesis
    by (auto simp: session_permits_def fs(2))
qed

theorem kill_switch_keeps_chain_witness:
  "session_permits sample_session
     (query_outside\<lparr>k_app := ''awgchain.exe'', k_remote := be32 [162, 159, 192, 1], k_port := 500\<rparr>)"
  by (rule kill_switch_keeps_chain [OF sample_api_documented sample_enabled])
     (simp add: to_endpoint_def query_outside_def sample_firewall_def is_v4_def IPPROTO_UDP_def to4_def)

text \<open>
  With the IPv6 block in place the only IPv6 packets that pass are those of the loopback
  interface.
\<close>

theorem ipv6_block_closed:
  assumes doc: "documented_api api loopback dhcp"
    and on: "EnableIPv6Block api None = Inr s" and v6: "k_layer k = ConnectV6 \<or> k_layer k = AcceptV6"
    and perm: "session_permits s k"
  shows "loopback k"
proof -
  note doc = documentedD [OF doc]
  from on obtain fs where "run_transaction api (ipv6_installer api) = Inr fs" and s: "s = Some fs"
    by (auto simp: EnableIPv6Block_def rbind_Inr_iff split: if_splits)
  then have "ipv6_installer api = Inr fs" using doc(6) by blast
  then obtain l where l: "permit_loopback api 11 = Inr l" and fs: "fs = l @ on_layers [ConnectV6, AcceptV6] 0 [] BlockIt"
    by (auto simp: ipv6_installer_def blockIPv6_def rbind_Inr_iff split: if_splits dest!: add_filters_result)
  have "\<exists>f\<in>set fs. matches k f"
    by (intro bexI [of _ "\<lparr> f_layer = k_layer k, f_weight = 0, f_conds = [], f_action = BlockIt \<rparr>"])
       (use v6 in \<open>auto simp: fs set_on_layers matches_def\<close>)
  with perm obtain f where "f \<in> set fs" "matches k f" "f_action f = Permit"
    by (auto simp: session_permits_def s permitted_iff)
  then show ?thesis using doc(2) [OF l, of f k] by (auto simp: fs set_on_layers)
qed

theorem ipv6_block_closed_witness:
  "\<exists>s. EnableIPv6Block sample_api None = Inr s
     \<and> \<not> session_permits s (query_outside\<lparr>k_layer := ConnectV6\<rparr>)"
proof -
  have "\<exists>s. EnableIPv6Block sample_api None = Inr s"
    by (simp add: EnableIPv6Block_def ipv6_installer_def blockIPv6_def sample_api_def on_layers_def)
  then obtain s where s: "EnableIPv6Block sample_api None = Inr s" ..
  have "\<not> session_permits s (query_outside\<lparr>k_layer := ConnectV6\<rparr>)"
    using ipv6_block_closed [OF sample_api_documented s, of "query_outside\<lparr>k_layer := ConnectV6\<rparr>"]
    by (auto simp: query_outside_def)
  with s show ?thesis by blast
qed

text \<open>
  Resolvers that are all IPv6 are an error of the rule set, so the kill switch cannot be
  enabled for such a chain and the session stays closed.
\<close>

theorem ipv6_resolvers_disable_kill_switch:
  assumes "documented_api api loopback dhcp" and "DNSServers cfg \<noteq> []"
    and "\<forall>a\<in>set (DNSServers cfg). to4 a = None"
  shows "\<not> (\<exists>s. EnableChainFirewall api (Some cfg) None = Inr s)"
proof
  assume "\<exists>s. EnableChainFirewall api (Some cfg) None = Inr s"
  then obtain fs where "chain_installer api cfg = Inr fs"
    using EnableChainFirewall_cases [OF _ assms(1)] by (metis option.inject)
  moreover have "dns_addresses (DNSServers cfg) = []" using assms(3) by (simp add: dns_addresses_def filter_empty_conv)
  ultimately show False
    using assms(2) by (auto simp: chain_installer_def permitChainDNS_def rbind_Inr_iff split: if_split_asm)
qed

theorem ipv6_resolvers_disable_kill_switch_witness:
  "\<not> (\<exists>s. EnableChainFirewall sample_api
       (Some (sample_firewall\<lparr>DNSServers := [replicate 15 0 @ [1]]\<rparr>)) None = Inr s)"
proof -
  have "to4 (replicate 15 0 @ [1]) = None" by code_simp
  then show ?thesis
    by (intro ipv6_resolvers_disable_kill_switch [OF sample_api_documented]) simp_all
qed

section \<open>The settings\<close>

text \<open>
  What \<open>ChainSettingsSave\<close> stores for a tunnel is what \<open>ChainSettingsFor\<close> answers from then on,
  for every spelling of the name that lower-cases alike, whether or not the file could be
  written; the settings of other tunnels stay, once any boxes were saved before; and when the
  call succeeds the file holds the book in force.
\<close>

theorem settings_saved:
  assumes "to_lower (os_unicode os) m = to_lower (os_unicode os) n"
    and "to_lower (os_unicode os) other \<noteq> to_lower (os_unicode os) n" and "\<not> Inherited (current_book w)"
  shows "let (ok, w') = ChainSettingsSave os n s w in
    fst (ChainSettingsFor os m w') = s
    \<and> fst (ChainSettingsFor os other w') = fst (ChainSettingsFor os other w)
    \<and> (ok \<longrightarrow> w_book_file w' = Some (current_book w'))"
proof -
  let ?r = "ChainSettingsSave os n s w"
  have "fst (ChainSettingsFor os m (snd ?r)) = s"
    using assms(1) by (simp add: ChainSettingsFor_eq ChainSettingsSave_book book_settings_def)
  moreover have "fst (ChainSettingsFor os other (snd ?r)) = fst (ChainSettingsFor os other w)"
    using assms(2,3) by (rule ChainSettingsSave_other)
  moreover have "fst ?r \<longrightarrow> w_book_file (snd ?r) = Some (current_book (snd ?r))"
    using ChainSettingsSave_file by blast
  ultimately show ?thesis by (simp add: case_prod_beta Let_def)
qed

theorem settings_saved_witness:
  "fst (ChainSettingsFor sample_os ''Pair'' (snd (ChainSettingsSave sample_os ''pair''
      \<lparr> KillSwitch = False, BlockIPv6 = True, AllowLAN = False \<rparr>
      (sample_world\<lparr>chainSettingsCache := Some (default_book\<lparr>Inherited := False\<rparr>)\<rparr>))))
    = \<lparr> KillSwitch = False, BlockIPv6 = True, AllowLAN = False \<rparr>"
proof -
  have "to_lower u ''Pair'' = to_lower u ''pair''" "to_lower u ''warp'' \<noteq> to_lower u ''pair''" for u
    by (simp_all add: to_lower_ascii is_ascii_def)
  then show ?thesis
    using settings_saved [of sample_os "''Pair''" "''pair''" "''warp''"
      "sample_world\<lparr>chainSettingsCache := Some (default_book\<lparr>Inherited := False\<rparr>)\<rparr>"]
    by (simp add: case_prod_beta Let_def)
qed

section \<open>The lock\<close>

text \<open>
  Arming, lifting, re-arming and the stop event keep the variables of the lock together:
  it counts as on exactly while its session is open, and then its stop channel is open too.
\<close>

theorem lock_variables_agree:
  assumes "lock_inv w"
  shows "lock_inv (snd (chainArmLockInProc os leaf w)) \<and> lock_inv (snd (chainDisarmLockInProc w))
    \<and> lock_inv (chainRearmLockAfterRepair os leaf w) \<and> lock_inv (chainServeLiftLock w)
    \<and> lock_inv (snd (chainLockWatchStopEvent stop signalled w))"
  using assms chainArmLockInProc_inv chainDisarmLockInProc_off(2) chainRearmLockAfterRepair_inv
  by (auto simp: chainServeLiftLock_def chainLockWatchStopEvent_def)

theorem lock_variables_agree_witness:
  "lock_inv (snd (chainArmLockInProc sample_os ''pair'' sample_world))"
  using lock_variables_agree [OF sample_world_inv] by blast

text \<open>
  C2: When arming answers that the machine is protected and the settings ask for the kill
  switch, the lock is on. If it was on before, its session is the one it was. If not, the
  session lets out nothing but what the kill switch allows for a rule set that holds the
  adapters of the two ends of this chain, for each end the address and the port of a peer of its
  stored configuration, the resolvers of the innermost hop and no others, this executable and the
  one beside it, and, only with the box for local networks ticked, private on-link routes of the
  adapter the first hop is pinned to.
\<close>

theorem armed_means_locked:
  assumes inv: "lock_inv w" and wants: "wants_lock os leaf w"
    and doc: "\<forall>h. documented_api (os_firewall os h) loopback dhcp"
    and arm: "chainArmLockInProc os leaf w = (True, w')"
  shows "chainLockOn w' \<and> (if chainLockOn w then chainSession w' = chainSession w
    else (\<exists>cfg hops. hops = chainHopOrder (os_store os) (w_dir w) leaf \<and> 2 \<le> length hops
      \<and> lock_contents os leaf hops w cfg
      \<and> (\<forall>k. session_permits (chainSession w') k \<longrightarrow> to_endpoint cfg k \<or> to_resolver cfg k
          \<or> \<not> is_dns k \<and> (k_luid k = Hop2LUID cfg \<or> loopback k \<or> dhcp k \<or> to_lan cfg k))))"
proof (rule chainArmLockInProc_cases [of os leaf w])
  fix cfg v h
  assume res: "chainArmLockInProc os leaf w = (True, v)" and on: "chainLockOn v" and off: "\<not> chainLockOn w"
    and cfg: "\<exists>w1. lock_config os leaf (w\<lparr>chainSettingsCache := Some (current_book w)\<rparr>) = Some (cfg, w1)"
    and fw: "EnableChainFirewall (os_firewall os h) (Some cfg) None = Inr (chainSession v)"
  from arm res have v: "v = w'" by simp
  from EnableChainFirewall_cases [OF fw spec [OF doc, of h]] obtain fs where
    fs: "chain_installer (os_firewall os h) cfg = Inr fs" "chainSession w' = Some fs"
      "to4 (Hop1Endpoint cfg) \<noteq> None" "to4 (Hop2Endpoint cfg) \<noteq> None" "Hop1LUID cfg \<noteq> 0"
    unfolding v by (metis option.inject)
  have "to_endpoint cfg k \<or> to_resolver cfg k
      \<or> \<not> is_dns k \<and> (k_luid k = Hop2LUID cfg \<or> loopback k \<or> dhcp k \<or> to_lan cfg k)"
    if "session_permits (chainSession w') k" for k
    using that chain_installer_permits [OF fs(1) spec [OF doc] fs(3-5), of k] by (simp add: fs(2) session_permits_def)
  moreover from cfg lock_config_contents have "2 \<le> length (chainHopOrder (os_store os) (w_dir w) leaf)"
    "lock_contents os leaf (chainHopOrder (os_store os) (w_dir w) leaf) w cfg" by blast+
  ultimately show ?thesis using on off v by auto
qed (use wants arm in simp_all)

theorem armed_means_locked_witness:
  "\<exists>w'. chainArmLockInProc sample_os ''pair'' sample_world = (True, w')
     \<and> \<not> session_permits (chainSession w') query_outside"
proof -
  from sample_arm obtain w' where arm: "chainArmLockInProc sample_os ''pair'' sample_world = (True, w')" by blast
  have wants: "wants_lock sample_os ''pair'' sample_world" and off: "\<not> chainLockOn sample_world"
    by (simp_all add: wants_lock_def sample_settings chainSettingsDefaults_def)
  let ?c = "sample_world\<lparr>chainSettingsCache := Some default_book\<rparr>"
  have "chainAdapterLUID sample_os ''pair'' ?c = Some 18" "chainLockApps sample_os ?c = [self_path]"
    using sample_lock_config [of ?c] lock_config_fields [of sample_os "''pair''" ?c]
    by (auto simp: sample_hops Let_def)
  then have luid: "chainAdapterLUID sample_os ''pair'' sample_world = Some 18"
    "chainLockApps sample_os sample_world = [self_path]"
    by (auto simp: chainAdapterLUID_def chainLockApps_def cong: option.case_cong)
  from armed_means_locked [OF sample_world_inv wants _ arm, of "\<lambda>k. k_other k 0" "\<lambda>k. k_other k 1"]
  have "\<not> session_permits (chainSession w') query_outside"
    using luid sample_api_documented off
    by (auto simp: lock_contents_def self_path_def sample_settings sample_hops query_outside_def to_endpoint_def
        to_resolver_def is_dns_def IPPROTO_UDP_def)
  with arm show ?thesis by blast
qed

text \<open>
  C6: Re-arming after a repair does not open the machine early: if the lock is off afterwards,
  the adapters of both ends had been seen while the old lock still stood, and then every one of
  the hundred tries to arm it on them answered that it failed. The one other way is that the box
  of the kill switch was cleared while the lock stood: then the first try answers that nothing is
  to be done.
\<close>

theorem rearm_holds_lock:
  assumes "lock_inv w" and "chainLockOn w" and "\<not> chainLockOn (chainRearmLockAfterRepair os leaf w)"
  shows "\<exists>w1. chainRelockAdaptersReady os leaf w1 \<and> lock_part w1 = lock_part w \<and> chainLockOn w1
    \<and> (if wants_lock os leaf w
       then failed_tries os leaf 100 (snd (chainDisarmLockInProc w1)) (chainRearmLockAfterRepair os leaf w)
       else chainArmLockInProc os leaf (snd (chainDisarmLockInProc w1))
         = (True, chainRearmLockAfterRepair os leaf w))"
  using chainRearmLockAfterRepair_failed [OF assms] unfolding chainRelockTries_def .

definition locked_world :: world where
  "locked_world = sample_world\<lparr>chainLockOn := True, chainSession := Some [], chainLockStop := Some 0,
     w_channels := 1, chainLockLeaf := ''pair''\<rparr>"

definition closed_engine :: os where
  "closed_engine = sample_os\<lparr>os_firewall := (\<lambda>_. sample_api\<lparr>api_open := False\<rparr>)\<rparr>"

lemma closed_engine_never_arms: "\<not> chainLockOn w \<Longrightarrow> \<not> chainLockOn (relock_arm closed_engine leaf k w)"
  by (rule shut_engine_never_arms) (simp_all add: closed_engine_def)

theorem rearm_holds_lock_witness:
  "\<exists>w1. chainLockOn w1 \<and> chainRelockAdaptersReady closed_engine ''pair'' w1
     \<and> failed_tries closed_engine ''pair'' 100 (snd (chainDisarmLockInProc w1))
         (chainRearmLockAfterRepair closed_engine ''pair'' locked_world)"
proof -
  have store: "os_store closed_engine = sample_env" "os_adapters closed_engine = os_adapters sample_os"
    "os_no_inproc_lock closed_engine h = False" for h
    by (simp_all add: closed_engine_def)
  have "chainRelockAdaptersReady closed_engine ''pair'' locked_world"
    by (simp add: chainRelockAdaptersReady_def store locked_world_def sample_hops chainAdapterLUID_def
        sample_folds) (simp add: sample_os_def sample_folds)
  then have "relock_wait closed_engine ''pair'' (Suc k) locked_world = (True, locked_world)" for k by simp
  moreover have "chainRelockTries = Suc (chainRelockTries - 1)" by (simp add: chainRelockTries_def)
  ultimately have "relock_wait closed_engine ''pair'' chainRelockTries locked_world = (True, locked_world)"
    by metis
  then have off: "\<not> chainLockOn (chainRearmLockAfterRepair closed_engine ''pair'' locked_world)"
    using closed_engine_never_arms chainDisarmLockInProc_off(1)
    by (simp add: chainRearmLockAfterRepair_def store)
  moreover have "lock_inv locked_world" "chainLockOn locked_world"
    by (simp_all add: lock_inv_def locked_world_def sample_world_def)
  moreover have "wants_lock closed_engine ''pair'' locked_world"
    by (simp add: wants_lock_def ChainSettingsFor_eq locked_world_def sample_world_def current_book_def
        default_book_def book_settings_def chainSettingsDefaults_def)
  ultimately show ?thesis using rearm_holds_lock by metis
qed

text \<open>
  The kill switch understands every endpoint the manager composes for a hop.
\<close>

theorem endpoint_understood:
  assumes "chainEndpointOf os name w = Inr t"
  shows "\<exists>a p. chainParseEndpoint t = Some (a, p) \<and> to4 a \<noteq> None"
  using assms by (rule chainEndpointOf_understood)

theorem endpoint_understood_witness:
  "\<exists>a p. chainParseEndpoint (ip_string (v4_mapped [203, 0, 113, 5]) @ '':'' @ dec 443) = Some (a, p)"
  using endpoint_understood [OF sample_hop_endpoints(2) [of sample_world]] by auto

end
