(* ===== verification/ChainStart.thy ===== *)
theory ChainStart
  imports ChainGuard
begin

text \<open>
  Starting, stopping and repairing a chain: \<open>Start\<close>, \<open>Stop\<close>, \<open>Delete\<close>, \<open>Create\<close> of
  \<open>upstream-manager/ipc_server.go\<close>, the parents and children of \<open>chainorder.go\<close>,
  \<open>chainretry.go\<close>, the repairs and the watch of \<open>chainguard.go\<close>.

  \<open>Start\<close> calls itself for the hop underneath with the depth counter back at 0, so nothing in the
  code bounds the recursion. Its model has the depth of calls as its first argument: \<open>None\<close> says
  that the call has not returned within it (or that \<open>InstallTunnel\<close> waits forever). A panic ends
  the calls without retries.
\<close>

fun is_panic :: "manager_error \<Rightarrow> bool" where
  "is_panic (MPanic _) = True"
| "is_panic (MConf (Panic _)) = True"
| "is_panic (MStore (ConfError (Panic _))) = True"
| "is_panic _ = False"

section \<open>The hop underneath\<close>

type_synonym starter = "string \<Rightarrow> world \<Rightarrow> outcome option"

definition chainHopStartTries :: nat where "chainHopStartTries = 5"
definition chainHopStartRetryGap :: nat where "chainHopStartRetryGap = 2 * second"

text \<open>The loop by the tries left, one of them being made now.\<close>

fun start_tries :: "starter \<Rightarrow> os \<Rightarrow> nat \<Rightarrow> string \<Rightarrow> world \<Rightarrow> outcome option" where
  "start_tries start os 0 name w = Some (None, w)"
| "start_tries start os (Suc k) name w =
     (case start name w of
        None \<Rightarrow> None
      | Some (None, w1) \<Rightarrow> Some (None, w1)
      | Some (Some e, w1) \<Rightarrow>
          if k = 0 \<or> is_panic e then Some (Some e, w1)
          else start_tries start os k name (sleep os chainHopStartRetryGap (chainWaitStopped os name w1)))"

definition chainStartHopWithRetry :: "starter \<Rightarrow> os \<Rightarrow> string \<Rightarrow> world \<Rightarrow> outcome option" where
  "chainStartHopWithRetry start os name w = start_tries start os chainHopStartTries name w"

definition chainStartParents :: "starter \<Rightarrow> os \<Rightarrow> string \<Rightarrow> nat \<Rightarrow> world \<Rightarrow> outcome option" where
  "chainStartParents start os name depth w =
     (let parent = chainParentName (os_store os) (w_dir w) name in
      if chainMaxDepth \<le> depth then Some (None, w)
      else if parent = [] then Some (None, w)
      else if hop_is_up os parent w then Some (None, w)
      else if State os parent w = Inr TunnelStarted \<or> State os parent w = Inr TunnelStarting
      then Some (chainWaitForHop os parent w)
      else (case chainStartHopWithRetry start os parent w of
              None \<Rightarrow> None
            | Some (Some e, w1) \<Rightarrow> Some (Some (if is_panic e then e else CannotRaise parent e), w1)
            | Some (None, w1) \<Rightarrow> Some (chainWaitForHop os parent w1)))"

section \<open>Starting a tunnel\<close>

definition chainInstallAndArm :: "os \<Rightarrow> string \<Rightarrow> string \<Rightarrow> world \<Rightarrow> outcome option" where
  "chainInstallAndArm os name path w =
     (case InstallTunnel os path w of
        None \<Rightarrow> None
      | Some (Some e, w1) \<Rightarrow> Some (Some e, w1)
      | Some (None, w1) \<Rightarrow>
          Some (None,
            if \<not> chainHopByName (os_store os) (w_dir w1) name then w1
            else if chainChildNames (os_store os) (w_dir w1) name \<noteq> [] then w1
            else spawn (ArmWhenReady name) w1))"

text \<open>
  The tracked tunnels in the way, up to the first one in transition. The configuration is handed
  on as \<open>IntersectsWith\<close> leaves it, with its addresses masked.
\<close>

fun intersecting ::
  "os \<Rightarrow> world \<Rightarrow> config \<Rightarrow> string list \<Rightarrow> (string \<times> tunnel_state) list \<Rightarrow>
   manager_error + (config \<times> string list \<times> string)"
where
  "intersecting os w c tt [] = Inr (c, tt, [])"
| "intersecting os w c tt ((t, state) # rest) =
     (case loaded (os_store os) (w_dir w) t of
        None \<Rightarrow> intersecting os w c tt rest
      | Some c2 \<Rightarrow>
          (case intersects_with c c2 of
             Inl e \<Rightarrow> Inl (MConf e)
           | Inr (b, c', c2') \<Rightarrow>
               if \<not> b then intersecting os w c' tt rest
               else if chainSiblings (os_unicode os) c' c2' then intersecting os w c' tt rest
               else if t \<noteq> [] \<and> (state = TunnelStarting \<or> state = TunnelUnknown)
               then Inr (c', tt @ [t], t)
               else intersecting os w c' (tt @ [t]) rest))"

text \<open>From the parents being up to the service: \<open>Start\<close> without its first part.\<close>

definition start_here :: "os \<Rightarrow> string \<Rightarrow> config \<Rightarrow> world \<Rightarrow> outcome option" where
  "start_here os name c w =
     (case intersecting os w c [] (os_tracked os (w_history w)) of
        Inl e \<Rightarrow> Some (Some e, w)
      | Inr (c', tt, inTransition) \<Rightarrow>
          if inTransition \<noteq> [] then Some (Some (FinishActivating inTransition), w)
          else (let w1 = spawn (StopIntersecting tt) w in
                case Path (os_unicode os) (w_dir w1) c' of
                  Inl e \<Rightarrow> Some (Some (MStore e), w1)
                | Inr path \<Rightarrow> chainInstallAndArm os name path w1))"

fun Start :: "nat \<Rightarrow> os \<Rightarrow> starter" where
  "Start 0 os name w = None"
| "Start (Suc n) os name w =
     (case LoadFromName (os_store os) (w_dir w) name of
        Inl e \<Rightarrow> Some (Some (MStore e), w)
      | Inr c \<Rightarrow>
          (case chainStartParents (Start n os) os name 0 w of
             None \<Rightarrow> None
           | Some (Some e, w1) \<Rightarrow> Some (Some e, w1)
           | Some (None, w1) \<Rightarrow> start_here os name c w1))"

section \<open>Stopping a tunnel\<close>

text \<open>By the depth left; the errors are only logged.\<close>

fun stop_children :: "os \<Rightarrow> nat \<Rightarrow> string \<Rightarrow> world \<Rightarrow> world" where
  "stop_children os 0 name w = w"
| "stop_children os (Suc k) name w =
     fold (\<lambda>child w1.
         if State os child w1 = Inr TunnelStopped then w1
         else snd (UninstallTunnel os child (stop_children os k child w1)))
       (chainChildNames (os_store os) (w_dir w) name) w"

definition chainStopChildren :: "os \<Rightarrow> string \<Rightarrow> nat \<Rightarrow> world \<Rightarrow> world" where
  "chainStopChildren os name depth w = stop_children os (chainMaxDepth - depth) name w"

definition chainParentStillNeeded :: "os \<Rightarrow> string \<Rightarrow> string \<Rightarrow> world \<Rightarrow> bool" where
  "chainParentStillNeeded os parent except w =
     list_ex (\<lambda>child. \<not> equal_fold (os_unicode os) child except
         \<and> (State os child w = Inr TunnelStarted \<or> State os child w = Inr TunnelStarting))
       (chainChildNames (os_store os) (w_dir w) parent)"

fun stop_hidden_parents :: "os \<Rightarrow> nat \<Rightarrow> string \<Rightarrow> world \<Rightarrow> world" where
  "stop_hidden_parents os 0 name w = w"
| "stop_hidden_parents os (Suc k) name w =
     (let parent = chainHiddenParentOf (os_store os) (w_dir w) name in
      if parent = [] then w
      else if State os parent w = Inr TunnelStopped then w
      else if chainParentStillNeeded os parent name w then w
      else stop_hidden_parents os k parent (snd (UninstallTunnel os parent w)))"

definition chainStopHiddenParents :: "os \<Rightarrow> string \<Rightarrow> nat \<Rightarrow> world \<Rightarrow> world" where
  "chainStopHiddenParents os name depth w = stop_hidden_parents os (chainMaxDepth - depth) name w"

definition Stop :: "os \<Rightarrow> string \<Rightarrow> world \<Rightarrow> outcome" where
  "Stop os name w =
     (let w1 = chainStopChildren os name 0 (chainBeforeStop os name w);
          (err, w2) = UninstallTunnel os name w1;
          w3 = chainStopHiddenParents os name 0 w2
      in if err = Some (MWin ERROR_SERVICE_DOES_NOT_EXIST)
            \<and> loaded (os_store os) (w_dir w3) name \<noteq> None
         then (None, w3) else (err, w3))"

text \<open>The goroutine \<open>Start\<close> leaves behind to stop the tunnels in the way.\<close>

definition stop_zombie :: "os \<Rightarrow> string \<Rightarrow> world \<Rightarrow> world" where
  "stop_zombie os t w =
     (if State os t w = Inr TunnelStarted \<or> State os t w = Inr TunnelStarting
      then sleep os 100000000 (snd (Stop os t w)) else w)"

definition stop_intersecting :: "os \<Rightarrow> string list \<Rightarrow> world \<Rightarrow> world" where
  "stop_intersecting os tt w = fold (stop_zombie os) tt (fold (\<lambda>t w. snd (Stop os t w)) tt w)"

text \<open>The loop is the one \<open>InstallTunnel\<close> waits in, bounded by nothing.\<close>

definition WaitForStop :: "os \<Rightarrow> string \<Rightarrow> world \<Rightarrow> outcome option" where
  "WaitForStop os name w =
     (case os_service_name os name of
        Inl e \<Rightarrow> Some (Some e, w)
      | Inr svc \<Rightarrow>
     (case os_manager os (w_history w) of
        Some e \<Rightarrow> Some (Some (MWin e), w)
      | None \<Rightarrow> wait_gone os svc w))"

definition Delete :: "os \<Rightarrow> string \<Rightarrow> world \<Rightarrow> outcome" where
  "Delete os name w =
     (if \<not> os_elevated os then (Some (MWin ERROR_ACCESS_DENIED), w)
      else (case Stop os name w of
              (Some e, w1) \<Rightarrow> (Some e, w1)
            | (None, w1) \<Rightarrow>
                (case DeleteName (os_unicode os) (os_can_remove os (w_history w1)) (w_dir w1) name of
                   Inl e \<Rightarrow> (Some (MStore e), w1)
                 | Inr d \<Rightarrow> (None, act WriteStore w1\<lparr>w_dir := Some d\<rparr>))))"

definition Create :: "os \<Rightarrow> config \<Rightarrow> world \<Rightarrow> outcome" where
  "Create os c w =
     (if \<not> os_elevated os then (Some (MWin ERROR_ACCESS_DENIED), w)
      else (case Save (os_store os) (os_store_ok os (w_history w)) (w_dir w) c True of
              Inl e \<Rightarrow> (Some (MStore e), w)
            | Inr d \<Rightarrow> (None, act WriteStore w\<lparr>w_dir := Some d\<rparr>)))"

text \<open>
  \<open>haveQuit\<close> is the flag the first caller swaps; the answer is \<open>alreadyQuit\<close>, the error, and the
  flag and the world afterwards. The list of connected clients is not part of the model.
\<close>

definition Quit :: "os \<Rightarrow> bool \<Rightarrow> bool \<Rightarrow> world \<Rightarrow> bool \<times> manager_error option \<times> bool \<times> world" where
  "Quit os haveQuit stopTunnelsOnQuit w =
     (if \<not> os_elevated os then (False, Some (MWin ERROR_ACCESS_DENIED), haveQuit, w)
      else if haveQuit then (True, None, haveQuit, w)
      else if stopTunnelsOnQuit then
        (case ListConfigNames (os_unicode os) (w_dir w) of
           Inl e \<Rightarrow> (False, Some (MStore e), True, w)
         | Inr names \<Rightarrow> (False, None, True, fold (\<lambda>n w1. snd (UninstallTunnel os n w1)) names w))
      else (False, None, True, w))"

section \<open>Repairs and the watch\<close>

definition chainStartRetries :: nat where "chainStartRetries = 6"
definition chainStartRetryGap :: nat where "chainStartRetryGap = 3 * second"
definition chainWatchInterval :: nat where "chainWatchInterval = 5 * second"
definition chainRepairGrace :: nat where "chainRepairGrace = 25 * second"
definition chainSlowRepairGrace :: nat where "chainSlowRepairGrace = 300 * second"
definition chainMaxRepairs :: nat where "chainMaxRepairs = 20"

definition chainTearDown :: "os \<Rightarrow> string list \<Rightarrow> world \<Rightarrow> world" where
  "chainTearDown os hops w =
     fold (chainWaitStopped os) hops (fold (\<lambda>h w1. snd (UninstallTunnel os h w1)) (rev hops) w)"

text \<open>
  The attempts by the tries left. The flag says whether the chain came up; a panic in \<open>Start\<close>
  ends the process, and there is no repair.
\<close>

fun repair_tries :: "starter \<Rightarrow> os \<Rightarrow> string \<Rightarrow> string list \<Rightarrow> nat \<Rightarrow> world \<Rightarrow> (bool \<times> world) option" where
  "repair_tries start os leaf hops 0 w = Some (False, w)"
| "repair_tries start os leaf hops (Suc k) w =
     (case start leaf w of
        None \<Rightarrow> None
      | Some (None, w1) \<Rightarrow> Some (True, w1)
      | Some (Some e, w1) \<Rightarrow>
          if is_panic e then None
          else if k = 0 then Some (False, w1)
          else repair_tries start os leaf hops k
                 (chainTearDown os hops (sleep os chainStartRetryGap w1)))"

definition chainRepair :: "nat \<Rightarrow> os \<Rightarrow> string \<Rightarrow> world \<Rightarrow> world option" where
  "chainRepair n os leaf w =
     (let hops = chainHopOrder (os_store os) (w_dir w) leaf in
      case repair_tries (Start n os) os leaf hops chainStartRetries (chainTearDown os hops w) of
        None \<Rightarrow> None
      | Some (up, w1) \<Rightarrow> Some (if up then chainRearmLockAfterRepair os leaf w1 else w1))"

text \<open>The variables of the loop of \<open>chainWatch\<close>, and one turn of it after the interval.\<close>

record watch =
  failures :: nat
  slow :: bool
  lastRepair :: "nat option"

definition new_watch :: watch where "new_watch = \<lparr> failures = 0, slow = False, lastRepair = None \<rparr>"

definition watch_turn :: "nat \<Rightarrow> os \<Rightarrow> string \<Rightarrow> watch \<Rightarrow> world \<Rightarrow> (watch \<times> world) option" where
  "watch_turn n os leaf v w =
     (if chainTrouble os leaf w = None
      then Some (v\<lparr>failures := 0, slow := False\<rparr>, chainArmGuard os leaf w)
      else (let grace = (if slow v then chainSlowRepairGrace else chainRepairGrace) in
            if (case lastRepair v of None \<Rightarrow> False | Some t \<Rightarrow> w_now w < t + grace) then Some (v, w)
            else (case chainRepair n os leaf w of
                    None \<Rightarrow> None
                  | Some w1 \<Rightarrow>
                      Some (v\<lparr>failures := Suc (failures v), lastRepair := Some (w_now w1),
                              slow := (slow v \<or> chainMaxRepairs \<le> Suc (failures v))\<rparr>, w1))))"

definition chainAutoRaiseOnStart :: "nat \<Rightarrow> os \<Rightarrow> world \<Rightarrow> world option" where
  "chainAutoRaiseOnStart n os w =
     (let (global, w1) = ChainGlobal w in
      if \<not> RaiseOnStart global \<or> RaiseTunnel global = [] then Some w1
      else map_option snd (Start n os (RaiseTunnel global) (sleep os (5 * second) w1)))"

section \<open>What leaves the protection alone\<close>

lemma wait_quiet [simp]:
  "quiet w v \<Longrightarrow> quiet w (chainWaitStopped os name v)"
  "quiet w v \<Longrightarrow> quiet w (snd (chainWaitForHop os name v))"
  "quiet w v \<Longrightarrow> quiet w (snd (UninstallTunnel os name v))"
  using wait_stopped_quiet wait_hop_quiet UninstallTunnel_quiet quiet_trans
  by (metis chainWaitStopped_def, metis chainWaitForHop_def, metis)

definition quiet_call :: "(world \<Rightarrow> outcome option) \<Rightarrow> bool" where
  "quiet_call f \<longleftrightarrow> (\<forall>w e w'. f w = Some (e, w') \<longrightarrow> quiet w w')"

lemma quiet_callD: "quiet_call f \<Longrightarrow> f w = Some (e, w') \<Longrightarrow> quiet w w'"
  by (auto simp: quiet_call_def)

text \<open>The ways the hop underneath is dealt with.\<close>

lemma chainStartParents_cases:
  assumes "chainStartParents start os name depth w = Some (r, w')"
    and "parent = chainParentName (os_store os) (w_dir w) name"
  obtains
    (nothing) "r = None" "w' = w" "chainMaxDepth \<le> depth \<or> parent = []"
  | (up) "r = None" "w' = w" "hop_is_up os parent w"
  | (wait) "parent \<noteq> []" "chainWaitForHop os parent w = (r, w')"
  | (failed) e where "parent \<noteq> []" "chainStartHopWithRetry start os parent w = Some (Some e, w')"
      "r = Some (if is_panic e then e else CannotRaise parent e)"
  | (raised) w1 where "parent \<noteq> []" "chainStartHopWithRetry start os parent w = Some (None, w1)"
      "chainWaitForHop os parent w1 = (r, w')"
  using assms(1) unfolding chainStartParents_def Let_def assms(2) [symmetric]
  by (fastforce split: if_splits option.splits prod.splits)

text \<open>
  The interface the retries, the parents and the repairs rely on: a start leaves the store and the
  protection alone.
\<close>

lemma chainTearDown_quiet: "quiet w (chainTearDown os hops w)"
proof -
  have "quiet w (fold (\<lambda>h w1. snd (UninstallTunnel os h w1)) hs v)" if "quiet w v" for hs v
    using that by (induction hs arbitrary: v) simp_all
  moreover have "quiet w (fold (chainWaitStopped os) hs v)" if "quiet w v" for hs v
    using that by (induction hs arbitrary: v) simp_all
  ultimately show ?thesis by (simp add: chainTearDown_def)
qed

locale chain_starter =
  fixes start :: starter
  assumes start_quiet: "quiet_call (start name)"
begin

lemma start_tries_quiet:
  "quiet_call (start_tries start os k name)"
proof -
  have "start_tries start os k name w = Some (e, w') \<Longrightarrow> quiet w w'" for w e w'
  proof (induction k arbitrary: w)
    case (Suc k)
    from Suc.prems obtain r w1 where r: "start name w = Some (r, w1)" by (auto split: option.splits)
    then have w1: "quiet w w1" by (rule quiet_callD [OF start_quiet])
    show ?case
    proof (cases "\<exists>e. r = Some e \<and> k \<noteq> 0 \<and> \<not> is_panic e")
      case True
      then have "start_tries start os k name (sleep os chainHopStartRetryGap (chainWaitStopped os name w1)) = Some (e, w')"
        using Suc.prems r by auto
      from Suc.IH [OF this] show ?thesis
        by (rule quiet_trans [rotated]) (simp add: w1)
    next
      case False
      then have "w' = w1" using Suc.prems r by (auto split: option.splits if_splits)
      with w1 show ?thesis by simp
    qed
  qed simp
  then show ?thesis by (simp add: quiet_call_def)
qed

lemma chainStartParents_quiet:
  "quiet_call (chainStartParents start os name depth)"
proof -
  have "quiet w w'" if *: "chainStartParents start os name depth w = Some (e, w')" for w e w'
  proof -
    let ?p = "chainParentName (os_store os) (w_dir w) name"
    have tries: "quiet w w1" if "chainStartHopWithRetry start os ?p w = Some (r, w1)" for r w1
      using quiet_callD [OF start_tries_quiet] that
      by (auto simp: chainStartHopWithRetry_def)
    have wait: "quiet w w'" if "chainWaitForHop os ?p v = (e, w')" "quiet w v" for v
      using wait_quiet(2) [OF that(2), of os ?p] that(1) by simp
    from * show ?thesis
      by (rule chainStartParents_cases) (auto dest: tries wait)
  qed
  then show ?thesis by (simp add: quiet_call_def)
qed

lemma repair_tries_quiet:
  "repair_tries start os leaf hops k w = Some (up, w') \<Longrightarrow> quiet w w'"
proof (induction k arbitrary: w)
  case (Suc k)
  from Suc.prems obtain r w1 where r: "start leaf w = Some (r, w1)" by (auto split: option.splits)
  then have w1: "quiet w w1" by (rule quiet_callD [OF start_quiet])
  let ?v = "chainTearDown os hops (sleep os chainStartRetryGap w1)"
  have v: "quiet w ?v" by (rule quiet_trans [OF _ chainTearDown_quiet]) (simp add: w1)
  from Suc.prems r consider "w' = w1" | "repair_tries start os leaf hops k ?v = Some (up, w')"
    by (auto split: option.splits if_splits)
  then show ?case
  proof cases
    case 2
    from quiet_trans [OF v Suc.IH [OF 2]] show ?thesis .
  qed (simp add: w1)
qed simp

lemma repair_tries_up:
  "repair_tries start os leaf hops k w = Some (True, w') \<Longrightarrow>
    \<exists>v. quiet w v \<and> start leaf v = Some (None, w')"
proof (induction k arbitrary: w)
  case (Suc k)
  from Suc.prems obtain r w1 where r: "start leaf w = Some (r, w1)" by (auto split: option.splits)
  let ?v = "chainTearDown os hops (sleep os chainStartRetryGap w1)"
  have "quiet w w1" by (rule quiet_callD [OF start_quiet r])
  then have v: "quiet w ?v" by (intro quiet_trans [OF _ chainTearDown_quiet]) simp
  from Suc.prems r consider "start leaf w = Some (None, w')"
    | "repair_tries start os leaf hops k ?v = Some (True, w')"
    by (auto split: option.splits if_splits)
  then show ?case
  proof cases
    case 1
    then show ?thesis by (intro exI [of _ w]) simp
  next
    case 2
    from Suc.IH [OF 2] v show ?thesis by (auto intro: quiet_trans)
  qed
qed simp

end

lemma start_here_quiet: "quiet_call (start_here os name c)"
proof -
  have install: "quiet w w'" if "chainInstallAndArm os name path w = Some (e, w')" for path w e w'
    using that InstallTunnel_quiet
    by (fastforce simp: chainInstallAndArm_def split: option.splits if_splits)
  have "quiet w w'" if *: "start_here os name c w = Some (e, w')" for w e w'
  proof -
    from * consider "w' = w" | tt where "w' = spawn (StopIntersecting tt) w"
      | tt path where "chainInstallAndArm os name path (spawn (StopIntersecting tt) w) = Some (e, w')"
      by (auto simp: start_here_def Let_def split: sum.splits if_splits prod.splits)
    then show ?thesis
    proof cases
      case 3
      from install [OF 3] show ?thesis by (rule quiet_trans [rotated]) simp
    qed simp_all
  qed
  then show ?thesis by (simp add: quiet_call_def)
qed

lemma Start_cases:
  assumes "Start n os name w = Some (r, w')"
  obtains
    (unreadable) e where "LoadFromName (os_store os) (w_dir w) name = Inl e"
      "r = Some (MStore e)" "w' = w"
  | (parents) m e c where "n = Suc m" "LoadFromName (os_store os) (w_dir w) name = Inr c"
      "chainStartParents (Start m os) os name 0 w = Some (Some e, w')" "r = Some e"
  | (here) m c w1 where "n = Suc m" "LoadFromName (os_store os) (w_dir w) name = Inr c"
      "chainStartParents (Start m os) os name 0 w = Some (None, w1)"
      "start_here os name c w1 = Some (r, w')"
  using assms by (cases n) (fastforce split: sum.splits option.splits prod.splits)+

lemma Start_quiet: "quiet_call (Start n os name)"
proof (induction n arbitrary: name)
  case 0
  then show ?case by (simp add: quiet_call_def)
next
  case (Suc n)
  have "quiet w w'" if "Start (Suc n) os name w = Some (e, w')" for w e w'
    using that
  proof (cases rule: Start_cases)
    case (parents m e' c)
    then have "chainStartParents (Start n os) os name 0 w = Some (Some e', w')" by simp
    then show ?thesis by (rule quiet_callD [OF chain_starter.chainStartParents_quiet [OF chain_starter.intro [OF Suc.IH]]])
  next
    case (here m c w1)
    then have "chainStartParents (Start n os) os name 0 w = Some (None, w1)" by simp
    then have "quiet w w1" by (rule quiet_callD [OF chain_starter.chainStartParents_quiet [OF chain_starter.intro [OF Suc.IH]]])
    then show ?thesis using quiet_callD [OF start_here_quiet here(4)] by (rule quiet_trans)
  qed simp
  then show ?case by (simp add: quiet_call_def)
qed

interpretation Start: chain_starter "Start n os" for n os
  by unfold_locales (rule Start_quiet)

end
