(* ===== verification/ChainRun.thy ===== *)
theory ChainRun
  imports ChainStart
begin

text \<open>
  How the chain comes up and goes down: facts about \<open>Start\<close>, \<open>Stop\<close>, \<open>chainRepair\<close> and the watch.
\<close>

section \<open>Does a start return\<close>

text \<open>The parents of a name run out within \<open>n\<close> steps.\<close>

fun rooted :: "store_env \<Rightarrow> directory option \<Rightarrow> nat \<Rightarrow> string \<Rightarrow> bool" where
  "rooted env dir 0 name = False"
| "rooted env dir (Suc n) name =
     (let parent = chainParentName env dir name in parent = [] \<or> rooted env dir n parent)"

lemma climb_grows: "length order \<le> length (climb env dir k name order)"
proof (induction k arbitrary: name order)
  case (Suc k)
  show ?case using Suc.IH [of "chainParentName env dir name # order"] by (auto simp: Let_def intro: Suc_leD)
qed simp

lemma climb_rooted:
  "length (climb env dir k name order) < length order + k \<Longrightarrow>
   rooted env dir (Suc (length (climb env dir k name order) - length order)) name"
proof (induction k arbitrary: name order)
  case (Suc k)
  let ?p = "chainParentName env dir name"
  show ?case
  proof (cases "?p = []")
    case False
    let ?c = "climb env dir k ?p (?p # order)"
    have eq: "climb env dir (Suc k) name order = ?c" using False by (simp add: Let_def)
    have "rooted env dir (Suc (length ?c - Suc (length order))) ?p"
      using Suc.IH [of ?p "?p # order"] Suc.prems eq by simp
    moreover have "Suc (length order) \<le> length ?c"
      using climb_grows [of "?p # order"] by simp
    ultimately show ?thesis by (simp add: eq Let_def Suc_diff_Suc)
  qed (simp add: Let_def)
qed simp

lemma chainHopOrder_rooted:
  assumes "length (chainHopOrder env dir leaf) \<le> 4"
  shows "rooted env dir (length (chainHopOrder env dir leaf)) leaf"
proof -
  have "chainHopOrder env dir leaf \<noteq> []" by (rule chainHopOrder_facts)
  then have "0 < length (chainHopOrder env dir leaf)" by simp
  moreover have "rooted env dir (Suc (length (chainHopOrder env dir leaf) - 1)) leaf"
    using climb_rooted [of env dir chainMaxDepth leaf "[leaf]"] assms
    by (simp add: chainHopOrder_def chainMaxDepth_def)
  ultimately show ?thesis by simp
qed

text \<open>A chain that is shown whole is rooted, also one of five hops.\<close>

lemma climb_rooted_whole:
  "chainParentName env dir (hd (climb env dir k name (name # rest))) = [] \<Longrightarrow>
   rooted env dir (Suc (length (climb env dir k name (name # rest)) - length (name # rest))) name"
proof (induction k arbitrary: name rest)
  case (Suc k)
  let ?p = "chainParentName env dir name"
  show ?case
  proof (cases "?p = []")
    case False
    let ?c = "climb env dir k ?p (?p # name # rest)"
    have eq: "climb env dir (Suc k) name (name # rest) = ?c" using False by (simp add: Let_def)
    have "rooted env dir (Suc (length ?c - length (?p # name # rest))) ?p"
      using Suc.IH [of ?p "name # rest"] Suc.prems eq by simp
    moreover have "Suc (length ?c - length (?p # name # rest)) = length ?c - length (name # rest)"
      using climb_grows [of "?p # name # rest" env dir k ?p] by simp
    ultimately show ?thesis unfolding eq by (metis rooted.simps(2))
  qed (simp add: Let_def)
qed (simp add: Let_def)

lemma chainHopOrder_whole:
  assumes "chainParentName env dir (hd (chainHopOrder env dir leaf)) = []"
  shows "rooted env dir (length (chainHopOrder env dir leaf)) leaf"
proof -
  have "Suc (length (chainHopOrder env dir leaf) - length [leaf]) = length (chainHopOrder env dir leaf)"
    using climb_grows [of "[leaf]" env dir chainMaxDepth leaf] by (simp add: chainHopOrder_def)
  moreover have "rooted env dir (Suc (length (chainHopOrder env dir leaf) - length [leaf])) leaf"
    using climb_rooted_whole [of env dir chainMaxDepth leaf "[]"] assms unfolding chainHopOrder_def by blast
  ultimately show ?thesis by metis
qed

definition returns_in :: "directory option \<Rightarrow> (world \<Rightarrow> outcome option) \<Rightarrow> bool" where
  "returns_in dir f \<longleftrightarrow> (\<forall>w. w_dir w = dir \<longrightarrow> f w \<noteq> None)"

context chain_starter begin

lemma start_tries_returns:
  assumes "returns_in dir (start name)"
  shows "w_dir w = dir \<Longrightarrow> start_tries start os k name w \<noteq> None"
proof (induction k arbitrary: w)
  case (Suc k)
  from assms(1) Suc.prems obtain r w1 where r: "start name w = Some (r, w1)"
    by (force simp: returns_in_def)
  then have "quiet w w1" by (rule quiet_callD [OF start_quiet])
  then have "quiet w (sleep os chainHopStartRetryGap (chainWaitStopped os name w1))" by simp
  then have "w_dir (sleep os chainHopStartRetryGap (chainWaitStopped os name w1)) = dir"
    using Suc.prems unfolding quiet_def by metis
  from Suc.IH [OF this] r show ?case by (auto split: option.split)
qed simp

end

text \<open>
  What is relied on of the service control manager: a service marked for deletion that is polled, and
  of which no handle is kept, can no longer be opened after some number of polls.
\<close>

definition services_go :: "os \<Rightarrow> bool" where
  "services_go os \<longleftrightarrow>
     (\<forall>h svc. DeleteService svc \<in> set h \<longrightarrow>
        (\<exists>n. os_open os (h @ concat (replicate n [CloseService svc, Sleep 333333333])) svc \<noteq> None))"

lemma wait_gone_polls:
  "os_open os (w_history w @ concat (replicate n [CloseService svc, Sleep 333333333])) svc \<noteq> None \<Longrightarrow>
   wait_gone os svc w \<noteq> None"
proof (induction n arbitrary: w)
  case 0
  then show ?case by (subst wait_gone.simps) (auto split: win_error.split)
next
  case (Suc n)
  show ?case
  proof (cases "os_open os (w_history w) svc")
    case None
    have "wait_gone os svc (sleep os 333333333 (act (CloseService svc) w)) \<noteq> None"
      by (rule Suc.IH) (use Suc.prems in \<open>simp add: act_def\<close>)
    with None show ?thesis by (subst wait_gone.simps) simp
  qed (subst wait_gone.simps, simp split: win_error.split)
qed

lemma wait_gone_returns:
  "services_go os \<Longrightarrow> DeleteService svc \<in> set (w_history w) \<Longrightarrow> wait_gone os svc w \<noteq> None"
  using wait_gone_polls unfolding services_go_def by blast

lemma delete_and_create_returns: "services_go os \<Longrightarrow> delete_and_create os svc path w \<noteq> None"
proof -
  assume "services_go os"
  then have "wait_gone os svc (act (CloseService svc) (act (DeleteService svc) w)) \<noteq> None"
    by (rule wait_gone_returns) (simp add: act_def)
  then show ?thesis
    by (simp add: delete_and_create_def Let_def del: not_None_eq split: option.split prod.split)
qed

lemma InstallTunnel_returns:
  assumes "services_go os"
  shows "InstallTunnel os path w \<noteq> None"
  using delete_and_create_returns [OF assms]
  by (simp add: InstallTunnel_def del: not_None_eq split: option.split sum.split)

lemma start_here_returns:
  assumes "services_go os"
  shows "start_here os name c w \<noteq> None"
proof -
  have "chainInstallAndArm os name path v \<noteq> None" for path v
    using InstallTunnel_returns [OF assms, of path v]
    by (simp add: chainInstallAndArm_def del: not_None_eq split: option.split)
  then show ?thesis
    by (simp add: start_here_def Let_def del: not_None_eq split: option.split sum.split prod.split)
qed

lemma Start_returns:
  assumes gone: "services_go os"
  shows "rooted (os_store os) dir n name \<Longrightarrow> returns_in dir (Start n os name)"
proof (induction n arbitrary: name)
  case (Suc n)
  let ?p = "chainParentName (os_store os) dir name"
  have "chainStartParents (Start n os) os name 0 w \<noteq> None" if dir: "w_dir w = dir" for w
  proof (cases "?p = []")
    case False
    with Suc.prems have "returns_in dir (Start n os ?p)" by (intro Suc.IH) (simp add: Let_def)
    then have "chainStartHopWithRetry (Start n os) os ?p w \<noteq> None"
      unfolding chainStartHopWithRetry_def
      by (rule Start.start_tries_returns [OF _ dir])
    then show ?thesis using dir by (auto simp: chainStartParents_def Let_def split: option.split)
  qed (simp add: chainStartParents_def Let_def dir)
  then show ?case
    using start_here_returns [OF gone]
    by (simp add: returns_in_def del: not_None_eq split: sum.split option.split) blast
qed simp

text \<open>More depth does not change an answer.\<close>

lemma start_tries_mono:
  assumes "\<And>v r. start name v = Some r \<Longrightarrow> start' name v = Some r"
  shows "start_tries start os k name w = Some r \<Longrightarrow> start_tries start' os k name w = Some r"
proof (induction k arbitrary: w)
  case (Suc k)
  from Suc.prems obtain e w1 where s: "start name w = Some (e, w1)" by (auto split: option.splits)
  then have "start' name w = Some (e, w1)" by (rule assms)
  then show ?case using Suc s by (auto split: option.splits if_splits)
qed simp

lemma chainStartParents_mono:
  assumes "\<And>name v r. start name v = Some r \<Longrightarrow> start' name v = Some r"
    and "chainStartParents start os name depth w = Some r"
  shows "chainStartParents start' os name depth w = Some r"
proof -
  have "chainStartHopWithRetry start' os p w = Some x" if "chainStartHopWithRetry start os p w = Some x" for p x
    using that start_tries_mono [of start p start'] assms(1) by (simp add: chainStartHopWithRetry_def)
  then show ?thesis
    using assms(2) by (auto simp: chainStartParents_def Let_def split: if_splits option.splits)
qed

lemma Start_Suc: "Start n os name w = Some r \<Longrightarrow> Start (Suc n) os name w = Some r"
proof (induction n arbitrary: name w r)
  case (Suc n)
  obtain e w' where r: "r = (e, w')" by force
  have mono: "chainStartParents (Start (Suc n) os) os name 0 w = Some x"
    if "chainStartParents (Start n os) os name 0 w = Some x" for x
    by (rule chainStartParents_mono [OF Suc.IH that])
  from Suc.prems [unfolded r] show ?case
    by (rule Start_cases) (auto simp: r dest!: mono simp del: Start.simps(2) simp: Start.simps(2) [of "Suc n"])
qed simp

lemma Start_mono: "k \<le> n \<Longrightarrow> Start k os name w = Some r \<Longrightarrow> Start n os name w = Some r"
  by (induction n rule: dec_induct) (auto intro: Start_Suc simp del: Start.simps)

text \<open>Names whose parents stay among them, all stopped: no depth of calls is enough.\<close>

lemma Start_cycle:
  assumes closed: "\<forall>a\<in>S. chainParentName (os_store os) dir a \<in> S \<and> a \<noteq> []"
    and loads: "\<forall>a\<in>S. loaded (os_store os) dir a \<noteq> None"
    and stopped: "\<And>a w. a \<in> S \<Longrightarrow> State os a w = Inr TunnelStopped"
  shows "a \<in> S \<Longrightarrow> w_dir w = dir \<Longrightarrow> Start n os a w = None"
proof (induction n arbitrary: a w)
  case (Suc n)
  let ?p = "chainParentName (os_store os) dir a"
  have p: "?p \<in> S" "?p \<noteq> []" "State os ?p w = Inr TunnelStopped"
    using closed Suc.prems(1) stopped by auto
  then have "Start n os ?p w = None" using Suc.IH Suc.prems(2) by simp
  then have "chainStartHopWithRetry (Start n os) os ?p w = None"
    by (simp add: chainStartHopWithRetry_def chainHopStartTries_def numeral_eq_Suc)
  then have "chainStartParents (Start n os) os a 0 w = None"
    using p Suc.prems(2)
    by (simp add: chainStartParents_def Let_def hop_is_up_def chainMaxDepth_def)
  then show ?case using loads Suc.prems by (auto simp: loaded_def split: sum.splits)
qed simp

section \<open>What is up when a tunnel has started\<close>

lemma chainStartParents_up:
  assumes "chainStartParents start os name 0 w = Some (None, w')"
    and "chainParentName (os_store os) (w_dir w) name = parent" and "parent \<noteq> []"
  shows "hop_is_up os parent w'"
  using assms
  by (auto elim!: chainStartParents_cases simp: chainMaxDepth_def chainWaitForHop_up)

section \<open>Repairs\<close>

lemma quiet_lock:
  assumes "quiet w w'"
  shows "lock_inv w' = lock_inv w" "chainLockOn w' = chainLockOn w" "lock_part w' = lock_part w"
    "guard_part w' = guard_part w" "w_dir w' = w_dir w"
  using assms by (simp_all add: quiet_def lock_inv_def lock_part_def)

lemma chainRepair_cases:
  assumes "chainRepair n os leaf w = Some w'"
  obtains (up) v w1 where "quiet w v" "Start n os leaf v = Some (None, w1)" "quiet w w1"
      "w' = chainRearmLockAfterRepair os leaf w1"
  | (down) "quiet w w'"
proof -
  let ?hops = "chainHopOrder (os_store os) (w_dir w) leaf"
  let ?v = "chainTearDown os ?hops w"
  from assms obtain b w1 where r: "repair_tries (Start n os) os leaf ?hops chainStartRetries ?v = Some (b, w1)"
    and w': "w' = (if b then chainRearmLockAfterRepair os leaf w1 else w1)"
    by (auto simp: chainRepair_def Let_def split: option.splits prod.splits)
  have v: "quiet w ?v" by (rule chainTearDown_quiet)
  have w1: "quiet w w1" by (rule quiet_trans [OF v Start.repair_tries_quiet [OF r]])
  show thesis
  proof (cases b)
    case True
    with r have "repair_tries (Start n os) os leaf ?hops chainStartRetries ?v = Some (True, w1)" by simp
    from Start.repair_tries_up [OF this] obtain u where
      u: "quiet ?v u" "Start n os leaf u = Some (None, w1)" by blast
    show thesis by (rule up [OF quiet_trans [OF v u(1)] u(2) w1]) (simp add: w' True)
  qed (use down w1 w' in simp)
qed

section \<open>A deliberate stop\<close>

lemma stand_down_quiet: "quiet w v \<Longrightarrow> quiet w (stand_down os pid k v)"
  by (induction k arbitrary: v) (simp_all add: Let_def)

lemma stop_children_quiet: "quiet w v \<Longrightarrow> quiet w (stop_children os k name v)"
proof (induction k arbitrary: name v)
  case (Suc k)
  have "quiet w (fold (\<lambda>child w1.
         if State os child w1 = Inr TunnelStopped then w1
         else snd (UninstallTunnel os child (stop_children os k child w1))) cs v)" for cs
    using Suc.prems by (induction cs arbitrary: v) (simp_all add: Suc.IH)
  then show ?case by simp
qed simp

lemma stop_hidden_parents_quiet: "quiet w v \<Longrightarrow> quiet w (stop_hidden_parents os k name v)"
  by (induction k arbitrary: name v) (simp_all add: Let_def)

lemma Stop_quiet: "quiet (chainBeforeStop os name w) (snd (Stop os name w))"
proof -
  have "quiet v (chainStopHiddenParents os name 0 (snd (UninstallTunnel os name (chainStopChildren os name 0 v))))" for v
    by (simp add: chainStopHiddenParents_def chainStopChildren_def stop_hidden_parents_quiet stop_children_quiet)
  then show ?thesis by (simp add: Stop_def Let_def case_prod_beta)
qed

lemma fold_visits:
  assumes "\<And>x w. quiet w (f x w)" and "x \<in> set xs"
  shows "\<exists>v. quiet w v \<and> quiet (f x v) (fold f xs w)"
  using assms(2)
proof (induction xs arbitrary: w)
  case (Cons y ys)
  have all: "quiet v (fold f ys v)" for v
    by (induction ys arbitrary: v) (auto intro: quiet_trans assms(1))
  from Cons.prems consider "x = y" | "x \<in> set ys" by auto
  then show ?case
  proof cases
    case 1
    then show ?thesis using all by (auto intro!: exI [of _ w])
  next
    case 2
    from Cons.IH [OF 2, of "f y w"] obtain v where v: "quiet (f y w) v" "quiet (f x v) (fold f ys (f y w))"
      by blast
    from quiet_trans [OF assms(1) v(1)] v(2) show ?thesis by auto
  qed
qed simp

text \<open>Each child is found stopped or uninstalled before the walk over the children ends.\<close>

lemma stop_children_visits:
  assumes "child \<in> set (chainChildNames (os_store os) (w_dir w) name)"
  shows "\<exists>v. quiet w v \<and>
    (State os child v = Inr TunnelStopped \<and> quiet v (stop_children os (Suc k) name w)
     \<or> quiet (snd (UninstallTunnel os child v)) (stop_children os (Suc k) name w))"
proof -
  let ?f = "\<lambda>child w1. if State os child w1 = Inr TunnelStopped then w1
         else snd (UninstallTunnel os child (stop_children os k child w1))"
  have "quiet w (?f x w)" for x w by (simp add: stop_children_quiet)
  from fold_visits [of ?f, OF this assms] obtain v where
    v: "quiet w v" "quiet (?f child v) (stop_children os (Suc k) name w)" by auto
  show ?thesis
  proof (cases "State os child v = Inr TunnelStopped")
    case False
    then have "quiet (snd (UninstallTunnel os child (stop_children os k child v))) (stop_children os (Suc k) name w)"
      using v(2) by simp
    then show ?thesis using stop_children_quiet [OF v(1)] by blast
  qed (use v in auto)
qed

lemma lock_inv_guard [simp]:
  "lock_inv (w\<lparr>chainGuardProcess := p, chainGuardArmedBy := a\<rparr>) = lock_inv w"
  "lock_inv (w\<lparr>chainGuardLastArm := t\<rparr>) = lock_inv w"
  "lock_inv (w\<lparr>chainGuardDeaths := n\<rparr>) = lock_inv w"
  by (simp_all add: lock_inv_def)

lemma chainDisarmGuard_off:
  assumes "lock_inv w"
  shows "lock_inv (chainDisarmGuard os w)" "\<not> chainLockOn (chainDisarmGuard os w)"
    "chainSession (chainDisarmGuard os w) = None" "chainGuardProcess (chainDisarmGuard os w) = None"
    "chainGuardArmedBy (chainDisarmGuard os w) = []"
    "chainWatchCancel (chainDisarmGuard os w) = chainWatchCancel w"
proof -
  let ?w1 = "snd (chainDisarmLockInProc w)"
  let ?w2 = "?w1\<lparr>chainGuardProcess := None, chainGuardArmedBy := []\<rparr>"
  have q: "quiet ?w2 (chainDisarmGuard os w)"
    by (simp add: chainDisarmGuard_def Let_def stand_down_quiet split: option.split)
  have inv: "lock_inv ?w2" "\<not> chainLockOn ?w2" "chainSession ?w2 = None"
    using chainDisarmLockInProc_off [of w] assms by simp_all
  have cancel: "chainWatchCancel ?w2 = chainWatchCancel w"
    by (simp add: chainDisarmLockInProc_def Let_def chainDropIPv6Block_def disable_lock_def close_opt_def
        close_channel_def split: option.split)
  show "lock_inv (chainDisarmGuard os w)" "\<not> chainLockOn (chainDisarmGuard os w)"
    using quiet_lock [OF q] inv by simp_all
  show "chainSession (chainDisarmGuard os w) = None" "chainGuardProcess (chainDisarmGuard os w) = None"
    "chainGuardArmedBy (chainDisarmGuard os w) = []"
    "chainWatchCancel (chainDisarmGuard os w) = chainWatchCancel w"
    using quiet_lock(3,4) [OF q] inv(3) cancel by (simp_all add: lock_part_def guard_part_def)
qed

lemma chainDisarmGuard_rest:
  "ipv6Session (chainDisarmGuard os w) = (if chainLockOn w then None else ipv6Session w)"
  "w_dir (chainDisarmGuard os w) = w_dir w"
proof -
  let ?w2 = "snd (chainDisarmLockInProc w)\<lparr>chainGuardProcess := None, chainGuardArmedBy := []\<rparr>"
  have q: "quiet ?w2 (chainDisarmGuard os w)"
    by (simp add: chainDisarmGuard_def Let_def stand_down_quiet split: option.split)
  show "ipv6Session (chainDisarmGuard os w) = (if chainLockOn w then None else ipv6Session w)"
    using quiet_lock(3) [OF q] chainDisarmLockInProc_ipv6 [of w] by (simp add: lock_part_def)
  have "w_dir ?w2 = w_dir w"
    by (simp add: chainDisarmLockInProc_def Let_def chainDropIPv6Block_def disable_lock_def close_opt_def
        close_channel_def act_def split: option.split)
  then show "w_dir (chainDisarmGuard os w) = w_dir w" using quiet_lock(5) [OF q] by simp
qed

lemma chainStopWatch_rest [simp]:
  "w_dir (chainStopWatch w) = w_dir w" "chainLockOn (chainStopWatch w) = chainLockOn w"
  "ipv6Session (chainStopWatch w) = ipv6Session w" "chainWatchCancel (chainStopWatch w) = None"
  by (simp_all add: chainStopWatch_def close_opt_def close_channel_def split: option.split)

lemma chainGuardResetDeaths_rest [simp]:
  "w_dir (chainGuardResetDeaths w) = w_dir w" "chainLockOn (chainGuardResetDeaths w) = chainLockOn w"
  "ipv6Session (chainGuardResetDeaths w) = ipv6Session w"
  "chainWatchCancel (chainGuardResetDeaths w) = chainWatchCancel w"
  "lock_inv (chainGuardResetDeaths w) = lock_inv w"
  by (simp_all add: chainGuardResetDeaths_def)

lemma chainBeforeStop_dir: "w_dir (chainBeforeStop os name w) = w_dir w"
  by (simp add: chainBeforeStop_def chainDisarmGuard_rest)

lemma chainBeforeStop_off:
  assumes "stop_involved os name w" and "lock_inv (chainStopWatch w)"
  shows "let b = chainBeforeStop os name w in
    \<not> chainLockOn b \<and> chainSession b = None \<and> chainWatchCancel b = None
    \<and> chainGuardProcess b = None \<and> chainGuardArmedBy b = []
    \<and> ipv6Session b = (if chainLockOn w then None else ipv6Session w)"
proof -
  have "lock_inv (chainGuardResetDeaths (chainStopWatch w))" using assms(2) by simp
  from chainDisarmGuard_off [OF this, of os] show ?thesis
    using assms(1) by (simp add: chainBeforeStop_def chainDisarmGuard_rest Let_def)
qed

end
