(* ===== verification/ChainSteps.thy ===== *)
theory ChainSteps
  imports ChainRun
begin

text \<open>
  The manager as a whole: a transition relation whose steps are the requests of the user interface
  and the turns of the goroutines the manager has started, and what holds in every state it
  reaches.

  A request and a turn of a goroutine are one step each. Turns of the watch may come at any
  moment, whatever its timer says, so every schedule of whole turns is covered; two requests at
  work at the same time are not.
\<close>

section \<open>The interface of a lock\<close>

text \<open>
  What the manager relies on whether it locks the machine itself or through the guard: arming
  keeps the variables together and never opens, standing down opens and keeps them together.
\<close>

lemma lock_inv_off: "lock_inv w \<Longrightarrow> \<not> chainLockOn w \<Longrightarrow> chainSession w = None"
  by (simp add: lock_inv_def)

locale lock_service =
  fixes arm :: "string \<Rightarrow> world \<Rightarrow> world"
    and disarm :: "world \<Rightarrow> world"
  assumes arm_inv: "lock_inv w \<Longrightarrow> lock_inv (arm leaf w)"
    and arm_keeps: "chainLockOn w \<Longrightarrow> chainLockOn (arm leaf w)"
    and disarm_inv: "lock_inv w \<Longrightarrow> lock_inv (disarm w)"
    and disarm_off: "lock_inv w \<Longrightarrow> \<not> chainLockOn (disarm w)"
begin

lemma arm_all:
  assumes "lock_inv w"
  shows "lock_inv (fold arm leaves w)" "chainLockOn w \<Longrightarrow> chainLockOn (fold arm leaves w)"
  using assms by (induction leaves arbitrary: w) (simp_all add: arm_inv arm_keeps)

lemma disarm_open: "lock_inv w \<Longrightarrow> chainSession (disarm w) = None"
  by (rule lock_inv_off [OF disarm_inv disarm_off])

lemma armed_then_disarmed: "lock_inv w \<Longrightarrow> chainSession (disarm (fold arm leaves w)) = None"
  by (simp add: arm_all disarm_open)

end

lemma chainGuardNoteArm_lock [simp]:
  "lock_inv (chainGuardNoteArm w) = lock_inv w" "chainLockOn (chainGuardNoteArm w) = chainLockOn w"
  by (simp_all add: chainGuardNoteArm_def)

lemma chainArmGuard_cases:
  obtains (nothing) "chainArmGuard os leaf w = w"
  | (locked) "chainGuardProcess w = None"
      "chainArmGuard os leaf w = chainGuardNoteArm (snd (chainArmLockInProc os leaf w))"
  | (fallback) "chainGuardProcess w = None" "\<not> fst (chainArmLockInProc os leaf w)"
      "quiet (snd (chainArmLockInProc os leaf w)) (chainArmGuard os leaf w)"
  | (process) pid v where "chainGuardProcess w = None" "\<not> fst (chainArmLockInProc os leaf w)"
      "quiet (snd (chainArmLockInProc os leaf w)) v"
      "chainArmGuard os leaf w = spawn (ReapGuard pid)
         (chainGuardNoteArm (v\<lparr>chainGuardProcess := Some pid, chainGuardArmedBy := leaf\<rparr>))"
proof (cases "chainGuardGaveUp w \<or> os_no_autoguard os (w_history w) \<or> chainGuardProcess w \<noteq> None")
  case True
  show thesis by (rule nothing) (use True in \<open>auto simp: chainArmGuard_def\<close>)
next
  case False
  then have p: "chainGuardProcess w = None" by simp
  let ?r = "chainArmLockInProc os leaf w"
  show thesis
  proof (cases "fst ?r")
    case True
    show thesis
      by (rule locked [OF p]) (use True False in \<open>auto simp: chainArmGuard_def split: prod.split\<close>)
  next
    case notlocked: False
    show thesis
    proof (cases "guard_command os leaf (snd ?r)")
      case None
      have "chainArmGuard os leaf w = snd ?r"
        using None False notlocked by (auto simp: chainArmGuard_def split: prod.split)
      then show thesis by (intro fallback [OF p notlocked]) simp
    next
      case (Some command)
      let ?v = "act (StartGuard command) (snd ?r)"
      have v: "quiet (snd ?r) ?v" by simp
      show thesis
      proof (cases "os_start_guard os (w_history (snd ?r)) command")
        case None
        then have "chainArmGuard os leaf w = ?v"
          using Some False notlocked by (auto simp: chainArmGuard_def Let_def split: prod.split)
        with v show thesis by (intro fallback [OF p notlocked]) simp
      next
        case (Some pid)
        show thesis
          by (rule process [OF p notlocked v, of pid])
             (use Some \<open>guard_command os leaf (snd ?r) = Some command\<close> False notlocked in
              \<open>auto simp: chainArmGuard_def Let_def split: prod.split\<close>)
      qed
    qed
  qed
qed

lemma chainArmGuard_lock:
  "lock_inv w \<Longrightarrow> lock_inv (chainArmGuard os leaf w)"
  "chainLockOn w \<Longrightarrow> chainLockOn (chainArmGuard os leaf w)"
  using chainArmLockInProc_inv [of w os leaf] chainArmLockInProc_keeps_on [of w os leaf]
  by (rule_tac [!] chainArmGuard_cases [of os leaf w]) (auto simp: quiet_lock)

interpretation in_process: lock_service
  "\<lambda>leaf w. snd (chainArmLockInProc os leaf w)" "\<lambda>w. snd (chainDisarmLockInProc w)" for os
  by unfold_locales
     (simp_all add: chainArmLockInProc_inv chainArmLockInProc_keeps_on chainDisarmLockInProc_off)

interpretation guard: lock_service "chainArmGuard os" "chainDisarmGuard os" for os
  by unfold_locales (simp_all add: chainArmGuard_lock chainDisarmGuard_off)

section \<open>Channels and goroutines\<close>

text \<open>
  What ties the variables to the goroutines. The armed leaf is set only along with a process. The
  channel of the watch and the one of the lock are open and different; a watch whose channel is
  open is the one the manager knows, so at most one chain is watched; the lock has its listener.
\<close>

definition guard_ok ::
  "string \<Rightarrow> nat option \<Rightarrow> nat option \<Rightarrow> nat option \<Rightarrow> nat \<Rightarrow> nat set \<Rightarrow> task set \<Rightarrow> bool"
where
  "guard_ok armedBy process watch lock channels closed tasks \<longleftrightarrow>
     (armedBy \<noteq> [] \<longrightarrow> process \<noteq> None)
     \<and> set_option watch \<subseteq> {..<channels} - closed - set_option lock
     \<and> {ch. \<exists>leaf. Watch leaf ch \<in> tasks} - closed \<subseteq> set_option watch
     \<and> ListenStop ` set_option lock \<subseteq> tasks"

definition guard_inv :: "world \<Rightarrow> bool" where
  "guard_inv w \<longleftrightarrow>
     guard_ok (chainGuardArmedBy w) (chainGuardProcess w) (chainWatchCancel w) (chainLockStop w)
       (w_channels w) (w_closed w) (set (w_tasks w))"

lemma guard_ok_arm:
  "guard_ok a p c s n cl T \<Longrightarrow> guard_ok a p c (Some n) (Suc n) cl (insert (ListenStop n) T)"
  by (auto simp: guard_ok_def)

lemma guard_ok_disarm:
  "guard_ok a p c (Some ch) n cl T \<Longrightarrow> guard_ok a p c None n (insert ch cl) T"
  "guard_ok a p c s n cl T \<Longrightarrow> guard_ok a p c None n cl T"
  by (auto simp: guard_ok_def)

lemma guard_ok_process:
  "guard_ok a p c s n cl T \<Longrightarrow> guard_ok a' (Some q) c s n cl T"
  "guard_ok a p c s n cl T \<Longrightarrow> guard_ok [] p' c s n cl T"
  by (auto simp: guard_ok_def)

lemma guard_ok_task:
  "guard_ok a p c s n cl T \<Longrightarrow> (\<And>leaf ch. t \<noteq> Watch leaf ch) \<Longrightarrow> guard_ok a p c s n cl (insert t T)"
  by (auto simp: guard_ok_def)

lemma guard_ok_watch:
  "guard_ok a p None s n cl T \<Longrightarrow> cl \<subseteq> {..<n} \<Longrightarrow> n \<notin> set_option s \<Longrightarrow>
   guard_ok a p (Some n) s (Suc n) cl (insert (Watch leaf n) T)"
  by (auto simp: guard_ok_def)

lemma guard_ok_unwatch:
  "guard_ok a p c s n cl T \<Longrightarrow> guard_ok a p None s n (cl \<union> set_option c) T"
  by (auto simp: guard_ok_def)

definition manager_inv :: "world \<Rightarrow> bool" where
  "manager_inv w \<longleftrightarrow> lock_inv w \<and> guard_inv w"

lemma manager_invD: "manager_inv w \<Longrightarrow> lock_inv w" "manager_inv w \<Longrightarrow> guard_inv w"
  by (simp_all add: manager_inv_def)

lemma quiet_filter: "quiet w w' \<Longrightarrow> filter guarding (w_tasks w') = filter guarding (w_tasks w)"
  by (simp add: quiet_def)

lemma quiet_fields:
  assumes "quiet w w'"
  shows "chainGuardArmedBy w' = chainGuardArmedBy w" "chainGuardProcess w' = chainGuardProcess w"
    "chainWatchCancel w' = chainWatchCancel w" "chainLockStop w' = chainLockStop w"
    "w_channels w' = w_channels w" "w_closed w' = w_closed w"
  using assms by (simp_all add: quiet_def guard_part_def lock_part_def)

lemma guard_ok_guarding:
  "guard_ok a p c s n cl {t\<in>T. guarding t} \<longleftrightarrow> guard_ok a p c s n cl T"
  by (auto simp: guard_ok_def)

lemma quiet_guard_inv:
  assumes "quiet w w'"
  shows "guard_inv w' = guard_inv w"
proof -
  have "{t\<in>set (w_tasks w'). guarding t} = {t\<in>set (w_tasks w). guarding t}"
    using quiet_filter [OF assms, THEN arg_cong [where f = set]] by simp
  then show ?thesis
    unfolding guard_inv_def quiet_fields [OF assms]
    by (subst (1 2) guard_ok_guarding [symmetric]) simp
qed

lemma quiet_manager_inv: "quiet w w' \<Longrightarrow> manager_inv w' = manager_inv w"
  by (simp add: manager_inv_def quiet_guard_inv quiet_lock)

text \<open>The fields that arming and lifting the lock leave alone.\<close>

definition rest :: "world \<Rightarrow> world \<Rightarrow> bool" where
  "rest w w' \<longleftrightarrow> guard_part w' = guard_part w \<and> chainGuardLastArm w' = chainGuardLastArm w
     \<and> w_dir w' = w_dir w"

lemma rest_spawn [simp]: "rest w (spawn t v) = rest w v"
  by (simp add: rest_def spawn_def act_def guard_part_def)

lemma chainApplyIPv6For_rest:
  "rest w (chainApplyIPv6For os leaf w)" "w_tasks (chainApplyIPv6For os leaf w) = w_tasks w"
  "w_channels (chainApplyIPv6For os leaf w) = w_channels w"
  "w_closed (chainApplyIPv6For os leaf w) = w_closed w"
  "chainLockStop (chainApplyIPv6For os leaf w) = chainLockStop w"
  by (simp_all add: chainApplyIPv6For_def ChainSettingsFor_eq chainDropIPv6Block_def rest_def guard_part_def act_def split: sum.split)

lemma enable_lock_rest:
  "rest w (snd (enable_lock os cfg w))" "w_tasks (snd (enable_lock os cfg w)) = w_tasks w"
  by (simp_all add: enable_lock_def Let_def rest_def guard_part_def act_def split: sum.split)

lemma disable_lock_rest: "rest w (disable_lock w)" "w_tasks (disable_lock w) = w_tasks w"
  by (simp_all add: disable_lock_def rest_def guard_part_def act_def)

lemma rest_trans: "rest u v \<Longrightarrow> rest v w \<Longrightarrow> rest u w"
  by (simp add: rest_def)

lemma chainArmLockInProc_rest:
  assumes "chainArmLockInProc os leaf w = (b, w')"
  shows "rest w w' \<and> w_closed w' = w_closed w
    \<and> (w_tasks w' = w_tasks w \<and> w_channels w' = w_channels w \<and> chainLockStop w' = chainLockStop w
       \<or> w_tasks w' = w_tasks w @ [ListenStop (w_channels w)] \<and> w_channels w' = Suc (w_channels w) \<and> chainLockStop w' = Some (w_channels w))"
proof -
  let ?c = "w\<lparr>chainSettingsCache := Some (current_book w)\<rparr>"
  have c: "rest w ?c" by (simp add: rest_def guard_part_def)
  show ?thesis
  proof (cases "\<not> wants_lock os leaf w \<or> os_no_inproc_lock os (w_history w) \<or> chainLockOn w
      \<or> lock_config os leaf ?c = None")
    case True
    then have "w' = ?c \<or> w' = chainApplyIPv6For os leaf ?c"
      using assms by (auto simp: chainArmLockInProc_def ChainSettingsFor_eq wants_lock_def split: if_splits)
    then show ?thesis
      using c chainApplyIPv6For_rest [where w = ?c and os = os and leaf = leaf] rest_trans by auto
  next
    case False
    then obtain cfg where cfg: "lock_config os leaf ?c = Some (cfg, ?c)" using lock_config_world by fastforce
    define e1 where "e1 = enable_lock os cfg ?c"
    define e2 where "e2 = (if fst e1 then e1 else enable_lock os cfg (disable_lock (snd e1)))"
    have e1: "rest w (snd e1)" "w_tasks (snd e1) = w_tasks w" "w_channels (snd e1) = w_channels w"
      "w_closed (snd e1) = w_closed w" "chainLockStop (snd e1) = chainLockStop w"
      using rest_trans [OF c enable_lock_rest(1)] by (simp_all add: e1_def enable_lock_rest)
    have e2: "rest w (snd e2)" "w_tasks (snd e2) = w_tasks w" "w_channels (snd e2) = w_channels w"
      "w_closed (snd e2) = w_closed w" "chainLockStop (snd e2) = chainLockStop w"
      using e1 rest_trans [OF rest_trans [OF e1(1) disable_lock_rest(1)] enable_lock_rest(1)]
      by (simp_all add: e2_def enable_lock_rest disable_lock_rest)
    have on: "rest w (switch_on leaf (snd e2))"
      using e2(1) by (simp add: rest_def switch_on_def guard_part_def)
    let ?v = "chainApplyIPv6For os leaf (switch_on leaf (snd e2))"
    have v: "rest w ?v" by (rule rest_trans [OF on chainApplyIPv6For_rest(1)])
    have "chainArmLockInProc os leaf w =
        (if \<not> fst e2 then (False, snd e2)
         else (let (stop, w5) = new_channel (snd e2);
                   w6 = w5\<lparr>chainLockOn := True, chainLockLeaf := leaf, chainLockStop := Some stop\<rparr>
               in (True, spawn (ListenStop stop) (chainApplyIPv6For os leaf w6))))"
      using False cfg
      by (simp add: chainArmLockInProc_def ChainSettingsFor_eq wants_lock_def e1_def e2_def split: prod.split)
    then have "w' = (if fst e2 then spawn (ListenStop (w_channels (snd e2))) ?v else snd e2)"
      using assms by (auto simp: new_channel_def switch_on_def split: if_splits)
    then show ?thesis
      using e2 v by (simp add: chainApplyIPv6For_rest switch_on_def)
  qed
qed

lemma chainDisarmLockInProc_rest:
  "rest w (snd (chainDisarmLockInProc w))"
  "w_tasks (snd (chainDisarmLockInProc w)) = w_tasks w"
  "w_channels (snd (chainDisarmLockInProc w)) = w_channels w"
  "w_closed (snd (chainDisarmLockInProc w)) =
     (case (chainLockOn w, chainLockStop w) of (True, Some ch) \<Rightarrow> insert ch (w_closed w) | _ \<Rightarrow> w_closed w)"
  "chainLockStop (snd (chainDisarmLockInProc w)) = None"
  by (simp_all add: chainDisarmLockInProc_def Let_def chainDropIPv6Block_def disable_lock_def close_opt_def
      close_channel_def rest_def guard_part_def act_def split: option.split)

section \<open>The invariant is kept\<close>

lemma rest_fields:
  assumes "rest w w'"
  shows "chainGuardArmedBy w' = chainGuardArmedBy w" "chainGuardProcess w' = chainGuardProcess w"
    "chainWatchCancel w' = chainWatchCancel w"
  using assms by (simp_all add: rest_def guard_part_def)

lemma chainArmLockInProc_manager:
  assumes inv: "manager_inv w"
  shows "manager_inv (snd (chainArmLockInProc os leaf w))"
proof -
  obtain b w' where r: "chainArmLockInProc os leaf w = (b, w')" by force
  from chainArmLockInProc_rest [OF r] have rest: "rest w w'" "w_closed w' = w_closed w"
    and new: "w_tasks w' = w_tasks w \<and> w_channels w' = w_channels w \<and> chainLockStop w' = chainLockStop w
       \<or> w_tasks w' = w_tasks w @ [ListenStop (w_channels w)] \<and> w_channels w' = Suc (w_channels w)
         \<and> chainLockStop w' = Some (w_channels w)" by simp_all
  have g: "guard_inv w" using inv by (rule manager_invD)
  have "guard_inv w'"
    using new
  proof
    assume "w_tasks w' = w_tasks w \<and> w_channels w' = w_channels w \<and> chainLockStop w' = chainLockStop w"
    with g show ?thesis by (simp add: guard_inv_def rest(2) rest_fields [OF rest(1)])
  next
    assume "w_tasks w' = w_tasks w @ [ListenStop (w_channels w)] \<and> w_channels w' = Suc (w_channels w)
         \<and> chainLockStop w' = Some (w_channels w)"
    with guard_ok_arm [OF g [unfolded guard_inv_def]] show ?thesis
      by (simp add: guard_inv_def rest(2) rest_fields [OF rest(1)])
  qed
  moreover have "lock_inv w'"
    using chainArmLockInProc_inv [of w os leaf] inv r by (simp add: manager_inv_def)
  ultimately show ?thesis by (simp add: manager_inv_def r)
qed

lemma chainDisarmLockInProc_manager:
  assumes inv: "manager_inv w"
  shows "manager_inv (snd (chainDisarmLockInProc w))"
proof -
  have g: "guard_inv w" and l: "lock_inv w" using inv by (simp_all add: manager_inv_def)
  let ?w = "snd (chainDisarmLockInProc w)"
  have "guard_inv ?w"
    unfolding guard_inv_def rest_fields [OF chainDisarmLockInProc_rest(1)] chainDisarmLockInProc_rest(2-5)
    using g [unfolded guard_inv_def]
    by (cases "chainLockOn w"; cases "chainLockStop w") (auto intro: guard_ok_disarm)
  with l show ?thesis by (simp add: manager_inv_def chainDisarmLockInProc_off)
qed

lemma relock_arm_manager: "manager_inv w \<Longrightarrow> manager_inv (relock_arm os leaf k w)"
proof (induction k arbitrary: w)
  case (Suc k)
  obtain b w1 where r: "chainArmLockInProc os leaf w = (b, w1)" by force
  have "manager_inv w1" using chainArmLockInProc_manager [OF Suc.prems, of os leaf] r by simp
  moreover have "manager_inv (sleep os chainRelockGap w1) = manager_inv w1"
    by (rule quiet_manager_inv) simp
  ultimately show ?case using Suc.IH r by simp
qed simp

lemma relock_wait_quiet: "quiet w v \<Longrightarrow> quiet w (snd (relock_wait os leaf k v))"
  by (induction k arbitrary: v) auto

lemma chainRearmLockAfterRepair_manager:
  assumes "manager_inv w"
  shows "manager_inv (chainRearmLockAfterRepair os leaf w)"
proof -
  have "manager_inv (snd (relock_wait os leaf chainRelockTries w))"
    using quiet_manager_inv [OF relock_wait_quiet [OF quiet_refl]] assms by simp
  then show ?thesis
    using assms by (auto simp: chainRearmLockAfterRepair_def split: prod.split
        intro!: relock_arm_manager chainDisarmLockInProc_manager)
qed

lemma chainRepair_manager: "chainRepair n os leaf w = Some w' \<Longrightarrow> manager_inv w \<Longrightarrow> manager_inv w'"
  by (erule chainRepair_cases) (simp_all add: chainRearmLockAfterRepair_manager quiet_manager_inv)

lemma manager_inv_notes [simp]:
  "manager_inv (chainGuardNoteArm w) = manager_inv w"
  "manager_inv (chainGuardResetDeaths w) = manager_inv w"
  "manager_inv (snd (chainGuardNoteDeath w)) = manager_inv w"
  by (simp_all add: manager_inv_def guard_inv_def chainGuardNoteArm_def chainGuardResetDeaths_def
      chainGuardNoteDeath_def)

lemma manager_inv_process:
  "manager_inv w \<Longrightarrow> manager_inv (w\<lparr>chainGuardProcess := Some pid, chainGuardArmedBy := leaf\<rparr>)"
  "manager_inv w \<Longrightarrow> manager_inv (w\<lparr>chainGuardProcess := None, chainGuardArmedBy := []\<rparr>)"
  by (auto simp: manager_inv_def guard_inv_def intro: guard_ok_process)

lemma manager_inv_spawn:
  "manager_inv w \<Longrightarrow> (\<And>leaf ch. t \<noteq> Watch leaf ch) \<Longrightarrow> manager_inv (spawn t w)"
  using guard_ok_task by (simp add: manager_inv_def guard_inv_def)

lemma chainArmGuard_manager:
  assumes "manager_inv w"
  shows "manager_inv (chainArmGuard os leaf w)"
proof -
  have arm: "manager_inv (snd (chainArmLockInProc os leaf w))"
    by (rule chainArmLockInProc_manager [OF assms])
  show ?thesis
  proof (rule chainArmGuard_cases [of os leaf w])
    fix pid v
    assume "quiet (snd (chainArmLockInProc os leaf w)) v"
      "chainArmGuard os leaf w = spawn (ReapGuard pid)
         (chainGuardNoteArm (v\<lparr>chainGuardProcess := Some pid, chainGuardArmedBy := leaf\<rparr>))"
    then show ?thesis
      using arm quiet_manager_inv by (simp add: manager_inv_spawn manager_inv_process)
  qed (use assms arm quiet_manager_inv in auto)
qed

lemma chainGuardReaped_manager: "manager_inv w \<Longrightarrow> manager_inv (chainGuardReaped pid w)"
  by (simp add: chainGuardReaped_def manager_inv_process)

lemma chainDisarmGuard_manager:
  assumes "manager_inv w"
  shows "manager_inv (chainDisarmGuard os w)"
proof -
  let ?w2 = "snd (chainDisarmLockInProc w)\<lparr>chainGuardProcess := None, chainGuardArmedBy := []\<rparr>"
  have "quiet ?w2 (chainDisarmGuard os w)"
    by (simp add: chainDisarmGuard_def Let_def stand_down_quiet split: option.split)
  moreover have "manager_inv ?w2"
    by (rule manager_inv_process(2) [OF chainDisarmLockInProc_manager [OF assms]])
  ultimately show ?thesis using quiet_manager_inv by blast
qed

lemma chainStartWatch_manager:
  assumes "manager_inv w"
  shows "manager_inv (chainStartWatch leaf w)"
proof (cases "chainWatchCancel w")
  case None
  have l: "lock_inv w" and g: "guard_inv w" using assms by (simp_all add: manager_inv_def)
  let ?n = "w_channels w"
  let ?w = "w\<lparr>w_channels := Suc ?n, chainWatchCancel := Some ?n\<rparr>"
  have fresh: "w_closed w \<subseteq> {..<?n}" "?n \<notin> set_option (chainLockStop w)"
    using l by (auto simp: lock_inv_def)
  have "guard_inv (spawn (Watch leaf ?n) ?w)"
    using guard_ok_watch [OF g [unfolded guard_inv_def None] fresh, of leaf] by (simp add: guard_inv_def)
  moreover have "lock_inv (spawn (Watch leaf ?n) ?w)"
    using l by (auto simp: lock_inv_def)
  ultimately show ?thesis using None by (simp add: chainStartWatch_def new_channel_def manager_inv_def)
qed (use assms in \<open>simp add: chainStartWatch_def\<close>)

lemma chainStopWatch_manager:
  assumes "manager_inv w"
  shows "manager_inv (chainStopWatch w)"
proof (cases "chainWatchCancel w")
  case None
  then have "chainStopWatch w = w" by (simp add: chainStopWatch_def close_opt_def)
  then show ?thesis using assms by simp
next
  case (Some ch)
  have l: "lock_inv w" and g: "guard_inv w" using assms by (simp_all add: manager_inv_def)
  from g Some have ch: "ch < w_channels w" "chainLockStop w \<noteq> Some ch"
    by (auto simp: guard_inv_def guard_ok_def)
  have "guard_inv (chainStopWatch w)"
    using guard_ok_unwatch [OF g [unfolded guard_inv_def Some]] Some
    by (simp add: guard_inv_def chainStopWatch_def close_opt_def close_channel_def)
  moreover have "lock_inv (chainStopWatch w)"
    using l ch Some by (auto simp: lock_inv_def chainStopWatch_def close_opt_def close_channel_def)
  ultimately show ?thesis by (simp add: manager_inv_def)
qed

lemma chainBeforeStop_manager: "manager_inv w \<Longrightarrow> manager_inv (chainBeforeStop os name w)"
  by (simp add: chainBeforeStop_def chainDisarmGuard_manager chainStopWatch_manager)

lemma Stop_manager: "manager_inv w \<Longrightarrow> manager_inv (snd (Stop os name w))"
  using quiet_manager_inv [OF Stop_quiet] chainBeforeStop_manager by blast

lemma stop_intersecting_manager: "manager_inv w \<Longrightarrow> manager_inv (stop_intersecting os tt w)"
proof -
  have zombie: "manager_inv (stop_zombie os t v)" if "manager_inv v" for t v
    using Stop_manager [OF that, of os t] quiet_manager_inv [OF quiet_sleep [OF quiet_refl]] that
    by (simp add: stop_zombie_def)
  have "manager_inv (fold (\<lambda>t w. snd (Stop os t w)) ts v)" if "manager_inv v" for ts v
    using that by (induction ts arbitrary: v) (simp_all add: Stop_manager)
  moreover have "manager_inv (fold (stop_zombie os) ts v)" if "manager_inv v" for ts v
    using that by (induction ts arbitrary: v) (simp_all add: zombie)
  ultimately show "manager_inv w \<Longrightarrow> manager_inv (stop_intersecting os tt w)"
    by (simp add: stop_intersecting_def)
qed

lemma chainArmWhenReady_manager:
  assumes "manager_inv w"
  shows "manager_inv (chainArmWhenReady os leaf w)"
proof -
  obtain r w1 where r: "chainWaitForHop os leaf w = (r, w1)" by force
  have "quiet w w1" using wait_quiet(2) [OF quiet_refl, of w os leaf] r by simp
  then have "manager_inv w1" using assms quiet_manager_inv by blast
  then show ?thesis
    by (simp add: chainArmWhenReady_def r chainStartWatch_manager chainArmGuard_manager split: option.split)
qed

lemma watch_turn_manager: "watch_turn n os leaf v w = Some (v', w') \<Longrightarrow> manager_inv w \<Longrightarrow> manager_inv w'"
  using chainRepair_manager
  by (auto simp: watch_turn_def chainArmGuard_manager Let_def split: if_splits option.splits)

lemma chainLockWatchStopEvent_manager:
  "manager_inv w \<Longrightarrow> manager_inv (snd (chainLockWatchStopEvent stop signalled w))"
  by (simp add: chainLockWatchStopEvent_def chainDisarmLockInProc_manager)

section \<open>The transition relation\<close>

text \<open>
  The state: the world, the variables of each watch by its channel, and the goroutines that have
  returned, by their place in \<open>w_tasks\<close>.
\<close>

record manager =
  m_world :: world
  m_watch :: "nat \<Rightarrow> watch"
  m_done :: "nat set"

datatype label =
    Pass nat
  | AskStart string | AskStop string | AskDelete string | AskCreate config
  | AskSettings string tunnel_settings | AskGlobal global_settings | AskLift
  | Turn task

definition live :: "manager \<Rightarrow> nat \<Rightarrow> task \<Rightarrow> bool" where
  "live m i t \<longleftrightarrow> i < length (w_tasks (m_world m)) \<and> w_tasks (m_world m) ! i = t \<and> i \<notin> m_done m"

definition finish :: "nat \<Rightarrow> world \<Rightarrow> manager \<Rightarrow> manager" where
  "finish i w m = m\<lparr>m_world := w, m_done := insert i (m_done m)\<rparr>"

inductive step :: "os \<Rightarrow> label \<Rightarrow> manager \<Rightarrow> manager \<Rightarrow> bool" for os where
  pass: "step os (Pass d) m (m\<lparr>m_world := sleep os d (m_world m)\<rparr>)"
| start: "Start n os name (m_world m) = Some (e, w) \<Longrightarrow> step os (AskStart name) m (m\<lparr>m_world := w\<rparr>)"
| stop: "Stop os name (m_world m) = (e, w) \<Longrightarrow> step os (AskStop name) m (m\<lparr>m_world := w\<rparr>)"
| delete: "Delete os name (m_world m) = (e, w) \<Longrightarrow> step os (AskDelete name) m (m\<lparr>m_world := w\<rparr>)"
| create: "Create os c (m_world m) = (e, w) \<Longrightarrow> step os (AskCreate c) m (m\<lparr>m_world := w\<rparr>)"
| settings: "chainServeSettingsSet os name s (m_world m) = (ok, w) \<Longrightarrow>
    step os (AskSettings name s) m (m\<lparr>m_world := w\<rparr>)"
| global: "ChainGlobalSave os g (m_world m) = (ok, w) \<Longrightarrow> step os (AskGlobal g) m (m\<lparr>m_world := w\<rparr>)"
| lift: "step os AskLift m (m\<lparr>m_world := chainServeLiftLock (m_world m)\<rparr>)"
| intersecting: "live m i (StopIntersecting tt) \<Longrightarrow>
    step os (Turn (StopIntersecting tt)) m (finish i (stop_intersecting os tt (m_world m)) m)"
| arm_when_ready: "live m i (ArmWhenReady leaf) \<Longrightarrow>
    step os (Turn (ArmWhenReady leaf)) m (finish i (chainArmWhenReady os leaf (m_world m)) m)"
| watch_turn: "live m i (Watch leaf ch) \<Longrightarrow> ch \<notin> w_closed (m_world m) \<Longrightarrow>
    watch_turn n os leaf (m_watch m ch) (m_world m) = Some (v, w) \<Longrightarrow>
    step os (Turn (Watch leaf ch)) m (m\<lparr>m_world := w, m_watch := (m_watch m)(ch := v)\<rparr>)"
| watch_end: "live m i (Watch leaf ch) \<Longrightarrow> ch \<in> w_closed (m_world m) \<Longrightarrow>
    step os (Turn (Watch leaf ch)) m (finish i (m_world m) m)"
| listen: "live m i (ListenStop ch) \<Longrightarrow> chainLockWatchStopEvent ch signalled (m_world m) = (over, w) \<Longrightarrow>
    step os (Turn (ListenStop ch)) m (if over then finish i w m else m\<lparr>m_world := w\<rparr>)"
| reap: "live m i (ReapGuard pid) \<Longrightarrow> \<not> os_alive os (w_history (m_world m)) pid \<Longrightarrow>
    step os (Turn (ReapGuard pid)) m (finish i (chainGuardReaped pid (m_world m)) m)"

inductive_cases step_PassE: "step os (Pass d) m m'"
inductive_cases step_StartE: "step os (AskStart name) m m'"
inductive_cases step_CreateE: "step os (AskCreate c) m m'"
inductive_cases step_WatchE: "step os (Turn (Watch leaf ch)) m m'"
inductive_simps step_lift: "step os AskLift m m'"

text \<open>A manager that has just been started.\<close>

definition fresh :: "manager \<Rightarrow> bool" where
  "fresh m \<longleftrightarrow> (let w = m_world m in
     w_tasks w = [] \<and> w_closed w = {} \<and> chainSession w = None \<and> ipv6Session w = None
     \<and> \<not> chainLockOn w \<and> chainLockLeaf w = [] \<and> chainLockStop w = None
     \<and> chainGuardProcess w = None \<and> chainGuardArmedBy w = [] \<and> chainWatchCancel w = None
     \<and> chainGuardDeaths w = 0 \<and> m_watch m = (\<lambda>_. new_watch) \<and> m_done m = {})"

inductive reachable :: "os \<Rightarrow> manager \<Rightarrow> bool" for os where
  init: "fresh m \<Longrightarrow> reachable os m"
| more: "reachable os m \<Longrightarrow> step os l m m' \<Longrightarrow> reachable os m'"

section \<open>What holds in every reachable state\<close>

lemma manager_inv_other [simp]:
  "manager_inv (w\<lparr>w_dir := d\<rparr>) = manager_inv w"
  "manager_inv (w\<lparr>chainSettingsCache := c\<rparr>) = manager_inv w"
  "manager_inv (w\<lparr>ipv6Session := s\<rparr>) = manager_inv w"
  "manager_inv (w\<lparr>w_book_file := b\<rparr>) = manager_inv w"
  "manager_inv (act a w) = manager_inv w"
  by (simp_all add: manager_inv_def guard_inv_def lock_inv_def)

lemma chainDropIPv6Block_manager [simp]: "manager_inv (chainDropIPv6Block w) = manager_inv w"
  by (simp add: chainDropIPv6Block_def)

lemma settings_manager:
  "chainServeSettingsSet os name s w = (ok, w') \<Longrightarrow> manager_inv w' = manager_inv w \<and> chainLockOn w' = chainLockOn w"
  "ChainGlobalSave os g w = (ok, w') \<Longrightarrow> manager_inv w' = manager_inv w \<and> chainLockOn w' = chainLockOn w"
  by (auto simp: chainServeSettingsSet_def ChainGlobalSave_def chainSettingsStoreLocked_def ChainSettingsSave_def
      chainSettingsApplyNow_def ChainSettingsFor_eq chainSettingsLoadLocked_def Let_def
      split: prod.splits option.splits if_splits write_result.splits)

lemma Delete_manager: "Delete os name w = (e, w') \<Longrightarrow> manager_inv w \<Longrightarrow> manager_inv w'"
  using Stop_manager [of w os name]
  by (auto simp: Delete_def split: if_splits prod.splits option.splits sum.splits)

lemma Create_manager:
  "Create os c w = (e, w') \<Longrightarrow> manager_inv w' = manager_inv w \<and> chainLockOn w' = chainLockOn w"
  by (auto simp: Create_def split: if_splits sum.splits)

lemma step_manager:
  "step os l m m' \<Longrightarrow> manager_inv (m_world m) \<Longrightarrow> manager_inv (m_world m')"
proof (induction rule: step.induct)
  case (pass d m)
  then show ?case using quiet_manager_inv [OF quiet_sleep [OF quiet_refl]] by simp
next
  case (start n name m e w)
  then show ?case using quiet_manager_inv [OF quiet_callD [OF Start_quiet]] by simp
next
  case (stop name m e w)
  then show ?case using Stop_manager [of "m_world m" os name] by simp
next
  case (listen m i ch signalled over w)
  then show ?case
    using chainLockWatchStopEvent_manager [of "m_world m" ch signalled] by (simp add: finish_def)
qed (auto simp: finish_def Delete_manager Create_manager settings_manager chainServeLiftLock_def
    chainDisarmLockInProc_manager stop_intersecting_manager chainArmWhenReady_manager watch_turn_manager
    chainGuardReaped_manager)

lemma watch_turn_slow:
  "watch_turn n os leaf v w = Some (v', w') \<Longrightarrow> slow v = (chainMaxRepairs \<le> failures v) \<Longrightarrow>
   slow v' = (chainMaxRepairs \<le> failures v')"
  by (auto simp: watch_turn_def Let_def chainMaxRepairs_def split: if_splits option.splits)

lemma step_watch:
  "step os l m m' \<Longrightarrow> \<forall>ch. slow (m_watch m ch) = (chainMaxRepairs \<le> failures (m_watch m ch)) \<Longrightarrow>
   \<forall>ch. slow (m_watch m' ch) = (chainMaxRepairs \<le> failures (m_watch m' ch))"
  by (induction rule: step.induct) (auto simp: finish_def watch_turn_slow)

lemma reachable_manager: "reachable os m \<Longrightarrow> manager_inv (m_world m)"
proof (induction rule: reachable.induct)
  case (init m)
  then show ?case by (simp add: fresh_def Let_def manager_inv_def lock_inv_def guard_inv_def guard_ok_def)
qed (rule step_manager)

lemma reachable_watch:
  "reachable os m \<Longrightarrow> \<forall>ch. slow (m_watch m ch) = (chainMaxRepairs \<le> failures (m_watch m ch))"
proof (induction rule: reachable.induct)
  case (init m)
  then show ?case by (simp add: fresh_def Let_def new_watch_def chainMaxRepairs_def)
next
  case (more m l m')
  then show ?case by (elim step_watch)
qed

section \<open>Which steps open and which close\<close>

text \<open>The machine as its user sees it, and the steps that may move it.\<close>

datatype gate = Open | Shut

definition gate_of :: "manager \<Rightarrow> gate" where
  "gate_of m = (if chainSession (m_world m) = None then Open else Shut)"

fun opens :: "label \<Rightarrow> bool" where
  "opens (AskStop name) = True"
| "opens (AskDelete name) = True"
| "opens AskLift = True"
| "opens (Turn (StopIntersecting tt)) = True"
| "opens (Turn (ListenStop ch)) = True"
| "opens (Turn (Watch leaf ch)) = True"
| "opens _ = False"

fun shuts :: "label \<Rightarrow> bool" where
  "shuts (Turn (ArmWhenReady leaf)) = True"
| "shuts (Turn (Watch leaf ch)) = True"
| "shuts _ = False"

definition gate_step :: "label \<Rightarrow> gate \<Rightarrow> gate \<Rightarrow> bool" where
  "gate_step l g g' \<longleftrightarrow> (g = Shut \<and> g' = Open \<longrightarrow> opens l) \<and> (g = Open \<and> g' = Shut \<longrightarrow> shuts l)"

lemma chainDisarmGuard_stays_off: "\<not> chainLockOn (chainDisarmGuard os w)"
proof -
  let ?w2 = "snd (chainDisarmLockInProc w)\<lparr>chainGuardProcess := None, chainGuardArmedBy := []\<rparr>"
  have "quiet ?w2 (chainDisarmGuard os w)"
    by (simp add: chainDisarmGuard_def Let_def stand_down_quiet split: option.split)
  then show ?thesis using quiet_lock(2) chainDisarmLockInProc_off(1) [of w] by fastforce
qed

lemma Stop_stays_off:
  assumes "\<not> chainLockOn w"
  shows "\<not> chainLockOn (snd (Stop os name w))"
proof -
  have "\<not> chainLockOn (chainBeforeStop os name w)"
    using assms by (simp add: chainBeforeStop_def chainDisarmGuard_stays_off)
  then show ?thesis using quiet_lock(2) [OF Stop_quiet] by blast
qed

lemma stop_intersecting_stays_off:
  assumes "\<not> chainLockOn w"
  shows "\<not> chainLockOn (stop_intersecting os tt w)"
proof -
  have zombie: "\<not> chainLockOn (stop_zombie os t v)" if "\<not> chainLockOn v" for t v
    using Stop_stays_off [OF that, of os t] that by (simp add: stop_zombie_def)
  have "\<not> chainLockOn (fold (\<lambda>t w. snd (Stop os t w)) ts v)" if "\<not> chainLockOn v" for ts v
    using that by (induction ts arbitrary: v) (simp_all add: Stop_stays_off)
  moreover have "\<not> chainLockOn (fold (stop_zombie os) ts v)" if "\<not> chainLockOn v" for ts v
    using that by (induction ts arbitrary: v) (simp_all add: zombie)
  ultimately show ?thesis using assms by (simp add: stop_intersecting_def)
qed

lemma watch_channel_lock [simp]: "chainLockOn (chainStartWatch leaf w) = chainLockOn w"
  by (simp add: chainStartWatch_def new_channel_def)

lemma chainArmWhenReady_keeps_on:
  assumes "chainLockOn w"
  shows "chainLockOn (chainArmWhenReady os leaf w)"
proof -
  obtain r w1 where r: "chainWaitForHop os leaf w = (r, w1)" by force
  have "quiet w w1" using wait_quiet(2) [OF quiet_refl, of w os leaf] r by simp
  then have "chainLockOn w1" using assms quiet_lock(2) by blast
  then show ?thesis by (simp add: chainArmWhenReady_def r guard.arm_keeps split: option.split)
qed

lemma chainGuardReaped_on [simp]: "chainLockOn (chainGuardReaped pid w) = chainLockOn w"
  by (simp add: chainGuardReaped_def chainGuardNoteDeath_def)

lemma Delete_stays_off: "Delete os name w = (e, w') \<Longrightarrow> \<not> chainLockOn w \<Longrightarrow> \<not> chainLockOn w'"
  using Stop_stays_off [of w os name]
  by (auto simp: Delete_def split: if_splits prod.splits option.splits sum.splits)

lemma step_lock:
  assumes "step os l m m'" "chainLockOn (m_world m) \<noteq> chainLockOn (m_world m')"
  shows "if chainLockOn (m_world m) then opens l else shuts l"
  using assms
proof (induction rule: step.induct)
  case (start n name m e w)
  then show ?case using quiet_lock(2) [OF quiet_callD [OF Start_quiet]] by simp
next
  case (stop name m e w)
  then show ?case using Stop_stays_off [of "m_world m" os name] by auto
next
  case (delete name m e w)
  then show ?case using Delete_stays_off by auto
next
  case (create c m e w)
  then show ?case using Create_manager by simp
next
  case (settings name s m ok w)
  then show ?case using settings_manager by simp
next
  case (global g m ok w)
  then show ?case using settings_manager by simp
next
  case (lift m)
  then show ?case using chainDisarmLockInProc_off(1) by (simp add: chainServeLiftLock_def)
next
  case (intersecting m i tt)
  then show ?case using stop_intersecting_stays_off by (auto simp: finish_def)
next
  case (arm_when_ready m i leaf)
  then show ?case using chainArmWhenReady_keeps_on by (auto simp: finish_def)
next
  case (listen m i ch signalled over w)
  then show ?case
    using chainDisarmLockInProc_off(1)
    by (auto simp: finish_def chainLockWatchStopEvent_def split: if_splits)
qed (auto simp: finish_def)

lemma step_gate:
  assumes "reachable os m" and "step os l m m'"
  shows "gate_step l (gate_of m) (gate_of m')"
proof -
  have session: "chainLockOn (m_world k) \<longleftrightarrow> chainSession (m_world k) \<noteq> None" if "reachable os k" for k
    using reachable_manager [OF that] by (simp add: manager_inv_def lock_inv_def)
  from session [OF assms(1)] session [OF reachable.more [OF assms]] step_lock [OF assms(2)]
  show ?thesis by (auto simp: gate_step_def gate_of_def)
qed

end
