(* ===== verification/RunSamples.thy ===== *)
theory RunSamples
  imports Samples ChainSteps
begin

text \<open>
  More samples: a machine on which every service runs and every tunnel has shaken hands, and a hop
  that is pinned through itself.
\<close>

section \<open>A machine where everything runs\<close>

definition zeros :: "nat \<Rightarrow> string" where "zeros n = replicate n (CHR ''0'')"

definition handshake_answer :: string where
  "handshake_answer =
     unlines [''public_key='' @ zeros 63 @ ''7'', ''last_handshake_time_sec=5'', '''']"

definition live_os :: "fw_api \<Rightarrow> os" where
  "live_os api = sample_os
     \<lparr>os_open := (\<lambda>_ _. None), os_query := (\<lambda>_ _. Inr SvcRunning),
      os_uapi := (\<lambda>_ _. Inr handshake_answer), os_firewall := (\<lambda>_. api)\<rparr>"

lemma live_os_simps [simp]:
  "os_store (live_os api) = sample_env" "os_open (live_os api) h svc = None" "os_query (live_os api) h svc = Inr SvcRunning"
  "os_uapi (live_os api) h n = Inr handshake_answer" "os_manager (live_os api) h = None"
  "os_service_name (live_os api) n = Inr (''AwgTunnel'' @ n)" "os_executable (live_os api) h = Some self_path"
  "os_elevated (live_os api)" "os_tracked (live_os api) h = []" "os_firewall (live_os api) = (\<lambda>_. api)"
  "os_no_inproc_lock (live_os api) h = False" "os_delete (live_os api) h s = None" "os_close (live_os api) h s = None"
  "os_no_autoguard (live_os api) h = False"
  by (simp_all add: live_os_def) (simp_all add: sample_os_def)

lemma live_State [simp]: "State (live_os api) name w = Inr TunnelStarted"
  by (simp add: State_def)

lemma handshake_lines:
  "split_on NL handshake_answer
   = [''public_key='' @ zeros 63 @ ''7'', ''last_handshake_time_sec=5'', [], []]"
  by code_simp

lemma handshake_key:
  "index_byte (CHR ''='') (''public_key='' @ zeros 63 @ ''7'') = Some 10"
  "take 10 (''public_key='' @ zeros 63 @ ''7'') = ''public_key''"
  "drop 11 (''public_key='' @ zeros 63 @ ''7'') = zeros 63 @ ''7''"
  "parseKeyHex (zeros 63 @ ''7'') = Inr (replicate 31 0 @ [7])"
  by code_simp+

lemma handshake_stamp:
  "index_byte (CHR ''='') ''last_handshake_time_sec=5'' = Some 23"
  "take 23 ''last_handshake_time_sec=5'' = ''last_handshake_time_sec''"
  "drop 24 ''last_handshake_time_sec=5'' = ''5''"
  by code_simp+

lemma handshake_number: "parseBytesOrStamp ''5'' = Inr 5"
proof -
  have "dec 5 = ''5''" by code_simp
  then show ?thesis using parse_uint_dec [of 5 64] by (simp add: parseBytesOrStamp_def)
qed

lemma live_answer:
  "\<exists>c. FromUAPI ascii_unicode handshake_answer existing = Inr c
     \<and> map LastHandshakeTime (Peers c) = [5000000000]"
  by (simp add: FromUAPI_def handshake_lines uapi_line_def handshake_key handshake_stamp handshake_number
      uapi_peer_key_def maybeAddPeer_def uapi_start_def Let_def zero_peer_def)

lemma sample_parents:
  "chainParentName sample_env (Some sample_dir) ''pair'' = ''pair-hop1''"
  "chainParentName sample_env (Some sample_dir) ''pair-hop1'' = []"
  by (simp_all add: chainParentName_def chainParentOfConfig_def loaded_def sample_load sample_list
      sample_folds Let_def)

lemma sample_same_folds:
  "equal_fold ascii_unicode ''pair'' ''pair''" "equal_fold ascii_unicode ''pair-hop1'' ''pair-hop1''"
  by code_simp+

lemma sample_children:
  "chainChildNames sample_env (Some sample_dir) ''pair-hop1'' = [''pair'']"
  "chainChildNames sample_env (Some sample_dir) ''pair'' = []"
  by (simp_all add: chainChildNames_def sample_list loaded_def sample_load sample_folds sample_same_folds)

lemma sample_is_hop:
  "chainHopByName sample_env (Some sample_dir) ''pair''" "chainHopByName sample_env (Some sample_dir) ''pair-hop1''"
  by (simp_all add: chainHopByName_def isChainHop_def loaded_def sample_load sample_folds)

lemma live_runtime:
  assumes "w_dir w = Some sample_dir" and "name \<in> {''pair'', ''pair-hop1''}"
  shows "\<exists>c. RuntimeConfig (live_os api) name w = Inr c \<and> map LastHandshakeTime (Peers c) = [5000000000]"
proof -
  obtain c where c: "LoadFromName sample_env (Some sample_dir) name = Inr c"
    using assms(2) sample_load by (metis insert_iff singletonD)
  from live_answer [of c] obtain r where r: "FromUAPI ascii_unicode handshake_answer c = Inr r"
    "map LastHandshakeTime (Peers r) = [5000000000]" by (elim exE conjE)
  have "RuntimeConfig (live_os api) name w = Inr r" by (simp add: RuntimeConfig_def assms(1) c r(1))
  with r(2) show ?thesis by (intro exI conjI)
qed

lemma live_up:
  assumes "w_dir w = Some sample_dir" and "name \<in> {''pair'', ''pair-hop1''}"
  shows "hop_is_up (live_os api) name w"
proof -
  from live_runtime [OF assms, of api] obtain c where
    c: "RuntimeConfig (live_os api) name w = Inr c" "map LastHandshakeTime (Peers c) = [5000000000]" by (elim exE conjE)
  from c(2) obtain p :: peer where "Peers c = [p]" "LastHandshakeTime p = 5000000000"
    unfolding map_eq_Cons_conv map_is_Nil_conv by (elim exE conjE) simp
  then show ?thesis
    by (simp add: hop_is_up_def chainHopHandshook_def c(1) handshake_is_empty_def)
qed

lemma sample_path: "Path ascii_unicode (Some sample_dir) hop2_conf = Inr ''pair.conf''"
proof -
  have "read_file sample_dir (''pair'' @ configFileUnencryptedSuffix) = Inr (ToWgQuick ascii_unicode [] hop2_conf)"
    by (simp add: read_file_def find_entry_def sample_dir_def plain_file_def configFileUnencryptedSuffix_def)
  then show ?thesis
    using LoadFromName_hop(2) [where env = sample_env and c = hop2_conf and ord = "[]" and d = sample_dir]
      hop_wf sample_short sample_order by (simp add: configFileUnencryptedSuffix_def)
qed

lemma live_start:
  assumes "w_dir w = Some sample_dir"
  shows "Start (Suc n) (live_os api) ''pair'' w
    = Some (None, spawn (ArmWhenReady ''pair'') (act (TrackService ''AwgTunnelpair'') (spawn (StopIntersecting []) w)))"
proof -
  have up: "hop_is_up (live_os api) ''pair-hop1'' w" by (rule live_up) (simp_all add: assms)
  have name: "NameFromPath ascii_unicode ''pair.conf'' = Inr ''pair''" by code_simp
  show ?thesis
    using up by (simp add: assms sample_load chainStartParents_def sample_parents chainMaxDepth_def start_here_def
        sample_path chainInstallAndArm_def InstallTunnel_def name sample_is_hop sample_children)
qed

section \<open>A hop pinned through itself\<close>

text \<open>The pair built with the name of the hidden hop given for the adapter.\<close>

definition self_conf :: config where "self_conf = build_hop1 warp_conf ''pair-hop1'' ''pair-hop1''"

definition self_dir :: directory where
  "self_dir = [plain_file ''pair-hop1'' (ToWgQuick ascii_unicode [] self_conf)]"

lemma self_conf_fields [simp]:
  "Name self_conf = ''pair-hop1''" "PinEndpointVia (Interface self_conf) = ''pair-hop1''"
  "IPackets (Interface self_conf) = Map.empty" "Peers self_conf = Peers hop1_conf"
  by (simp_all add: self_conf_def hop1_conf_def build_hop1_def Let_def warp_conf_def zero_interface_def)

lemma self_wf: "wf_config ascii_unicode self_conf"
proof -
  have "trim_space ''pair-hop1'' = ''pair-hop1''" by code_simp
  then have "ChainBuild ascii_unicode (Some warp_conf) (Some inner_conf) ''pair-hop1'' ''pair''
     = Inr (self_conf, hop2_conf)"
    using sample_names by (simp add: ChainBuild_def Let_def pair_texts self_conf_def hop2_conf_def)
  from ChainBuild_wf [OF this sample_wf] show ?thesis
    using sample_values sample_folds(1) by simp
qed

lemma self_short: "short_lines (ToWgQuick ascii_unicode [] self_conf)"
proof -
  let ?i = "Interface self_conf"
  have "junk_lines ?i = [''Jc = 4'']" "timing_lines ?i = []" "PrivateKey ?i = sample_key"
    using interface_texts(9)
    by (simp_all add: junk_lines_def timing_lines_def opt_line_def self_conf_def build_hop1_def Let_def
        warp_conf_def zero_interface_def key_is_zero_def kv_def)
  moreover have "length (concat (network_lines ?i)) \<le> 300" "length (network_lines ?i) \<le> 20"
    by code_simp+
  ultimately have "length (ToWgQuick ascii_unicode [] self_conf) \<le> 1000"
    using interface_texts
    by (simp add: ToWgQuick_def interface_lines_def length_unlines hop1_peer peer_lines_def
        opt_line_def zero_peer_def key_is_zero_def kv_def key_length)
  then show ?thesis by (simp add: short_text_lines)
qed

lemma self_load: "LoadFromName sample_env (Some self_dir) ''pair-hop1'' = Inr self_conf"
proof -
  have "read_file self_dir (''pair-hop1'' @ configFileUnencryptedSuffix) = Inr (ToWgQuick ascii_unicode [] self_conf)"
    by (simp add: read_file_def find_entry_def self_dir_def plain_file_def configFileUnencryptedSuffix_def)
  then show ?thesis
    using LoadFromName_hop(1) [where env = sample_env and c = self_conf and ord = "[]" and d = self_dir]
      self_wf self_short by simp
qed

lemma self_parent: "chainParentName sample_env (Some self_dir) ''pair-hop1'' = ''pair-hop1''"
proof -
  have "has_suffix ''pair-hop1.conf'' ''.conf''" "trim_suffix ''pair-hop1.conf'' ''.conf'' = ''pair-hop1''"
    by code_simp+
  then have "ListConfigNames ascii_unicode (Some self_dir) = Inr [''pair-hop1'']"
    using sample_names
    by (simp add: ListConfigNames_def self_dir_def plain_file_def plainConfigName_def readable_entry_def
        configFileUnencryptedSuffix_def configFileSuffix_def exists_file_def find_entry_def Let_def)
  then show ?thesis
    by (simp add: chainParentName_def chainParentOfConfig_def loaded_def self_load sample_folds
        sample_same_folds Let_def)
qed

text \<open>A machine without any service.\<close>

definition idle_os :: os where
  "idle_os = sample_os\<lparr>os_open := (\<lambda>_ _. Some ERROR_SERVICE_DOES_NOT_EXIST)\<rparr>"

lemma idle_State: "State idle_os name w = Inr TunnelStopped"
  by (simp add: State_def idle_os_def) (simp add: sample_os_def)

lemma idle_services_go: "services_go idle_os"
  unfolding services_go_def by (intro allI impI exI [of _ 0]) (simp add: idle_os_def)

lemma sample_root: "chainParentName sample_env (Some sample_dir) ''pair-hop1'' = []"
  by (simp add: chainParentName_def chainParentOfConfig_def loaded_def sample_load sample_list sample_folds Let_def)

lemma idle_store [simp]: "os_store idle_os = sample_env"
  by (simp add: idle_os_def)

end
