(* ===== verification/StopFacts.thy ===== *)
theory StopFacts
  imports ChainSteps
begin

text \<open>
  What a deliberate stop (\<open>chainBeforeStop\<close> of \<open>upstream-manager/chainguard.go\<close>) does to those
  who run beside the manager: the channels its goroutines wait on are closed, and a guard process
  is signalled and then seen dead or killed.
\<close>

section \<open>Channels\<close>

lemma close_opt_closed:
  "w_closed (close_opt ch w) = w_closed w \<union> set_option ch" "w_history (close_opt ch w) = w_history w"
  "chainGuardProcess (close_opt ch w) = chainGuardProcess w" "chainLockStop (close_opt ch w) = chainLockStop w"
  "chainLockOn (close_opt ch w) = chainLockOn w"
  by (auto simp: close_opt_def close_channel_def split: option.split)

lemma disarm_closed:
  "w_closed w \<subseteq> w_closed (snd (chainDisarmLockInProc w))"
  "chainLockOn w \<Longrightarrow> set_option (chainLockStop w) \<subseteq> w_closed (snd (chainDisarmLockInProc w))"
  by (auto simp: chainDisarmLockInProc_def Let_def close_opt_closed)

lemma disarm_history: "prefix (w_history w) (w_history (snd (chainDisarmLockInProc w)))"
  by (auto simp: chainDisarmLockInProc_def Let_def chainDropIPv6Block_def disable_lock_def act_def close_opt_closed)

lemma disarm_process: "chainGuardProcess (snd (chainDisarmLockInProc w)) = chainGuardProcess w"
  by (auto simp: chainDisarmLockInProc_def Let_def chainDropIPv6Block_def disable_lock_def act_def close_opt_closed)

lemma stand_down_closed: "w_closed (stand_down os pid k w) = w_closed w"
  using stand_down_quiet [OF quiet_refl, of w os pid k] by (auto simp: quiet_def)

section \<open>The guard process\<close>

lemma stand_down_ends:
  "\<exists>post. w_history (stand_down os pid k w) = w_history w @ post
    \<and> (KillGuard pid \<in> set post \<or> \<not> os_alive os (w_history (stand_down os pid k w)) pid)"
proof (induction k arbitrary: w)
  case 0
  then show ?case by (simp add: act_def)
next
  case (Suc k)
  let ?w = "sleep os 100000000 w"
  show ?case
  proof (cases "os_alive os (w_history ?w) pid")
    case True
    from Suc.IH [of ?w] obtain post where "w_history (stand_down os pid k ?w) = w_history ?w @ post"
      "KillGuard pid \<in> set post \<or> \<not> os_alive os (w_history (stand_down os pid k ?w)) pid" by blast
    then show ?thesis using True by (intro exI [of _ "Sleep 100000000 # post"]) (simp add: Let_def)
  next
    case False
    then show ?thesis by (intro exI [of _ "[Sleep 100000000]"]) (simp add: Let_def)
  qed
qed

text \<open>In \<open>h'\<close> the guard was signalled after \<open>h\<close>, and then it was killed or seen dead.\<close>

definition guard_ended :: "os \<Rightarrow> nat \<Rightarrow> history \<Rightarrow> history \<Rightarrow> bool" where
  "guard_ended os pid h h' \<longleftrightarrow>
     (\<exists>pre post rest. h' = h @ pre @ SignalGuard # post @ rest
        \<and> (KillGuard pid \<in> set post \<or> \<not> os_alive os (h @ pre @ SignalGuard # post) pid))"

lemma guard_ended_longer: "guard_ended os pid h h' \<Longrightarrow> prefix h' h'' \<Longrightarrow> guard_ended os pid h h''"
  unfolding guard_ended_def prefix_def by (metis append.assoc append_Cons)

lemma chainDisarmGuard_ended:
  assumes "chainGuardProcess w = Some pid"
  shows "guard_ended os pid (w_history w) (w_history (chainDisarmGuard os w))"
proof -
  let ?w1 = "snd (chainDisarmLockInProc w)"
  let ?w2 = "act SignalGuard (?w1\<lparr>chainGuardProcess := None, chainGuardArmedBy := []\<rparr>)"
  obtain pre where pre: "w_history ?w1 = w_history w @ pre" using disarm_history [of w] by (auto simp: prefix_def)
  have res: "chainDisarmGuard os w = stand_down os pid 50 ?w2"
    using assms by (simp add: chainDisarmGuard_def Let_def disarm_process)
  from stand_down_ends [of os pid 50 ?w2] obtain post where
    post: "w_history (stand_down os pid 50 ?w2) = w_history ?w2 @ post"
      "KillGuard pid \<in> set post \<or> \<not> os_alive os (w_history (stand_down os pid 50 ?w2)) pid" by blast
  show ?thesis
    unfolding guard_ended_def res
    by (intro exI [of _ pre] exI [of _ post] exI [of _ "[]"]) (use post pre in \<open>simp add: act_def\<close>)
qed

section \<open>The whole stop\<close>

lemma chainBeforeStop_ends:
  assumes "stop_involved os name w"
  shows "set_option (chainWatchCancel w) \<subseteq> w_closed (chainBeforeStop os name w)"
    and "chainLockOn w \<Longrightarrow> set_option (chainLockStop w) \<subseteq> w_closed (chainBeforeStop os name w)"
    and "chainGuardProcess w = Some pid \<Longrightarrow>
      guard_ended os pid (w_history w) (w_history (chainBeforeStop os name w))"
proof -
  let ?v = "chainGuardResetDeaths (chainStopWatch w)"
  have res: "chainBeforeStop os name w = chainDisarmGuard os ?v" using assms by (simp add: chainBeforeStop_def)
  have v: "w_closed ?v = w_closed w \<union> set_option (chainWatchCancel w)" "w_history ?v = w_history w"
    "chainGuardProcess ?v = chainGuardProcess w" "chainLockOn ?v = chainLockOn w" "chainLockStop ?v = chainLockStop w"
    by (simp_all add: chainGuardResetDeaths_def chainStopWatch_def close_opt_closed)
  have closed: "w_closed (chainDisarmGuard os ?v) = w_closed (snd (chainDisarmLockInProc ?v))"
    by (simp add: chainDisarmGuard_def Let_def stand_down_closed split: option.split)
  show "set_option (chainWatchCancel w) \<subseteq> w_closed (chainBeforeStop os name w)"
    using disarm_closed(1) [of ?v] by (simp add: res closed v)
  show "chainLockOn w \<Longrightarrow> set_option (chainLockStop w) \<subseteq> w_closed (chainBeforeStop os name w)"
    using disarm_closed(2) [of ?v] by (simp add: res closed v)
  show "guard_ended os pid (w_history w) (w_history (chainBeforeStop os name w))"
    if "chainGuardProcess w = Some pid"
    using chainDisarmGuard_ended [of ?v pid os] that by (simp add: res v)
qed

lemma Stop_ends:
  assumes "stop_involved os name w"
  shows "set_option (chainWatchCancel w) \<subseteq> w_closed (snd (Stop os name w))"
    and "chainLockOn w \<Longrightarrow> set_option (chainLockStop w) \<subseteq> w_closed (snd (Stop os name w))"
    and "chainGuardProcess w = Some pid \<Longrightarrow> guard_ended os pid (w_history w) (w_history (snd (Stop os name w)))"
  using chainBeforeStop_ends [OF assms] Stop_quiet [of os name w] guard_ended_longer
  by (auto simp: quiet_def)

end
