(* ===== verification/RunClaims.thy ===== *)
theory RunClaims
  imports RunSamples StopFacts
begin

text \<open>
  The properties of the running manager: starting, stopping, watching and repairing a chain
  (\<open>upstream-manager/ipc_server.go\<close>, \<open>chainorder.go\<close>, \<open>chainretry.go\<close>, \<open>chainguard.go\<close>).
\<close>

section \<open>Starting\<close>



text \<open>
  C39: When the pins of stopped tunnels lead in a circle, starting one of them never returns: the
  recursion starts the hop underneath with its depth counter back at zero. A tunnel pinned through
  itself is enough.
\<close>

theorem pin_cycle_never_returns:
  assumes "\<forall>a\<in>S. chainParentName (os_store os) (w_dir w) a \<in> S \<and> a \<noteq> []"
    and "\<forall>a\<in>S. loaded (os_store os) (w_dir w) a \<noteq> None"
    and "\<And>a v. a \<in> S \<Longrightarrow> State os a v = Inr TunnelStopped" and "name \<in> S"
  shows "Start n os name w = None"
  using Start_cycle [OF assms(1-3), of name w n] assms(4) by simp

theorem pin_cycle_never_returns_witness:
  "\<forall>n. Start n idle_os ''pair-hop1'' (sample_world\<lparr>w_dir := Some self_dir\<rparr>) = None"
  using pin_cycle_never_returns [of "{''pair-hop1''}" idle_os "sample_world\<lparr>w_dir := Some self_dir\<rparr>" "''pair-hop1''"]
  by (simp add: self_parent idle_State loaded_def self_load)

text \<open>
  C21: When \<open>Start\<close> succeeds for a tunnel that rides on another, the hop underneath was running and
  had shaken hands before the tunnel itself was installed; the store, the settings and the
  protection are as they were.
\<close>

theorem parents_up_first:
  assumes "Start n os name w = Some (None, w')"
    and "chainParentName (os_store os) (w_dir w) name = parent" and "parent \<noteq> []"
  shows "\<exists>c v. LoadFromName (os_store os) (w_dir w) name = Inr c \<and> quiet w v \<and> hop_is_up os parent v
    \<and> start_here os name c v = Some (None, w') \<and> quiet v w'"
  using assms(1)
proof (cases rule: Start_cases)
  case (here m c v)
  have "quiet w v" by (rule quiet_callD [OF Start.chainStartParents_quiet here(3)])
  moreover have "hop_is_up os parent v" by (rule chainStartParents_up [OF here(3) assms(2,3)])
  moreover have "quiet v w'" by (rule quiet_callD [OF start_here_quiet here(4)])
  ultimately show ?thesis using here by blast
qed simp_all

theorem parents_up_first_witness:
  "\<exists>v. hop_is_up (live_os sample_api) ''pair-hop1'' v \<and> quiet sample_world v"
  using parents_up_first [OF live_start [of sample_world 0]] by (auto simp: sample_parents)

section \<open>Stopping\<close>

text \<open>
  C23: Before \<open>Stop\<close> asks the service of a tunnel to end, every tunnel riding on it was found
  stopped or was uninstalled, and before that the watch and the lock stood down where they are
  concerned.
\<close>

theorem children_stopped_first:
  assumes "child \<in> set (chainChildNames (os_store os) (w_dir w) name)"
  shows "\<exists>v w1. quiet (chainBeforeStop os name w) v
    \<and> (State os child v = Inr TunnelStopped \<and> quiet v w1 \<or> quiet (snd (UninstallTunnel os child v)) w1)
    \<and> quiet (snd (UninstallTunnel os name w1)) (snd (Stop os name w))"
proof -
  let ?b = "chainBeforeStop os name w"
  let ?w1 = "chainStopChildren os name 0 ?b"
  have "child \<in> set (chainChildNames (os_store os) (w_dir ?b) name)"
    using assms by (simp add: chainBeforeStop_dir)
  from stop_children_visits [where k = 3, OF this] obtain v where
    "quiet ?b v" "State os child v = Inr TunnelStopped \<and> quiet v ?w1 \<or> quiet (snd (UninstallTunnel os child v)) ?w1"
    by (auto simp: chainStopChildren_def chainMaxDepth_def)
  moreover have "quiet (snd (UninstallTunnel os name ?w1)) (snd (Stop os name w))"
    by (simp add: Stop_def Let_def case_prod_beta chainStopHiddenParents_def stop_hidden_parents_quiet)
  ultimately show ?thesis by blast
qed

theorem children_stopped_first_witness:
  "\<exists>v. quiet (snd (UninstallTunnel (live_os sample_api) ''pair'' v)) (snd (Stop (live_os sample_api) ''pair-hop1'' sample_world))"
proof -
  from children_stopped_first [of "''pair''" "live_os sample_api" sample_world "''pair-hop1''"] obtain v w1 where
    1: "quiet (snd (UninstallTunnel (live_os sample_api) ''pair'' v)) w1"
    and 2: "quiet (snd (UninstallTunnel (live_os sample_api) ''pair-hop1'' w1)) (snd (Stop (live_os sample_api) ''pair-hop1'' sample_world))"
    by (auto simp: sample_children)
  have "quiet w1 (snd (UninstallTunnel (live_os sample_api) ''pair-hop1'' w1))" by (rule UninstallTunnel_quiet)
  from quiet_trans [OF quiet_trans [OF 1 this] 2] show ?thesis by blast
qed


definition watched_world :: world where
  "watched_world = sample_world\<lparr>w_tasks := [Watch ''pair'' 0, ListenStop 1], w_channels := 2,
     chainWatchCancel := Some 0, chainLockOn := True, chainSession := Some [], chainLockLeaf := ''pair'',
     chainLockStop := Some 1\<rparr>"

lemma watched_inv: "manager_inv watched_world"
  by (auto simp: manager_inv_def lock_inv_def guard_inv_def guard_ok_def watched_world_def sample_world_def)

lemma watched_fields: "w_dir watched_world = Some sample_dir" "chainLockOn watched_world"
  "chainGuardArmedBy watched_world = []" "chainWatchCancel watched_world = Some 0"
  "chainGuardProcess watched_world = None"
  by (simp_all add: watched_world_def) (simp_all add: sample_world_def)


text \<open>
  While the lock stands in the manager itself, nothing records which chain it is for: stopping
  any other tunnel that is pinned through something ends the watch and lifts the lock of the chain
  that stays up.
\<close>

theorem foreign_stop_opens:
  assumes "manager_inv w" and "chainLockOn w" and "chainGuardProcess w = None"
    and "chainWatchCancel w = Some ch" and "chainHopByName (os_store os) (w_dir w) other"
  shows "\<not> chainLockOn (snd (Stop os other w)) \<and> chainWatchCancel (snd (Stop os other w)) = None"
proof -
  have "chainGuardArmedBy w = []"
    using assms(1,3) by (simp add: manager_inv_def guard_inv_def guard_ok_def)
  then have involved: "stop_involved os other w" using assms(4,5) by (simp add: stop_involved_def)
  have "lock_inv (chainStopWatch w)"
    using chainStopWatch_manager [OF assms(1)] by (rule manager_invD)
  from chainBeforeStop_off [OF involved this] show ?thesis
    using quiet_lock(2,4) [OF Stop_quiet [of os other w]] by (simp add: Let_def guard_part_def)
qed

theorem foreign_stop_opens_witness:
  "\<not> chainLockOn (snd (Stop (live_os sample_api) ''pair-hop1''
      (watched_world\<lparr>chainLockLeaf := ''elsewhere''\<rparr>)))"
proof -
  let ?w = "watched_world\<lparr>chainLockLeaf := ''elsewhere''\<rparr>"
  have "manager_inv ?w"
    using watched_inv by (simp add: manager_inv_def lock_inv_def guard_inv_def watched_fields)
  from foreign_stop_opens [OF this, of 0 "live_os sample_api" "''pair-hop1''"] show ?thesis
    by (simp add: watched_fields sample_is_hop)
qed

section \<open>All reachable states\<close>

text \<open>
  C3: In every state the manager reaches, whatever requests and turns of its goroutines led there:
  the lock counts as on exactly while its session is open, and then its listener runs on an open
  channel; the guard is armed for a chain only while its process is known; at most one watch is
  not cancelled; a watch is slow exactly from twenty failures in a row on.
\<close>

theorem reachable_states:
  assumes "reachable os m"
  shows "let w = m_world m in
    (chainLockOn w \<longleftrightarrow> chainSession w \<noteq> None)
    \<and> (chainLockOn w \<longleftrightarrow> (\<exists>ch. chainLockStop w = Some ch \<and> ch \<notin> w_closed w \<and> ListenStop ch \<in> set (w_tasks w)))
    \<and> (chainGuardArmedBy w \<noteq> [] \<longrightarrow> chainGuardProcess w \<noteq> None)
    \<and> (\<forall>l1 c1 l2 c2. Watch l1 c1 \<in> set (w_tasks w) \<and> Watch l2 c2 \<in> set (w_tasks w)
         \<and> c1 \<notin> w_closed w \<and> c2 \<notin> w_closed w \<longrightarrow> c1 = c2)
    \<and> (\<forall>ch. slow (m_watch m ch) = (20 \<le> failures (m_watch m ch)))"
proof -
  let ?w = "m_world m"
  have l: "lock_inv ?w" and g: "guard_inv ?w"
    using reachable_manager [OF assms] by (simp_all add: manager_inv_def)
  from l have on: "chainLockOn ?w \<longleftrightarrow> chainSession ?w \<noteq> None" "chainLockOn ?w \<longleftrightarrow> chainLockStop ?w \<noteq> None"
    "\<And>ch. chainLockStop ?w = Some ch \<Longrightarrow> ch \<notin> w_closed ?w" by (auto simp: lock_inv_def)
  from g have guard: "chainGuardArmedBy ?w \<noteq> [] \<Longrightarrow> chainGuardProcess ?w \<noteq> None"
    "\<And>leaf ch. Watch leaf ch \<in> set (w_tasks ?w) \<Longrightarrow> ch \<notin> w_closed ?w \<Longrightarrow> chainWatchCancel ?w = Some ch"
    "\<And>ch. chainLockStop ?w = Some ch \<Longrightarrow> ListenStop ch \<in> set (w_tasks ?w)"
    by (fastforce simp: guard_inv_def guard_ok_def)+
  have "c1 = c2" if "Watch l1 c1 \<in> set (w_tasks ?w)" "Watch l2 c2 \<in> set (w_tasks ?w)"
    "c1 \<notin> w_closed ?w" "c2 \<notin> w_closed ?w" for l1 c1 l2 c2
    using guard(2) [OF that(1,3)] guard(2) [OF that(2,4)] by simp
  moreover have "\<forall>ch. slow (m_watch m ch) = (20 \<le> failures (m_watch m ch))"
    using reachable_watch [OF assms] by (simp add: chainMaxRepairs_def)
  moreover have "chainLockOn ?w \<longleftrightarrow>
      (\<exists>ch. chainLockStop ?w = Some ch \<and> ch \<notin> w_closed ?w \<and> ListenStop ch \<in> set (w_tasks ?w))"
    using on(2,3) guard(3) by (cases "chainLockStop ?w") auto
  ultimately show ?thesis unfolding Let_def using on(1) guard(1) by blast
qed

definition sample_manager :: manager where
  "sample_manager = \<lparr> m_world = sample_world, m_watch = (\<lambda>_. new_watch), m_done = {} \<rparr>"

lemma sample_fresh: "fresh sample_manager"
  by (simp add: fresh_def sample_manager_def sample_world_def)

definition started_manager :: manager where
  "started_manager = sample_manager\<lparr>m_world := spawn (ArmWhenReady ''pair'')
     (act (TrackService ''AwgTunnelpair'') (spawn (StopIntersecting []) sample_world))\<rparr>"

lemma started_reachable: "reachable (live_os sample_api) started_manager"
proof -
  have "step (live_os sample_api) (AskStart ''pair'') sample_manager started_manager"
    unfolding started_manager_def
    by (rule step.start [where n = 1]) (use live_start [of sample_world 0] in \<open>simp add: sample_manager_def\<close>)
  then show ?thesis by (rule reachable.more [OF reachable.init [OF sample_fresh]])
qed

theorem reachable_states_witness:
  "\<forall>ch. slow (m_watch started_manager ch) = (20 \<le> failures (m_watch started_manager ch))"
  using reachable_states [OF started_reachable] by (simp add: Let_def)

text \<open>
  C4: To its user the machine is a gate that is open or shut. Every step of the manager is a step
  of this gate: it is shut only by a turn of the goroutine that arms a chain or of its watch, and
  opened only by a deliberate stop or deletion, the button that lifts the lock, the stop event, the
  removal of tunnels in the way of a new one, or a watch at work on a repair; starting tunnels,
  storing them and changing settings never moves it.
\<close>

theorem manager_is_gate:
  assumes "reachable os m" and "step os l m m'"
  shows "(gate_of m = Shut \<and> gate_of m' = Open \<longrightarrow> opens l)
    \<and> (gate_of m = Open \<and> gate_of m' = Shut \<longrightarrow> shuts l)"
  using step_gate [OF assms] by (simp add: gate_step_def)

theorem manager_is_gate_witness:
  "gate_of sample_manager = Open \<and> gate_of started_manager = Open"
proof -
  have "step (live_os sample_api) (AskStart ''pair'') sample_manager started_manager"
    unfolding started_manager_def
    by (rule step.start [where n = 1]) (use live_start [of sample_world 0] in \<open>simp add: sample_manager_def\<close>)
  from manager_is_gate [OF reachable.init [OF sample_fresh] this] show ?thesis
    by (auto simp: gate_of_def sample_manager_def split: if_splits)
qed

end
