(* ===== verification/WatchClaims.thy ===== *)
theory WatchClaims
  imports RunSamples LockRetry
begin

text \<open>
  The properties of the watch (\<open>chainWatch\<close>, \<open>chainTrouble\<close> and \<open>chainRepair\<close> of
  \<open>upstream-manager/chainguard.go\<close>).
\<close>

section \<open>When a chain is healthy\<close>

text \<open>
  C34: A chain is healthy exactly when every hop runs and has shaken hands within the last three
  minutes with one of its peers, provided that no stamp lies ahead of the clock.
\<close>

theorem chain_health:
  fixes w :: world
  assumes "\<forall>hop\<in>set (chainHopOrder (os_store os) (w_dir w) leaf). \<forall>c. RuntimeConfig os hop w = Inr c \<longrightarrow>
      (\<forall>p\<in>set (Peers c). sint (LastHandshakeTime p) \<le> int (w_now w))"
  shows "chainTrouble os leaf w = None \<longleftrightarrow>
    (\<forall>hop\<in>set (chainHopOrder (os_store os) (w_dir w) leaf).
       State os hop w = Inr TunnelStarted \<and>
       (\<exists>c. RuntimeConfig os hop w = Inr c \<and>
         (\<exists>p\<in>set (Peers c). \<not> handshake_is_empty (LastHandshakeTime p)
            \<and> int (w_now w) - sint (LastHandshakeTime p) \<le> 180 * 1000000000)))"
proof -
  have "hop_trouble os w hop = None \<longleftrightarrow>
      State os hop w = Inr TunnelStarted \<and>
       (\<exists>c. RuntimeConfig os hop w = Inr c \<and>
         (\<exists>p\<in>set (Peers c). \<not> handshake_is_empty (LastHandshakeTime p)
            \<and> int (w_now w) - sint (LastHandshakeTime p) \<le> 180 * 1000000000))"
    if hop: "hop \<in> set (chainHopOrder (os_store os) (w_dir w) leaf)" for hop
  proof (cases "RuntimeConfig os hop w")
    case (Inr c)
    have "\<forall>p\<in>set (Peers c). sint (LastHandshakeTime p) \<le> int (w_now w)" using assms hop Inr by blast
    from chainHandshakeAge_recent [OF this] Inr show ?thesis
      by (simp add: hop_trouble_None chainHandshakeMaxAge_def)
  qed (simp add: hop_trouble_None)
  then show ?thesis unfolding chainTrouble_None by (rule ball_cong [OF refl])
qed

lemma live_stamps:
  assumes "w_dir w = Some sample_dir" and "hop \<in> {''pair'', ''pair-hop1''}"
    and "RuntimeConfig (live_os api) hop w = Inr c"
  shows "\<exists>p :: peer. Peers c = [p] \<and> LastHandshakeTime p = 5000000000"
proof -
  from live_runtime [OF assms(1,2), of api] assms(3) have "map LastHandshakeTime (Peers c) = [5000000000]" by auto
  then show ?thesis unfolding map_eq_Cons_conv map_is_Nil_conv by (elim exE conjE) simp
qed

lemma live_health:
  assumes "w_dir w = Some sample_dir" and "hop \<in> {''pair'', ''pair-hop1''}" and "5000000000 \<le> w_now w"
  shows "\<forall>c. RuntimeConfig (live_os api) hop w = Inr c \<longrightarrow>
      (\<forall>p\<in>set (Peers c). sint (LastHandshakeTime p) \<le> int (w_now w))"
  using live_stamps [OF assms(1,2)] assms(3) by fastforce

theorem chain_health_witness:
  "chainTrouble (live_os sample_api) ''pair'' (sample_world\<lparr>w_now := 10000000000\<rparr>) = None
   \<and> chainTrouble (live_os sample_api) ''pair'' (sample_world\<lparr>w_now := 1000000000000\<rparr>) \<noteq> None"
proof -
  have "chainTrouble (live_os sample_api) ''pair'' w = None \<longleftrightarrow> w_now w \<le> 185000000000"
    if w: "w_dir w = Some sample_dir" "5000000000 \<le> w_now w" for w
  proof -
    have fresh: "(\<exists>c. RuntimeConfig (live_os sample_api) hop w = Inr c \<and>
         (\<exists>p\<in>set (Peers c). \<not> handshake_is_empty (LastHandshakeTime p)
            \<and> int (w_now w) - sint (LastHandshakeTime p) \<le> 180 * 1000000000)) \<longleftrightarrow> w_now w \<le> 185000000000"
      if hop: "hop \<in> {''pair'', ''pair-hop1''}" for hop
    proof -
      from live_runtime [OF w(1) hop, of sample_api] obtain c where
        c: "RuntimeConfig (live_os sample_api) hop w = Inr c" by (elim exE conjE)
      from live_stamps [OF w(1) hop c] obtain p :: peer where "Peers c = [p]" "LastHandshakeTime p = 5000000000"
        by (elim exE conjE)
      then show ?thesis by (simp add: c handshake_is_empty_def)
    qed
    have "\<forall>c. RuntimeConfig (live_os sample_api) hop w = Inr c \<longrightarrow>
        (\<forall>p\<in>set (Peers c). sint (LastHandshakeTime p) \<le> int (w_now w))"
      if "hop \<in> set (chainHopOrder (os_store (live_os sample_api)) (w_dir w) ''pair'')" for hop
      by (rule live_health [OF w(1) _ w(2)]) (use that in \<open>auto simp: w(1) sample_hops\<close>)
    then show ?thesis
      using chain_health [of "live_os sample_api" w "''pair''"] fresh [of "''pair''"] fresh [of "''pair-hop1''"]
      by (auto simp: w(1) sample_hops)
  qed
  then show ?thesis by simp
qed

section \<open>When the watch lets the lock go\<close>

text \<open>
  C5: A turn of the watch that leaves the machine without the lock it had has raised the whole chain
  again and, re-arming after that, has seen the adapters of both ends under the old lock; all that
  was left to do was to install the same lock on the new adapters, and every one of the hundred
  tries to do so answered that it failed. (When the box of the kill switch was cleared while the
  lock stood, the first try answers that nothing is to be done, and the lock is gone that way.) A
  chain that cannot be repaired is never turned into plain traffic.
\<close>

theorem watch_opens_after_repair:
  assumes "watch_turn n os leaf v w = Some (v', w')" and "lock_inv w" and "chainLockOn w" and "\<not> chainLockOn w'"
  shows "\<exists>u w1 w2. quiet w u \<and> Start n os leaf u = Some (None, w1) \<and> quiet w w1
    \<and> w' = chainRearmLockAfterRepair os leaf w1
    \<and> chainRelockAdaptersReady os leaf w2 \<and> lock_part w2 = lock_part w \<and> chainLockOn w2
    \<and> (if wants_lock os leaf w1
       then failed_tries os leaf 100 (snd (chainDisarmLockInProc w2)) w'
       else chainArmLockInProc os leaf (snd (chainDisarmLockInProc w2)) = (True, w'))"
proof -
  have "chainLockOn (chainArmGuard os leaf w)" using assms(3) by (rule guard.arm_keeps)
  then have "chainRepair n os leaf w = Some w'"
    using assms(1,3,4) by (auto simp: watch_turn_def Let_def split: if_splits option.splits)
  then show ?thesis
  proof (cases rule: chainRepair_cases)
    case (up u w1)
    from quiet_lock [OF up(3)] assms(2-4) up(4) have
      "lock_inv w1" "chainLockOn w1" "\<not> chainLockOn (chainRearmLockAfterRepair os leaf w1)" by simp_all
    from chainRearmLockAfterRepair_failed [OF this] up quiet_lock(3) [OF up(3)] show ?thesis
      unfolding chainRelockTries_def by metis
  next
    case down
    then show ?thesis using quiet_lock(2) assms(3,4) by simp
  qed
qed

definition shut_engine :: os where "shut_engine = live_os (sample_api\<lparr>api_open := False\<rparr>)"

definition shut_world :: world where
  "shut_world = sample_world\<lparr>w_now := 1000000000000, chainLockOn := True, chainSession := Some [],
     chainLockStop := Some 0, w_channels := 1, chainLockLeaf := ''pair''\<rparr>"

lemma shut_engine_ready: "w_dir w = Some sample_dir \<Longrightarrow> chainRelockAdaptersReady shut_engine ''pair'' w"
  by (simp add: chainRelockAdaptersReady_def shut_engine_def sample_hops chainAdapterLUID_def sample_folds)
     (simp add: live_os_def sample_os_def sample_folds)

lemma shut_engine_rearm:
  assumes "w_dir w = Some sample_dir" and "chainLockOn w"
  shows "\<not> chainLockOn (chainRearmLockAfterRepair shut_engine ''pair'' w)"
proof -
  have "relock_wait shut_engine ''pair'' (Suc k) w = (True, w)" for k
    using shut_engine_ready [OF assms(1)] by simp
  moreover have "chainRelockTries = Suc (chainRelockTries - 1)" by (simp add: chainRelockTries_def)
  ultimately have "relock_wait shut_engine ''pair'' chainRelockTries w = (True, w)" by metis
  then show ?thesis
    using assms(2) shut_engine_never_arms [of shut_engine] chainDisarmLockInProc_off(1)
    by (simp add: chainRearmLockAfterRepair_def shut_engine_def)
qed

lemma repair_first: "start leaf w = Some (None, w1) \<Longrightarrow> repair_tries start os leaf hops (Suc k) w = Some (True, w1)"
  by simp

theorem watch_opens_after_repair_witness:
  "\<exists>v' w' u w1 w2. watch_turn 1 shut_engine ''pair'' new_watch shut_world = Some (v', w') \<and> \<not> chainLockOn w'
    \<and> quiet shut_world u \<and> Start 1 shut_engine ''pair'' u = Some (None, w1)
    \<and> chainRelockAdaptersReady shut_engine ''pair'' w2 \<and> chainLockOn w2"
proof -
  have dir: "w_dir shut_world = Some sample_dir" "chainLockOn shut_world" "w_now shut_world = 1000000000000"
    by (simp_all add: shut_world_def)
  let ?u = "chainTearDown shut_engine [''pair-hop1'', ''pair''] shut_world"
  have u: "quiet shut_world ?u" by (rule chainTearDown_quiet)
  then have u': "w_dir ?u = Some sample_dir" "chainLockOn ?u" using dir by (simp_all add: quiet_def lock_part_def)
  obtain w1 where start: "Start 1 shut_engine ''pair'' ?u = Some (None, w1)" "quiet ?u w1"
    using live_start [OF u'(1), of 0 "sample_api\<lparr>api_open := False\<rparr>"] Start_quiet [of 1 shut_engine "''pair''"]
    by (auto simp: shut_engine_def One_nat_def quiet_call_def)
  then have w1: "w_dir w1 = Some sample_dir" "chainLockOn w1" using u' by (simp_all add: quiet_def lock_part_def)
  have trouble: "chainTrouble shut_engine ''pair'' shut_world \<noteq> None"
  proof -
    from live_runtime [OF dir(1), of "''pair''" "sample_api\<lparr>api_open := False\<rparr>"] obtain c where
      c: "RuntimeConfig shut_engine ''pair'' shut_world = Inr c" unfolding shut_engine_def by auto
    from live_stamps [OF dir(1) _ c [unfolded shut_engine_def]] obtain p :: peer where
      "Peers c = [p]" "LastHandshakeTime p = 5000000000" by auto
    then have "hop_trouble shut_engine shut_world ''pair'' \<noteq> None"
      by (simp add: hop_trouble_None c chainHandshakeAge_def handshake_is_empty_def dir(3) chainHandshakeMaxAge_def)
    then show ?thesis by (simp add: chainTrouble_None dir(1) sample_hops shut_engine_def)
  qed
  have retries: "chainStartRetries = Suc 5" by (simp add: chainStartRetries_def)
  have "repair_tries (Start 1 shut_engine) shut_engine ''pair'' hops chainStartRetries ?u = Some (True, w1)" for hops
    unfolding retries by (rule repair_first [where start = "Start 1 shut_engine", OF start(1)])
  moreover have "os_store shut_engine = sample_env" by (simp add: shut_engine_def)
  ultimately have "chainRepair 1 shut_engine ''pair'' shut_world
      = Some (chainRearmLockAfterRepair shut_engine ''pair'' w1)"
    by (simp add: chainRepair_def dir(1) sample_hops del: Start.simps)
  with trouble obtain v' where turn: "watch_turn 1 shut_engine ''pair'' new_watch shut_world
      = Some (v', chainRearmLockAfterRepair shut_engine ''pair'' w1)"
    by (simp add: watch_turn_def new_watch_def)
  have "lock_inv shut_world" by (simp add: lock_inv_def shut_world_def sample_world_def)
  from watch_opens_after_repair [OF turn this dir(2) shut_engine_rearm [OF w1]] turn shut_engine_rearm [OF w1]
  show ?thesis by blast
qed

end
