(* ===== verification/GuardHold.thy ===== *)
theory GuardHold
  imports GuardCommand
begin

text \<open>
  The loop of the guard process, \<open>holdKillSwitch\<close> of \<open>upstream-manager/main.go\<close>: its invariant,
  the reasons it ends for, and the time in which an orphaned guard lets go.
\<close>

section \<open>The invariant\<close>

text \<open>
  \<open>armed\<close> tells whether the filters stand, and these are the ones of \<open>h_cfg\<close>, which differs from the
  configuration of the start in its interfaces only.
\<close>

definition hold_inv :: "guard_os \<Rightarrow> chain_firewall_config \<Rightarrow> hold \<Rightarrow> guard_world \<Rightarrow> bool" where
  "hold_inv go cfg h w \<longleftrightarrow>
     (armed h \<longleftrightarrow> g_session w \<noteq> None)
     \<and> (armed h \<longrightarrow> (\<exists>t. EnableChainFirewall (g_firewall go t) (Some (h_cfg h)) None = Inr (g_session w)))
     \<and> (h_cfg h)\<lparr>Hop1LUID := Hop1LUID cfg, Hop2LUID := Hop2LUID cfg\<rparr> = cfg"

text \<open>Ended: nothing is installed any more.\<close>

definition turn_inv :: "guard_os \<Rightarrow> chain_firewall_config \<Rightarrow> removal option \<times> hold \<times> guard_world \<Rightarrow> bool" where
  "turn_inv go cfg t \<longleftrightarrow>
     (case t of (None, h, w) \<Rightarrow> hold_inv go cfg h w | (Some r, h, w) \<Rightarrow> g_session w = None)"

lemma turn_inv_simps [simp]:
  "turn_inv go cfg (None, h, w) = hold_inv go cfg h w"
  "turn_inv go cfg (Some r, h, w) = (g_session w = None)"
  by (simp_all add: turn_inv_def)

lemma hold_inv_gone [simp]:
  "hold_inv go cfg (h\<lparr>mgrGoneAt := g\<rparr>) w = hold_inv go cfg h w"
  "hold_inv go cfg h (w\<lparr>g_tick := t, g_now := n\<rparr>) = hold_inv go cfg h w"
  by (simp_all add: hold_inv_def)

lemma guard_disable_session [simp]:
  "g_session (guard_disable w) = None" "g_now (guard_disable w) = g_now w"
  by (simp_all add: guard_disable_def DisableChainFirewall_def)

lemma guard_enable_cases:
  assumes "guard_enable go cfg w = (e, w')" and "g_session w = None"
  shows "(e \<noteq> None \<and> g_session w' = None)
    \<or> (e = None \<and> g_session w' \<noteq> None \<and> EnableChainFirewall (g_firewall go (g_tick w)) (Some cfg) None = Inr (g_session w'))"
  using assms enabled_session [of "g_firewall go (g_tick w)" "Some cfg" None]
  by (auto simp: guard_enable_def Let_def split: sum.splits)

lemma reload_inv:
  assumes "\<not> armed h" and "hold_inv go cfg h w"
  shows "hold_inv go cfg (fst (reload go h w)) (snd (reload go h w))"
proof -
  have none: "g_session w = None" using assms by (simp add: hold_inv_def)
  obtain e w' where e: "guard_enable go (h_cfg h) w = (e, w')" by fastforce
  from guard_enable_cases [OF e none] assms show ?thesis
    by (auto simp: reload_def e hold_inv_def split: option.splits)
qed

lemma follow_chain_inv:
  assumes "hold_inv go cfg h w"
  shows "turn_inv go cfg (follow_chain go f h w)"
proof -
  let ?h = "\<lambda>l1 l2. h\<lparr>h_cfg := h_cfg h\<lparr>Hop1LUID := l1, Hop2LUID := l2\<rparr>, armed := False\<rparr>"
  have cut: "hold_inv go cfg (?h l1 l2) (guard_disable w)" for l1 l2
    using assms by (cases "h_cfg h"; cases cfg) (auto simp: hold_inv_def)
  have "turn_inv go cfg (None, reload go h' w')" if "\<not> armed h'" "hold_inv go cfg h' w'" for h' w'
    using reload_inv [OF that] by (simp add: turn_inv_def case_prod_beta)
  with assms cut show ?thesis by (auto simp: follow_chain_def split: option.splits)
qed

lemma hold_turn_inv:
  assumes "hold_inv go cfg h w"
  shows "turn_inv go cfg (hold_turn go f deadline h w)"
  using assms
  by (auto simp: hold_turn_def guard_wait_def Let_def follow_chain_inv split: wait_result.splits)

lemma hold_run_inv:
  "hold_inv go cfg h w \<Longrightarrow> turn_inv go cfg (hold_run go f deadline n h w)"
proof (induction n arbitrary: h w)
  case (Suc n)
  have "turn_inv go cfg (hold_turn go f deadline h w)" by (rule hold_turn_inv [OF Suc.prems])
  then show ?case using Suc.IH by (auto split: prod.split option.split)
qed simp

lemma guard_main_armed:
  assumes "guard_main go f w = (Armed cfg, w1)" and "g_session w = None"
  shows "hold_inv go cfg (new_hold cfg) w1" "guard_config go f (g_tick w) = Inr cfg"
proof -
  from assms(1) have en: "guard_enable go cfg w = (None, w1)" and c: "guard_config go f (g_tick w) = Inr cfg"
    by (auto simp: guard_main_def split: if_splits option.splits sum.splits prod.splits)
  from guard_enable_cases [OF en assms(2)] show "hold_inv go cfg (new_hold cfg) w1"
    by (auto simp: hold_inv_def new_hold_def)
  show "guard_config go f (g_tick w) = Inr cfg" by (rule c)
qed

section \<open>The reasons to end\<close>

definition hop_missing :: "guard_os \<Rightarrow> guard_flags \<Rightarrow> nat \<Rightarrow> bool" where
  "hop_missing go f t \<longleftrightarrow>
     luidForAlias go (flag_hop1if f) t = None \<or> luidForAlias go (flag_hop2if f) t = None"

lemma follow_chain_ends:
  "follow_chain go f h w = (Some r, h', w') \<Longrightarrow>
   r = Orphaned \<and> armed h \<and> orphaned f h w \<and> hop_missing go f (g_tick w) \<and> g_now w' = g_now w"
  by (auto simp: follow_chain_def hop_missing_def guard_disable_def split: option.splits if_splits)

lemma follow_chain_now: "g_now (snd (snd (follow_chain go f h w))) = g_now w"
  by (auto simp: follow_chain_def reload_def guard_enable_def guard_disable_def Let_def
      split: option.splits sum.splits)

lemma follow_chain_gone: "mgrGoneAt (fst (snd (follow_chain go f h w))) = mgrGoneAt h"
  by (auto simp: follow_chain_def reload_def split: option.splits prod.splits)

lemma hold_turn_timed:
  assumes "g_wait go (g_tick w) = TimedOut"
  shows "hold_turn go f deadline h w =
    (let w1 = snd (guard_wait go w) in
     if (case deadline of None \<Rightarrow> False | Some d \<Rightarrow> d < int (g_now w1))
     then (Some TimeIsUp, h, guard_disable w1)
     else follow_chain go f (h\<lparr>mgrGoneAt := note_manager go f w1 (mgrGoneAt h)\<rparr>) w1)"
  using assms by (simp add: hold_turn_def guard_wait_def Let_def)

lemma guard_wait_now:
  "g_wait go (g_tick w) = TimedOut \<Longrightarrow> g_now w + chainReloadPoll \<le> g_now (snd (guard_wait go w))"
  by (simp add: guard_wait_def Let_def)

section \<open>An orphaned guard lets go\<close>

lemma hold_turn_removed: "hold_turn go f deadline h w = (Some r, h', w') \<Longrightarrow> g_session w' = None"
  by (auto simp: hold_turn_def follow_chain_def split: prod.splits wait_result.splits if_splits option.splits)

lemma hold_run_removed: "hold_run go f deadline n h w = (Some r, h', w') \<Longrightarrow> g_session w' = None"
  by (induction n arbitrary: h w) (auto split: prod.splits option.splits dest: hold_turn_removed)

text \<open>The manager is gone, a hop is missing and nobody signals.\<close>

definition abandoned :: "guard_os \<Rightarrow> guard_flags \<Rightarrow> bool" where
  "abandoned go f \<longleftrightarrow>
     (\<forall>t. g_wait go t = TimedOut \<and> \<not> processAlive go (flag_mgrpid f) t \<and> hop_missing go f t) \<and> 0 < flag_mgrpid f"

lemma abandoned_turn:
  assumes "abandoned go f" and "armed h" and "hold_turn go f deadline h w = (None, h', w')"
  shows "h' = h\<lparr>mgrGoneAt := Some (case mgrGoneAt h of None \<Rightarrow> g_now w' | Some t \<Rightarrow> t)\<rparr>"
    "g_now w + chainReloadPoll \<le> g_now w'" "\<not> orphaned f h' w'"
proof -
  let ?w = "snd (guard_wait go w)"
  have wait: "g_wait go (g_tick w) = TimedOut" using assms(1) by (simp add: abandoned_def)
  have noted: "note_manager go f ?w (mgrGoneAt h) = Some (case mgrGoneAt h of None \<Rightarrow> g_now ?w | Some t \<Rightarrow> t)"
    using assms(1) by (auto simp: note_manager_def abandoned_def split: option.splits)
  let ?h = "h\<lparr>mgrGoneAt := note_manager go f ?w (mgrGoneAt h)\<rparr>"
  have "hop_missing go f (g_tick ?w)" using assms(1) by (simp add: abandoned_def)
  then have "follow_chain go f ?h ?w
      = (if orphaned f ?h ?w then (Some Orphaned, ?h, guard_disable ?w) else (None, ?h, ?w))"
    using assms(2) by (auto simp: follow_chain_def hop_missing_def split: option.splits)
  with assms(3) have "h' = ?h" "w' = ?w" "\<not> orphaned f ?h ?w"
    by (auto simp: hold_turn_timed [OF wait] Let_def split: if_splits)
  then show "h' = h\<lparr>mgrGoneAt := Some (case mgrGoneAt h of None \<Rightarrow> g_now w' | Some t \<Rightarrow> t)\<rparr>"
    "g_now w + chainReloadPoll \<le> g_now w'" "\<not> orphaned f h' w'"
    using noted guard_wait_now [OF wait] by (auto split: option.split)
qed

lemma abandoned_run:
  assumes "abandoned go f" and "armed h" and "mgrGoneAt h = Some g" and "0 < n"
    and "seconds_span (flag_orphangrace f) \<le> int (g_now w + n * chainReloadPoll) - int g"
  shows "fst (hold_run go f deadline n h w) \<noteq> None"
  using assms(2-5)
proof (induction n arbitrary: h w)
  case (Suc n)
  obtain x h1 w1 where t: "hold_turn go f deadline h w = (x, h1, w1)" by (metis prod_cases3)
  show ?case
  proof (cases x)
    case None
    from abandoned_turn [OF assms(1) Suc.prems(1) t [unfolded None]] Suc.prems(2) have
      h1: "h1 = h\<lparr>mgrGoneAt := Some g\<rparr>" "g_now w + chainReloadPoll \<le> g_now w1"
      "int (g_now w1) - int g < seconds_span (flag_orphangrace f)"
      by (auto simp: orphaned_def)
    with Suc.prems(4) have "0 < n" by (cases n) auto
    moreover have "seconds_span (flag_orphangrace f) \<le> int (g_now w1 + n * chainReloadPoll) - int g"
      using Suc.prems(4) h1(2) by simp
    ultimately show ?thesis using Suc.IH [of h1 w1] h1(1) Suc.prems(1) t None by simp
  qed (use t in auto)
qed simp

lemma seconds_span_small:
  assumes "0 \<le> n" and "n < 2 ^ 33"
  shows "seconds_span n = n * 1000000000"
proof -
  have "word_of_int n * 1000000000 = (word_of_int (n * 1000000000) :: 64 word)" by simp
  then have "seconds_span n = signed_take_bit 63 (n * 1000000000)"
    unfolding seconds_span_def by (simp add: sint_sbintrunc' del: of_int_mult)
  also have "\<dots> = n * 1000000000"
    by (rule signed_take_bit_int_eq_self) (use assms in simp_all)
  finally show ?thesis .
qed

end
