(* ===== verification/GuardPolls.thy ===== *)
theory GuardPolls
  imports GuardHold
begin

text \<open>
  Why the loop of the guard ends (\<open>holdKillSwitch\<close> of \<open>upstream-manager/main.go\<close>), said of its
  polls: what every wait answered and the state of the process right after it, from the first turn
  to the one that ended the run.
\<close>

fun polls ::
  "guard_os \<Rightarrow> guard_flags \<Rightarrow> int option \<Rightarrow> nat \<Rightarrow> hold \<Rightarrow> guard_world \<Rightarrow> (wait_result \<times> guard_world) list"
where
  "polls go f deadline 0 h w = []"
| "polls go f deadline (Suc n) h w =
     guard_wait go w #
       (case hold_turn go f deadline h w of
          (Some _, _, _) \<Rightarrow> []
        | (None, h1, w1) \<Rightarrow> polls go f deadline n h1 w1)"

definition manager_dead :: "guard_os \<Rightarrow> guard_flags \<Rightarrow> wait_result \<times> guard_world \<Rightarrow> bool" where
  "manager_dead go f p \<longleftrightarrow> \<not> processAlive go (flag_mgrpid f) (g_tick (snd p))"

text \<open>
  The last poll shows the reason. For an orphaned guard there is a stretch of polls up to the last
  one in each of which the manager was not alive, and it is at least as long as the grace period.
\<close>

definition reason_shown ::
  "guard_os \<Rightarrow> guard_flags \<Rightarrow> int option \<Rightarrow> removal \<Rightarrow> (wait_result \<times> guard_world) list \<Rightarrow> bool"
where
  "reason_shown go f deadline r ps \<longleftrightarrow>
     (case r of
        WaitErrored \<Rightarrow> fst (last ps) = WaitFailed
      | StopAsked \<Rightarrow> fst (last ps) = Signalled
      | TimeIsUp \<Rightarrow> fst (last ps) = TimedOut \<and> (\<exists>d. deadline = Some d \<and> d < int (g_now (snd (last ps))))
      | Orphaned \<Rightarrow>
          fst (last ps) = TimedOut \<and> 0 < flag_mgrpid f \<and> hop_missing go f (g_tick (snd (last ps)))
          \<and> (\<exists>qs. qs \<noteq> [] \<and> suffix qs ps \<and> list_all (manager_dead go f) qs
               \<and> seconds_span (flag_orphangrace f)
                 \<le> int (g_now (snd (last ps))) - int (g_now (snd (hd qs)))))"

text \<open>What \<open>mgrGoneAt\<close> stands for, given the polls so far.\<close>

definition gone_noted :: "guard_os \<Rightarrow> guard_flags \<Rightarrow> (wait_result \<times> guard_world) list \<Rightarrow> nat option \<Rightarrow> bool" where
  "gone_noted go f ps gone \<longleftrightarrow>
     (\<forall>t. gone = Some t \<longrightarrow> 0 < flag_mgrpid f
        \<and> (\<exists>qs. qs \<noteq> [] \<and> suffix qs ps \<and> list_all (manager_dead go f) qs \<and> t = g_now (snd (hd qs))))"

lemma note_manager_noted:
  assumes "gone_noted go f ps gone"
  shows "gone_noted go f (ps @ [(r, w)]) (note_manager go f w gone)"
proof -
  have fresh: "gone_noted go f (ps @ [(r, w)]) (Some (g_now w))"
    if "0 < flag_mgrpid f" "\<not> processAlive go (flag_mgrpid f) (g_tick w)"
  proof -
    have "suffix [(r, w)] (ps @ [(r, w)])" by (rule suffixI) simp
    with that show ?thesis
      unfolding gone_noted_def by (intro allI impI conjI exI [of _ "[(r, w)]"]) (simp_all add: manager_dead_def)
  qed
  have longer: "gone_noted go f (ps @ [(r, w)]) (Some t)"
    if "gone = Some t" "\<not> processAlive go (flag_mgrpid f) (g_tick w)" for t
  proof -
    from that(1) assms obtain qs where "0 < flag_mgrpid f" "qs \<noteq> []" "suffix qs ps"
      "list_all (manager_dead go f) qs" "t = g_now (snd (hd qs))"
      by (auto simp: gone_noted_def)
    moreover from this have "suffix (qs @ [(r, w)]) (ps @ [(r, w)])" by (auto simp: suffix_def)
    ultimately show ?thesis
      using that(2) unfolding gone_noted_def
      by (intro allI impI conjI exI [of _ "qs @ [(r, w)]"]) (auto simp: manager_dead_def)
  qed
  show ?thesis
  proof (cases "flag_mgrpid f \<le> 0")
    case True
    with assms show ?thesis by (auto simp: note_manager_def gone_noted_def)
  next
    case False
    then show ?thesis
      using fresh longer by (auto simp: note_manager_def gone_noted_def [of _ _ _ None] split: option.split)
  qed
qed

lemma hold_turn_shown:
  assumes turn: "hold_turn go f deadline h w = (r, h', w')" and noted: "gone_noted go f ps (mgrGoneAt h)"
  shows "(\<forall>x. r = Some x \<longrightarrow> reason_shown go f deadline x (ps @ [guard_wait go w])
        \<and> g_now w' = g_now (snd (guard_wait go w)))
    \<and> (r = None \<longrightarrow> fst (guard_wait go w) = TimedOut \<and> gone_noted go f (ps @ [guard_wait go w]) (mgrGoneAt h'))"
proof (cases "g_wait go (g_tick w) = TimedOut")
  case False
  then show ?thesis
    using turn by (cases "g_wait go (g_tick w)") (auto simp: hold_turn_def guard_wait_def Let_def reason_shown_def)
next
  case True
  define v where "v = snd (guard_wait go w)"
  have wait: "guard_wait go w = (TimedOut, v)" using True by (simp add: v_def guard_wait_def Let_def)
  define g where "g = note_manager go f v (mgrGoneAt h)"
  have g: "gone_noted go f (ps @ [(TimedOut, v)]) g" unfolding g_def by (rule note_manager_noted [OF noted])
  show ?thesis
  proof (cases "case deadline of None \<Rightarrow> False | Some d \<Rightarrow> d < int (g_now v)")
    case True
    with turn wait show ?thesis by (auto simp: hold_turn_def reason_shown_def split: option.splits)
  next
    case False
    then have f: "follow_chain go f (h\<lparr>mgrGoneAt := g\<rparr>) v = (r, h', w')"
      using turn wait by (simp add: hold_turn_def g_def)
    have keep: "mgrGoneAt h' = g" using follow_chain_gone [of go f "h\<lparr>mgrGoneAt := g\<rparr>" v] f by simp
    have "reason_shown go f deadline x (ps @ [(TimedOut, v)]) \<and> g_now w' = g_now v" if "r = Some x" for x
    proof -
      from follow_chain_ends [of go f _ v x h' w'] f that have
        o: "x = Orphaned" "orphaned f (h\<lparr>mgrGoneAt := g\<rparr>) v" "hop_missing go f (g_tick v)" "g_now w' = g_now v"
        by blast+
      from o(2) obtain t where "g = Some t" "seconds_span (flag_orphangrace f) \<le> int (g_now v) - int t"
        by (auto simp: orphaned_def split: option.splits)
      with g o show ?thesis by (auto simp: reason_shown_def gone_noted_def)
    qed
    then show ?thesis using wait keep g by simp
  qed
qed

lemma hold_run_shown:
  assumes "hold_run go f deadline n h w = (Some r, h', w')" and "gone_noted go f ps (mgrGoneAt h)"
  shows "polls go f deadline n h w \<noteq> []
    \<and> reason_shown go f deadline r (ps @ polls go f deadline n h w)
    \<and> (\<forall>p\<in>set (butlast (polls go f deadline n h w)). fst p = TimedOut)
    \<and> g_now w' = g_now (snd (last (polls go f deadline n h w)))"
  using assms
proof (induction n arbitrary: h w ps)
  case (Suc n)
  obtain x h1 w1 where t: "hold_turn go f deadline h w = (x, h1, w1)" by (metis prod_cases3)
  note shown = hold_turn_shown [OF t Suc.prems(2)]
  show ?case
  proof (cases x)
    case None
    with shown have noted: "fst (guard_wait go w) = TimedOut"
      "gone_noted go f (ps @ [guard_wait go w]) (mgrGoneAt h1)" by simp_all
    have "hold_run go f deadline n h1 w1 = (Some r, h', w')" using Suc.prems(1) t None by simp
    from Suc.IH [OF this noted(2)] noted(1) t None show ?thesis by simp
  next
    case (Some y)
    with Suc.prems(1) t have "y = r" "h1 = h'" "w1 = w'" by simp_all
    with shown Some t show ?thesis by simp
  qed
qed simp

lemma polls_timed:
  assumes "\<And>t. g_wait go t = TimedOut"
  shows "\<forall>p\<in>set (polls go f deadline n h w). fst p = TimedOut"
proof (induction n arbitrary: h w)
  case (Suc n)
  obtain x h1 w1 where t: "hold_turn go f deadline h w = (x, h1, w1)" by (metis prod_cases3)
  show ?case using Suc.IH [of h1 w1] by (cases x) (simp_all add: t guard_wait_def assms)
qed simp

section \<open>An orphaned guard ends\<close>

lemma abandoned_ends:
  assumes "abandoned go f" and "0 \<le> flag_orphangrace f" and "flag_orphangrace f < 2 ^ 33"
    and "2 \<le> n" and "flag_orphangrace f + 3 \<le> 3 * int n"
  shows "fst (holdKillSwitch go f n cfg w) \<noteq> None"
proof -
  from assms(4) obtain k where n: "n = Suc k" "0 < k" by (cases n) auto
  let ?d = "hold_deadline f w"
  obtain r h1 w1 where t: "hold_turn go f ?d (new_hold cfg) w = (r, h1, w1)" by (metis prod_cases3)
  show ?thesis
  proof (cases r)
    case None
    have "seconds_span (flag_orphangrace f) \<le> int (g_now w1 + k * chainReloadPoll) - int (g_now w1)"
      using assms(2,3,5) n by (simp add: seconds_span_small chainReloadPoll_def second_def)
    moreover have "h1 = (new_hold cfg)\<lparr>mgrGoneAt := Some (g_now w1)\<rparr>"
      using abandoned_turn(1) [OF assms(1) _ t [unfolded None]] by (simp add: new_hold_def)
    ultimately have "fst (hold_run go f ?d k h1 w1) \<noteq> None"
      using abandoned_run [OF assms(1), of h1 "g_now w1" k w1] n by (simp add: new_hold_def)
    then show ?thesis by (simp add: n t None holdKillSwitch_def)
  qed (simp add: n t holdKillSwitch_def)
qed

end
