(* ===== verification/HoldClaims.thy ===== *)
theory HoldClaims
  imports GuardPolls Samples
begin

text \<open>
  The properties of the guard process (\<open>upstream-manager/main.go\<close>): its command line, the filters
  it holds, and when it lets go.
\<close>

section \<open>The command line\<close>

text \<open>
  C15: The guard reads the command line of the manager as the rule set the manager's own lock
  would install, with three differences: only the manager itself may reach the endpoints, the
  local networks are let through whatever the settings of the chain say, and a chain without
  resolvers gets two public ones. It watches the manager's process and releases an orphaned
  chain after two minutes.
\<close>

theorem guard_command_understood:
  assumes "guard_command os leaf w = Some command" and "lock_config os leaf w = Some (cfg, w')"
    and "os_executable os (w_history w) = Some self"
    and "self \<noteq> []" and "CHR '';'' \<notin> set self" and "trim_space self = self" and "g_reachable go self"
    and "same_machine os w go t" and "os_pid os < 2 ^ 63"
    and "\<forall>hop\<in>set (chainHopOrder (os_store os) (w_dir w) leaf). trim_space hop = hop"
  shows "\<exists>f. parse_flags (tl command) default_flags = Inr f
    \<and> guard_config go f t = Inr (guard_rules os leaf w self cfg)
    \<and> flag_mgrpid f = int (os_pid os) \<and> flag_orphangrace f = 120 \<and> flag_timeout f = 0
    \<and> \<not> flag_stop f \<and> \<not> flag_dryrun f"
proof -
  let ?hops = "chainHopOrder (os_store os) (w_dir w) leaf"
  from guard_command_args [OF assms(1)] assms(3) obtain ep1 ep2 where
    ends: "chainEndpointOf os (hd ?hops) w = Inr ep1" "chainEndpointOf os (last ?hops) w = Inr ep2"
    and args: "tl command = guard_args os (hd ?hops) (last ?hops) ep1 ep2 self w" by auto
  have "?hops \<noteq> []" using assms(1) by (auto simp: guard_command_def)
  then have names: "trim_space (hd ?hops) = hd ?hops" "trim_space (last ?hops) = last ?hops"
    using assms(10) by simp_all
  let ?f = "armed_flags os (hd ?hops) (last ?hops) ep1 ep2 self w"
  have "guard_config go ?f t = Inr (guard_rules os leaf w self cfg)"
    by (rule guard_rule_set [OF assms(2) refl refl names ends assms(4-8)])
  moreover have "parse_flags (tl command) default_flags = Inr ?f"
    unfolding args by (rule parse_guard_args [OF assms(9)])
  ultimately show ?thesis by (auto simp: armed_flags_def default_flags_def)
qed

definition guard_sample_os :: os where
  "guard_sample_os = sample_os\<lparr>os_file_exists := (\<lambda>_ _. True)\<rparr>"

definition sample_guard :: guard_os where
  "sample_guard =
     \<lparr> g_unicode = ascii_unicode, g_executable = Some self_path, g_reachable = (\<lambda>_. True),
       g_create_event = (True, None), g_set_event = None, g_wait = (\<lambda>t. if t < 50 then TimedOut else Signalled),
       g_delay = (\<lambda>_. 0), g_process = (\<lambda>_ _. CannotOpen),
       g_adapters = (\<lambda>t. if t = 0 then Some [(''Ethernet'', 5), (''pair-hop1'', 17), (''pair'', 18)] else None),
       g_firewall = (\<lambda>_. sample_api) \<rparr>"

lemma guard_sample_same:
  "os_store guard_sample_os = os_store sample_os" "os_lookup_ip guard_sample_os = os_lookup_ip sample_os"
  "os_adapters guard_sample_os = os_adapters sample_os"
  by (simp_all add: guard_sample_os_def)

lemma guard_sample_simps [simp]:
  "os_store guard_sample_os = sample_env" "os_executable guard_sample_os h = Some self_path"
  "os_pid guard_sample_os = 4" "os_file_exists guard_sample_os h p" "os_state_dir guard_sample_os = ''C:''"
  "chainEndpointOf guard_sample_os n w = chainEndpointOf sample_os n w"
  "chainDNSOf guard_sample_os n w = chainDNSOf sample_os n w"
  "chainAdapterLUID guard_sample_os n w = chainAdapterLUID sample_os n w"
  unfolding chainEndpointOf_def usable_endpoint_def chainDNSOf_def chainAdapterLUID_def guard_sample_same
  by (simp_all add: guard_sample_os_def) (simp_all add: sample_os_def)

lemma guard_sample_config:
  "\<exists>cfg w'. lock_config guard_sample_os ''pair'' sample_world = Some (cfg, w')
    \<and> Hop1LUID cfg = 17 \<and> Hop2LUID cfg = 18 \<and> DNSServers cfg = [v4_mapped [9, 9, 9, 9]]
    \<and> Hop1Endpoint cfg = v4_mapped [162, 159, 192, 1] \<and> Hop2Endpoint cfg = v4_mapped [203, 0, 113, 5]"
proof -
  have "path_sibling self_path ''awgchain.exe'' = self_path" by code_simp
  then have "chainLockApps guard_sample_os sample_world = [self_path]"
    by (simp add: chainLockApps_def)
  with sample_lock_config [of sample_world] show ?thesis
    by (auto simp: lock_config_def Let_def lock_endpoints_def sample_hops chainLockDNS_def
        split: sum.splits option.splits prod.splits if_splits)
qed

lemma guard_sample_texts:
  "self_path \<noteq> []" "CHR '';'' \<notin> set self_path" "trim_space self_path = self_path"
  "trim_space ''pair-hop1'' = ''pair-hop1''" "trim_space ''pair'' = ''pair''"
  by code_simp+

lemma guard_sample_machine: "same_machine guard_sample_os sample_world sample_guard 0"
  "g_reachable sample_guard self_path"
  by (simp_all add: same_machine_def sample_guard_def) (simp add: guard_sample_os_def sample_os_def)

theorem guard_command_understood_witness:
  "\<exists>command f. guard_command guard_sample_os ''pair'' sample_world = Some command
    \<and> parse_flags (tl command) default_flags = Inr f \<and> flag_mgrpid f = 4"
proof -
  have "\<exists>command. guard_command guard_sample_os ''pair'' sample_world = Some command"
    by (simp add: guard_command_def sample_hops sample_hop_endpoints Let_def)
  then obtain command where c: "guard_command guard_sample_os ''pair'' sample_world = Some command" by blast
  from guard_sample_config obtain cfg w' where cfg: "lock_config guard_sample_os ''pair'' sample_world = Some (cfg, w')"
    by blast
  show ?thesis
    using guard_command_understood [OF c cfg, of self_path sample_guard 0] guard_sample_texts guard_sample_machine c
    by (auto simp: sample_hops)
qed

section \<open>Holding and letting go\<close>

text \<open>
  C8: After it has armed and for as long as it runs, the guard's \<open>armed\<close> tells the truth: the
  filters that stand are those of its configuration, which differs from the one of the command line in its
  two interfaces only, and let out nothing but the chain's own traffic. Once the guard has ended
  nothing is installed.
\<close>

theorem guard_filters_stand:
  assumes "guard_main go f w = (Armed cfg, w1)" and "g_session w = None"
    and "holdKillSwitch go f n cfg w1 = (r, h, w2)"
    and "\<forall>t. documented_api (g_firewall go t) loopback dhcp"
  shows "(r \<noteq> None \<longrightarrow> g_session w2 = None)
    \<and> (r = None \<longrightarrow> (armed h \<longleftrightarrow> g_session w2 \<noteq> None)
         \<and> (h_cfg h)\<lparr>Hop1LUID := Hop1LUID cfg, Hop2LUID := Hop2LUID cfg\<rparr> = cfg)
    \<and> (\<forall>k. r = None \<and> armed h \<and> session_permits (g_session w2) k \<longrightarrow>
         to_endpoint (h_cfg h) k \<or> to_resolver (h_cfg h) k
         \<or> \<not> is_dns k \<and> (k_luid k = Hop2LUID (h_cfg h) \<or> loopback k \<or> dhcp k \<or> to_lan (h_cfg h) k))"
proof -
  have "turn_inv go cfg (r, h, w2)"
    using hold_run_inv [OF guard_main_armed(1) [OF assms(1,2)], of f "hold_deadline f w1" n] assms(3)
    by (simp add: holdKillSwitch_def)
  moreover have "to_endpoint (h_cfg h) k \<or> to_resolver (h_cfg h) k
      \<or> \<not> is_dns k \<and> (k_luid k = Hop2LUID (h_cfg h) \<or> loopback k \<or> dhcp k \<or> to_lan (h_cfg h) k)"
    if hold: "hold_inv go cfg h w2" "armed h" "session_permits (g_session w2) k" for k
  proof -
    from hold obtain t where "EnableChainFirewall (g_firewall go t) (Some (h_cfg h)) None = Inr (g_session w2)"
      by (auto simp: hold_inv_def)
    from enabled_permits [OF spec [OF assms(4)] this hold(3)] show ?thesis .
  qed
  ultimately show ?thesis by (cases r) (auto simp: hold_inv_def)
qed

definition guard_sample_flags :: guard_flags where
  "guard_sample_flags = armed_flags guard_sample_os ''pair-hop1'' ''pair''
     (ip_string (v4_mapped [162, 159, 192, 1]) @ '':'' @ dec 500)
     (ip_string (v4_mapped [203, 0, 113, 5]) @ '':'' @ dec 443) self_path sample_world"

definition sample_guard_world :: guard_world where
  "sample_guard_world = \<lparr> g_tick = 0, g_now = 0, g_session = None \<rparr>"

lemma guard_sample_armed:
  "\<exists>cfg w. guard_main sample_guard guard_sample_flags sample_guard_world = (Armed cfg, w) \<and> g_tick w = 1"
proof -
  from guard_sample_config obtain cfg w' where
    cfg: "lock_config guard_sample_os ''pair'' sample_world = Some (cfg, w')"
    and f: "Hop1LUID cfg = 17" "Hop2LUID cfg = 18" "DNSServers cfg = [v4_mapped [9, 9, 9, 9]]"
    "Hop1Endpoint cfg = v4_mapped [162, 159, 192, 1]" "Hop2Endpoint cfg = v4_mapped [203, 0, 113, 5]" by auto
  let ?cfg = "guard_rules guard_sample_os ''pair'' sample_world self_path cfg"
  have config: "guard_config sample_guard guard_sample_flags 0 = Inr ?cfg"
    unfolding guard_sample_flags_def
    by (rule guard_rule_set [OF cfg])
       (simp_all add: sample_hops guard_sample_texts guard_sample_machine sample_hop_endpoints)
  have "to4 (v4_mapped [9, 9, 9, 9]) \<noteq> None" "to4 (v4_mapped [1, 1, 1, 1]) \<noteq> None" by code_simp+
  then have "dns_addresses (DNSServers ?cfg) \<noteq> []"
    using f(3) by (auto simp: guard_rules_def Let_def dns_addresses_def)
  moreover have "Hop1LUID ?cfg = 17" "Hop2LUID ?cfg = 18" "AllowedApps ?cfg \<noteq> []"
    "Hop1Endpoint ?cfg = v4_mapped [162, 159, 192, 1]" "Hop2Endpoint ?cfg = v4_mapped [203, 0, 113, 5]"
    using f by (simp_all add: guard_rules_def Let_def)
  ultimately obtain fs where "EnableChainFirewall sample_api (Some ?cfg) None = Inr (Some fs)"
    using sample_api_enables [of ?cfg] by (auto simp: sample_endpoint_texts)
  then have "guard_enable sample_guard ?cfg sample_guard_world
      = (None, sample_guard_world\<lparr>g_tick := 1, g_session := Some fs\<rparr>)"
    by (simp add: guard_enable_def sample_guard_def sample_guard_world_def)
  moreover have "createStopEvent sample_guard = None" by (simp add: createStopEvent_def sample_guard_def)
  ultimately show ?thesis
    using config
    by (simp add: guard_main_def sample_guard_world_def)
       (simp add: guard_sample_flags_def armed_flags_def default_flags_def)
qed

theorem guard_filters_stand_witness:
  "\<exists>cfg w1 r h w2. guard_main sample_guard guard_sample_flags sample_guard_world = (Armed cfg, w1)
    \<and> holdKillSwitch sample_guard guard_sample_flags 60 cfg w1 = (r, h, w2)
    \<and> (r = None \<longrightarrow> (armed h \<longleftrightarrow> g_session w2 \<noteq> None))"
proof -
  from guard_sample_armed obtain cfg w1 where
    m: "guard_main sample_guard guard_sample_flags sample_guard_world = (Armed cfg, w1)" by blast
  obtain r h w2 where h: "holdKillSwitch sample_guard guard_sample_flags 60 cfg w1 = (r, h, w2)"
    by (metis prod_cases3)
  have "\<forall>t. documented_api (g_firewall sample_guard t) (\<lambda>k. k_other k 0) (\<lambda>k. k_other k 1)"
    using sample_api_documented by (simp add: sample_guard_def)
  with guard_filters_stand [OF m _ h] m h show ?thesis by (fastforce simp: sample_guard_world_def)
qed

text \<open>
  C9: The guard ends for four reasons only, and its last poll shows which: the wait was signalled;
  the wait failed; its own timeout, counted from the start, has run out; or it is orphaned. Then it
  watches a manager, at the last poll a hop is missing, and there is a run of polls up to the last
  one in every one of which the manager was not alive, the first of them at least the grace period
  before the last. Every earlier wait had merely timed out. So the guard never lets go of an
  orphaned chain while the manager lives or both adapters are there, and a manager that is seen
  alive in between starts the grace period anew. After the end nothing is installed.
\<close>

theorem guard_ends_for_a_reason:
  assumes "holdKillSwitch go f n cfg w = (Some r, h, w')" and "ps = polls go f (hold_deadline f w) n (new_hold cfg) w"
  shows "g_session w' = None \<and> ps \<noteq> [] \<and> g_now w' = g_now (snd (last ps))
    \<and> (\<forall>p\<in>set (butlast ps). fst p = TimedOut) \<and> reason_shown go f (hold_deadline f w) r ps"
proof -
  have run: "hold_run go f (hold_deadline f w) n (new_hold cfg) w = (Some r, h, w')"
    using assms(1) by (simp add: holdKillSwitch_def)
  have "gone_noted go f [] (mgrGoneAt (new_hold cfg))" by (simp add: gone_noted_def new_hold_def)
  from hold_run_removed [OF run] hold_run_shown [OF run this] show ?thesis by (simp add: assms(2))
qed

text \<open>
  C10: When the manager is gone and a hop stays away, the guard lets go by itself: after the grace
  period and at most two polls of three seconds nothing is installed any more.
\<close>

theorem orphaned_guard_lets_go:
  assumes "abandoned go f" and "0 \<le> flag_orphangrace f" and "flag_orphangrace f < 2 ^ 33"
    and "2 \<le> n" and "flag_orphangrace f + 3 \<le> 3 * int n"
  shows "fst (holdKillSwitch go f n cfg w) \<noteq> None
    \<and> g_session (snd (snd (holdKillSwitch go f n cfg w))) = None"
proof -
  have ended: "fst (holdKillSwitch go f n cfg w) \<noteq> None" by (rule abandoned_ends [OF assms])
  then obtain r' h' w' where r: "holdKillSwitch go f n cfg w = (Some r', h', w')"
    by (metis prod_cases3 fst_conv option.exhaust)
  with ended hold_run_removed show ?thesis by (auto simp: holdKillSwitch_def)
qed

definition lonely_guard :: guard_os where
  "lonely_guard = sample_guard\<lparr>g_wait := (\<lambda>_. TimedOut), g_adapters := (\<lambda>_. None)\<rparr>"

lemma lonely_abandoned: "abandoned lonely_guard guard_sample_flags"
  by (simp add: abandoned_def lonely_guard_def sample_guard_def processAlive_def hop_missing_def luidForAlias_def)
     (simp add: guard_sample_flags_def armed_flags_def)

theorem orphaned_guard_lets_go_witness:
  "fst (holdKillSwitch lonely_guard guard_sample_flags 41 sample_firewall sample_guard_world) \<noteq> None"
  using orphaned_guard_lets_go [OF lonely_abandoned, of 41 sample_firewall sample_guard_world]
  by (simp add: guard_sample_flags_def armed_flags_def default_flags_def)

theorem guard_ends_for_a_reason_witness:
  "\<exists>r h w ps. holdKillSwitch lonely_guard guard_sample_flags 41 sample_firewall sample_guard_world = (Some r, h, w)
    \<and> ps \<noteq> [] \<and> fst (last ps) = TimedOut
    \<and> reason_shown lonely_guard guard_sample_flags (hold_deadline guard_sample_flags sample_guard_world) r ps"
proof -
  have "fst (holdKillSwitch lonely_guard guard_sample_flags 41 sample_firewall sample_guard_world) \<noteq> None"
    by (rule abandoned_ends [OF lonely_abandoned])
       (simp_all add: guard_sample_flags_def armed_flags_def default_flags_def)
  then obtain r h w where run:
    "holdKillSwitch lonely_guard guard_sample_flags 41 sample_firewall sample_guard_world = (Some r, h, w)"
    by (cases "holdKillSwitch lonely_guard guard_sample_flags 41 sample_firewall sample_guard_world") auto
  let ?ps = "polls lonely_guard guard_sample_flags (hold_deadline guard_sample_flags sample_guard_world) 41
    (new_hold sample_firewall) sample_guard_world"
  have "\<forall>p\<in>set ?ps. fst p = TimedOut" by (rule polls_timed) (simp add: lonely_guard_def)
  then have "?ps \<noteq> [] \<Longrightarrow> fst (last ?ps) = TimedOut" using last_in_set by blast
  with guard_ends_for_a_reason [OF run refl] run show ?thesis by blast
qed

end
