(* ===== verification/TunnelTracker.thy ===== *)
theory TunnelTracker
  imports ManagerWorld
begin

text \<open>
  The tracker of the tunnel services, \<open>upstream-manager/tunneltracker.go\<close>: the table of the states,
  what a notification of the service control manager means, and one tracker from the entry of its
  tunnel in the table to its removal. What the tracker reads from the service while it handles a
  notification comes along with the notification. The subscription itself, and its replacement
  for Windows 7, are calls of the system and left out; they deliver the notifications.
\<close>

section \<open>Words of the service control manager\<close>

definition SERVICE_STOPPED :: "32 word" where "SERVICE_STOPPED = 1"
definition SERVICE_START_PENDING :: "32 word" where "SERVICE_START_PENDING = 2"
definition SERVICE_STOP_PENDING :: "32 word" where "SERVICE_STOP_PENDING = 3"
definition SERVICE_RUNNING :: "32 word" where "SERVICE_RUNNING = 4"
definition SERVICE_CONTINUE_PENDING :: "32 word" where "SERVICE_CONTINUE_PENDING = 5"
definition SERVICE_PAUSE_PENDING :: "32 word" where "SERVICE_PAUSE_PENDING = 6"
definition SERVICE_PAUSED :: "32 word" where "SERVICE_PAUSED = 7"

definition NOTIFY_STOPPED :: "32 word" where "NOTIFY_STOPPED = 1"
definition NOTIFY_START_PENDING :: "32 word" where "NOTIFY_START_PENDING = 2"
definition NOTIFY_STOP_PENDING :: "32 word" where "NOTIFY_STOP_PENDING = 4"
definition NOTIFY_RUNNING :: "32 word" where "NOTIFY_RUNNING = 8"
definition NOTIFY_CONTINUE_PENDING :: "32 word" where "NOTIFY_CONTINUE_PENDING = 16"
definition NOTIFY_PAUSE_PENDING :: "32 word" where "NOTIFY_PAUSE_PENDING = 32"
definition NOTIFY_PAUSED :: "32 word" where "NOTIFY_PAUSED = 64"
definition NOTIFY_DELETED :: "32 word" where "NOTIFY_DELETED = 256"
definition NOTIFY_DELETE_PENDING :: "32 word" where "NOTIFY_DELETE_PENDING = 512"

lemmas notify_words =
  SERVICE_STOPPED_def SERVICE_START_PENDING_def SERVICE_STOP_PENDING_def SERVICE_RUNNING_def
  SERVICE_CONTINUE_PENDING_def SERVICE_PAUSE_PENDING_def SERVICE_PAUSED_def
  NOTIFY_STOPPED_def NOTIFY_START_PENDING_def NOTIFY_STOP_PENDING_def NOTIFY_RUNNING_def
  NOTIFY_CONTINUE_PENDING_def NOTIFY_PAUSE_PENDING_def NOTIFY_PAUSED_def NOTIFY_DELETED_def
  NOTIFY_DELETE_PENDING_def

definition svcStateToNotifyState :: "32 word \<Rightarrow> 32 word" where
  "svcStateToNotifyState s =
     (if s = SERVICE_STOPPED then NOTIFY_STOPPED
      else if s = SERVICE_START_PENDING then NOTIFY_START_PENDING
      else if s = SERVICE_STOP_PENDING then NOTIFY_STOP_PENDING
      else if s = SERVICE_RUNNING then NOTIFY_RUNNING
      else if s = SERVICE_CONTINUE_PENDING then NOTIFY_CONTINUE_PENDING
      else if s = SERVICE_PAUSE_PENDING then NOTIFY_PAUSE_PENDING
      else if s = SERVICE_PAUSED then NOTIFY_PAUSED
      else 0)"

definition notifyStateToTunState :: "32 word \<Rightarrow> tunnel_state" where
  "notifyStateToTunState s =
     (if and s (or NOTIFY_STOPPED NOTIFY_DELETED) \<noteq> 0 then TunnelStopped
      else if and s (or NOTIFY_DELETE_PENDING NOTIFY_STOP_PENDING) \<noteq> 0 then TunnelStopping
      else if and s NOTIFY_RUNNING \<noteq> 0 then TunnelStarted
      else if and s NOTIFY_START_PENDING \<noteq> 0 then TunnelStarting
      else TunnelUnknown)"

section \<open>The table\<close>

text \<open>In the order a range over the map happens to visit it.\<close>

fun global_state :: "tunnel_state \<Rightarrow> (string \<times> tunnel_state) list \<Rightarrow> tunnel_state" where
  "global_state state [] = state"
| "global_state state ((_, s) # rest) =
     (if s = TunnelStarting then TunnelStarting
      else if s = TunnelStopping then TunnelStopping
      else if s = TunnelStarted \<or> s = TunnelUnknown then global_state TunnelStarted rest
      else global_state state rest)"

definition trackedTunnelsGlobalState :: "(string \<times> tunnel_state) list \<Rightarrow> tunnel_state" where
  "trackedTunnelsGlobalState tracked = global_state TunnelStopped tracked"

section \<open>One tracker\<close>

datatype tunnel_fault = ServiceFault nat | WinFault nat | LostTrack win_error

text \<open>
  What the tracker reads: the exit codes \<open>service.Query\<close> answers, and the start type
  \<open>service.Config\<close> answers, which is 0 beside an error.
\<close>

record reading =
  rd_exit :: "win_error + nat \<times> nat"
  rd_config :: "win_error + nat"

record tracker =
  tr_table :: "string \<rightharpoonup> tunnel_state"
  tr_sent :: "(tunnel_state \<times> tunnel_fault option) list"
  tr_last :: tunnel_state
  tr_deleted :: bool
  tr_stopped :: bool

definition ERROR_SERVICE_SPECIFIC_ERROR :: nat where "ERROR_SERVICE_SPECIFIC_ERROR = 1066"
definition ERROR_SERVICE_NEVER_STARTED :: nat where "ERROR_SERVICE_NEVER_STARTED = 1077"
definition SERVICE_DISABLED :: nat where "SERVICE_DISABLED = 4"

definition stop_fault :: "win_error + nat \<times> nat \<Rightarrow> tunnel_fault option" where
  "stop_fault answer =
     (case answer of
        Inl _ \<Rightarrow> None
      | Inr (exitCode, specific) \<Rightarrow>
          if exitCode = ERROR_SERVICE_SPECIFIC_ERROR then
            (if specific \<noteq> 0 then Some (ServiceFault specific) else None)
          else if exitCode = 0 \<or> exitCode = ERROR_SERVICE_NEVER_STARTED then None
          else Some (WinFault exitCode))"

definition found_disabled :: "win_error + nat \<Rightarrow> bool" where
  "found_disabled answer =
     (case answer of
        Inl e \<Rightarrow> e = ERROR_SERVICE_MARKED_FOR_DELETE \<or> (0::nat) = SERVICE_DISABLED
      | Inr startType \<Rightarrow> False)"

text \<open>The table and the message to the clients change together, everywhere in the file.\<close>

definition note_state :: "string \<Rightarrow> tunnel_state \<Rightarrow> tunnel_fault option \<Rightarrow> tracker \<Rightarrow> tracker" where
  "note_state name state fault t =
     t\<lparr>tr_table := (tr_table t)(name \<mapsto> state), tr_sent := tr_sent t @ [(state, fault)]\<rparr>"

definition checkForDisabled :: "string \<Rightarrow> win_error + nat \<Rightarrow> tracker \<Rightarrow> bool \<times> tracker" where
  "checkForDisabled name config t =
     (if found_disabled config then (True, note_state name TunnelStopped None (t\<lparr>tr_deleted := True\<rparr>))
      else (False, t))"

definition track_callback :: "string \<Rightarrow> 32 word \<Rightarrow> reading \<Rightarrow> tracker \<Rightarrow> bool \<times> tracker" where
  "track_callback name status r t =
     (let state = notifyStateToTunState status;
          fault = (if state = TunnelStopped then stop_fault (rd_exit r) else None);
          t1 = (if fault \<noteq> None then t\<lparr>tr_deleted := True\<rparr> else t);
          t2 = (if state \<noteq> tr_last t1 then (note_state name state fault t1)\<lparr>tr_last := state\<rparr> else t1)
      in if state = TunnelUnknown
         then (let (disabled, t3) = checkForDisabled name (rd_config r) t2 in
               if disabled then (True, t3) else (False, t3))
         else (state = TunnelStopped, t2))"

text \<open>
  A notification, or the error that ends the subscription. The first reading is the one after the
  wait of at most four seconds for the service to leave its stopped state.
\<close>

datatype notice = Notice "32 word" reading | Lost win_error reading

fun track_notices :: "string \<Rightarrow> notice list \<Rightarrow> tracker \<Rightarrow> bool \<times> tracker" where
  "track_notices name [] t = (False, t)"
| "track_notices name (Notice status r # rest) t =
     (case track_callback name status r t of
        (True, t1) \<Rightarrow> (True, t1)
      | (False, t1) \<Rightarrow> track_notices name rest t1)"
| "track_notices name (Lost e r # rest) t =
     (case checkForDisabled name (rd_config r) t of
        (True, t1) \<Rightarrow> (True, t1)
      | (False, t1) \<Rightarrow> (True, (note_state name TunnelStopped (Some (LostTrack e)) t1)\<lparr>tr_stopped := True\<rparr>))"

text \<open>The flag says whether the tracker has finished; the entry is removed when it does.\<close>

definition trackTunnelService :: "string \<Rightarrow> reading \<Rightarrow> notice list \<Rightarrow> tracker \<Rightarrow> bool \<times> tracker" where
  "trackTunnelService name first notices t =
     (if tr_table t name \<noteq> None then (True, t)
      else (let t0 = t\<lparr>tr_table := (tr_table t)(name \<mapsto> TunnelUnknown), tr_last := TunnelUnknown\<rparr>;
                (disabled, t1) = checkForDisabled name (rd_config first) t0;
                (over, t2) = (if disabled then (True, t1) else track_notices name notices t1)
            in (over, if over then t2\<lparr>tr_table := (tr_table t2)(name := None)\<rparr> else t2)))"

section \<open>Facts\<close>

text \<open>The two translations together agree with \<open>ManagerService.State\<close> on the states a tunnel has.\<close>

definition state_of_service :: "32 word \<Rightarrow> tunnel_state" where
  "state_of_service s =
     (if s = SERVICE_STOPPED then TunnelStopped
      else if s = SERVICE_STOP_PENDING then TunnelStopping
      else if s = SERVICE_RUNNING then TunnelStarted
      else if s = SERVICE_START_PENDING then TunnelStarting
      else TunnelUnknown)"

lemma tracker_state_agrees: "notifyStateToTunState (svcStateToNotifyState s) = state_of_service s"
  by (simp add: notifyStateToTunState_def svcStateToNotifyState_def state_of_service_def notify_words)

lemma global_state_sound:
  "global_state state ts \<in> {state, TunnelStarted, TunnelStarting, TunnelStopping}"
  by (induction state ts rule: global_state.induct) auto

lemma global_state_cases:
  "global_state state ts =
     (case find (\<lambda>s. s = TunnelStarting \<or> s = TunnelStopping) (map snd ts) of
        Some s \<Rightarrow> s
      | None \<Rightarrow> if \<exists>s\<in>set (map snd ts). s = TunnelStarted \<or> s = TunnelUnknown then TunnelStarted else state)"
  by (induction state ts rule: global_state.induct) (auto split: option.splits)

text \<open>
  A truthful tracker: the table holds the state sent last, \<open>TunnelUnknown\<close> before the first one, no state is
  sent twice in a row, and another tunnel's entry is left alone.
\<close>

fun steady :: "tunnel_state \<Rightarrow> (tunnel_state \<times> 'a) list \<Rightarrow> bool" where
  "steady s [] = True"
| "steady s ((s', _) # rest) = (s' \<noteq> s \<and> steady s' rest)"

definition last_state :: "(tunnel_state \<times> 'a) list \<Rightarrow> tunnel_state" where
  "last_state sent = (if sent = [] then TunnelUnknown else fst (last sent))"

lemma steady_snoc: "steady s (xs @ [(x, f)]) \<longleftrightarrow> steady s xs \<and> x \<noteq> (if xs = [] then s else fst (last xs))"
  by (induction s xs rule: steady.induct) auto

definition tracking :: "string \<Rightarrow> (string \<rightharpoonup> tunnel_state) \<Rightarrow> tracker \<Rightarrow> bool" where
  "tracking name others t \<longleftrightarrow>
     tr_table t = others(name \<mapsto> last_state (tr_sent t)) \<and> steady TunnelUnknown (tr_sent t)"

lemma tracking_note:
  "tracking name others t \<Longrightarrow> state \<noteq> last_state (tr_sent t) \<Longrightarrow>
   tracking name others (note_state name state f t) \<and> last_state (tr_sent (note_state name state f t)) = state"
  by (simp add: tracking_def note_state_def last_state_def steady_snoc)

lemma tracking_other [simp]:
  "tracking name others (t\<lparr>tr_deleted := b\<rparr>) = tracking name others t"
  "tracking name others (t\<lparr>tr_stopped := b\<rparr>) = tracking name others t"
  "tracking name others (t\<lparr>tr_last := s\<rparr>) = tracking name others t"
  by (simp_all add: tracking_def)

lemma note_state_parts [simp]:
  "tr_sent (note_state name s f t) = tr_sent t @ [(s, f)]" "tr_last (note_state name s f t) = tr_last t"
  "last_state (sent @ [(s, f)]) = s"
  by (simp_all add: note_state_def last_state_def)

lemma checkForDisabled_tracking:
  assumes "tracking name others t" and "last_state (tr_sent t) \<noteq> TunnelStopped"
    and "checkForDisabled name config t = (b, t')"
  shows "tracking name others t' \<and> (if b then last_state (tr_sent t') = TunnelStopped else t' = t)"
  using assms tracking_note [of name others "t\<lparr>tr_deleted := True\<rparr>" TunnelStopped None]
  by (auto simp: checkForDisabled_def split: if_splits)

text \<open>While the tracker goes on, the last state sent is not \<open>TunnelStopped\<close>, and \<open>lastState\<close> is the last one sent.\<close>

lemma track_callback_tracking:
  assumes "tracking name others t" and "tr_last t = last_state (tr_sent t)"
    and "last_state (tr_sent t) \<noteq> TunnelStopped" and "track_callback name status r t = (b, t')"
  shows "tracking name others t' \<and>
    (if b then last_state (tr_sent t') = TunnelStopped
     else tr_last t' = last_state (tr_sent t') \<and> last_state (tr_sent t') \<noteq> TunnelStopped)"
proof -
  let ?s = "notifyStateToTunState status"
  let ?f = "if ?s = TunnelStopped then stop_fault (rd_exit r) else None"
  define t1 where "t1 = (if ?f \<noteq> None then t\<lparr>tr_deleted := True\<rparr> else t)"
  define t2 where "t2 = (if ?s \<noteq> tr_last t1 then (note_state name ?s ?f t1)\<lparr>tr_last := ?s\<rparr> else t1)"
  have t1: "tracking name others t1" "tr_last t1 = last_state (tr_sent t1)" "tr_sent t1 = tr_sent t"
    using assms(1,2) by (auto simp: t1_def)
  have t2: "tracking name others t2" "tr_last t2 = last_state (tr_sent t2)" "last_state (tr_sent t2) = ?s"
    using t1 tracking_note [OF t1(1), of ?s ?f] by (auto simp: t2_def)
  have c: "track_callback name status r t =
      (if ?s = TunnelUnknown then checkForDisabled name (rd_config r) t2 else (?s = TunnelStopped, t2))"
    unfolding track_callback_def Let_def t1_def [symmetric] t2_def [symmetric]
    by (auto split: prod.splits if_splits)
  show ?thesis
    using c assms(4) t2 checkForDisabled_tracking [OF t2(1), of "rd_config r" b t'] by (auto split: if_splits)
qed

lemma track_notices_tracking:
  assumes "tracking name others t" and "tr_last t = last_state (tr_sent t)"
    and "last_state (tr_sent t) \<noteq> TunnelStopped" and "track_notices name notices t = (over, t')"
  shows "tracking name others t' \<and> (over \<longleftrightarrow> last_state (tr_sent t') = TunnelStopped)"
  using assms
proof (induction name notices t rule: track_notices.induct)
  case (2 name status r rest t)
  then show ?case
    using track_callback_tracking [OF 2(2-4)] by (cases "track_callback name status r t") (auto split: bool.splits if_splits)
next
  case (3 name e r rest t)
  obtain d t1 where d: "checkForDisabled name (rd_config r) t = (d, t1)" by fastforce
  from checkForDisabled_tracking [OF 3(1,3) d] 3 tracking_note [OF 3(1), of TunnelStopped "Some (LostTrack e)"]
  show ?case by (cases d) (auto simp: d)
qed simp

lemma tracker_truthful:
  assumes "trackTunnelService name first notices t = (over, t')"
    and "tr_table t name = None" and "tr_sent t = []"
  shows "steady TunnelUnknown (tr_sent t') \<and> (over \<longleftrightarrow> last_state (tr_sent t') = TunnelStopped)
    \<and> tr_table t' = (tr_table t)(name := if over then None else Some (last_state (tr_sent t')))"
proof -
  let ?t0 = "t\<lparr>tr_table := (tr_table t)(name \<mapsto> TunnelUnknown), tr_last := TunnelUnknown\<rparr>"
  have t0: "tracking name (tr_table t) ?t0" "tr_last ?t0 = last_state (tr_sent ?t0)" "last_state (tr_sent ?t0) \<noteq> TunnelStopped"
    using assms(3) by (simp_all add: tracking_def last_state_def)
  obtain d t1 where d: "checkForDisabled name (rd_config first) ?t0 = (d, t1)" by fastforce
  obtain o2 t2 where n: "(if d then (True, t1) else track_notices name notices t1) = (o2, t2)" by fastforce
  have "tracking name (tr_table t) t2 \<and> (o2 \<longleftrightarrow> last_state (tr_sent t2) = TunnelStopped)"
    using checkForDisabled_tracking [OF t0(1,3) d] track_notices_tracking [OF t0, of notices o2 t2] n
    by (auto split: if_splits)
  moreover have "(over, t') = (o2, if o2 then t2\<lparr>tr_table := (tr_table t2)(name := None)\<rparr> else t2)"
    using assms(1,2) d n by (auto simp: trackTunnelService_def Let_def)
  moreover have "(tr_table t)(name := None) = tr_table t" using assms(2) by auto
  ultimately show ?thesis using assms(2) by (auto simp: tracking_def split: if_splits)
qed

end
