(* ===== verification/ManagerIPC.thy ===== *)
theory ManagerIPC
  imports ChainStart TunnelTracker
begin

text \<open>
  The conversation between a window and the manager: the methods and the client of
  \<open>upstream-manager/ipc_client.go\<close>, the server loop of \<open>ipc_server.go\<close>, the calls of
  \<open>chainsettingsipc.go\<close> and the status of \<open>chainipc.go\<close>.

  A pipe carries a sequence of gob values. gob sends a value and its kind and hands it over as it
  was; reading a value of another kind is an error. \<open>sv_text\<close> is \<open>error.Error\<close>, whose texts the
  system words in its own language. A call that panics or never comes back gives no reply: the
  server is \<open>None\<close> from there on.
\<close>

section \<open>The status of the chain\<close>

record hop_status =
  hs_name :: string
  hs_state :: tunnel_state
  hs_hidden :: bool

record status_info =
  si_leaf :: string
  si_hops :: "hop_status list"
  si_lock_on :: bool
  si_lock_leaf :: string
  si_in_proc :: bool

definition Tunnels :: "os \<Rightarrow> world \<Rightarrow> manager_error + string list" where
  "Tunnels os w =
     (case ListConfigNames (os_unicode os) (w_dir w) of Inl e \<Rightarrow> Inl (MStore e) | Inr names \<Rightarrow> Inr names)"

fun pick_leaf :: "os \<Rightarrow> world \<Rightarrow> (string \<Rightarrow> bool) \<Rightarrow> string \<Rightarrow> string list \<Rightarrow> string" where
  "pick_leaf os w known best [] = best"
| "pick_leaf os w known best (t # ts) =
     (if ChainIsHiddenHopName (os_unicode os) t then pick_leaf os w known best ts
      else if \<not> known (to_lower (os_unicode os) (ChainHiddenHopName (os_unicode os) t))
      then pick_leaf os w known best ts
      else (let best' = (if best = [] then t else best) in
            case State os t w of
              Inl _ \<Rightarrow> pick_leaf os w known best' ts
            | Inr state \<Rightarrow> if state \<noteq> TunnelStopped then t else pick_leaf os w known best' ts))"

definition chainPickLeaf :: "os \<Rightarrow> world \<Rightarrow> string" where
  "chainPickLeaf os w =
     (case Tunnels os w of
        Inl _ \<Rightarrow> []
      | Inr tunnels \<Rightarrow>
          pick_leaf os w (List.member (map (to_lower (os_unicode os)) tunnels)) [] tunnels)"

definition hop_status_of :: "os \<Rightarrow> world \<Rightarrow> string \<Rightarrow> hop_status" where
  "hop_status_of os w name =
     \<lparr> hs_name = name, hs_state = (case State os name w of Inl _ \<Rightarrow> TunnelUnknown | Inr s \<Rightarrow> s),
       hs_hidden = ChainIsHiddenHopName (os_unicode os) name \<rparr>"

definition ChainStatus :: "os \<Rightarrow> world \<Rightarrow> status_info" where
  "ChainStatus os w =
     (let leaf = (if chainLockLeaf w = [] then chainPickLeaf os w else chainLockLeaf w) in
      \<lparr> si_leaf = leaf,
        si_hops = (if leaf = [] then []
                   else map (hop_status_of os w) (chainHopOrder (os_store os) (w_dir w) leaf)),
        si_lock_on = chainLockOn w, si_lock_leaf = chainLockLeaf w,
        si_in_proc = (\<not> os_no_inproc_lock os (w_history w)) \<rparr>)"

section \<open>Values on the pipe\<close>

datatype gob =
    GInt int
  | GUint nat
  | GBool bool
  | GString string
  | GConfig config
  | GTunnel string
  | GTunnels "string list"
  | GSettings tunnel_settings
  | GGlobal global_settings
  | GStatus status_info

definition zero_config :: config where
  "zero_config = \<lparr> Name = [], Interface = zero_interface, Peers = [] \<rparr>"

fun state_number :: "tunnel_state \<Rightarrow> int" where
  "state_number TunnelUnknown = 0"
| "state_number TunnelStarted = 1"
| "state_number TunnelStopped = 2"
| "state_number TunnelStarting = 3"
| "state_number TunnelStopping = 4"

definition StoredConfigMethodType :: int where "StoredConfigMethodType = 0"
definition RuntimeConfigMethodType :: int where "RuntimeConfigMethodType = 1"
definition StartMethodType :: int where "StartMethodType = 2"
definition StopMethodType :: int where "StopMethodType = 3"
definition WaitForStopMethodType :: int where "WaitForStopMethodType = 4"
definition DeleteMethodType :: int where "DeleteMethodType = 5"
definition StateMethodType :: int where "StateMethodType = 6"
definition GlobalStateMethodType :: int where "GlobalStateMethodType = 7"
definition CreateMethodType :: int where "CreateMethodType = 8"
definition TunnelsMethodType :: int where "TunnelsMethodType = 9"
definition QuitMethodType :: int where "QuitMethodType = 10"
definition UpdateStateMethodType :: int where "UpdateStateMethodType = 11"
definition UpdateMethodType :: int where "UpdateMethodType = 12"
definition ChainStatusMethodType :: int where "ChainStatusMethodType = 100"
definition ChainSettingsGetMethodType :: int where "ChainSettingsGetMethodType = 101"
definition ChainSettingsSetMethodType :: int where "ChainSettingsSetMethodType = 102"
definition ChainGlobalGetMethodType :: int where "ChainGlobalGetMethodType = 103"
definition ChainGlobalSetMethodType :: int where "ChainGlobalSetMethodType = 104"
definition ChainLiftLockMethodType :: int where "ChainLiftLockMethodType = 105"

lemmas method_types =
  StoredConfigMethodType_def RuntimeConfigMethodType_def StartMethodType_def StopMethodType_def
  WaitForStopMethodType_def DeleteMethodType_def StateMethodType_def GlobalStateMethodType_def
  CreateMethodType_def TunnelsMethodType_def QuitMethodType_def UpdateStateMethodType_def
  UpdateMethodType_def ChainStatusMethodType_def ChainSettingsGetMethodType_def
  ChainSettingsSetMethodType_def ChainGlobalGetMethodType_def ChainGlobalSetMethodType_def
  ChainLiftLockMethodType_def

section \<open>The server\<close>

text \<open>
  \<open>sv_depth\<close> bounds the calls of \<open>Start\<close>, \<open>sv_save_text\<close> words a failure to write the settings,
  \<open>sv_update\<close> is the state of the update check.
\<close>

record server =
  sv_os :: os
  sv_text :: "manager_error \<Rightarrow> string"
  sv_save_text :: string
  sv_depth :: nat
  sv_update :: nat

record server_state =
  sv_world :: world
  sv_quit :: bool

definition errToString :: "server \<Rightarrow> manager_error option \<Rightarrow> string" where
  "errToString sv err = (case err of None \<Rightarrow> [] | Some e \<Rightarrow> sv_text sv e)"

definition saveErrToString :: "server \<Rightarrow> bool \<Rightarrow> string" where
  "saveErrToString sv ok = (if ok then [] else sv_save_text sv)"

text \<open>What a request leads to: the replies and what is left of the input, or the end of the loop.\<close>

datatype served = Replied "gob list" "gob list" server_state | HungUp server_state

fun with_string :: "gob list \<Rightarrow> server_state \<Rightarrow> (string \<Rightarrow> gob list \<Rightarrow> served option) \<Rightarrow> served option" where
  "with_string (GString s # ins) st k = k s ins"
| "with_string ins st k = Some (HungUp st)"

definition reply :: "server \<Rightarrow> gob list \<Rightarrow> manager_error option \<Rightarrow> gob list \<Rightarrow> server_state \<Rightarrow> served option" where
  "reply sv values err ins st =
     (if (case err of None \<Rightarrow> False | Some e \<Rightarrow> is_panic e) then None
      else Some (Replied (values @ [GString (errToString sv err)]) ins st))"

definition reply_config :: "server \<Rightarrow> manager_error + config \<Rightarrow> gob list \<Rightarrow> server_state \<Rightarrow> served option" where
  "reply_config sv r ins st =
     (case r of
        Inl e \<Rightarrow> reply sv [GConfig zero_config] (Some e) ins st
      | Inr c \<Rightarrow> reply sv [GConfig c] None ins st)"

definition reply_outcome :: "server \<Rightarrow> outcome option \<Rightarrow> gob list \<Rightarrow> server_state \<Rightarrow> served option" where
  "reply_outcome sv r ins st =
     (case r of
        None \<Rightarrow> None
      | Some (err, w) \<Rightarrow> reply sv [] err ins (st\<lparr>sv_world := w\<rparr>))"

definition chainServeSettingsGet :: "server \<Rightarrow> gob list \<Rightarrow> server_state \<Rightarrow> served option" where
  "chainServeSettingsGet sv ins st =
     with_string ins st (\<lambda>name rest.
       let (settings, w) = ChainSettingsFor (sv_os sv) name (sv_world st)
       in reply sv [GSettings settings] None rest (st\<lparr>sv_world := w\<rparr>))"

definition serve_settings_set :: "server \<Rightarrow> gob list \<Rightarrow> server_state \<Rightarrow> served option" where
  "serve_settings_set sv ins st =
     with_string ins st (\<lambda>name rest.
       case rest of
         GSettings settings # rest' \<Rightarrow>
           (let (ok, w) = chainServeSettingsSet (sv_os sv) name settings (sv_world st)
            in Some (Replied [GString (saveErrToString sv ok)] rest' (st\<lparr>sv_world := w\<rparr>)))
       | _ \<Rightarrow> Some (HungUp st))"

definition chainServeGlobalGet :: "server \<Rightarrow> gob list \<Rightarrow> server_state \<Rightarrow> served option" where
  "chainServeGlobalGet sv ins st =
     (let (global, w) = ChainGlobal (sv_world st)
      in reply sv [GGlobal global] None ins (st\<lparr>sv_world := w\<rparr>))"

definition chainServeGlobalSet :: "server \<Rightarrow> gob list \<Rightarrow> server_state \<Rightarrow> served option" where
  "chainServeGlobalSet sv ins st =
     (case ins of
        GGlobal global # rest \<Rightarrow>
          (let (ok, w) = ChainGlobalSave (sv_os sv) global (sv_world st)
           in Some (Replied [GString (saveErrToString sv ok)] rest (st\<lparr>sv_world := w\<rparr>)))
      | _ \<Rightarrow> Some (HungUp st))"

definition chainServeStatus :: "server \<Rightarrow> gob list \<Rightarrow> server_state \<Rightarrow> served option" where
  "chainServeStatus sv ins st =
     Some (Replied [GStatus (ChainStatus (sv_os sv) (sv_world st))] ins st)"

text \<open>The switch on the method. \<open>Update\<close> starts the updater, which is not part of the model.\<close>

definition serve_method :: "server \<Rightarrow> int \<Rightarrow> gob list \<Rightarrow> server_state \<Rightarrow> served option" where
  "serve_method sv m ins st =
     (let os = sv_os sv; w = sv_world st in
      if m = StoredConfigMethodType then
        with_string ins st (\<lambda>name rest. reply_config sv (StoredConfig os name w) rest st)
      else if m = RuntimeConfigMethodType then
        with_string ins st (\<lambda>name rest. reply_config sv (RuntimeConfig os name w) rest st)
      else if m = StartMethodType then
        with_string ins st (\<lambda>name rest. reply_outcome sv (Start (sv_depth sv) os name w) rest st)
      else if m = StopMethodType then
        with_string ins st (\<lambda>name rest. reply_outcome sv (Some (Stop os name w)) rest st)
      else if m = WaitForStopMethodType then
        with_string ins st (\<lambda>name rest. reply_outcome sv (WaitForStop os name w) rest st)
      else if m = DeleteMethodType then
        with_string ins st (\<lambda>name rest. reply_outcome sv (Some (Delete os name w)) rest st)
      else if m = StateMethodType then
        with_string ins st (\<lambda>name rest.
          case State os name w of
            Inl e \<Rightarrow> reply sv [GInt 0] (Some e) rest st
          | Inr s \<Rightarrow> reply sv [GInt (state_number s)] None rest st)
      else if m = GlobalStateMethodType then
        Some (Replied [GInt (state_number (trackedTunnelsGlobalState (os_tracked os (w_history w))))] ins st)
      else if m = CreateMethodType then
        (case ins of
           GConfig c # rest \<Rightarrow>
             (case Create os c w of
                (Some e, w1) \<Rightarrow> reply sv [GTunnel []] (Some e) rest (st\<lparr>sv_world := w1\<rparr>)
              | (None, w1) \<Rightarrow> reply sv [GTunnel (Name c)] None rest (st\<lparr>sv_world := w1\<rparr>))
         | _ \<Rightarrow> Some (HungUp st))
      else if m = TunnelsMethodType then
        (case Tunnels os w of
           Inl e \<Rightarrow> reply sv [GTunnels []] (Some e) ins st
         | Inr names \<Rightarrow> reply sv [GTunnels names] None ins st)
      else if m = QuitMethodType then
        (case ins of
           GBool stopTunnels # rest \<Rightarrow>
             (let (already, err, q, w1) = Quit os (sv_quit st) stopTunnels w
              in reply sv [GBool already] err rest (st\<lparr>sv_world := w1, sv_quit := q\<rparr>))
         | _ \<Rightarrow> Some (HungUp st))
      else if m = UpdateStateMethodType then Some (Replied [GUint (sv_update sv)] ins st)
      else if m = UpdateMethodType then Some (Replied [] ins st)
      else if m = ChainSettingsGetMethodType then chainServeSettingsGet sv ins st
      else if m = ChainSettingsSetMethodType then serve_settings_set sv ins st
      else if m = ChainGlobalGetMethodType then chainServeGlobalGet sv ins st
      else if m = ChainGlobalSetMethodType then chainServeGlobalSet sv ins st
      else if m = ChainLiftLockMethodType then
        reply sv [] None ins (st\<lparr>sv_world := chainServeLiftLock w\<rparr>)
      else if m = ChainStatusMethodType then chainServeStatus sv ins st
      else Some (HungUp st))"

lemma with_string_shorter:
  assumes "with_string ins st k = Some (Replied out rest st')"
    and "\<And>s ins. k s ins = Some (Replied out rest st') \<Longrightarrow> length rest \<le> length ins"
  shows "length rest \<le> length ins"
  using assms by (cases "(ins, st, k)" rule: with_string.cases) force+

lemma reply_rest [simp]: "reply sv vs e ins st = Some (Replied out rest st') \<Longrightarrow> rest = ins"
  by (simp add: reply_def split: if_splits)

lemma serve_method_shorter:
  "serve_method sv m ins st = Some (Replied out rest st') \<Longrightarrow> length rest \<le> length ins"
  unfolding serve_method_def Let_def chainServeSettingsGet_def serve_settings_set_def
    chainServeGlobalGet_def chainServeGlobalSet_def chainServeStatus_def
  by (auto split: if_splits sum.splits option.splits prod.splits list.splits gob.splits
      simp: reply_config_def reply_outcome_def elim!: with_string_shorter dest!: reply_rest)

text \<open>The loop. It ends when the input does, or with a request it does not understand.\<close>

function ServeConn :: "server \<Rightarrow> gob list \<Rightarrow> server_state \<Rightarrow> (gob list \<times> server_state) option" where
  "ServeConn sv [] st = Some ([], st)"
| "ServeConn sv (v # ins) st =
     (case v of
        GInt m \<Rightarrow>
          (case serve_method sv m ins st of
             None \<Rightarrow> None
           | Some (HungUp st') \<Rightarrow> Some ([], st')
           | Some (Replied out rest st') \<Rightarrow>
               map_option (\<lambda>(out', st''). (out @ out', st'')) (ServeConn sv rest st'))
      | _ \<Rightarrow> Some ([], st))"
  by pat_completeness auto

termination
  by (relation "measure (\<lambda>(sv, ins, st). length ins)") (auto dest: serve_method_shorter)

end
