(* ===== verification/ManagerClient.thy ===== *)
theory ManagerClient
  imports ManagerIPC
begin

text \<open>
  The window's side of the pipe, \<open>upstream-manager/ipc_client.go\<close>, \<open>chainsettingsipc.go\<close> and
  \<open>chainipc.go\<close>: one operation per method. A connection is what was sent, how many values can still
  be sent before the pipe breaks, and what there is to read. The mutex makes an operation one step.
\<close>

section \<open>A connection\<close>

record conn =
  sent :: "gob list"
  room :: nat
  incoming :: "gob list"

datatype client_error = PipeBroken | PipeEnded | WrongKind | Remote string

fun encode_all :: "gob list \<Rightarrow> conn \<Rightarrow> bool \<times> conn" where
  "encode_all [] c = (True, c)"
| "encode_all (v # vs) c =
     (if room c = 0 then (False, c)
      else encode_all vs (c\<lparr>sent := sent c @ [v], room := room c - 1\<rparr>))"

definition decode :: "(gob \<Rightarrow> 'a option) \<Rightarrow> conn \<Rightarrow> (client_error + 'a) \<times> conn" where
  "decode kind c =
     (case incoming c of
        [] \<Rightarrow> (Inl PipeEnded, c)
      | v # vs \<Rightarrow>
          (case kind v of None \<Rightarrow> Inl WrongKind | Some x \<Rightarrow> Inr x, c\<lparr>incoming := vs\<rparr>))"

fun as_int :: "gob \<Rightarrow> int option" where "as_int (GInt n) = Some n" | "as_int _ = None"
fun as_uint :: "gob \<Rightarrow> nat option" where "as_uint (GUint n) = Some n" | "as_uint _ = None"
fun as_bool :: "gob \<Rightarrow> bool option" where "as_bool (GBool b) = Some b" | "as_bool _ = None"
fun as_string :: "gob \<Rightarrow> string option" where "as_string (GString s) = Some s" | "as_string _ = None"
fun as_config :: "gob \<Rightarrow> config option" where "as_config (GConfig c) = Some c" | "as_config _ = None"
fun as_tunnel :: "gob \<Rightarrow> string option" where "as_tunnel (GTunnel s) = Some s" | "as_tunnel _ = None"
fun as_tunnels :: "gob \<Rightarrow> string list option" where "as_tunnels (GTunnels s) = Some s" | "as_tunnels _ = None"
fun as_settings :: "gob \<Rightarrow> tunnel_settings option" where "as_settings (GSettings s) = Some s" | "as_settings _ = None"
fun as_global :: "gob \<Rightarrow> global_settings option" where "as_global (GGlobal s) = Some s" | "as_global _ = None"
fun as_status :: "gob \<Rightarrow> status_info option" where "as_status (GStatus s) = Some s" | "as_status _ = None"

definition rpcDecodeError :: "conn \<Rightarrow> client_error option \<times> conn" where
  "rpcDecodeError c =
     (case decode as_string c of
        (Inl e, c1) \<Rightarrow> (Some e, c1)
      | (Inr s, c1) \<Rightarrow> (if s = [] then None else Some (Remote s), c1))"

text \<open>
  The three shapes of the operations: an error only, a value with an error, a value only. A
  result that was not read keeps the zero value of its type.
\<close>

type_synonym 'a result = "('a \<times> client_error option) \<times> conn"

definition rpc_error :: "gob list \<Rightarrow> conn \<Rightarrow> unit result" where
  "rpc_error request c =
     (case encode_all request c of
        (False, c1) \<Rightarrow> (((), Some PipeBroken), c1)
      | (True, c1) \<Rightarrow> (case rpcDecodeError c1 of (e, c2) \<Rightarrow> (((), e), c2)))"

definition rpc_bare :: "gob list \<Rightarrow> (gob \<Rightarrow> 'a option) \<Rightarrow> 'a \<Rightarrow> conn \<Rightarrow> 'a result" where
  "rpc_bare request kind zero c =
     (case encode_all request c of
        (False, c1) \<Rightarrow> ((zero, Some PipeBroken), c1)
      | (True, c1) \<Rightarrow>
          (case decode kind c1 of
             (Inl e, c2) \<Rightarrow> ((zero, Some e), c2)
           | (Inr x, c2) \<Rightarrow> ((x, None), c2)))"

definition rpc_value :: "gob list \<Rightarrow> (gob \<Rightarrow> 'a option) \<Rightarrow> 'a \<Rightarrow> conn \<Rightarrow> 'a result" where
  "rpc_value request kind zero c =
     (case rpc_bare request kind zero c of
        ((x, Some e), c1) \<Rightarrow> ((x, Some e), c1)
      | ((x, None), c1) \<Rightarrow> (case rpcDecodeError c1 of (e, c2) \<Rightarrow> ((x, e), c2)))"

section \<open>The operations\<close>

definition Tunnel_StoredConfig :: "string \<Rightarrow> conn \<Rightarrow> config result" where
  "Tunnel_StoredConfig name = rpc_value [GInt StoredConfigMethodType, GString name] as_config zero_config"

definition Tunnel_RuntimeConfig :: "string \<Rightarrow> conn \<Rightarrow> config result" where
  "Tunnel_RuntimeConfig name = rpc_value [GInt RuntimeConfigMethodType, GString name] as_config zero_config"

definition Tunnel_Start :: "string \<Rightarrow> conn \<Rightarrow> unit result" where
  "Tunnel_Start name = rpc_error [GInt StartMethodType, GString name]"

definition Tunnel_Stop :: "string \<Rightarrow> conn \<Rightarrow> unit result" where
  "Tunnel_Stop name = rpc_error [GInt StopMethodType, GString name]"

definition Tunnel_WaitForStop :: "string \<Rightarrow> conn \<Rightarrow> unit result" where
  "Tunnel_WaitForStop name = rpc_error [GInt WaitForStopMethodType, GString name]"

definition Tunnel_Delete :: "string \<Rightarrow> conn \<Rightarrow> unit result" where
  "Tunnel_Delete name = rpc_error [GInt DeleteMethodType, GString name]"

definition Tunnel_State :: "string \<Rightarrow> conn \<Rightarrow> int result" where
  "Tunnel_State name = rpc_value [GInt StateMethodType, GString name] as_int 0"

definition Tunnel_Toggle :: "string \<Rightarrow> conn \<Rightarrow> int result" where
  "Tunnel_Toggle name c =
     (case Tunnel_State name c of
        ((oldState, Some e), c1) \<Rightarrow> ((state_number TunnelUnknown, Some e), c1)
      | ((oldState, None), c1) \<Rightarrow>
          if oldState = state_number TunnelStarted then
            (case Tunnel_Stop name c1 of (((), e), c2) \<Rightarrow> ((oldState, e), c2))
          else if oldState = state_number TunnelStopped then
            (case Tunnel_Start name c1 of (((), e), c2) \<Rightarrow> ((oldState, e), c2))
          else ((oldState, None), c1))"

definition IPCClientGlobalState :: "conn \<Rightarrow> int result" where
  "IPCClientGlobalState = rpc_bare [GInt GlobalStateMethodType] as_int 0"

definition IPCClientNewTunnel :: "config \<Rightarrow> conn \<Rightarrow> string result" where
  "IPCClientNewTunnel conf = rpc_value [GInt CreateMethodType, GConfig conf] as_tunnel []"

definition IPCClientTunnels :: "conn \<Rightarrow> string list result" where
  "IPCClientTunnels = rpc_value [GInt TunnelsMethodType] as_tunnels []"

definition IPCClientQuit :: "bool \<Rightarrow> conn \<Rightarrow> bool result" where
  "IPCClientQuit stopTunnelsOnQuit = rpc_value [GInt QuitMethodType, GBool stopTunnelsOnQuit] as_bool False"

definition IPCClientUpdateState :: "conn \<Rightarrow> nat result" where
  "IPCClientUpdateState = rpc_bare [GInt UpdateStateMethodType] as_uint 0"

definition IPCClientUpdate :: "conn \<Rightarrow> unit result" where
  "IPCClientUpdate c =
     (case encode_all [GInt UpdateMethodType] c of
        (ok, c1) \<Rightarrow> (((), if ok then None else Some PipeBroken), c1))"

definition IPCClientChainSettings :: "string \<Rightarrow> conn \<Rightarrow> tunnel_settings result" where
  "IPCClientChainSettings name =
     rpc_value [GInt ChainSettingsGetMethodType, GString name] as_settings
       \<lparr> KillSwitch = False, BlockIPv6 = False, AllowLAN = False \<rparr>"

definition IPCClientChainSettingsSave :: "string \<Rightarrow> tunnel_settings \<Rightarrow> conn \<Rightarrow> unit result" where
  "IPCClientChainSettingsSave name settings =
     rpc_error [GInt ChainSettingsSetMethodType, GString name, GSettings settings]"

definition IPCClientChainGlobal :: "conn \<Rightarrow> global_settings result" where
  "IPCClientChainGlobal =
     rpc_value [GInt ChainGlobalGetMethodType] as_global
       \<lparr> RaiseOnStart = False, RaiseTunnel = [], LiftLockOnQuit = False \<rparr>"

definition IPCClientChainGlobalSave :: "global_settings \<Rightarrow> conn \<Rightarrow> unit result" where
  "IPCClientChainGlobalSave global = rpc_error [GInt ChainGlobalSetMethodType, GGlobal global]"

definition IPCClientChainLiftLock :: "conn \<Rightarrow> unit result" where
  "IPCClientChainLiftLock = rpc_error [GInt ChainLiftLockMethodType]"

definition zero_status :: status_info where
  "zero_status = \<lparr> si_leaf = [], si_hops = [], si_lock_on = False, si_lock_leaf = [], si_in_proc = False \<rparr>"

definition IPCClientChainStatus :: "conn \<Rightarrow> status_info result" where
  "IPCClientChainStatus = rpc_bare [GInt ChainStatusMethodType] as_status zero_status"

section \<open>Calls and their answers\<close>

text \<open>What a window can ask, what it sends for it, and what it gets, under one type.\<close>

datatype call =
    CallStoredConfig string | CallRuntimeConfig string | CallStart string | CallStop string
  | CallWaitForStop string | CallDelete string | CallState string | CallGlobalState
  | CallCreate config | CallTunnels | CallQuit bool | CallUpdateState | CallUpdate
  | CallSettings string | CallSaveSettings string tunnel_settings | CallGlobal
  | CallSaveGlobal global_settings | CallLift | CallStatus

datatype answer =
    NoValue | ConfigIs config | StateIs int | CreatedIs string | NamesAre "string list" | AlreadyIs bool
  | UpdateIs nat | SettingsAre tunnel_settings | GlobalIs global_settings | StatusIs status_info

definition wrap :: "('a \<Rightarrow> answer) \<Rightarrow> 'a result \<Rightarrow> answer result" where
  "wrap f r = (case r of ((x, e), c) \<Rightarrow> ((f x, e), c))"

fun client :: "call \<Rightarrow> conn \<Rightarrow> answer result" where
  "client (CallStoredConfig n) c = wrap ConfigIs (Tunnel_StoredConfig n c)"
| "client (CallRuntimeConfig n) c = wrap ConfigIs (Tunnel_RuntimeConfig n c)"
| "client (CallStart n) c = wrap (\<lambda>_. NoValue) (Tunnel_Start n c)"
| "client (CallStop n) c = wrap (\<lambda>_. NoValue) (Tunnel_Stop n c)"
| "client (CallWaitForStop n) c = wrap (\<lambda>_. NoValue) (Tunnel_WaitForStop n c)"
| "client (CallDelete n) c = wrap (\<lambda>_. NoValue) (Tunnel_Delete n c)"
| "client (CallState n) c = wrap StateIs (Tunnel_State n c)"
| "client CallGlobalState c = wrap StateIs (IPCClientGlobalState c)"
| "client (CallCreate f) c = wrap CreatedIs (IPCClientNewTunnel f c)"
| "client CallTunnels c = wrap NamesAre (IPCClientTunnels c)"
| "client (CallQuit b) c = wrap AlreadyIs (IPCClientQuit b c)"
| "client CallUpdateState c = wrap UpdateIs (IPCClientUpdateState c)"
| "client CallUpdate c = wrap (\<lambda>_. NoValue) (IPCClientUpdate c)"
| "client (CallSettings n) c = wrap SettingsAre (IPCClientChainSettings n c)"
| "client (CallSaveSettings n s) c = wrap (\<lambda>_. NoValue) (IPCClientChainSettingsSave n s c)"
| "client CallGlobal c = wrap GlobalIs (IPCClientChainGlobal c)"
| "client (CallSaveGlobal g) c = wrap (\<lambda>_. NoValue) (IPCClientChainGlobalSave g c)"
| "client CallLift c = wrap (\<lambda>_. NoValue) (IPCClientChainLiftLock c)"
| "client CallStatus c = wrap StatusIs (IPCClientChainStatus c)"

lemmas client_defs =
  Tunnel_StoredConfig_def Tunnel_RuntimeConfig_def Tunnel_Start_def Tunnel_Stop_def
  Tunnel_WaitForStop_def Tunnel_Delete_def Tunnel_State_def IPCClientGlobalState_def
  IPCClientNewTunnel_def IPCClientTunnels_def IPCClientQuit_def IPCClientUpdateState_def
  IPCClientUpdate_def IPCClientChainSettings_def IPCClientChainSettingsSave_def
  IPCClientChainGlobal_def IPCClientChainGlobalSave_def IPCClientChainLiftLock_def
  IPCClientChainStatus_def

section \<open>The specification: the manager called directly\<close>

definition failure :: "server \<Rightarrow> manager_error option \<Rightarrow> client_error option" where
  "failure sv err = map_option (\<lambda>e. Remote (sv_text sv e)) err"

text \<open>A panic leaves no answer.\<close>

definition answered ::
  "server \<Rightarrow> answer \<Rightarrow> manager_error option \<Rightarrow> server_state \<Rightarrow> ((answer \<times> client_error option) \<times> server_state) option"
where
  "answered sv a err st =
     (if (case err of None \<Rightarrow> False | Some e \<Rightarrow> is_panic e) then None else Some ((a, failure sv err), st))"

definition answered_outcome ::
  "server \<Rightarrow> outcome option \<Rightarrow> server_state \<Rightarrow> ((answer \<times> client_error option) \<times> server_state) option"
where
  "answered_outcome sv r st =
     (case r of None \<Rightarrow> None | Some (err, w) \<Rightarrow> answered sv NoValue err (st\<lparr>sv_world := w\<rparr>))"

definition answered_config ::
  "server \<Rightarrow> manager_error + config \<Rightarrow> server_state \<Rightarrow> ((answer \<times> client_error option) \<times> server_state) option"
where
  "answered_config sv r st =
     (case r of Inl e \<Rightarrow> answered sv (ConfigIs zero_config) (Some e) st
              | Inr c \<Rightarrow> answered sv (ConfigIs c) None st)"

definition saved :: "server \<Rightarrow> bool \<times> world \<Rightarrow> server_state \<Rightarrow> ((answer \<times> client_error option) \<times> server_state) option" where
  "saved sv r st =
     (case r of (ok, w) \<Rightarrow>
        Some ((NoValue, if ok then None else Some (Remote (sv_save_text sv))), st\<lparr>sv_world := w\<rparr>))"

fun perform :: "server \<Rightarrow> call \<Rightarrow> server_state \<Rightarrow> ((answer \<times> client_error option) \<times> server_state) option" where
  "perform sv (CallStoredConfig n) st = answered_config sv (StoredConfig (sv_os sv) n (sv_world st)) st"
| "perform sv (CallRuntimeConfig n) st = answered_config sv (RuntimeConfig (sv_os sv) n (sv_world st)) st"
| "perform sv (CallStart n) st = answered_outcome sv (Start (sv_depth sv) (sv_os sv) n (sv_world st)) st"
| "perform sv (CallStop n) st = answered_outcome sv (Some (Stop (sv_os sv) n (sv_world st))) st"
| "perform sv (CallWaitForStop n) st = answered_outcome sv (WaitForStop (sv_os sv) n (sv_world st)) st"
| "perform sv (CallDelete n) st = answered_outcome sv (Some (Delete (sv_os sv) n (sv_world st))) st"
| "perform sv (CallState n) st =
     (case State (sv_os sv) n (sv_world st) of
        Inl e \<Rightarrow> answered sv (StateIs 0) (Some e) st
      | Inr s \<Rightarrow> answered sv (StateIs (state_number s)) None st)"
| "perform sv CallGlobalState st =
     answered sv (StateIs (state_number (trackedTunnelsGlobalState
       (os_tracked (sv_os sv) (w_history (sv_world st)))))) None st"
| "perform sv (CallCreate c) st =
     (case Create (sv_os sv) c (sv_world st) of
        (Some e, w) \<Rightarrow> answered sv (CreatedIs []) (Some e) (st\<lparr>sv_world := w\<rparr>)
      | (None, w) \<Rightarrow> answered sv (CreatedIs (Name c)) None (st\<lparr>sv_world := w\<rparr>))"
| "perform sv CallTunnels st =
     (case Tunnels (sv_os sv) (sv_world st) of
        Inl e \<Rightarrow> answered sv (NamesAre []) (Some e) st
      | Inr names \<Rightarrow> answered sv (NamesAre names) None st)"
| "perform sv (CallQuit b) st =
     (case Quit (sv_os sv) (sv_quit st) b (sv_world st) of
        (already, err, q, w) \<Rightarrow> answered sv (AlreadyIs already) err (st\<lparr>sv_world := w, sv_quit := q\<rparr>))"
| "perform sv CallUpdateState st = answered sv (UpdateIs (sv_update sv)) None st"
| "perform sv CallUpdate st = answered sv NoValue None st"
| "perform sv (CallSettings n) st =
     (case ChainSettingsFor (sv_os sv) n (sv_world st) of
        (s, w) \<Rightarrow> answered sv (SettingsAre s) None (st\<lparr>sv_world := w\<rparr>))"
| "perform sv (CallSaveSettings n s) st = saved sv (chainServeSettingsSet (sv_os sv) n s (sv_world st)) st"
| "perform sv CallGlobal st =
     (case ChainGlobal (sv_world st) of (g, w) \<Rightarrow> answered sv (GlobalIs g) None (st\<lparr>sv_world := w\<rparr>))"
| "perform sv (CallSaveGlobal g) st = saved sv (ChainGlobalSave (sv_os sv) g (sv_world st)) st"
| "perform sv CallLift st = answered sv NoValue None (st\<lparr>sv_world := chainServeLiftLock (sv_world st)\<rparr>)"
| "perform sv CallStatus st = answered sv (StatusIs (ChainStatus (sv_os sv) (sv_world st))) None st"

end
