(* ===== verification/ManagerSession.thy ===== *)
theory ManagerSession
  imports ManagerClient
begin

text \<open>
  A window and the manager talking to each other (\<open>upstream-manager/ipc_client.go\<close> against
  \<open>ipc_server.go\<close>): what the one sends is what the other reads, value for value.
\<close>

fun request :: "call \<Rightarrow> gob list" where
  "request (CallStoredConfig n) = [GInt StoredConfigMethodType, GString n]"
| "request (CallRuntimeConfig n) = [GInt RuntimeConfigMethodType, GString n]"
| "request (CallStart n) = [GInt StartMethodType, GString n]"
| "request (CallStop n) = [GInt StopMethodType, GString n]"
| "request (CallWaitForStop n) = [GInt WaitForStopMethodType, GString n]"
| "request (CallDelete n) = [GInt DeleteMethodType, GString n]"
| "request (CallState n) = [GInt StateMethodType, GString n]"
| "request CallGlobalState = [GInt GlobalStateMethodType]"
| "request (CallCreate c) = [GInt CreateMethodType, GConfig c]"
| "request CallTunnels = [GInt TunnelsMethodType]"
| "request (CallQuit b) = [GInt QuitMethodType, GBool b]"
| "request CallUpdateState = [GInt UpdateStateMethodType]"
| "request CallUpdate = [GInt UpdateMethodType]"
| "request (CallSettings n) = [GInt ChainSettingsGetMethodType, GString n]"
| "request (CallSaveSettings n s) = [GInt ChainSettingsSetMethodType, GString n, GSettings s]"
| "request CallGlobal = [GInt ChainGlobalGetMethodType]"
| "request (CallSaveGlobal g) = [GInt ChainGlobalSetMethodType, GGlobal g]"
| "request CallLift = [GInt ChainLiftLockMethodType]"
| "request CallStatus = [GInt ChainStatusMethodType]"

lemma request_method: "\<exists>m. request c = GInt m # tl (request c)"
  by (cases c) auto

section \<open>One call\<close>

text \<open>The connection after a call whose reply was there to be read.\<close>

definition after :: "gob list \<Rightarrow> conn \<Rightarrow> gob list \<Rightarrow> conn" where
  "after req c later = c\<lparr>sent := sent c @ req, room := room c - length req, incoming := later\<rparr>"

lemma encode_all_enough:
  "length vs \<le> room c \<Longrightarrow> encode_all vs c = (True, c\<lparr>sent := sent c @ vs, room := room c - length vs\<rparr>)"
  by (induction vs arbitrary: c) auto

lemma rpc_bare_reply:
  assumes "length req \<le> room c" and "incoming c = v # later" and "kind v = Some x"
  shows "rpc_bare req kind zero c = ((x, None), after req c later)"
  using assms by (simp add: rpc_bare_def encode_all_enough decode_def after_def)

lemma rpc_error_reply:
  assumes "length req \<le> room c" and "incoming c = GString s # later"
  shows "rpc_error req c = (((), if s = [] then None else Some (Remote s)), after req c later)"
  using assms by (simp add: rpc_error_def encode_all_enough rpcDecodeError_def decode_def after_def)

lemma rpc_value_reply:
  assumes "length req \<le> room c" and "incoming c = v # GString s # later" and "kind v = Some x"
  shows "rpc_value req kind zero c = ((x, if s = [] then None else Some (Remote s)), after req c later)"
  using assms
  by (simp add: rpc_value_def rpc_bare_reply rpcDecodeError_def decode_def) (simp add: after_def)

lemma update_reply:
  "1 \<le> room c \<Longrightarrow> incoming c = later \<Longrightarrow> IPCClientUpdate c = (((), None), after [GInt UpdateMethodType] c later)"
  by (simp add: IPCClientUpdate_def after_def)

text \<open>The words of an error are never empty.\<close>

definition worded :: "server \<Rightarrow> bool" where
  "worded sv \<longleftrightarrow> (\<forall>e. sv_text sv e \<noteq> []) \<and> sv_save_text sv \<noteq> []"

definition understood :: "call \<Rightarrow> gob list \<Rightarrow> answer \<times> client_error option \<Rightarrow> bool" where
  "understood c out r \<longleftrightarrow>
     (\<forall>k later. length (request c) \<le> room k \<and> incoming k = out @ later \<longrightarrow>
        client c k = (r, after (request c) k later))"

definition matched :: "call \<Rightarrow> gob list \<Rightarrow> served option \<Rightarrow> ((answer \<times> client_error option) \<times> server_state) option \<Rightarrow> bool" where
  "matched c rest s p \<longleftrightarrow>
     (case p of
        None \<Rightarrow> s = None
      | Some (r, st') \<Rightarrow> \<exists>out. s = Some (Replied out rest st') \<and> understood c out r)"

lemma error_text:
  "worded sv \<Longrightarrow> (if errToString sv err = [] then None else Some (Remote (errToString sv err))) = failure sv err"
  by (cases err) (auto simp: errToString_def failure_def worded_def)

lemma matched_reply:
  assumes "understood c (vs @ [GString (errToString sv err)]) (a, failure sv err)"
  shows "matched c rest (reply sv vs err rest st) (answered sv a err st)"
proof (cases "case err of None \<Rightarrow> False | Some e \<Rightarrow> is_panic e")
  case True
  then show ?thesis by (simp add: matched_def reply_def answered_def)
next
  case False
  then show ?thesis
    unfolding reply_def answered_def matched_def if_not_P [OF False] option.case prod.case
    by (intro exI [of _ "vs @ [GString (errToString sv err)]"] conjI refl assms)
qed

lemma understood_error:
  assumes "worded sv" and "\<And>k. client c k = wrap (\<lambda>_. NoValue) (rpc_error (request c) k)"
  shows "understood c [GString (errToString sv err)] (NoValue, failure sv err)"
    "understood c [GString (saveErrToString sv ok)] (NoValue, if ok then None else Some (Remote (sv_save_text sv)))"
  using assms(1) error_text [OF assms(1), of err]
  by (auto simp: understood_def assms(2) rpc_error_reply wrap_def saveErrToString_def worded_def)

lemma understood_value:
  assumes "worded sv" and "\<And>k. client c k = wrap f (rpc_value (request c) kind zero k)" and "kind v = Some x"
  shows "understood c [v, GString (errToString sv err)] (f x, failure sv err)"
  using error_text [OF assms(1), of err] assms(3)
  by (auto simp: understood_def assms(2) rpc_value_reply wrap_def)

lemma understood_bare:
  assumes "\<And>k. client c k = wrap f (rpc_bare (request c) kind zero k)" and "kind v = Some x"
  shows "understood c [v] (f x, None)"
  using assms(2) by (auto simp: understood_def assms(1) rpc_bare_reply wrap_def)

lemma matched_outcome:
  assumes "worded sv" and "\<And>k. client c k = wrap (\<lambda>_. NoValue) (rpc_error (request c) k)"
  shows "matched c rest (reply_outcome sv r rest st) (answered_outcome sv r st)"
proof (cases r)
  case None
  then show ?thesis by (simp add: matched_def reply_outcome_def answered_outcome_def)
next
  case (Some p)
  then obtain err w where r: "r = Some (err, w)" by (cases p) auto
  have "understood c ([] @ [GString (errToString sv err)]) (NoValue, failure sv err)"
    using understood_error(1) [OF assms] by simp
  from matched_reply [OF this] show ?thesis by (simp add: r reply_outcome_def answered_outcome_def)
qed

lemma matched_value:
  assumes "worded sv" and "\<And>k. client c k = wrap f (rpc_value (request c) kind zero k)" and "kind v = Some x"
  shows "matched c rest (reply sv [v] err rest st) (answered sv (f x) err st)"
  by (rule matched_reply) (simp add: understood_value [OF assms])

lemma matched_config:
  assumes "worded sv" and "\<And>k. client c k = wrap ConfigIs (rpc_value (request c) as_config zero k)"
  shows "matched c rest (reply_config sv r rest st) (answered_config sv r st)"
  using matched_value [OF assms(1), where c = c and f = ConfigIs and kind = as_config and zero = zero] assms(2)
  by (cases r) (auto simp: reply_config_def answered_config_def)

lemma matched_bare:
  assumes "\<And>k. client c k = wrap f (rpc_bare (request c) kind zero k)" and "kind v = Some x"
  shows "matched c rest (Some (Replied [v] rest st)) (answered sv (f x) None st)"
  using understood_bare [OF assms] by (simp add: matched_def answered_def failure_def)

lemma matched_saved:
  assumes "worded sv" and "\<And>k. client c k = wrap (\<lambda>_. NoValue) (rpc_error (request c) k)"
  shows "matched c rest (case r of (ok, w) \<Rightarrow> Some (Replied [GString (saveErrToString sv ok)] rest (st\<lparr>sv_world := w\<rparr>)))
    (saved sv r st)"
  using understood_error(2) [OF assms] by (auto simp: matched_def saved_def split: prod.split)

lemma serve_matches:
  assumes "worded sv"
  shows "matched c rest (serve_method sv (case request c of GInt m # _ \<Rightarrow> m) (tl (request c) @ rest) st) (perform sv c st)"
proof (cases c)
  case (CallState n)
  show ?thesis
    using matched_value [OF assms, where c = c and f = StateIs and kind = as_int and zero = 0]
    by (simp add: CallState serve_method_def method_types Tunnel_State_def split: sum.split)
next
  case (CallCreate f)
  show ?thesis
    using matched_value [OF assms, where c = c and f = CreatedIs and kind = as_tunnel and zero = "[]"]
    by (simp add: CallCreate serve_method_def method_types IPCClientNewTunnel_def split: prod.split option.split)
next
  case CallTunnels
  show ?thesis
    using matched_value [OF assms, where c = c and f = NamesAre and kind = as_tunnels and zero = "[]"]
    by (simp add: CallTunnels serve_method_def method_types IPCClientTunnels_def split: sum.split)
next
  case (CallQuit b)
  show ?thesis
    using matched_value [OF assms, where c = c and f = AlreadyIs and kind = as_bool and zero = False]
    by (simp add: CallQuit serve_method_def method_types IPCClientQuit_def split: prod.split)
next
  case CallUpdate
  show ?thesis
    by (auto simp: CallUpdate serve_method_def method_types matched_def answered_def failure_def understood_def
        wrap_def update_reply)
next
  case CallLift
  show ?thesis
    using matched_outcome [OF assms, of c rest "Some (None, chainServeLiftLock (sv_world st))" st]
    by (simp add: CallLift serve_method_def method_types IPCClientChainLiftLock_def reply_outcome_def answered_outcome_def)
next
  case (CallSettings n)
  show ?thesis
    using matched_value [OF assms, where c = c and f = SettingsAre and kind = as_settings
        and zero = "\<lparr> KillSwitch = False, BlockIPv6 = False, AllowLAN = False \<rparr>"]
    by (simp add: CallSettings serve_method_def method_types IPCClientChainSettings_def chainServeSettingsGet_def
        split: prod.split)
next
  case CallGlobal
  show ?thesis
    using matched_value [OF assms, where c = c and f = GlobalIs and kind = as_global
        and zero = "\<lparr> RaiseOnStart = False, RaiseTunnel = [], LiftLockOnQuit = False \<rparr>"]
    by (simp add: CallGlobal serve_method_def method_types IPCClientChainGlobal_def chainServeGlobalGet_def split: prod.split)
qed (use matched_outcome [OF assms, of c] matched_config [OF assms, of c zero_config] matched_saved [OF assms, of c]
      matched_bare [of c StateIs as_int 0] matched_bare [of c UpdateIs as_uint 0]
      matched_bare [of c StatusIs as_status zero_status] in
    \<open>simp add: serve_method_def method_types client_defs serve_settings_set_def chainServeGlobalSet_def
       chainServeStatus_def case_prod_beta\<close>)+

section \<open>A conversation\<close>

fun perform_all ::
  "server \<Rightarrow> call list \<Rightarrow> server_state \<Rightarrow> ((answer \<times> client_error option) list \<times> server_state) option"
where
  "perform_all sv [] st = Some ([], st)"
| "perform_all sv (c # cs) st =
     (case perform sv c st of
        None \<Rightarrow> None
      | Some (r, st1) \<Rightarrow> map_option (\<lambda>(rs, st2). (r # rs, st2)) (perform_all sv cs st1))"

fun client_all :: "call list \<Rightarrow> conn \<Rightarrow> (answer \<times> client_error option) list \<times> conn" where
  "client_all [] k = ([], k)"
| "client_all (c # cs) k =
     (let (r, k1) = client c k; (rs, k2) = client_all cs k1 in (r # rs, k2))"

definition requests :: "call list \<Rightarrow> gob list" where
  "requests cs = concat (map request cs)"

lemma requests_simps [simp]: "requests [] = []" "requests (c # cs) = request c @ requests cs"
  by (simp_all add: requests_def)

lemma after_after: "after req2 (after req1 k l1) l2 = after (req1 @ req2) k l2"
  by (simp add: after_def)

lemma after_parts [simp]: "room (after req k l) = room k - length req" "incoming (after req k l) = l"
  by (simp_all add: after_def)

lemma after_nothing: "incoming k = later \<Longrightarrow> after [] k later = k"
  by (simp add: after_def)

lemma serve_step:
  "ServeConn sv (request c @ rest) st =
     (case serve_method sv (case request c of GInt m # _ \<Rightarrow> m) (tl (request c) @ rest) st of
        None \<Rightarrow> None
      | Some (HungUp st') \<Rightarrow> Some ([], st')
      | Some (Replied out rest' st') \<Rightarrow>
          map_option (\<lambda>(out', st''). (out @ out', st'')) (ServeConn sv rest' st'))"
  by (cases c) simp_all

lemma serve_session:
  assumes "worded sv"
  shows "case perform_all sv cs st of
      None \<Rightarrow> ServeConn sv (requests cs) st = None
    | Some (rs, st') \<Rightarrow>
        \<exists>replies. ServeConn sv (requests cs) st = Some (replies, st')
          \<and> (\<forall>k later. length (requests cs) \<le> room k \<and> incoming k = replies @ later \<longrightarrow>
               client_all cs k = (rs, after (requests cs) k later))"
proof (induction cs arbitrary: st)
  case Nil
  then show ?case by (simp add: after_nothing)
next
  case (Cons c cs)
  note step = serve_step [of sv c "requests cs" st]
  note m = serve_matches [OF assms, of c "requests cs" st]
  show ?case
  proof (cases "perform sv c st")
    case None
    with m show ?thesis by (simp add: step matched_def)
  next
    case (Some p)
    then obtain r st1 where p: "perform sv c st = Some (r, st1)" by (cases p) auto
    with m obtain out where out: "ServeConn sv (request c @ requests cs) st
        = map_option (\<lambda>(out', st''). (out @ out', st'')) (ServeConn sv (requests cs) st1)"
      and u: "understood c out r" by (auto simp: step matched_def)
    show ?thesis
    proof (cases "perform_all sv cs st1")
      case None
      with Cons.IH [of st1] p out show ?thesis by simp
    next
      case (Some q)
      then obtain rs st' where q: "perform_all sv cs st1 = Some (rs, st')" by (cases q) auto
      with Cons.IH [of st1] obtain replies where
        conn: "ServeConn sv (requests cs) st1 = Some (replies, st')"
        and all: "\<And>k later. length (requests cs) \<le> room k \<Longrightarrow> incoming k = replies @ later \<Longrightarrow>
               client_all cs k = (rs, after (requests cs) k later)" by auto
      have "client_all (c # cs) k = (r # rs, after (requests (c # cs)) k later)"
        if k: "length (requests (c # cs)) \<le> room k" "incoming k = (out @ replies) @ later" for k later
      proof -
        from u k have c1: "client c k = (r, after (request c) k (replies @ later))"
          by (simp add: understood_def)
        have "client_all cs (after (request c) k (replies @ later))
            = (rs, after (requests cs) (after (request c) k (replies @ later)) later)"
          by (rule all) (use k in simp_all)
        with c1 show ?thesis by (simp add: after_after)
      qed
      then show ?thesis
        by (simp add: p q out conn del: client_all.simps)
    qed
  qed
qed

end
