(* ===== verification/ManagerEvents.thy ===== *)
theory ManagerEvents
  imports ManagerSession
begin

text \<open>
  The notifications: the five kinds the manager writes to every window
  (\<open>notifyAll\<close> and its callers in \<open>upstream-manager/ipc_server.go\<close>), and the goroutine of the window
  that reads them (\<open>InitializeIPCClient\<close> in \<open>ipc_client.go\<close>). A notification is written whole or not
  at all; a window whose pipe is full loses it.
\<close>

definition TunnelChangeNotificationType :: int where "TunnelChangeNotificationType = 0"
definition TunnelsChangeNotificationType :: int where "TunnelsChangeNotificationType = 1"
definition ManagerStoppingNotificationType :: int where "ManagerStoppingNotificationType = 2"
definition UpdateFoundNotificationType :: int where "UpdateFoundNotificationType = 3"
definition UpdateProgressNotificationType :: int where "UpdateProgressNotificationType = 4"

lemmas notification_types =
  TunnelChangeNotificationType_def TunnelsChangeNotificationType_def ManagerStoppingNotificationType_def
  UpdateFoundNotificationType_def UpdateProgressNotificationType_def

section \<open>The manager's side\<close>

text \<open>The values of a notification, and whether a window without the elevated token gets it too.\<close>

type_synonym notification = "bool \<times> gob list"

definition IPCServerNotifyTunnelChange ::
  "(string \<times> tunnel_state) list \<Rightarrow> string \<Rightarrow> tunnel_state \<Rightarrow> string \<Rightarrow> notification"
where
  "IPCServerNotifyTunnelChange tracked name state errText =
     (False, [GInt TunnelChangeNotificationType, GString name, GInt (state_number state),
              GInt (state_number (trackedTunnelsGlobalState tracked)), GString errText])"

definition IPCServerNotifyTunnelsChange :: notification where
  "IPCServerNotifyTunnelsChange = (False, [GInt TunnelsChangeNotificationType])"

definition IPCServerNotifyUpdateFound :: "nat \<Rightarrow> notification" where
  "IPCServerNotifyUpdateFound state = (False, [GInt UpdateFoundNotificationType, GUint state])"

definition IPCServerNotifyUpdateProgress :: "string \<Rightarrow> nat \<Rightarrow> nat \<Rightarrow> string \<Rightarrow> bool \<Rightarrow> notification" where
  "IPCServerNotifyUpdateProgress activity got size_all errText complete =
     (True, [GInt UpdateProgressNotificationType, GString activity, GUint got, GUint size_all,
             GString errText, GBool complete])"

definition IPCServerNotifyManagerStopping :: notification where
  "IPCServerNotifyManagerStopping = (False, [GInt ManagerStoppingNotificationType])"

text \<open>What one window is sent; \<open>events\<close> of a window that has quit is nil.\<close>

definition notify_window :: "bool \<Rightarrow> bool \<Rightarrow> notification \<Rightarrow> gob list" where
  "notify_window elevated hasEvents n =
     (let (adminOnly, values) = n in
      if \<not> elevated \<and> adminOnly then [] else if \<not> hasEvents then [] else values)"

section \<open>The window's side\<close>

datatype event =
    TunnelChanged string int int "string option"
  | TunnelsChanged
  | ManagerStops
  | UpdateFound nat
  | UpdateProgress string nat nat "string option" bool

definition error_of :: "string \<Rightarrow> string option" where
  "error_of errStr = (if errStr = [] then None else Some errStr)"

text \<open>
  Reading the values of a notification one after the other; a value that cannot be read is gone, and the
  loop goes on with the next one as if it were the kind of a notification.
\<close>

fun take_value :: "(gob \<Rightarrow> 'a option) \<Rightarrow> gob list \<Rightarrow> ('a \<Rightarrow> gob list \<Rightarrow> event option \<times> gob list) \<Rightarrow> event option \<times> gob list" where
  "take_value kind [] k = (None, [])"
| "take_value kind (v # vs) k = (case kind v of None \<Rightarrow> (None, vs) | Some x \<Rightarrow> k x vs)"

definition read_event :: "int \<Rightarrow> gob list \<Rightarrow> event option \<times> gob list" where
  "read_event notificationType vs =
     (if notificationType = TunnelChangeNotificationType then
        take_value as_string vs (\<lambda>tunnel vs.
          if tunnel = [] then (None, vs)
          else take_value as_int vs (\<lambda>state vs.
            take_value as_int vs (\<lambda>globalState vs.
              take_value as_string vs (\<lambda>errStr vs.
                (if state = state_number TunnelUnknown then None
                 else Some (TunnelChanged tunnel state globalState (error_of errStr)), vs)))))
      else if notificationType = TunnelsChangeNotificationType then (Some TunnelsChanged, vs)
      else if notificationType = ManagerStoppingNotificationType then (Some ManagerStops, vs)
      else if notificationType = UpdateFoundNotificationType then
        take_value as_uint vs (\<lambda>state vs. (Some (UpdateFound state), vs))
      else if notificationType = UpdateProgressNotificationType then
        take_value as_string vs (\<lambda>activity vs.
          take_value as_uint vs (\<lambda>got vs.
            take_value as_uint vs (\<lambda>size_all vs.
              take_value as_string vs (\<lambda>errStr vs.
                take_value as_bool vs (\<lambda>complete vs.
                  (Some (UpdateProgress activity got size_all (error_of errStr) complete), vs))))))
      else (None, vs))"

lemma take_value_shorter:
  "(\<And>x vs. length (snd (k x vs)) \<le> length vs) \<Longrightarrow> length (snd (take_value kind vs k)) \<le> length vs"
proof (cases vs)
  case (Cons v rest)
  assume k: "\<And>x vs. length (snd (k x vs)) \<le> length vs"
  have "length (snd (k x rest)) \<le> Suc (length rest)" for x using k [of x rest] by simp
  then show ?thesis by (simp add: Cons split: option.split)
qed simp

lemma read_event_shorter: "length (snd (read_event t vs)) \<le> length vs"
  by (simp add: read_event_def take_value_shorter)

lemma read_event_rest: "(e, rest) = read_event t vs \<Longrightarrow> length rest \<le> length vs"
  using read_event_shorter [of t vs] by (metis snd_conv)

function event_loop :: "gob list \<Rightarrow> event list" where
  "event_loop [] = []"
| "event_loop (v # vs) =
     (case as_int v of
        None \<Rightarrow> []
      | Some t \<Rightarrow>
          (case read_event t vs of
             (None, rest) \<Rightarrow> event_loop rest
           | (Some e, rest) \<Rightarrow> e # event_loop rest))"
  by pat_completeness auto

termination
  by (relation "measure length") (auto simp: less_Suc_eq_le dest: read_event_rest)

section \<open>What is written is read\<close>

datatype news =
    NewsTunnel string tunnel_state string
  | NewsTunnels
  | NewsStopping
  | NewsUpdate nat
  | NewsProgress string nat nat string bool

fun notification :: "(string \<times> tunnel_state) list \<Rightarrow> news \<Rightarrow> notification" where
  "notification tracked (NewsTunnel name state err) = IPCServerNotifyTunnelChange tracked name state err"
| "notification tracked NewsTunnels = IPCServerNotifyTunnelsChange"
| "notification tracked NewsStopping = IPCServerNotifyManagerStopping"
| "notification tracked (NewsUpdate s) = IPCServerNotifyUpdateFound s"
| "notification tracked (NewsProgress a d t err c) = IPCServerNotifyUpdateProgress a d t err c"

text \<open>What a window should learn: a tunnel in an unknown state is no news.\<close>

fun learned :: "(string \<times> tunnel_state) list \<Rightarrow> bool \<Rightarrow> news \<Rightarrow> event list" where
  "learned tracked elevated (NewsTunnel name state err) =
     (if state = TunnelUnknown then []
      else [TunnelChanged name (state_number state) (state_number (trackedTunnelsGlobalState tracked)) (error_of err)])"
| "learned tracked elevated NewsTunnels = [TunnelsChanged]"
| "learned tracked elevated NewsStopping = [ManagerStops]"
| "learned tracked elevated (NewsUpdate s) = [UpdateFound s]"
| "learned tracked elevated (NewsProgress a d t err c) =
     (if elevated then [UpdateProgress a d t (error_of err) c] else [])"

fun named :: "news \<Rightarrow> bool" where
  "named (NewsTunnel name state err) = (name \<noteq> [])"
| "named _ = True"

lemma event_step:
  assumes "named n"
  shows "event_loop (notify_window elevated True (notification tracked n) @ rest)
    = learned tracked elevated n @ event_loop rest"
proof (cases n)
  case (NewsTunnel name state err)
  with assms show ?thesis
    by (cases state) (simp_all add: IPCServerNotifyTunnelChange_def notify_window_def read_event_def notification_types)
qed (simp_all add: IPCServerNotifyTunnelsChange_def IPCServerNotifyManagerStopping_def IPCServerNotifyUpdateFound_def
       IPCServerNotifyUpdateProgress_def notify_window_def read_event_def notification_types)

lemma events_delivered:
  "list_all (\<lambda>(tracked, n). named n) ns \<Longrightarrow>
   event_loop (concat (map (\<lambda>(tracked, n). notify_window elevated True (notification tracked n)) ns))
   = concat (map (\<lambda>(tracked, n). learned tracked elevated n) ns)"
  by (induction ns) (auto simp: event_step)

end
