(* ===== verification/TrackerReports.thy ===== *)
theory TrackerReports
  imports TunnelTracker
begin

text \<open>
  What the tracker of \<open>upstream-manager/tunneltracker.go\<close> tells the clients, computed from the
  notifications of the service control manager alone: the states they stand for, up to the one that
  ends the tracker, each change once.
\<close>

section \<open>The notifications, and what is worth telling\<close>

text \<open>The states the notifications stand for, with the fault told beside a stop; nothing counts after the stop.\<close>

fun observed :: "notice list \<Rightarrow> (tunnel_state \<times> tunnel_fault option) list" where
  "observed [] = []"
| "observed (Notice status r # rest) =
     (let state = notifyStateToTunState status in
      if state = TunnelStopped then [(TunnelStopped, stop_fault (rd_exit r))]
      else if state = TunnelUnknown \<and> found_disabled (rd_config r)
      then [(TunnelUnknown, None), (TunnelStopped, None)]
      else (state, None) # observed rest)"
| "observed (Lost e r # rest) =
     [(TunnelStopped, if found_disabled (rd_config r) then None else Some (LostTrack e))]"

definition observed_from :: "reading \<Rightarrow> notice list \<Rightarrow> (tunnel_state \<times> tunnel_fault option) list" where
  "observed_from first notices =
     (if found_disabled (rd_config first) then [(TunnelStopped, None)] else observed notices)"

text \<open>The entries whose state is another one than before.\<close>

fun changes :: "tunnel_state \<Rightarrow> (tunnel_state \<times> 'a) list \<Rightarrow> (tunnel_state \<times> 'a) list" where
  "changes s [] = []"
| "changes s ((s', f) # rest) = (if s' = s then changes s rest else (s', f) # changes s' rest)"

lemma changes_states: "s # map fst (changes s xs) = remdups_adj (s # map fst xs)"
  by (induction s xs rule: changes.induct) auto

section \<open>The tracker tells just these\<close>

lemma checkForDisabled_sent:
  "checkForDisabled name config t = (b, t') \<Longrightarrow>
   b = found_disabled config \<and> tr_sent t' = tr_sent t @ (if b then [(TunnelStopped, None)] else [])
   \<and> (\<not> b \<longrightarrow> t' = t)"
  by (auto simp: checkForDisabled_def split: if_splits)

lemma track_callback_sent:
  assumes "track_callback name status r t = (b, t')" and "tr_last t = s" and "s \<noteq> TunnelStopped"
  shows "b = ((TunnelStopped, stop_fault (rd_exit r)) \<in> set (observed [Notice status r])
      \<or> (TunnelStopped, None) \<in> set (observed [Notice status r]))
    \<and> tr_sent t' = tr_sent t @ changes s (observed [Notice status r])
    \<and> (\<not> b \<longrightarrow> tr_last t' = notifyStateToTunState status)"
proof -
  let ?s = "notifyStateToTunState status"
  let ?f = "if ?s = TunnelStopped then stop_fault (rd_exit r) else None"
  define t1 where "t1 = (if ?f \<noteq> None then t\<lparr>tr_deleted := True\<rparr> else t)"
  define t2 where "t2 = (if ?s \<noteq> tr_last t1 then (note_state name ?s ?f t1)\<lparr>tr_last := ?s\<rparr> else t1)"
  have t1: "tr_last t1 = s" "tr_sent t1 = tr_sent t" using assms(2) by (simp_all add: t1_def)
  have t2: "tr_last t2 = ?s" "tr_sent t2 = tr_sent t @ (if ?s = s then [] else [(?s, ?f)])"
    using t1 by (auto simp: t2_def)
  have c: "track_callback name status r t =
      (if ?s = TunnelUnknown then checkForDisabled name (rd_config r) t2 else (?s = TunnelStopped, t2))"
    unfolding track_callback_def Let_def t1_def [symmetric] t2_def [symmetric]
    by (auto split: prod.splits if_splits)
  show ?thesis
  proof (cases "?s = TunnelUnknown")
    case True
    with c assms(1) have d: "checkForDisabled name (rd_config r) t2 = (b, t')" by simp
    from checkForDisabled_sent [OF d] True t2 assms(3) show ?thesis by (auto simp: Let_def)
  next
    case False
    with c assms(1) have "b = (?s = TunnelStopped)" "t' = t2" by simp_all
    then show ?thesis using False t2 assms(3) by (auto simp: Let_def)
  qed
qed

lemma track_notices_sent:
  assumes "track_notices name notices t = (over, t')" and "tr_last t = s" and "s \<noteq> TunnelStopped"
  shows "tr_sent t' = tr_sent t @ changes s (observed notices)
    \<and> (over \<longleftrightarrow> TunnelStopped \<in> fst ` set (observed notices))"
  using assms
proof (induction name notices t arbitrary: s rule: track_notices.induct)
  case (2 name status r rest t)
  obtain b t1 where c: "track_callback name status r t = (b, t1)" by fastforce
  note sent = track_callback_sent [OF c 2(3,4)]
  let ?st = "notifyStateToTunState status"
  show ?case
  proof (cases b)
    case True
    then have "over" "t' = t1" using 2(2) c by simp_all
    moreover have "observed (Notice status r # rest) = observed [Notice status r]"
      using sent True by (auto simp: Let_def split: if_splits)
    moreover have "TunnelStopped \<in> fst ` set (observed [Notice status r])" using sent True by force
    ultimately show ?thesis using sent by simp
  next
    case False
    then have go: "?st \<noteq> TunnelStopped" "\<not> (?st = TunnelUnknown \<and> found_disabled (rd_config r))"
      "tr_last t1 = ?st" "track_notices name rest t1 = (over, t')"
      using sent 2(2) c by (auto simp: Let_def split: if_splits)
    from 2(1) [OF c [symmetric] _ go(4,3,1)] False sent go(1,2) show ?thesis by (auto simp: Let_def)
  qed
next
  case (3 name e r rest t)
  obtain d t1 where d: "checkForDisabled name (rd_config r) t = (d, t1)" by fastforce
  from checkForDisabled_sent [OF d] 3 d show ?case by (cases d) auto
qed simp

lemma tracker_sent:
  assumes "trackTunnelService name first notices t = (over, t')"
    and "tr_table t name = None" and "tr_sent t = []"
  shows "tr_sent t' = changes TunnelUnknown (observed_from first notices)
    \<and> (over \<longleftrightarrow> TunnelStopped \<in> fst ` set (observed_from first notices))"
proof -
  let ?t0 = "t\<lparr>tr_table := (tr_table t)(name \<mapsto> TunnelUnknown), tr_last := TunnelUnknown\<rparr>"
  obtain d t1 where d: "checkForDisabled name (rd_config first) ?t0 = (d, t1)" by fastforce
  obtain o2 t2 where n: "(if d then (True, t1) else track_notices name notices t1) = (o2, t2)" by fastforce
  have "tr_sent t2 = changes TunnelUnknown (observed_from first notices)
      \<and> (o2 \<longleftrightarrow> TunnelStopped \<in> fst ` set (observed_from first notices))"
    using checkForDisabled_sent [OF d] n track_notices_sent [of name notices t1 o2 t2 TunnelUnknown] assms(3)
    by (auto simp: observed_from_def split: if_splits)
  moreover have "(over, t') = (o2, if o2 then t2\<lparr>tr_table := (tr_table t2)(name := None)\<rparr> else t2)"
    using assms(1,2) d n by (auto simp: trackTunnelService_def Let_def)
  ultimately show ?thesis by (auto split: if_splits)
qed

end
