(* ===== verification/IpcClaims.thy ===== *)
theory IpcClaims
  imports ManagerEvents Samples TrackerReports
begin

text \<open>
  The properties of the pipe between a window and the manager (\<open>upstream-manager/ipc_client.go\<close>,
  \<open>ipc_server.go\<close>) and of the tracker of the tunnel services (\<open>tunneltracker.go\<close>).
\<close>

text \<open>
  C13: Whatever a window asks over the pipe, in whatever order, is what the manager does when it is
  called directly: every answer and every error arrives at the call it belongs to, the manager
  ends in the same state, and nothing is left over on the pipe. Where a call panics or never
  returns, the conversation ends without an answer.
\<close>

theorem conversation_is_direct:
  assumes "worded sv"
  shows "(perform_all sv calls st = None \<longrightarrow> ServeConn sv (requests calls) st = None)
    \<and> (\<forall>rs st'. perform_all sv calls st = Some (rs, st') \<longrightarrow>
        (\<exists>replies. ServeConn sv (requests calls) st = Some (replies, st')
          \<and> (\<forall>k later. length (requests calls) \<le> room k \<and> incoming k = replies @ later \<longrightarrow>
               client_all calls k =
                 (rs, k\<lparr>sent := sent k @ requests calls, room := room k - length (requests calls),
                        incoming := later\<rparr>))))"
  using serve_session [OF assms, of calls st] by (auto simp: after_def)

definition sample_server :: server where
  "sample_server = \<lparr> sv_os = sample_os, sv_text = (\<lambda>_. ''failed''), sv_save_text = ''not saved'',
     sv_depth = 3, sv_update = 0 \<rparr>"

definition sample_calls :: "call list" where
  "sample_calls = [CallLift, CallGlobalState, CallState ''pair'']"

theorem conversation_is_direct_witness:
  "\<exists>replies st'. ServeConn sample_server (requests sample_calls) \<lparr> sv_world = sample_world, sv_quit = False \<rparr>
      = Some (replies, st')
    \<and> fst (client_all sample_calls \<lparr> sent = [], room = 10, incoming = replies \<rparr>)
      = [(NoValue, None), (StateIs 2, None), (StateIs 2, None)]"
proof -
  let ?st = "\<lparr> sv_world = sample_world, sv_quit = False \<rparr>"
  have "State sample_os n w = Inr TunnelStopped" if "w_history w = []" for n w
    using that by (simp add: State_def sample_os_def svc_up_def)
  moreover have "chainServeLiftLock sample_world = sample_world"
    by (simp add: chainServeLiftLock_def chainDisarmLockInProc_def chainDropIPv6Block_def sample_world_def IPv6BlockIsOn_def)
  moreover have "os_tracked sample_os h = []" for h by (simp add: sample_os_def)
  moreover have "w_history sample_world = []" by (simp add: sample_world_def)
  ultimately have p: "perform_all sample_server sample_calls ?st
      = Some ([(NoValue, None), (StateIs 2, None), (StateIs 2, None)], ?st)"
    by (simp add: sample_calls_def sample_server_def answered_def failure_def trackedTunnelsGlobalState_def)
  have "worded sample_server" by (simp add: worded_def sample_server_def)
  from conversation_is_direct [OF this, of sample_calls ?st] p obtain replies where
    "ServeConn sample_server (requests sample_calls) ?st = Some (replies, ?st)"
    and k: "\<And>k later. length (requests sample_calls) \<le> room k \<Longrightarrow> incoming k = replies @ later \<Longrightarrow>
      fst (client_all sample_calls k) = [(NoValue, None), (StateIs 2, None), (StateIs 2, None)]"
    by fastforce
  moreover have "length (requests sample_calls) \<le> 10" by (simp add: sample_calls_def)
  ultimately show ?thesis using k [of "\<lparr> sent = [], room = 10, incoming = replies \<rparr>" "[]"] by auto
qed

text \<open>
  C37: A tracker tells the clients just what the notifications of the service manager stand for: the
  states they mean, in order and up to the first stop, each change once and with the fault of the
  stop (the exit code, or the error that ended the subscription). The table holds what was told
  last (unknown before that). The tracker ends exactly when it has told that the tunnel stopped,
  and then only its own entry is gone.
\<close>

theorem tracker_reports:
  assumes "trackTunnelService name first notices t = (over, t')"
    and "tr_table t name = None" and "tr_sent t = []"
  shows "tr_sent t' = changes TunnelUnknown (observed_from first notices)
    \<and> TunnelUnknown # map fst (tr_sent t') = remdups_adj (TunnelUnknown # map fst (observed_from first notices))
    \<and> (over \<longleftrightarrow> TunnelStopped \<in> fst ` set (observed_from first notices))
    \<and> (over \<longleftrightarrow> last_state (tr_sent t') = TunnelStopped)
    \<and> tr_table t' = (tr_table t)(name := if over then None else Some (last_state (tr_sent t')))"
  using tracker_sent [OF assms] tracker_truthful [OF assms]
    changes_states [of TunnelUnknown "observed_from first notices"] by (intro conjI) metis+

definition running_reading :: reading where
  "running_reading = \<lparr> rd_exit = Inr (0, 0), rd_config = Inr 2 \<rparr>"

definition no_tracker :: tracker where
  "no_tracker = \<lparr> tr_table = Map.empty, tr_sent = [], tr_last = TunnelUnknown, tr_deleted = False, tr_stopped = False \<rparr>"

theorem tracker_reports_witness:
  "\<exists>over t'. trackTunnelService ''pair'' running_reading
      [Notice 2 running_reading, Notice 8 running_reading, Notice 8 running_reading] no_tracker = (over, t')
    \<and> tr_sent t' = [(TunnelStarting, None), (TunnelStarted, None)]"
proof -
  obtain over t' where r: "trackTunnelService ''pair'' running_reading
      [Notice 2 running_reading, Notice 8 running_reading, Notice 8 running_reading] no_tracker = (over, t')"
    by fastforce
  have "notifyStateToTunState 2 = TunnelStarting" "notifyStateToTunState 8 = TunnelStarted" by code_simp+
  then have "observed_from running_reading
      [Notice 2 running_reading, Notice 8 running_reading, Notice 8 running_reading]
      = [(TunnelStarting, None), (TunnelStarted, None), (TunnelStarted, None)]"
    by (simp add: observed_from_def found_disabled_def running_reading_def)
  with tracker_reports [OF r] have "tr_sent t' = [(TunnelStarting, None), (TunnelStarted, None)]"
    by (simp add: no_tracker_def)
  with r show ?thesis by blast
qed

text \<open>
  A window learns from its event pipe exactly what was written for it, in order and with nothing
  lost between two notifications: the progress of an update only with the elevated token, and no tunnel
  whose state is unknown.
\<close>

theorem news_arrives:
  assumes "list_all (\<lambda>(tracked, n). named n) ns"
  shows "event_loop (concat (map (\<lambda>(tracked, n). notify_window elevated True (notification tracked n)) ns))
    = concat (map (\<lambda>(tracked, n). learned tracked elevated n) ns)"
  using assms by (rule events_delivered)

theorem news_arrives_witness:
  "event_loop (notify_window False True (notification [] (NewsProgress ''downloading'' 1 9 [] False))
      @ notify_window False True (notification [(''pair'', TunnelStarted)] (NewsTunnel ''pair'' TunnelStarted [])))
    = [TunnelChanged ''pair'' 1 1 None]"
  using news_arrives [of "[([], NewsProgress ''downloading'' 1 9 [] False),
      ([(''pair'', TunnelStarted)], NewsTunnel ''pair'' TunnelStarted [])]" False]
  by (simp add: error_of_def trackedTunnelsGlobalState_def)

end
