(* ===== verification/TunnelNet.thy ===== *)
theory TunnelNet
  imports ChainLock
begin

text \<open>
  The machine a tunnel service works on, and its side of a pinned hop: \<open>pinendpoint.go\<close>,
  \<open>pinroute.go\<close>, \<open>chainpinwait.go\<close> and \<open>chainupwait.go\<close> of \<open>upstream-tunnel/\<close>, that is, the adapter a
  hop is pinned to, the host routes to its endpoints, and the waits for the hop underneath.

  The calls into \<open>winipcfg\<close>, the firewall and the drivers are not under \<open>src/\<close>: every call that changes
  the system is an action added to the history, and every answer (the adapters, the routing
  table, the error of an action) is a parameter, a function of the history so far. Every wait is
  a sleep of \<open>chainPinRetryGap\<close>.
\<close>

section \<open>The machine\<close>

datatype family = INET | INET6

record adapter =
  ad_friendly :: string
  ad_description :: string
  ad_luid :: "64 word"
  ad_up :: bool
  ad_index4 :: "32 word"
  ad_index6 :: "32 word"
  ad_addresses :: "(ip \<times> 8 word) list"

record fwd_row =
  fr_luid :: "64 word"
  fr_prefix :: ipnet
  fr_length :: "8 word"
  fr_hop :: ip
  fr_metric :: "32 word"
  fr_index :: "32 word"

record if_row =
  if_up :: bool
  if_mtu :: "32 word"

record ip_interface =
  ii_mtu :: "32 word"
  ii_metric :: "32 word"
  ii_auto_metric :: bool
  ii_dad :: "32 word"
  ii_discovery :: bool

record route_data =
  rd_dest :: ipnet
  rd_hop :: ip
  rd_metric :: "32 word"

datatype net_error = PinNotReady string | ObjectAlreadyExists | CommandFailed | NetLoad store_error | NetPanic conf_error | NetError nat

text \<open>
  A registered callback is a pointer in the code; here the number is the length of the history at
  its registration, so that no two callbacks are the same.
\<close>

datatype change_callback =
    InterfaceAddedCallback nat
  | RouteCallback family nat
  | InterfaceCallback family nat

datatype svc_report = StartPending | Running | RunningAcceptsStop | StopPending | Echo

datatype net_action =
    NetSleep
  | SleepSecond
  | AskStart string
  | AddRoute "64 word" ipnet ip
  | DeleteRoute "64 word" ipnet ip
  | BindSocket family "32 word" bool
  | SetInterface "64 word" family ip_interface
  | ForceMTU int
  | SetAddresses "64 word" family "ipnet list"
  | DeleteAddress "64 word" ipnet
  | SetRoutes "64 word" family "route_data list"
  | SetDNS "64 word" family "ip list" "string list"
  | FlushAll "64 word"
  | Register change_callback
  | Unregister change_callback
  | EnableFirewall "64 word" bool "ip list"
  | DisableFirewall
  | OpenLog
  | CopyOwner string
  | CreateTUN string bytes
  | RunScript string string
  | DropPrivileges
  | ListenUAPI string
  | SetDevice string
  | DeviceUp
  | CloseUAPI
  | CloseDevice
  | Report svc_report
  | Crashed

text \<open>\<open>Crashed\<close> marks a panic outside of the recovering code: what follows it happens in no run.\<close>

type_synonym net_history = "net_action list"

datatype net_task = PinRoutesLater config | RetrySetup family string

record net_world =
  n_history :: net_history
  n_tasks :: "net_task list"

record net_os =
  n_unicode :: unicode
  n_adapters :: "net_history \<Rightarrow> family option \<Rightarrow> net_error + adapter list"
  n_lookup :: "net_history \<Rightarrow> string \<Rightarrow> ip list option"
  n_table :: "net_history \<Rightarrow> family \<Rightarrow> net_error + fwd_row list"
  n_service :: "net_history \<Rightarrow> string \<Rightarrow> (win_error + svc_state) option"
  n_interface :: "net_history \<Rightarrow> 64 word \<Rightarrow> net_error + if_row"
  n_ipif :: "net_history \<Rightarrow> 64 word \<Rightarrow> family \<Rightarrow> net_error + ip_interface"
  n_fault :: "net_history \<Rightarrow> net_action \<Rightarrow> net_error option"

text \<open>\<open>net_do\<close> is a call and its error, \<open>net_act\<close> a call whose error the code does not look at.\<close>

definition net_act :: "net_action \<Rightarrow> net_world \<Rightarrow> net_world" where
  "net_act a w = w\<lparr>n_history := n_history w @ [a]\<rparr>"

definition net_do :: "net_os \<Rightarrow> net_action \<Rightarrow> net_world \<Rightarrow> net_error option \<times> net_world" where
  "net_do os a w = (n_fault os (n_history w) a, net_act a w)"

definition net_start :: "net_task \<Rightarrow> net_world \<Rightarrow> net_world" where
  "net_start t w = w\<lparr>n_tasks := n_tasks w @ [t]\<rparr>"

lemma net_act_simps [simp]:
  "n_history (net_act a w) = n_history w @ [a]" "n_tasks (net_act a w) = n_tasks w"
  by (simp_all add: net_act_def)

lemma net_start_simps [simp]:
  "n_history (net_start t w) = n_history w" "n_tasks (net_start t w) = n_tasks w @ [t]"
  by (simp_all add: net_start_def)

lemma net_do_simps [simp]:
  "snd (net_do os a w) = net_act a w" "fst (net_do os a w) = n_fault os (n_history w) a"
  by (simp_all add: net_do_def)

section \<open>The pinned adapter\<close>

definition findInterfaceByName :: "net_os \<Rightarrow> string \<Rightarrow> net_world \<Rightarrow> net_error + adapter" where
  "findInterfaceByName os name w =
     (case n_adapters os (n_history w) None of
        Inl e \<Rightarrow> Inl e
      | Inr ifaces \<Rightarrow>
          (case find (\<lambda>a. equal_fold (n_unicode os) (ad_friendly a) name
                          \<or> equal_fold (n_unicode os) (ad_description a) name) ifaces of
             None \<Rightarrow> Inl (PinNotReady name)
           | Some a \<Rightarrow> Inr a))"

text \<open>What a socket was last bound to; nothing is \<open>2 ^ 32 - 1\<close>, as in the code.\<close>

record binding =
  lastLUID :: "64 word"
  lastIndex :: "32 word"

definition no_binding :: binding where "no_binding = \<lparr> lastLUID = 0, lastIndex = - 1 \<rparr>"

definition adapter_index :: "family \<Rightarrow> adapter \<Rightarrow> 32 word" where
  "adapter_index fam a = (case fam of INET \<Rightarrow> ad_index4 a | INET6 \<Rightarrow> ad_index6 a)"

definition bindSocketPinned ::
  "net_os \<Rightarrow> family \<Rightarrow> string \<Rightarrow> binding \<Rightarrow> net_world \<Rightarrow> net_error option \<times> binding \<times> net_world"
where
  "bindSocketPinned os fam pinVia b w =
     (case findInterfaceByName os pinVia w of
        Inl e \<Rightarrow> (Some e, b, w)
      | Inr iface \<Rightarrow>
          (let luid = ad_luid iface; index = adapter_index fam iface in
           if \<not> ad_up iface then (Some (PinNotReady pinVia), b, w)
           else if index = 0 then (Some (PinNotReady pinVia), b, w)
           else if luid = lastLUID b \<and> index = lastIndex b then (None, b, w)
           else (let (err, w1) = net_do os (BindSocket fam index False) w
                 in (err, \<lparr> lastLUID = luid, lastIndex = index \<rparr>, w1))))"

definition chainPinnedInterfaceReady :: "net_os \<Rightarrow> string \<Rightarrow> net_world \<Rightarrow> bool" where
  "chainPinnedInterfaceReady os name0 w =
     (let name = trim_space name0 in
      if name = [] then False
      else (case findInterfaceByName os name w of Inl _ \<Rightarrow> False | Inr iface \<Rightarrow> ad_up iface))"

section \<open>Waiting for the hop underneath\<close>

definition chainPinRetryTries :: nat where "chainPinRetryTries = 45"
definition chainPinStartEvery :: nat where "chainPinStartEvery = 5"
definition chainUpWaitTries :: nat where "chainUpWaitTries = 10"
definition chainServicePrefix :: string where "chainServicePrefix = ''AwgChainTunnel$''"

text \<open>\<open>n_service\<close> is \<open>None\<close> when the manager or the service cannot be opened.\<close>

definition chainStartHopBelow :: "net_os \<Rightarrow> string \<Rightarrow> net_world \<Rightarrow> net_world" where
  "chainStartHopBelow os name0 w =
     (let name = trim_space name0; serviceName = chainServicePrefix @ name in
      if name = [] then w
      else (case n_service os (n_history w) serviceName of
              None \<Rightarrow> w
            | Some status \<Rightarrow>
                if status = Inr SvcRunning \<or> status = Inr SvcStartPending then w
                else net_act (AskStart serviceName) w))"

text \<open>The loop all three waits share, by the tries made and the tries left.\<close>

fun wait_for_pin :: "net_os \<Rightarrow> string \<Rightarrow> nat \<Rightarrow> nat \<Rightarrow> net_world \<Rightarrow> bool \<times> net_world" where
  "wait_for_pin os via try 0 w = (False, w)"
| "wait_for_pin os via try (Suc k) w =
     (let w1 = (if try mod chainPinStartEvery = 0 then chainStartHopBelow os via w else w);
          w2 = net_act NetSleep w1
      in if chainPinnedInterfaceReady os via w2 then (True, w2)
         else wait_for_pin os via (Suc try) k w2)"

definition pin_via :: "config \<Rightarrow> string" where
  "pin_via c = trim_space (PinEndpointVia (Interface c))"

definition chainPinRoutesLater :: "config \<Rightarrow> net_world \<Rightarrow> net_world" where
  "chainPinRoutesLater c w =
     (if pin_via c = [] then w else net_start (PinRoutesLater c) w)"

section \<open>Host routes to the endpoints\<close>

definition chainPinEndpointIPs :: "net_os \<Rightarrow> config \<Rightarrow> net_world \<Rightarrow> ip list" where
  "chainPinEndpointIPs os c w =
     concat (map (\<lambda>p. let endpoint = Endpoint p; host = trim_brackets (trim_space (Host endpoint)) in
         if endpoint_is_empty endpoint then []
         else (case parse_ip host of
                 Some a \<Rightarrow> [a]
               | None \<Rightarrow> (case n_lookup os (n_history w) host of None \<Rightarrow> [] | Some resolved \<Rightarrow> resolved)))
       (Peers c))"

definition family_of :: "ip \<Rightarrow> family" where
  "family_of a = (if to4 a \<noteq> None then INET else INET6)"

definition is_gateway_row :: "64 word \<Rightarrow> fwd_row \<Rightarrow> bool" where
  "is_gateway_row luid row \<longleftrightarrow>
     fr_luid row = luid \<and> fst (mask_size (net_mask (fr_prefix row))) = 0
     \<and> net_ip (fr_prefix row) \<noteq> [] \<and> is_unspecified (net_ip (fr_prefix row))
     \<and> fr_hop row \<noteq> [] \<and> \<not> is_unspecified (fr_hop row)"

fun best_row :: "(fwd_row \<Rightarrow> bool) \<Rightarrow> fwd_row option \<Rightarrow> fwd_row list \<Rightarrow> fwd_row option" where
  "best_row P best [] = best"
| "best_row P best (row # rows) =
     (if \<not> P row then best_row P best rows
      else (case best of
              None \<Rightarrow> best_row P (Some row) rows
            | Some b \<Rightarrow> best_row P (if fr_metric row < fr_metric b then Some row else best) rows))"

definition chainPinNextHop :: "net_os \<Rightarrow> 64 word \<Rightarrow> family \<Rightarrow> net_world \<Rightarrow> ip option" where
  "chainPinNextHop os luid fam w =
     (case n_table os (n_history w) fam of
        Inl e \<Rightarrow> None
      | Inr rows \<Rightarrow> map_option fr_hop (best_row (is_gateway_row luid) None rows))"

definition host_route :: "ip \<Rightarrow> ipnet option" where
  "host_route a =
     (case to4 a of
        Some v \<Rightarrow> Some \<lparr> net_ip = v, net_mask = replicate 4 255 \<rparr>
      | None \<Rightarrow> if length a = 16 then Some \<lparr> net_ip = a, net_mask = replicate 16 255 \<rparr> else None)"

definition next_hop :: "net_os \<Rightarrow> 64 word \<Rightarrow> ip \<Rightarrow> net_world \<Rightarrow> ip" where
  "next_hop os luid a w =
     (case chainPinNextHop os luid (family_of a) w of
        Some h \<Rightarrow> h
      | None \<Rightarrow> (case family_of a of INET \<Rightarrow> replicate 4 0 | INET6 \<Rightarrow> replicate 16 0))"

definition pin_one :: "net_os \<Rightarrow> bool \<Rightarrow> 64 word \<Rightarrow> ip \<Rightarrow> net_world \<Rightarrow> net_world" where
  "pin_one os add luid a w =
     (case host_route a of
        None \<Rightarrow> w
      | Some destination \<Rightarrow>
          (let nextHop = next_hop os luid a w in
           net_act (if add then AddRoute luid destination nextHop
                    else DeleteRoute luid destination nextHop) w))"

definition chainPinRoutes :: "net_os \<Rightarrow> config \<Rightarrow> bool \<Rightarrow> net_world \<Rightarrow> net_world" where
  "chainPinRoutes os c add w =
     (let via = pin_via c in
      if via = [] then w
      else (case findInterfaceByName os via w of
              Inl _ \<Rightarrow> if add then chainPinRoutesLater c w else w
            | Inr iface \<Rightarrow> fold (pin_one os add (ad_luid iface)) (chainPinEndpointIPs os c w) w))"

text \<open>The goroutine of \<open>chainPinRoutesLater\<close>.\<close>

definition pin_routes_task :: "net_os \<Rightarrow> config \<Rightarrow> net_world \<Rightarrow> net_world" where
  "pin_routes_task os c w =
     (case wait_for_pin os (pin_via c) 0 chainPinRetryTries w of
        (True, w1) \<Rightarrow> chainPinRoutes os c True w1
      | (False, w1) \<Rightarrow> w1)"

definition chainWaitForPinBeforeUp :: "net_os \<Rightarrow> config \<Rightarrow> net_world \<Rightarrow> net_world" where
  "chainWaitForPinBeforeUp os c w =
     (let via = pin_via c in
      if via = [] then w
      else if chainPinnedInterfaceReady os via w then w
      else (case wait_for_pin os via 0 chainUpWaitTries w of
              (True, w1) \<Rightarrow> chainPinRoutes os c True w1
            | (False, w1) \<Rightarrow> w1))"

section \<open>Facts\<close>

lemma bindSocketPinned_cases:
  assumes "bindSocketPinned os fam via b w = (e, b', w')"
  obtains (refused) x where "e = Some x" "b' = b" "w' = w"
  | (same) a where "findInterfaceByName os via w = Inr a" "ad_up a" "e = None" "b' = b" "w' = w"
      "b = \<lparr> lastLUID = ad_luid a, lastIndex = adapter_index fam a \<rparr>" "adapter_index fam a \<noteq> 0"
  | (bound) a where "findInterfaceByName os via w = Inr a" "ad_up a" "adapter_index fam a \<noteq> 0"
      "b' = \<lparr> lastLUID = ad_luid a, lastIndex = adapter_index fam a \<rparr>"
      "w' = net_act (BindSocket fam (adapter_index fam a) False) w"
      "e = n_fault os (n_history w) (BindSocket fam (adapter_index fam a) False)"
proof (cases "findInterfaceByName os via w")
  case (Inl x)
  then have "e = Some x" "b' = b" "w' = w" using assms by (simp_all add: bindSocketPinned_def)
  then show ?thesis using refused by blast
next
  case (Inr a)
  note a = this
  show ?thesis
  proof (cases "ad_up a \<and> adapter_index fam a \<noteq> 0")
    case False
    then have "\<exists>x. e = Some x" "b' = b" "w' = w"
      using assms a by (auto simp: bindSocketPinned_def Let_def split: if_splits)
    then show ?thesis using refused by blast
  next
    case True
    show ?thesis
    proof (cases "ad_luid a = lastLUID b \<and> adapter_index fam a = lastIndex b")
      case True2: True
      then have "e = None" "b' = b" "w' = w" using assms a True by (simp_all add: bindSocketPinned_def)
      moreover have "b = \<lparr> lastLUID = ad_luid a, lastIndex = adapter_index fam a \<rparr>"
        by (cases b) (use True2 in auto)
      ultimately show ?thesis using same [OF a] True by blast
    next
      case False
      then have "b' = \<lparr> lastLUID = ad_luid a, lastIndex = adapter_index fam a \<rparr>"
        "w' = net_act (BindSocket fam (adapter_index fam a) False) w"
        "e = n_fault os (n_history w) (BindSocket fam (adapter_index fam a) False)"
        using assms a True by (auto simp: bindSocketPinned_def net_do_def Let_def)
      then show ?thesis using bound [OF a] True by blast
    qed
  qed
qed

lemma chainPinnedInterfaceReady_iff:
  "chainPinnedInterfaceReady os via w \<longleftrightarrow>
     trim_space via \<noteq> [] \<and> (\<exists>a. findInterfaceByName os (trim_space via) w = Inr a \<and> ad_up a)"
  by (cases "findInterfaceByName os (trim_space via) w") (auto simp: chainPinnedInterfaceReady_def Let_def)

text \<open>What a wait does: it sleeps and asks for the hop underneath, and tells how it ended.\<close>

definition waiting :: "net_action \<Rightarrow> bool" where
  "waiting a \<longleftrightarrow> a = NetSleep \<or> (\<exists>n. a = AskStart n)"

lemma waiting_simps [simp]: "waiting NetSleep" "waiting (AskStart n)"
  by (simp_all add: waiting_def)

definition sleeps :: "net_history \<Rightarrow> nat" where
  "sleeps h = length (filter (\<lambda>a. a = NetSleep) h)"

lemma sleeps_simps [simp]:
  "sleeps [] = 0" "sleeps (a # h) = (if a = NetSleep then 1 else 0) + sleeps h" "sleeps (g @ h) = sleeps g + sleeps h"
  by (simp_all add: sleeps_def)

lemma start_hop_below:
  "\<exists>acts. n_history (chainStartHopBelow os via w) = n_history w @ acts \<and> list_all waiting acts
     \<and> sleeps acts = 0 \<and> n_tasks (chainStartHopBelow os via w) = n_tasks w"
  unfolding chainStartHopBelow_def Let_def
  by (auto split: option.splits intro: exI [of _ "[]"] exI [of _ "[AskStart (chainServicePrefix @ trim_space via)]"])

lemma wait_for_pin_acts:
  assumes "wait_for_pin os via try k w = (r, w')"
  shows "\<exists>acts. n_history w' = n_history w @ acts \<and> list_all waiting acts \<and> sleeps acts \<le> k
           \<and> (\<not> r \<longrightarrow> sleeps acts = k) \<and> n_tasks w' = n_tasks w
           \<and> (r \<longrightarrow> chainPinnedInterfaceReady os via w')"
  using assms
proof (induction os via "try" k w rule: wait_for_pin.induct)
  case (1 os via "try" w)
  then show ?case by simp
next
  case (2 os via "try" k w)
  define w1 where "w1 = (if try mod chainPinStartEvery = 0 then chainStartHopBelow os via w else w)"
  define w2 where "w2 = net_act NetSleep w1"
  obtain pre where pre: "n_history w1 = n_history w @ pre" "list_all waiting pre" "sleeps pre = 0"
      "n_tasks w1 = n_tasks w"
    using start_hop_below [of os via w] by (cases "try mod chainPinStartEvery = 0") (auto simp: w1_def)
  show ?case
  proof (cases "chainPinnedInterfaceReady os via w2")
    case True
    then have "r" "w' = w2" using "2.prems" by (simp_all add: w1_def w2_def Let_def)
    then show ?thesis using True pre by (intro exI [of _ "pre @ [NetSleep]"]) (simp add: w2_def)
  next
    case False
    then have "wait_for_pin os via (Suc try) k w2 = (r, w')"
      using "2.prems" by (simp add: w1_def w2_def Let_def)
    from "2.IH" [OF w1_def w2_def False this] obtain acts
      where acts: "n_history w' = n_history w2 @ acts" "list_all waiting acts" "sleeps acts \<le> k"
        "\<not> r \<longrightarrow> sleeps acts = k" "n_tasks w' = n_tasks w2" "r \<longrightarrow> chainPinnedInterfaceReady os via w'"
      by blast
    then show ?thesis using pre by (intro exI [of _ "pre @ [NetSleep] @ acts"]) (simp add: w2_def)
  qed
qed

text \<open>The host routes, one action per endpoint with a route.\<close>

definition route_action :: "bool \<Rightarrow> 64 word \<Rightarrow> ipnet \<times> ip \<Rightarrow> net_action" where
  "route_action add luid x = (if add then AddRoute luid (fst x) (snd x) else DeleteRoute luid (fst x) (snd x))"

lemma pin_one_simps:
  "host_route a = None \<Longrightarrow> pin_one os add luid a w = w"
  "host_route a = Some d \<Longrightarrow>
     pin_one os add luid a w = net_act (route_action add luid (d, next_hop os luid a w)) w"
  by (simp_all add: pin_one_def route_action_def Let_def)

lemma pin_fold_acts:
  "\<exists>hops. length hops = length (List.map_filter host_route ips)
     \<and> n_history (fold (pin_one os add luid) ips w)
         = n_history w @ map (route_action add luid) (zip (List.map_filter host_route ips) hops)
     \<and> n_tasks (fold (pin_one os add luid) ips w) = n_tasks w"
proof (induction ips arbitrary: w)
  case Nil
  then show ?case by (simp add: map_filter_simps)
next
  case (Cons a ips)
  obtain hops where hops: "length hops = length (List.map_filter host_route ips)"
    "n_history (fold (pin_one os add luid) ips (pin_one os add luid a w))
       = n_history (pin_one os add luid a w)
         @ map (route_action add luid) (zip (List.map_filter host_route ips) hops)"
    "n_tasks (fold (pin_one os add luid) ips (pin_one os add luid a w)) = n_tasks (pin_one os add luid a w)"
    using Cons.IH [of "pin_one os add luid a w"] by blast
  show ?case
  proof (cases "host_route a")
    case None
    then show ?thesis using hops by (intro exI [of _ hops]) (simp add: pin_one_simps map_filter_simps)
  next
    case (Some d)
    then show ?thesis using hops
      by (intro exI [of _ "next_hop os luid a w # hops"]) (simp add: pin_one_simps map_filter_simps)
  qed
qed

text \<open>With an answer for the gateway that stands, the routes are a function of the endpoints.\<close>

definition pins :: "(ip \<Rightarrow> ip) \<Rightarrow> ip list \<Rightarrow> (ipnet \<times> ip) list" where
  "pins hop ips = List.map_filter (\<lambda>a. map_option (\<lambda>d. (d, hop a)) (host_route a)) ips"

lemma pin_fold_stable:
  assumes "\<And>a v. a \<in> set ips \<Longrightarrow> next_hop os luid a v = hop a"
  shows "n_history (fold (pin_one os add luid) ips w) = n_history w @ map (route_action add luid) (pins hop ips)"
  using assms
proof (induction ips arbitrary: w)
  case Nil
  then show ?case by (simp add: pins_def map_filter_simps)
next
  case (Cons a ips)
  have "n_history (fold (pin_one os add luid) ips (pin_one os add luid a w))
          = n_history (pin_one os add luid a w) @ map (route_action add luid) (pins hop ips)"
    using Cons.prems by (intro Cons.IH) simp
  moreover have "next_hop os luid a w = hop a" using Cons.prems by simp
  ultimately show ?case
    by (cases "host_route a") (simp_all add: pins_def pin_one_simps map_filter_simps)
qed

section \<open>Histories only grow\<close>

text \<open>\<open>w'\<close> continues \<open>w\<close> by actions that satisfy \<open>Q\<close>.\<close>

definition grows :: "(net_action \<Rightarrow> bool) \<Rightarrow> net_world \<Rightarrow> net_world \<Rightarrow> bool" where
  "grows Q w w' \<longleftrightarrow> (\<exists>acts. n_history w' = n_history w @ acts \<and> list_all Q acts)"

named_theorems grow \<open>what an operation adds to the history\<close>

lemma grows_refl [simp]: "grows Q w w"
  unfolding grows_def by (intro exI [of _ "[]"]) simp

lemma grows_trans [trans]: "grows Q u v \<Longrightarrow> grows Q v w \<Longrightarrow> grows Q u w"
  by (auto simp: grows_def)

lemma grows_mono: "grows P v w \<Longrightarrow> (\<And>a. P a \<Longrightarrow> Q a) \<Longrightarrow> grows Q v w"
  unfolding grows_def by (metis (mono_tags, lifting) list_all_iff)

lemma grows_act [simp]: "grows Q w (net_act a w) \<longleftrightarrow> Q a"
  by (simp add: grows_def)

lemma grows_same [simp]: "n_history w = n_history v \<Longrightarrow> grows Q v w"
  unfolding grows_def by (intro exI [of _ "[]"]) simp

lemma grows_act_after: "grows Q v w \<Longrightarrow> Q a \<Longrightarrow> grows Q v (net_act a w)"
  by (rule grows_trans [of Q v w]) simp_all

lemma grows_fold: "(\<And>x w. x \<in> set xs \<Longrightarrow> grows Q w (f x w)) \<Longrightarrow> grows Q w (fold f xs w)"
proof (induction xs arbitrary: w)
  case (Cons x xs)
  have "grows Q w (f x w)" using Cons.prems by simp
  also have "grows Q (f x w) (fold f xs (f x w))" using Cons.prems by (intro Cons.IH) simp
  finally show ?case by simp
qed simp

text \<open>The actions that neither register or unregister a callback nor bring the device up.\<close>

definition plain :: "net_action \<Rightarrow> bool" where
  "plain a \<longleftrightarrow> (case a of Register _ \<Rightarrow> False | Unregister _ \<Rightarrow> False | DeviceUp \<Rightarrow> False | _ \<Rightarrow> True)"

lemma plain_simps [simp]:
  "plain NetSleep" "plain SleepSecond" "plain (AskStart n)" "plain (AddRoute l d h)" "plain (DeleteRoute l d h)"
  "plain (BindSocket f i b)" "plain (SetInterface l f r)" "plain (ForceMTU n')" "plain (SetAddresses l f as)"
  "plain (DeleteAddress l d)" "plain (SetRoutes l f rs)" "plain (SetDNS l f ds ss)" "plain (FlushAll l)"
  "plain (EnableFirewall l b ds)" "plain DisableFirewall" "plain OpenLog" "plain (CopyOwner p)"
  "plain (CreateTUN n g)" "plain (RunScript p n)" "plain DropPrivileges" "plain (ListenUAPI n)"
  "plain (SetDevice t)" "plain CloseUAPI" "plain CloseDevice" "plain (Report s')" "plain Crashed"
  "\<not> plain (Register c)" "\<not> plain (Unregister c)" "\<not> plain DeviceUp"
  by (simp_all add: plain_def)

lemma waiting_plain: "waiting a \<Longrightarrow> plain a"
  by (auto simp: waiting_def)

lemma wait_for_pin_grows [grow]: "wait_for_pin os via t k w = (r, w') \<Longrightarrow> grows plain w w'"
  using wait_for_pin_acts [of os via t k w r w'] waiting_plain unfolding grows_def
  by (auto simp: list_all_iff)

lemma bindSocketPinned_grows [grow]: "bindSocketPinned os fam via b w = (e, b', w') \<Longrightarrow> grows plain w w'"
  by (erule bindSocketPinned_cases) simp_all

lemma chainPinRoutes_grows [grow]: "grows plain w (chainPinRoutes os c add w)"
proof -
  have "grows plain v (pin_one os add luid a v)" for luid a v
    by (cases "host_route a") (simp_all add: pin_one_simps route_action_def)
  then show ?thesis
    by (auto simp: chainPinRoutes_def chainPinRoutesLater_def Let_def intro: grows_fold split: sum.splits)
qed

lemma chainWaitForPinBeforeUp_grows [grow]: "grows plain w (chainWaitForPinBeforeUp os c w)"
  unfolding chainWaitForPinBeforeUp_def Let_def
  by (auto split: prod.splits bool.splits intro: wait_for_pin_grows grows_trans [OF wait_for_pin_grows chainPinRoutes_grows])

lemma pin_routes_task_grows [grow]: "grows plain w (pin_routes_task os c w)"
  unfolding pin_routes_task_def
  by (auto split: prod.splits bool.splits intro: wait_for_pin_grows grows_trans [OF wait_for_pin_grows chainPinRoutes_grows])

end
