(* ===== verification/TunnelRoutes.thy ===== *)
theory TunnelRoutes
  imports TunnelNet "HOL-Library.Product_Lexorder"
begin

text \<open>
  What the tunnel service makes of its own adapter: \<open>defaultroutemonitor.go\<close>, \<open>mtumonitor.go\<close>,
  \<open>addressconfig.go\<close> and \<open>hasDefaultRoute\<close> of \<open>interfacewatcher.go\<close>: the interface the socket is
  bound to, the MTU that follows it, the addresses, routes and DNS servers, and the firewall.

  \<open>doIt\<close> of a monitor is \<open>monitor_turn\<close> on the variables the closure holds. The timer that gathers
  bursts of notifications only decides when a turn runs and is left out.
\<close>

section \<open>The default route\<close>

record lowest =
  lo_metric :: "32 word"
  lo_index :: "32 word"
  lo_luid :: "64 word"

definition try_row :: "net_os \<Rightarrow> net_history \<Rightarrow> family \<Rightarrow> 64 word \<Rightarrow> fwd_row \<Rightarrow> lowest \<Rightarrow> lowest" where
  "try_row os h fam ourLUID r lo =
     (if fr_length r \<noteq> 0 \<or> fr_luid r = ourLUID then lo
      else (case n_interface os h (fr_luid r) of
              Inl e \<Rightarrow> lo
            | Inr ifrow \<Rightarrow>
                if \<not> if_up ifrow then lo
                else (case n_ipif os h (fr_luid r) fam of
                        Inl e \<Rightarrow> lo
                      | Inr iface \<Rightarrow>
                          if fr_metric r + ii_metric iface < lo_metric lo
                          then \<lparr> lo_metric = fr_metric r + ii_metric iface,
                                 lo_index = fr_index r, lo_luid = fr_luid r \<rparr>
                          else lo)))"

definition lowest_default :: "net_os \<Rightarrow> net_history \<Rightarrow> family \<Rightarrow> 64 word \<Rightarrow> fwd_row list \<Rightarrow> lowest" where
  "lowest_default os h fam ourLUID rows =
     fold (try_row os h fam ourLUID) rows \<lparr> lo_metric = - 1, lo_index = 0, lo_luid = 0 \<rparr>"

definition bindSocketRoute ::
  "net_os \<Rightarrow> family \<Rightarrow> 64 word \<Rightarrow> bool \<Rightarrow> binding \<Rightarrow> net_world \<Rightarrow> net_error option \<times> binding \<times> net_world"
where
  "bindSocketRoute os fam ourLUID blackholeWhenLoop b w =
     (case n_table os (n_history w) fam of
        Inl e \<Rightarrow> (Some e, b, w)
      | Inr r \<Rightarrow>
          (let lo = lowest_default os (n_history w) fam ourLUID r in
           if lo_luid lo = lastLUID b \<and> lo_index lo = lastIndex b then (None, b, w)
           else (let (err, w1) = net_do os (BindSocket fam (lo_index lo) (blackholeWhenLoop \<and> lo_index lo = 0)) w
                 in (err, \<lparr> lastLUID = lo_luid lo, lastIndex = lo_index lo \<rparr>, w1))))"

definition findDefaultLUID :: "net_os \<Rightarrow> family \<Rightarrow> 64 word \<Rightarrow> binding \<Rightarrow> net_world \<Rightarrow> net_error option \<times> binding" where
  "findDefaultLUID os fam ourLUID b w =
     (case n_table os (n_history w) fam of
        Inl e \<Rightarrow> (Some e, b)
      | Inr r \<Rightarrow>
          (let lo = lowest_default os (n_history w) fam ourLUID r in
           if lo_luid lo = lastLUID b \<and> lo_index lo = lastIndex b then (None, b)
           else (None, \<lparr> lastLUID = lo_luid lo, lastIndex = lo_index lo \<rparr>)))"

section \<open>The MTU\<close>

record monitor =
  mo_binding :: binding
  mo_mtu :: "32 word"

definition new_monitor :: monitor where "new_monitor = \<lparr> mo_binding = no_binding, mo_mtu = 0 \<rparr>"

definition min_mtu :: "family \<Rightarrow> 32 word" where
  "min_mtu fam = (case fam of INET \<Rightarrow> 576 | INET6 \<Rightarrow> 1280)"

definition tunnel_mtu :: "family \<Rightarrow> 32 word \<Rightarrow> 32 word" where
  "tunnel_mtu fam mtu = (let nlmtu = mtu - 80 in if nlmtu < min_mtu fam then min_mtu fam else nlmtu)"

text \<open>The part \<open>monitorDefaultRoutes\<close> and \<open>monitorMTU\<close> share; only the first calls \<open>ForceMTU\<close>.\<close>

definition follow_mtu ::
  "net_os \<Rightarrow> family \<Rightarrow> 64 word \<Rightarrow> bool \<Rightarrow> monitor \<Rightarrow> net_world \<Rightarrow> net_error option \<times> monitor \<times> net_world"
where
  "follow_mtu os fam ourLUID force m w =
     (let found = (if lastLUID (mo_binding m) \<noteq> 0
                   then rbind (n_interface os (n_history w) (lastLUID (mo_binding m))) (\<lambda>r. Inr (if_mtu r))
                   else Inr 0)
      in case found of
           Inl e \<Rightarrow> (Some e, m, w)
         | Inr mtu \<Rightarrow>
             if \<not> (0 < mtu \<and> mo_mtu m \<noteq> mtu) then (None, m, w)
             else (case n_ipif os (n_history w) ourLUID fam of
                     Inl e \<Rightarrow> (Some e, m, w)
                   | Inr iface \<Rightarrow>
                       (let iface1 = iface\<lparr>ii_mtu := tunnel_mtu fam mtu\<rparr> in
                        case net_do os (SetInterface ourLUID fam iface1) w of
                          (Some e, w1) \<Rightarrow> (Some e, m, w1)
                        | (None, w1) \<Rightarrow>
                            (None, m\<lparr>mo_mtu := mtu\<rparr>,
                             if force then net_act (ForceMTU (uint (ii_mtu iface1))) w1 else w1))))"

definition monitor_turn ::
  "net_os \<Rightarrow> family \<Rightarrow> 64 word \<Rightarrow> bool \<Rightarrow> bool \<Rightarrow> string \<Rightarrow> monitor \<Rightarrow> net_world \<Rightarrow>
   net_error option \<times> monitor \<times> net_world"
where
  "monitor_turn os fam ourLUID autoMTU blackholeWhenLoop pinVia m w =
     (case (if pinVia \<noteq> [] then bindSocketPinned os fam pinVia (mo_binding m) w
            else bindSocketRoute os fam ourLUID blackholeWhenLoop (mo_binding m) w) of
        (Some e, b, w1) \<Rightarrow> (Some e, m\<lparr>mo_binding := b\<rparr>, w1)
      | (None, b, w1) \<Rightarrow>
          if \<not> autoMTU then (None, m\<lparr>mo_binding := b\<rparr>, w1)
          else follow_mtu os fam ourLUID True (m\<lparr>mo_binding := b\<rparr>) w1)"

text \<open>Both monitors register for route and interface changes, or for neither.\<close>

definition register_changes ::
  "net_os \<Rightarrow> family \<Rightarrow> net_world \<Rightarrow> (net_error + change_callback list) \<times> net_world"
where
  "register_changes os fam w =
     (let routes = RouteCallback fam (length (n_history w)) in
      case net_do os (Register routes) w of
        (Some e, w1) \<Rightarrow> (Inl e, w1)
      | (None, w1) \<Rightarrow>
          (let interfaces = InterfaceCallback fam (length (n_history w1)) in
           case net_do os (Register interfaces) w1 of
             (Some e, w2) \<Rightarrow> (Inl e, net_act (Unregister routes) w2)
           | (None, w2) \<Rightarrow> (Inr [routes, interfaces], w2)))"

definition monitorDefaultRoutes ::
  "net_os \<Rightarrow> family \<Rightarrow> 64 word \<Rightarrow> bool \<Rightarrow> bool \<Rightarrow> string \<Rightarrow> net_world \<Rightarrow>
   (net_error + change_callback list) \<times> monitor \<times> net_world"
where
  "monitorDefaultRoutes os fam ourLUID autoMTU blackholeWhenLoop pinVia w =
     (case monitor_turn os fam ourLUID autoMTU blackholeWhenLoop pinVia new_monitor w of
        (Some e, m, w1) \<Rightarrow> (Inl e, m, w1)
      | (None, m, w1) \<Rightarrow> (let (r, w2) = register_changes os fam w1 in (r, m, w2)))"

definition mtu_turn ::
  "net_os \<Rightarrow> family \<Rightarrow> 64 word \<Rightarrow> monitor \<Rightarrow> net_world \<Rightarrow> net_error option \<times> monitor \<times> net_world"
where
  "mtu_turn os fam ourLUID m w =
     (case findDefaultLUID os fam ourLUID (mo_binding m) w of
        (Some e, b) \<Rightarrow> (Some e, m\<lparr>mo_binding := b\<rparr>, w)
      | (None, b) \<Rightarrow> follow_mtu os fam ourLUID False (m\<lparr>mo_binding := b\<rparr>) w)"

definition monitorMTU ::
  "net_os \<Rightarrow> family \<Rightarrow> 64 word \<Rightarrow> net_world \<Rightarrow> (net_error + change_callback list) \<times> monitor \<times> net_world"
where
  "monitorMTU os fam ourLUID w =
     (case mtu_turn os fam ourLUID new_monitor w of
        (Some e, m, w1) \<Rightarrow> (Inl e, m, w1)
      | (None, m, w1) \<Rightarrow> (let (r, w2) = register_changes os fam w1 in (r, m, w2)))"

section \<open>The default routes of a configuration\<close>

definition allows :: "peer list \<Rightarrow> 8 word \<Rightarrow> ip \<Rightarrow> bool" where
  "allows peers cidr address =
     list_ex (\<lambda>p. list_ex (\<lambda>a. Cidr a = cidr \<and> IP a = address) (AllowedIPs p)) peers"

definition hasDefaultRoute :: "family \<Rightarrow> peer list \<Rightarrow> bool" where
  "hasDefaultRoute fam peers =
     (case fam of
        INET \<Rightarrow> allows peers 0 (replicate 4 0)
                \<or> (allows peers 1 (replicate 4 0) \<and> allows peers 1 (128 # replicate 3 0))
      | INET6 \<Rightarrow> allows peers 0 (replicate 16 0)
                \<or> (allows peers 1 (replicate 16 0) \<and> allows peers 1 (128 # replicate 15 0)))"

section \<open>Addresses, routes and servers\<close>

definition address_cidr :: "ip \<times> 8 word \<Rightarrow> ipnet" where
  "address_cidr a =
     \<lparr> net_ip = fst a,
       net_mask = (case cidr_mask (uint (snd a)) (8 * length (fst a)) of None \<Rightarrow> [] | Some m \<Rightarrow> m) \<rparr>"

definition includedInAddresses :: "ipnet list \<Rightarrow> ipnet \<Rightarrow> bool" where
  "includedInAddresses addresses a =
     list_ex (\<lambda>addr. (case to4 (net_ip addr) of Some v \<Rightarrow> v | None \<Rightarrow> net_ip addr) = net_ip a
                      \<and> fst (mask_size (net_mask addr)) = fst (mask_size (net_mask a))) addresses"

definition cleanup_adapter :: "ipnet list \<Rightarrow> adapter \<Rightarrow> net_world \<Rightarrow> net_world" where
  "cleanup_adapter addresses iface w =
     (if ad_up iface then w
      else fold (\<lambda>a w. if includedInAddresses addresses (address_cidr a)
                        then net_act (DeleteAddress (ad_luid iface) (address_cidr a)) w else w)
             (ad_addresses iface) w)"

definition cleanupAddressesOnDisconnectedInterfaces ::
  "net_os \<Rightarrow> family \<Rightarrow> ipnet list \<Rightarrow> net_world \<Rightarrow> net_world"
where
  "cleanupAddressesOnDisconnectedInterfaces os fam addresses w =
     (if addresses = [] then w
      else (case n_adapters os (n_history w) (Some fam) of
              Inl e \<Rightarrow> w
            | Inr interfaces \<Rightarrow> fold (cleanup_adapter addresses) interfaces w))"

text \<open>\<open>MaskSelf\<close> writes through the slices: the configuration keeps the masked prefixes.\<close>

definition mask_allowed :: "config \<Rightarrow> conf_error + config" where
  "mask_allowed c =
     rbind (rmap (\<lambda>p. rbind (rmap mask_self (AllowedIPs p)) (\<lambda>as. Inr (p\<lparr>AllowedIPs := as\<rparr>))) (Peers c))
       (\<lambda>ps. Inr (c\<lparr>Peers := ps\<rparr>))"

definition have_address :: "config \<Rightarrow> nat \<Rightarrow> bool" where
  "have_address c bits = list_ex (\<lambda>a. ipcidr_bits a = bits) (Addresses (Interface c))"

definition routed :: "config \<Rightarrow> ipcidr list" where
  "routed c = filter (\<lambda>a. have_address c (ipcidr_bits a)) (concat (map AllowedIPs (Peers c)))"

definition route_of :: "ipcidr \<Rightarrow> route_data" where
  "route_of a =
     \<lparr> rd_dest = ipcidr_ipnet a,
       rd_hop = (if ipcidr_bits a = 32 then v4_mapped (replicate 4 0) else replicate 16 0), rd_metric = 0 \<rparr>"

definition found_default :: "config \<Rightarrow> nat \<Rightarrow> bool" where
  "found_default c bits = list_ex (\<lambda>a. ipcidr_bits a = bits \<and> Cidr a = 0) (routed c)"

definition route_key :: "route_data \<Rightarrow> 32 word \<times> ip \<times> ip \<times> bytes" where
  "route_key r = (rd_metric r, rd_hop r, net_ip (rd_dest r), net_mask (rd_dest r))"

fun drop_repeats :: "route_data list \<Rightarrow> route_data list" where
  "drop_repeats (a # b # rs) =
     (if route_key b = route_key a then drop_repeats (a # rs) else a # drop_repeats (b # rs))"
| "drop_repeats rs = rs"

definition deduplicatedRoutes :: "config \<Rightarrow> route_data list" where
  "deduplicatedRoutes c = drop_repeats (sort_key route_key (map route_of (routed c)))"

definition set_addresses :: "net_os \<Rightarrow> 64 word \<Rightarrow> family \<Rightarrow> ipnet list \<Rightarrow> net_world \<Rightarrow> net_error option \<times> net_world" where
  "set_addresses os luid fam addresses w =
     (case net_do os (SetAddresses luid fam addresses) w of
        (Some ObjectAlreadyExists, w1) \<Rightarrow>
          net_do os (SetAddresses luid fam addresses)
            (cleanupAddressesOnDisconnectedInterfaces os fam addresses w1)
      | r \<Rightarrow> r)"

definition mtu_of_config :: "family \<Rightarrow> 16 word \<Rightarrow> ip_interface \<Rightarrow> ip_interface" where
  "mtu_of_config fam mtu ipif =
     (if mtu = 0 \<or> (fam = INET6 \<and> mtu < 1280) then ipif else ipif\<lparr>ii_mtu := ucast mtu\<rparr>)"

definition metric_of_config :: "config \<Rightarrow> family \<Rightarrow> ip_interface \<Rightarrow> ip_interface" where
  "metric_of_config c fam ipif =
     (case fam of
        INET \<Rightarrow> if found_default c 32 then ipif\<lparr>ii_auto_metric := False, ii_metric := 0\<rparr> else ipif
      | INET6 \<Rightarrow> (if found_default c 128 then ipif\<lparr>ii_auto_metric := False, ii_metric := 0\<rparr> else ipif)
                  \<lparr>ii_dad := 0, ii_discovery := False\<rparr>)"

definition finish_interface ::
  "net_os \<Rightarrow> family \<Rightarrow> config \<Rightarrow> 64 word \<Rightarrow> net_world \<Rightarrow> net_error option \<times> net_world"
where
  "finish_interface os fam c luid w =
     (case n_ipif os (n_history w) luid fam of
        Inl e \<Rightarrow> (Some e, w)
      | Inr ipif \<Rightarrow>
          (let mtu = MTU (Interface c);
               w1 = (if 0 < mtu then net_act (ForceMTU (uint mtu)) w else w)
           in case net_do os (SetInterface luid fam (metric_of_config c fam (mtu_of_config fam mtu ipif))) w1 of
                (Some e, w2) \<Rightarrow> (Some e, w2)
              | (None, w2) \<Rightarrow> net_do os (SetDNS luid fam (DNS (Interface c)) (DNSSearch (Interface c))) w2))"

definition configureInterface ::
  "net_os \<Rightarrow> family \<Rightarrow> config \<Rightarrow> 64 word \<Rightarrow> net_world \<Rightarrow> net_error option \<times> config \<times> net_world"
where
  "configureInterface os fam c0 luid w =
     (case mask_allowed c0 of
        Inl p \<Rightarrow> (Some (NetPanic p), c0, w)
      | Inr c \<Rightarrow>
          (case set_addresses os luid fam (map ipcidr_ipnet (Addresses (Interface c))) w of
             (Some e, w1) \<Rightarrow> (Some e, c, w1)
           | (None, w1) \<Rightarrow>
               (case (if TableOff (Interface c) then (None, w1)
                      else net_do os (SetRoutes luid fam (deduplicatedRoutes c)) w1) of
                  (Some e, w2) \<Rightarrow> (Some e, c, w2)
                | (None, w2) \<Rightarrow> (let (err, w3) = finish_interface os fam c luid w2 in (err, c, w3)))))"

section \<open>The firewall\<close>

definition full_tunnel :: "config \<Rightarrow> bool" where
  "full_tunnel c \<longleftrightarrow>
     (case Peers c of
        [p] \<Rightarrow> \<not> TableOff (Interface c)
                \<and> list_ex (\<lambda>a. Cidr a = 0 \<and> list_all (\<lambda>b. b = 0) (IP a)) (AllowedIPs p)
      | _ \<Rightarrow> False)"

definition enableFirewall :: "net_os \<Rightarrow> config \<Rightarrow> 64 word \<Rightarrow> net_world \<Rightarrow> net_error option \<times> net_world" where
  "enableFirewall os c luid w =
     (let doNotRestrict = \<not> full_tunnel c in
      if PinEndpointVia (Interface c) \<noteq> [] then net_do os (EnableFirewall luid True (DNS (Interface c))) w
      else net_do os (EnableFirewall luid doNotRestrict (DNS (Interface c))) w)"

section \<open>What the operations add to the history\<close>

lemma bindSocketRoute_grows [grow]:
  "bindSocketRoute os fam l bh b w = (e, b', w') \<Longrightarrow> grows plain w w'"
  unfolding bindSocketRoute_def Let_def by (auto simp: net_do_def split: sum.splits if_splits)

lemma follow_mtu_grows [grow]: "follow_mtu os fam l force m w = (e, m', w') \<Longrightarrow> grows plain w w'"
  unfolding follow_mtu_def Let_def net_do_def
  by (auto split: sum.splits if_splits option.splits intro: grows_act_after)

lemma monitor_turn_grows [grow]:
  assumes "monitor_turn os fam l auto bh via m w = (e, m', w')"
  shows "grows plain w w'"
proof -
  define r where "r = (if via \<noteq> [] then bindSocketPinned os fam via (mo_binding m) w
                       else bindSocketRoute os fam l bh (mo_binding m) w)"
  obtain x b w1 where r: "r = (x, b, w1)" by (cases r)
  have w1: "grows plain w w1"
    using r unfolding r_def by (auto split: if_splits intro: bindSocketPinned_grows bindSocketRoute_grows)
  show ?thesis
  proof (cases x)
    case (Some y)
    then show ?thesis using assms r w1 by (simp add: monitor_turn_def r_def [symmetric])
  next
    case None
    then have "w' = w1 \<or> follow_mtu os fam l True (m\<lparr>mo_binding := b\<rparr>) w1 = (e, m', w')"
      using assms r by (auto simp: monitor_turn_def r_def [symmetric] split: if_splits)
    then show ?thesis using w1 by (auto intro: grows_trans [OF w1] follow_mtu_grows)
  qed
qed

lemma cleanup_grows [grow]:
  "grows plain w (cleanupAddressesOnDisconnectedInterfaces os fam as w)"
proof -
  have "grows plain v (cleanup_adapter as i v)" for i v
    unfolding cleanup_adapter_def by (auto intro: grows_fold)
  then show ?thesis
    unfolding cleanupAddressesOnDisconnectedInterfaces_def by (auto split: sum.splits intro: grows_fold)
qed

lemma set_addresses_grows [grow]: "set_addresses os l fam as w = (e, w') \<Longrightarrow> grows plain w w'"
  unfolding set_addresses_def net_do_def
  by (auto split: option.splits net_error.splits
      intro!: grows_act_after intro: grows_trans [OF _ cleanup_grows])

lemma finish_interface_grows [grow]: "finish_interface os fam c l w = (e, w') \<Longrightarrow> grows plain w w'"
  unfolding finish_interface_def net_do_def Let_def
  by (auto split: sum.splits if_splits option.splits intro!: grows_act_after)

text \<open>How \<open>configureInterface\<close> ends: early, or with the routes and the rest.\<close>

lemma configureInterface_cases:
  assumes "configureInterface os fam c0 l w = (e, c, w')"
  obtains (panic) p where "mask_allowed c0 = Inl p" "e = Some (NetPanic p)" "c = c0" "w' = w"
  | (addresses) x where "mask_allowed c0 = Inr c" "e = Some x"
      "set_addresses os l fam (map ipcidr_ipnet (Addresses (Interface c))) w = (Some x, w')"
  | (no_table) w1 where "mask_allowed c0 = Inr c" "TableOff (Interface c)"
      "set_addresses os l fam (map ipcidr_ipnet (Addresses (Interface c))) w = (None, w1)"
      "finish_interface os fam c l w1 = (e, w')"
  | (bad_routes) w1 where "mask_allowed c0 = Inr c" "\<not> TableOff (Interface c)" "e \<noteq> None"
      "set_addresses os l fam (map ipcidr_ipnet (Addresses (Interface c))) w = (None, w1)"
      "w' = net_act (SetRoutes l fam (deduplicatedRoutes c)) w1"
  | (routes) w1 where "mask_allowed c0 = Inr c" "\<not> TableOff (Interface c)"
      "set_addresses os l fam (map ipcidr_ipnet (Addresses (Interface c))) w = (None, w1)"
      "finish_interface os fam c l (net_act (SetRoutes l fam (deduplicatedRoutes c)) w1) = (e, w')"
proof (cases "mask_allowed c0")
  case (Inl p)
  then have "e = Some (NetPanic p)" "c = c0" "w' = w" using assms by (simp_all add: configureInterface_def)
  then show ?thesis using panic [OF Inl] by blast
next
  case (Inr d)
  obtain x w1 where r: "set_addresses os l fam (map ipcidr_ipnet (Addresses (Interface d))) w = (x, w1)"
    by (cases "set_addresses os l fam (map ipcidr_ipnet (Addresses (Interface d))) w")
  have "fst (snd (configureInterface os fam c0 l w)) = d"
    by (cases x; cases "TableOff (Interface d)";
        cases "n_fault os (n_history w1) (SetRoutes l fam (deduplicatedRoutes d))")
      (simp_all add: configureInterface_def Inr r net_do_def split_beta)
  then have "c = d" using assms by simp
  note d = Inr [folded this] r [folded this]
  show ?thesis
  proof (cases x)
    case (Some y)
    then have "e = Some y" "w' = w1" using assms d by (simp_all add: configureInterface_def)
    then show ?thesis using addresses [OF d(1)] d(2) Some by blast
  next
    case None
    show ?thesis
    proof (cases "TableOff (Interface c)")
      case True
      then have "finish_interface os fam c l w1 = (e, w')"
        using assms d None by (simp add: configureInterface_def split: prod.splits)
      then show ?thesis using no_table [OF d(1) True] d(2) None by blast
    next
      case False
      show ?thesis
      proof (cases "n_fault os (n_history w1) (SetRoutes l fam (deduplicatedRoutes c))")
        case f: None
        then have "finish_interface os fam c l (net_act (SetRoutes l fam (deduplicatedRoutes c)) w1) = (e, w')"
          using assms d None False by (simp add: configureInterface_def net_do_def split: prod.splits)
        then show ?thesis using routes [OF d(1) False] d(2) None by blast
      next
        case (Some y)
        then have "e = Some y" "w' = net_act (SetRoutes l fam (deduplicatedRoutes c)) w1"
          using assms d None False by (simp_all add: configureInterface_def net_do_def)
        then have "e \<noteq> None" "w' = net_act (SetRoutes l fam (deduplicatedRoutes c)) w1" by simp_all
        then show ?thesis using bad_routes [OF d(1) False] d(2) None by blast
      qed
    qed
  qed
qed

lemma configureInterface_grows [grow]:
  assumes "configureInterface os fam c l w = (e, c', w')"
  shows "grows plain w w'"
  using assms
proof (cases rule: configureInterface_cases)
  case (routes w1)
  have "grows plain w w1" using routes(3) by (rule set_addresses_grows)
  then have "grows plain w (net_act (SetRoutes l fam (deduplicatedRoutes c')) w1)"
    by (rule grows_act_after) simp
  then show ?thesis using finish_interface_grows [OF routes(4)] by (rule grows_trans)
qed (auto dest!: set_addresses_grows finish_interface_grows intro: grows_act_after grows_trans)

lemma enableFirewall_grows [grow]: "enableFirewall os c l w = (e, w') \<Longrightarrow> grows plain w w'"
  unfolding enableFirewall_def net_do_def Let_def by (auto split: if_splits)

section \<open>The default route of the lowest metric\<close>

text \<open>The metric of a row that is a default route of another interface that is up; sums wrap.\<close>

definition default_metric :: "net_os \<Rightarrow> net_history \<Rightarrow> family \<Rightarrow> 64 word \<Rightarrow> fwd_row \<Rightarrow> 32 word option" where
  "default_metric os h fam ours r =
     (if fr_length r = 0 \<and> fr_luid r \<noteq> ours
      then (case (n_interface os h (fr_luid r), n_ipif os h (fr_luid r) fam) of
              (Inr i, Inr ii) \<Rightarrow> if if_up i then Some (fr_metric r + ii_metric ii) else None
            | _ \<Rightarrow> None)
      else None)"

lemma try_row_metric:
  "try_row os h fam ours r lo =
     (case default_metric os h fam ours r of
        None \<Rightarrow> lo
      | Some m \<Rightarrow> if m < lo_metric lo then \<lparr> lo_metric = m, lo_index = fr_index r, lo_luid = fr_luid r \<rparr> else lo)"
  by (cases "n_interface os h (fr_luid r)"; cases "n_ipif os h (fr_luid r) fam")
    (simp_all add: try_row_def default_metric_def)

definition is_default :: "net_os \<Rightarrow> net_history \<Rightarrow> family \<Rightarrow> 64 word \<Rightarrow> lowest \<Rightarrow> fwd_row \<Rightarrow> bool" where
  "is_default os h fam ours lo r \<longleftrightarrow>
     default_metric os h fam ours r = Some (lo_metric lo) \<and> lo_index lo = fr_index r \<and> lo_luid lo = fr_luid r"

lemma fold_try_row:
  "(fold (try_row os h fam ours) rows lo = lo
      \<or> (\<exists>r \<in> set rows. is_default os h fam ours (fold (try_row os h fam ours) rows lo) r))
   \<and> lo_metric (fold (try_row os h fam ours) rows lo) \<le> lo_metric lo
   \<and> (\<forall>r \<in> set rows. \<forall>m. default_metric os h fam ours r = Some m
        \<longrightarrow> lo_metric (fold (try_row os h fam ours) rows lo) \<le> m)"
proof (induction rows arbitrary: lo)
  case (Cons r rows)
  define lo1 where "lo1 = try_row os h fam ours r lo"
  define lo2 where "lo2 = fold (try_row os h fam ours) rows lo1"
  have step: "lo1 = lo \<or> is_default os h fam ours lo1 r" "lo_metric lo1 \<le> lo_metric lo"
      "default_metric os h fam ours r = Some m \<Longrightarrow> lo_metric lo1 \<le> m" for m
    unfolding lo1_def by (auto simp: try_row_metric is_default_def split: option.splits)
  have rest: "lo2 = lo1 \<or> (\<exists>r \<in> set rows. is_default os h fam ours lo2 r)" "lo_metric lo2 \<le> lo_metric lo1"
      "x \<in> set rows \<Longrightarrow> default_metric os h fam ours x = Some m \<Longrightarrow> lo_metric lo2 \<le> m" for x m
    using Cons.IH [of lo1] unfolding lo2_def by blast+
  have "lo2 = lo \<or> (\<exists>r' \<in> set (r # rows). is_default os h fam ours lo2 r')"
    using step(1) rest(1) by auto
  moreover have "lo_metric lo2 \<le> lo_metric lo" using step(2) rest(2) by (rule order_trans [rotated])
  moreover have "lo_metric lo2 \<le> m" if "x \<in> set (r # rows)" "default_metric os h fam ours x = Some m" for x m
    using that step(3) [of m] rest(2) rest(3) [of x m] by (auto intro: order_trans)
  ultimately show ?case by (simp add: lo1_def lo2_def)
qed simp

section \<open>The MTU\<close>

lemma tunnel_mtu_large: "80 \<le> mtu \<Longrightarrow> uint (tunnel_mtu fam mtu) = max (uint (min_mtu fam)) (uint mtu - 80)"
  unfolding tunnel_mtu_def Let_def by (cases fam) (auto simp: min_mtu_def word_less_def word_le_def uint_sub_if')

lemma tunnel_mtu_wraps: "mtu < 80 \<Longrightarrow> uint (tunnel_mtu fam mtu) = 2 ^ 32 + uint mtu - 80"
  unfolding tunnel_mtu_def Let_def
  by (cases fam) (auto simp: min_mtu_def word_less_def word_le_def uint_sub_if',
      (use uint_ge_0 [of mtu] in linarith)+)

section \<open>The routes\<close>

lemma route_key_inj: "route_key a = route_key b \<Longrightarrow> a = b"
  by (cases a, cases b) (auto simp: route_key_def intro: ipnet.equality)

lemma drop_repeats_set [simp]: "set (drop_repeats rs) = set rs"
  by (induction rs rule: drop_repeats.induct) (auto dest: route_key_inj)

lemma drop_repeats_sorted:
  "sorted (map route_key rs) \<Longrightarrow> sorted_wrt (\<lambda>a b. route_key a < route_key b) (drop_repeats rs)"
proof (induction rs rule: drop_repeats.induct)
  case (1 a b rs)
  show ?case
  proof (cases "route_key b = route_key a")
    case True
    moreover have "sorted (map route_key (a # rs))" using "1.prems" by simp
    ultimately show ?thesis using "1.IH"(1) by simp
  next
    case False
    then have ab: "route_key a < route_key b" using "1.prems" by (simp add: order_less_le)
    have "route_key a < route_key x" if "x \<in> set (b # rs)" for x
    proof -
      have "route_key b \<le> route_key x" using that "1.prems" by auto
      with ab show ?thesis by (rule order_less_le_trans)
    qed
    moreover have "sorted_wrt (\<lambda>a b. route_key a < route_key b) (drop_repeats (b # rs))"
      using "1.prems" by (intro "1.IH"(2) [OF False]) simp
    moreover have "drop_repeats (a # b # rs) = a # drop_repeats (b # rs)" using False by simp
    ultimately show ?thesis by (simp only: sorted_wrt.simps drop_repeats_set) blast
  qed
qed auto

lemma deduplicatedRoutes_spec:
  "sorted_wrt (\<lambda>a b. route_key a < route_key b) (deduplicatedRoutes c)"
  "set (deduplicatedRoutes c) = route_of ` set (routed c)"
  by (simp_all add: deduplicatedRoutes_def drop_repeats_sorted)

lemma rmap_all_Inr: "(\<And>x. x \<in> set xs \<Longrightarrow> f x = Inr (g x)) \<Longrightarrow> rmap f xs = Inr (map g xs)"
  by (induction xs) simp_all

lemma mask_allowed_wf:
  assumes "\<And>p a. p \<in> set (Peers c) \<Longrightarrow> a \<in> set (AllowedIPs p) \<Longrightarrow> wf_ipcidr a"
  shows "mask_allowed c = Inr (c\<lparr>Peers := map mask_peer (Peers c)\<rparr>)"
proof -
  have "rmap (\<lambda>p. rbind (rmap mask_self (AllowedIPs p)) (\<lambda>as. Inr (p\<lparr>AllowedIPs := as\<rparr>))) (Peers c)
          = Inr (map mask_peer (Peers c))"
  proof (rule rmap_all_Inr)
    fix p assume "p \<in> set (Peers c)"
    then have "rmap mask_self (AllowedIPs p) = Inr (map masked (AllowedIPs p))"
      using assms by (intro rmap_all_Inr mask_self_wf)
    then show "rbind (rmap mask_self (AllowedIPs p)) (\<lambda>as. Inr (p\<lparr>AllowedIPs := as\<rparr>)) = Inr (mask_peer p)"
      by (simp add: mask_peer_def)
  qed
  then show ?thesis by (simp add: mask_allowed_def)
qed

end
