(* ===== verification/TunnelWatcher.thy ===== *)
theory TunnelWatcher
  imports TunnelRoutes "HOL-Library.Multiset"
begin

text \<open>
  \<open>upstream-tunnel/interfacewatcher.go\<close> and \<open>chainRetrySetup\<close> of \<open>chainpinwait.go\<close>: the watcher
  that sets the tunnel's adapter up again whenever Windows adds an interface of it. The state is
  the struct with the closures of its monitors and the global \<open>chainPinRetrying\<close>; an operation
  runs under \<open>setupMutex\<close> and is one step, as is the goroutine of \<open>chainRetrySetup\<close> with its waits.
  \<open>Destroy\<close> holds the mutex twice and releases it in between: here is its second critical section,
  and \<open>TunnelService\<close> has the whole, with the turns others take meanwhile.

  The channel \<open>errors\<close> is a list; that a third unread error blocks the sender is left out.
\<close>

datatype service_error =
    ErrorSuccess | ErrorRingloggerOpen | ErrorLoadConfiguration | ErrorSetNetConfig | ErrorDNSLookup
  | ErrorCreateWintun | ErrorRunScript | ErrorFirewall | ErrorDropPrivileges | ErrorUAPIListen
  | ErrorDeviceSetConfig | ErrorBindSocketsToDefaultRoutes

record watcher =
  iw_tun :: "64 word option"
  iw_conf :: "config option"
  iw_interface :: "change_callback option"
  iw_callbacks :: "family \<Rightarrow> change_callback list"
  iw_monitor :: "family \<Rightarrow> (bool \<times> monitor) option"
  iw_stored :: "(64 word \<times> family) list"
  iw_errors :: "(service_error \<times> net_error) list"
  iw_retrying :: "family \<Rightarrow> bool"

definition new_watcher :: watcher where
  "new_watcher =
     \<lparr> iw_tun = None, iw_conf = None, iw_interface = None, iw_callbacks = (\<lambda>_. []), iw_monitor = (\<lambda>_. None),
       iw_stored = [], iw_errors = [], iw_retrying = (\<lambda>_. False) \<rparr>"

section \<open>Operations\<close>

definition watchInterface :: "net_os \<Rightarrow> net_world \<Rightarrow> (net_error + watcher) \<times> net_world" where
  "watchInterface os w =
     (let added = InterfaceAddedCallback (length (n_history w)) in
      case net_do os (Register added) w of
        (Some e, w1) \<Rightarrow> (Inl e, w1)
      | (None, w1) \<Rightarrow> (Inr (new_watcher\<lparr>iw_interface := Some added\<rparr>), w1))"

definition unregister_all :: "change_callback list \<Rightarrow> net_world \<Rightarrow> net_world" where
  "unregister_all cbs w = fold (\<lambda>cb. net_act (Unregister cb)) cbs w"

definition chainRetrySetup :: "family \<Rightarrow> watcher \<Rightarrow> net_world \<Rightarrow> watcher \<times> net_world" where
  "chainRetrySetup fam iw w =
     (let via = (case iw_conf iw of None \<Rightarrow> [] | Some c \<Rightarrow> pin_via c) in
      if via = [] then (iw, w)
      else if iw_retrying iw fam then (iw, w)
      else (iw\<lparr>iw_retrying := (iw_retrying iw)(fam := True)\<rparr>, net_start (RetrySetup fam via) w))"

definition is_pin_not_ready :: "net_error \<Rightarrow> bool" where
  "is_pin_not_ready e = (case e of PinNotReady _ \<Rightarrow> True | _ \<Rightarrow> False)"

text \<open>
  \<open>setup\<close> runs only when \<open>conf\<close> and \<open>tun\<close> are set, by \<open>Configure\<close>. A panic of \<open>MaskSelf\<close>, for a
  prefix that is not well-formed, ends the process.
\<close>

definition setup_family :: "net_os \<Rightarrow> family \<Rightarrow> watcher \<Rightarrow> net_world \<Rightarrow> watcher \<times> net_world" where
  "setup_family os fam iw w =
     (case (iw_conf iw, iw_tun iw) of
        (Some c, Some luid) \<Rightarrow>
          (let w1 = unregister_all (iw_callbacks iw fam) w in
           case monitorDefaultRoutes os fam luid (MTU (Interface c) = 0) (hasDefaultRoute fam (Peers c))
                  (PinEndpointVia (Interface c)) w1 of
             (Inl e, m, w2) \<Rightarrow>
               (let iw1 = iw\<lparr>iw_callbacks := (iw_callbacks iw)(fam := []),
                             iw_monitor := (iw_monitor iw)(fam := None)\<rparr> in
                if is_pin_not_ready e then chainRetrySetup fam iw1 w2
                else (iw1\<lparr>iw_errors := iw_errors iw @ [(ErrorBindSocketsToDefaultRoutes, e)]\<rparr>, w2))
           | (Inr cbs, m, w2) \<Rightarrow>
               (let iw1 = iw\<lparr>iw_callbacks := (iw_callbacks iw)(fam := cbs),
                             iw_monitor := (iw_monitor iw)(fam := Some (hasDefaultRoute fam (Peers c), m))\<rparr> in
                case configureInterface os fam c luid w2 of
                  (Some (NetPanic p), c1, w3) \<Rightarrow> (iw1, net_act Crashed w3)
                | (Some e, c1, w3) \<Rightarrow>
                    (iw1\<lparr>iw_conf := Some c1, iw_errors := iw_errors iw @ [(ErrorSetNetConfig, e)]\<rparr>, w3)
                | (None, c1, w3) \<Rightarrow> (iw1\<lparr>iw_conf := Some c1\<rparr>, w3)))
      | _ \<Rightarrow> (iw, w))"

text \<open>The callback of \<open>watchInterface\<close>, on \<open>MibAddInstance\<close>.\<close>

definition interface_added ::
  "net_os \<Rightarrow> 64 word \<Rightarrow> family \<Rightarrow> watcher \<Rightarrow> net_world \<Rightarrow> watcher \<times> net_world"
where
  "interface_added os luid fam iw w =
     (case iw_tun iw of
        None \<Rightarrow> (iw\<lparr>iw_stored := iw_stored iw @ [(luid, fam)]\<rparr>, w)
      | Some ours \<Rightarrow> if luid \<noteq> ours then (iw, w) else setup_family os fam iw w)"

definition replay :: "net_os \<Rightarrow> 64 word \<Rightarrow> (64 word \<times> family) list \<Rightarrow> watcher \<times> net_world \<Rightarrow> watcher \<times> net_world" where
  "replay os luid events s =
     fold (\<lambda>(l, fam) (iw, w). if l = luid then setup_family os fam iw w else (iw, w)) events s"

definition Configure :: "net_os \<Rightarrow> config \<Rightarrow> 64 word \<Rightarrow> watcher \<Rightarrow> net_world \<Rightarrow> watcher \<times> net_world" where
  "Configure os c luid iw w =
     (let (iw1, w1) = replay os luid (iw_stored iw) (iw\<lparr>iw_conf := Some c, iw_tun := Some luid\<rparr>, w)
      in (iw1\<lparr>iw_stored := []\<rparr>, w1))"

text \<open>The goroutine of \<open>chainRetrySetup\<close>; \<open>chainPinRetrying\<close> forgets the family when it ends.\<close>

definition retry_task :: "net_os \<Rightarrow> family \<Rightarrow> string \<Rightarrow> watcher \<Rightarrow> net_world \<Rightarrow> watcher \<times> net_world" where
  "retry_task os fam via iw w =
     (case wait_for_pin os via 0 chainPinRetryTries w of
        (True, w1) \<Rightarrow> (let (iw1, w2) = setup_family os fam iw w1
                       in (iw1\<lparr>iw_retrying := (iw_retrying iw1)(fam := False)\<rparr>, w2))
      | (False, w1) \<Rightarrow> (iw\<lparr>iw_retrying := (iw_retrying iw)(fam := False)\<rparr>, w1))"

text \<open>
  A turn of a monitor after a notification; its error is not looked at. The closure holds the
  arguments of \<open>monitorDefaultRoutes\<close>; of these only \<open>blackholeWhenLoop\<close> can differ from what the
  configuration says later, since \<open>MaskSelf\<close> changes the allowed addresses in place.
\<close>

definition monitor_bump :: "net_os \<Rightarrow> family \<Rightarrow> watcher \<Rightarrow> net_world \<Rightarrow> watcher \<times> net_world" where
  "monitor_bump os fam iw w =
     (case (iw_monitor iw fam, iw_conf iw, iw_tun iw) of
        (Some (blackhole, m), Some c, Some luid) \<Rightarrow>
          (let (err, m1, w1) = monitor_turn os fam luid (MTU (Interface c) = 0) blackhole
                                 (PinEndpointVia (Interface c)) m w
           in (iw\<lparr>iw_monitor := (iw_monitor iw)(fam := Some (blackhole, m1))\<rparr>, w1))
      | _ \<Rightarrow> (iw, w))"

text \<open>
  The second critical section of \<open>Destroy\<close>; \<open>seen\<close> is the watcher as the first one read it. As many
  callbacks are taken off the lists as were read, whichever they are now.
\<close>

definition destroy_finish :: "watcher \<Rightarrow> watcher \<Rightarrow> net_world \<Rightarrow> watcher \<times> net_world" where
  "destroy_finish seen iw w =
     (let w1 = net_act DisableFirewall w;
          w2 = (case iw_tun seen of
                  None \<Rightarrow> w1
                | Some luid \<Rightarrow> if iw_tun iw = Some luid then net_act (FlushAll luid) w1 else w1)
      in (iw\<lparr>iw_interface := (if iw_interface seen = iw_interface iw then None else iw_interface iw),
             iw_callbacks := (\<lambda>fam. drop (length (iw_callbacks seen fam)) (iw_callbacks iw fam))\<rparr>, w2))"

section \<open>The callbacks Windows knows\<close>

text \<open>The registered callbacks that were not unregistered, read off the history.\<close>

definition effect ::
  "net_os \<Rightarrow> net_history \<Rightarrow> net_action \<Rightarrow> change_callback multiset \<Rightarrow> change_callback multiset"
where
  "effect os h a m =
     (case a of
        Register c \<Rightarrow> if n_fault os h a = None then add_mset c m else m
      | Unregister c \<Rightarrow> m - {#c#}
      | _ \<Rightarrow> m)"

fun live_rev :: "net_os \<Rightarrow> net_history \<Rightarrow> change_callback multiset" where
  "live_rev os [] = {#}"
| "live_rev os (a # r) = effect os (rev r) a (live_rev os r)"

definition live :: "net_os \<Rightarrow> net_history \<Rightarrow> change_callback multiset" where
  "live os h = live_rev os (rev h)"

definition listed :: "watcher \<Rightarrow> change_callback multiset" where
  "listed iw = (case iw_interface iw of None \<Rightarrow> {#} | Some cb \<Rightarrow> {#cb#})
     + mset (iw_callbacks iw INET) + mset (iw_callbacks iw INET6)"

lemma live_Nil [simp]: "live os [] = {#}"
  by (simp add: live_def)

lemma live_snoc:
  "live os (h @ [a]) = effect os h a (live os h)"
  "live os (h @ [a, b]) = effect os (h @ [a]) b (effect os h a (live os h))"
  "live os (h @ [a, b, c]) = effect os (h @ [a, b]) c (effect os (h @ [a]) b (effect os h a (live os h)))"
  by (simp_all add: live_def)

lemma effect_plain: "plain a \<Longrightarrow> effect os h a m = m"
  by (simp add: effect_def plain_def split: net_action.splits)

lemma effect_DeviceUp [simp]: "effect os h DeviceUp m = m"
  by (simp add: effect_def)

lemma live_plain:
  assumes "grows plain w w'"
  shows "live os (n_history w') = live os (n_history w)"
proof -
  have "list_all plain acts \<Longrightarrow> live os (h @ acts) = live os h" for h acts
  proof (induction acts rule: rev_induct)
    case (snoc a acts)
    then show ?case by (simp add: live_snoc effect_plain flip: append_assoc)
  qed simp
  then show ?thesis using assms by (auto simp: grows_def)
qed

lemma live_unregister_all [simp]:
  "live os (n_history (unregister_all cbs w)) = live os (n_history w) - mset cbs"
proof (induction cbs arbitrary: w)
  case (Cons c cbs)
  have "live os (n_history (unregister_all (c # cbs) w)) = live os (n_history w) - {#c#} - mset cbs"
    using Cons.IH [of "net_act (Unregister c) w"]
    by (simp add: unregister_all_def live_snoc effect_def)
  then show ?case by simp
qed (simp add: unregister_all_def)

lemma live_register_changes:
  assumes "register_changes os fam w = (r, w')"
  shows "live os (n_history w') = live os (n_history w) + (case r of Inl e \<Rightarrow> {#} | Inr cbs \<Rightarrow> mset cbs)"
    and "grows (\<lambda>a. a \<noteq> DeviceUp) w w'"
  using assms unfolding register_changes_def net_do_def Let_def
  by (auto simp: live_snoc effect_def split: option.splits intro!: grows_act_after)

lemma live_monitorDefaultRoutes:
  assumes "monitorDefaultRoutes os fam l auto bh via w = (r, m, w')"
  shows "live os (n_history w') = live os (n_history w) + (case r of Inl e \<Rightarrow> {#} | Inr cbs \<Rightarrow> mset cbs)
         \<and> grows (\<lambda>a. a \<noteq> DeviceUp) w w'"
proof -
  obtain e m1 w1 where t: "monitor_turn os fam l auto bh via new_monitor w = (e, m1, w1)"
    by (cases "monitor_turn os fam l auto bh via new_monitor w")
  have plain: "grows plain w w1" using t by (rule monitor_turn_grows)
  then have up: "grows (\<lambda>a. a \<noteq> DeviceUp) w w1" by (rule grows_mono) auto
  show ?thesis
  proof (cases e)
    case (Some x)
    then show ?thesis using assms t up live_plain [OF plain] by (auto simp: monitorDefaultRoutes_def)
  next
    case None
    then have "register_changes os fam w1 = (r, w')"
      using assms t by (simp add: monitorDefaultRoutes_def split: prod.splits)
    from live_register_changes [OF this] show ?thesis
      using live_plain [OF plain] up by (auto intro: grows_trans)
  qed
qed

text \<open>What every operation of the watcher keeps: the lists say what is registered.\<close>

definition keeps :: "net_os \<Rightarrow> watcher \<Rightarrow> net_world \<Rightarrow> watcher \<times> net_world \<Rightarrow> bool" where
  "keeps os iw w s \<longleftrightarrow>
     (live os (n_history w) = listed iw \<longrightarrow> live os (n_history (snd s)) = listed (fst s))
     \<and> grows (\<lambda>a. a \<noteq> DeviceUp) w (snd s)"

lemma keeps_refl [simp]: "keeps os iw w (iw, w)"
  by (simp add: keeps_def)

lemma keeps_trans: "keeps os iw w s \<Longrightarrow> keeps os (fst s) (snd s) t \<Longrightarrow> keeps os iw w t"
  by (auto simp: keeps_def intro: grows_trans)

lemma keeps_plain:
  assumes "grows plain w w'" "listed iw' = listed iw"
  shows "keeps os iw w (iw', w')"
proof -
  have "grows (\<lambda>a. a \<noteq> DeviceUp) w w'" using assms(1) by (rule grows_mono) auto
  then show ?thesis using assms live_plain [OF assms(1)] by (simp add: keeps_def)
qed

lemma unregister_all_grows: "grows (\<lambda>a. a \<noteq> DeviceUp) w (unregister_all cbs w)"
  unfolding unregister_all_def by (rule grows_fold) simp

lemma keeps_chainRetrySetup: "keeps os iw w (chainRetrySetup fam iw w)"
  unfolding chainRetrySetup_def Let_def by (auto intro!: keeps_plain simp: listed_def)

lemma keeps_setup: "keeps os iw w (setup_family os fam iw w)"
proof (cases "iw_conf iw = None \<or> iw_tun iw = None")
  case True
  then show ?thesis by (auto simp: setup_family_def split: option.splits)
next
  case False
  then obtain c l where cl: "iw_conf iw = Some c" "iw_tun iw = Some l" by auto
  define w1 where "w1 = unregister_all (iw_callbacks iw fam) w"
  obtain r m w2 where m: "monitorDefaultRoutes os fam l (MTU (Interface c) = 0) (hasDefaultRoute fam (Peers c))
      (PinEndpointVia (Interface c)) w1 = (r, m, w2)"
    by (cases "monitorDefaultRoutes os fam l (MTU (Interface c) = 0) (hasDefaultRoute fam (Peers c))
      (PinEndpointVia (Interface c)) w1")
  note lm = live_monitorDefaultRoutes [OF m]
  have up: "grows (\<lambda>a. a \<noteq> DeviceUp) w w2"
    using unregister_all_grows lm unfolding w1_def by (blast intro: grows_trans)
  show ?thesis
  proof (cases r)
    case (Inl e)
    define iw1 where "iw1 = iw\<lparr>iw_callbacks := (iw_callbacks iw)(fam := []), iw_monitor := (iw_monitor iw)(fam := None)\<rparr>"
    have "listed iw1 = listed iw - mset (iw_callbacks iw fam)"
      unfolding iw1_def by (cases fam) (simp_all add: listed_def)
    then have k: "keeps os iw w (iw1, w2)" using lm up Inl by (auto simp: keeps_def w1_def)
    have "setup_family os fam iw w = (if is_pin_not_ready e then chainRetrySetup fam iw1 w2
        else (iw1\<lparr>iw_errors := iw_errors iw @ [(ErrorBindSocketsToDefaultRoutes, e)]\<rparr>, w2))"
      using cl m Inl by (simp add: setup_family_def w1_def iw1_def)
    moreover have "keeps os iw w (iw1\<lparr>iw_errors := es\<rparr>, w2)" for es
      using k by (simp add: keeps_def listed_def)
    ultimately show ?thesis using keeps_trans [OF k, of "chainRetrySetup fam iw1 w2"] keeps_chainRetrySetup
      by simp
  next
    case (Inr cbs)
    define iw1 where "iw1 = iw\<lparr>iw_callbacks := (iw_callbacks iw)(fam := cbs),
      iw_monitor := (iw_monitor iw)(fam := Some (hasDefaultRoute fam (Peers c), m))\<rparr>"
    obtain e c1 w3 where conf: "configureInterface os fam c l w2 = (e, c1, w3)"
      by (cases "configureInterface os fam c l w2")
    have "listed iw1 = listed iw - mset (iw_callbacks iw fam) + mset cbs"
      unfolding iw1_def by (cases fam) (simp_all add: listed_def)
    then have "keeps os iw w (iw1, w2)" using lm up Inr by (auto simp: keeps_def w1_def)
    moreover have "keeps os iw1 w2 (iw2, w3)" if "listed iw2 = listed iw1" for iw2
      using configureInterface_grows [OF conf] that by (rule keeps_plain)
    ultimately have "keeps os iw w (iw2, w3)" if "listed iw2 = listed iw1" for iw2
      using that by (metis keeps_trans fst_conv snd_conv)
    moreover have "keeps os iw w (iw1, net_act Crashed w3)"
      using calculation [of iw1] by (auto simp: keeps_def live_snoc effect_plain intro: grows_act_after)
    moreover have "setup_family os fam iw w =
        (case e of
           None \<Rightarrow> (iw1\<lparr>iw_conf := Some c1\<rparr>, w3)
         | Some (NetPanic p) \<Rightarrow> (iw1, net_act Crashed w3)
         | Some x \<Rightarrow> (iw1\<lparr>iw_conf := Some c1, iw_errors := iw_errors iw @ [(ErrorSetNetConfig, x)]\<rparr>, w3))"
      using cl m Inr conf by (simp add: setup_family_def w1_def iw1_def Let_def split: option.splits net_error.splits)
    ultimately show ?thesis by (auto simp: listed_def split: option.splits net_error.splits)
  qed
qed

lemma keeps_interface_added: "keeps os iw w (interface_added os l fam iw w)"
  unfolding interface_added_def
  by (auto split: option.splits intro: keeps_setup keeps_plain simp: listed_def)

lemma keeps_replay: "keeps os (fst s) (snd s) (replay os l events s)"
proof (induction events arbitrary: s)
  case Nil
  then show ?case using keeps_refl [of os "fst s" "snd s"] by (simp add: replay_def)
next
  case (Cons ev events)
  obtain l' fam where ev: "ev = (l', fam)" by (cases ev)
  define s1 where "s1 = (if l' = l then setup_family os fam (fst s) (snd s) else s)"
  have "keeps os (fst s) (snd s) s1" using keeps_refl [of os "fst s" "snd s"] by (simp add: s1_def keeps_setup)
  moreover have "replay os l (ev # events) s = replay os l events s1"
    by (simp add: replay_def ev s1_def split_beta)
  ultimately show ?case using keeps_trans Cons.IH by metis
qed

lemma keeps_Configure: "keeps os iw w (Configure os c l iw w)"
proof -
  define iw0 where "iw0 = iw\<lparr>iw_conf := Some c, iw_tun := Some l\<rparr>"
  have "keeps os iw0 w (replay os l (iw_stored iw) (iw0, w))"
    using keeps_replay [of os "(iw0, w)"] by simp
  moreover have "listed iw0 = listed iw" by (simp add: iw0_def listed_def)
  ultimately show ?thesis
    by (auto simp: Configure_def keeps_def listed_def split_beta simp flip: iw0_def)
qed

lemma keeps_retry_task: "keeps os iw w (retry_task os fam via iw w)"
proof -
  obtain r w1 where wait: "wait_for_pin os via 0 chainPinRetryTries w = (r, w1)"
    by (cases "wait_for_pin os via 0 chainPinRetryTries w")
  have k: "keeps os iw w (iw, w1)" using wait_for_pin_grows [OF wait] by (rule keeps_plain) simp
  have "keeps os iw w (setup_family os fam iw w1)"
    using keeps_trans [OF k, of "setup_family os fam iw w1"] keeps_setup by simp
  then show ?thesis using k by (cases r) (auto simp: retry_task_def wait keeps_def listed_def split_beta)
qed

lemma keeps_monitor_bump: "keeps os iw w (monitor_bump os fam iw w)"
  unfolding monitor_bump_def
  by (auto split: option.splits prod.splits intro!: keeps_plain monitor_turn_grows simp: listed_def)

lemma destroy_finish_grows: "destroy_finish seen iw w = (iw', w') \<Longrightarrow> grows plain w w'"
  unfolding destroy_finish_def Let_def by (auto split: option.splits if_splits intro: grows_act_after)

text \<open>A callback that is not registered anew is gone once it was unregistered often enough.\<close>

lemma live_unregistered:
  assumes "Register c \<notin> set acts"
  shows "count (live os (h @ acts)) c \<le> count (live os h) c - count_list acts (Unregister c)"
  using assms
proof (induction acts rule: rev_induct)
  case (snoc a acts)
  then have IH: "count (live os (h @ acts)) c \<le> count (live os h) c - count_list acts (Unregister c)" by simp
  have "live os (h @ acts @ [a]) = effect os (h @ acts) a (live os (h @ acts))"
    using live_snoc(1) [of os "h @ acts" a] by simp
  moreover have "count (effect os g a m) c = count m c - (if a = Unregister c then 1 else 0)" for g m
    using snoc.prems by (auto simp: effect_def split: net_action.splits)
  ultimately have "count (live os (h @ acts @ [a])) c = count (live os (h @ acts)) c - (if a = Unregister c then 1 else 0)"
    by simp
  moreover have "count_list (acts @ [a]) (Unregister c)
      = count_list acts (Unregister c) + (if a = Unregister c then 1 else 0)" by simp
  ultimately show ?case using IH by linarith
qed simp

lemma live_registered:
  assumes "\<forall>c. count (live os h) c \<le> count_list acts (Unregister c)" and "c \<in># live os (h @ acts)"
  shows "Register c \<in> set acts"
proof (rule ccontr)
  assume "Register c \<notin> set acts"
  from live_unregistered [OF this, of os h] have "count (live os (h @ acts)) c = 0"
    using assms(1) by (simp add: le_diff_iff)
  then show False using assms(2) by (simp add: count_greater_zero_iff [symmetric])
qed

end
