(* ===== verification/TunnelGUID.thy ===== *)
theory TunnelGUID
  imports TunnelNet "HOL-Library.Product_Lexorder" "HOL-Library.Multiset"
begin

text \<open>
  \<open>upstream-tunnel/deterministicguid.go\<close>: the GUID of a tunnel's adapter is the BLAKE2s hash of an
  encoding of its configuration. BLAKE2s, Unicode normalisation and the public key of a private
  key are parameters. The sorts work on the configuration's own slices, so that the function
  also returns the reordered configuration.
\<close>

record guid_env =
  ge_hash :: "bytes \<Rightarrow> bytes"
  ge_nfc :: "string \<Rightarrow> string"
  ge_public :: "key \<Rightarrow> key"
  ge_fixed :: bool

definition string_bytes :: "string \<Rightarrow> bytes" where
  "string_bytes s = map (\<lambda>c. of_nat (of_char c)) s"

definition deterministicGUIDLabel :: string where
  "deterministicGUIDLabel = ''Deterministic WireGuard Windows GUID v1 jason@zx2c4.com''"

definition fixedGUIDLabel :: string where
  "fixedGUIDLabel = ''Fixed WireGuard Windows GUID v1 jason@zx2c4.com''"

text \<open>Four bytes, little endian; \<open>None\<close> is the panic on a length over 32 bits.\<close>

definition b2Number :: "nat \<Rightarrow> bytes option" where
  "b2Number i =
     (if 2 ^ 32 \<le> i then None
      else Some [of_nat i, of_nat (i div 2 ^ 8), of_nat (i div 2 ^ 16), of_nat (i div 2 ^ 24)])"

definition b2String :: "guid_env \<Rightarrow> string \<Rightarrow> bytes option" where
  "b2String ge s =
     (let bs = string_bytes (ge_nfc ge s) in map_option (\<lambda>n. n @ bs) (b2Number (length bs)))"

definition allowed_key :: "ipcidr \<Rightarrow> nat \<times> 8 word \<times> ip" where
  "allowed_key a = (ipcidr_bits a, Cidr a, IP a)"

definition sort_allowed :: "peer \<Rightarrow> peer" where
  "sort_allowed p = p\<lparr>AllowedIPs := sort_key allowed_key (AllowedIPs p)\<rparr>"

definition sort_config :: "config \<Rightarrow> config" where
  "sort_config c = c\<lparr>Peers := map sort_allowed (sort_key PublicKey (Peers c))\<rparr>"

definition cat_options :: "bytes option list \<Rightarrow> bytes option" where
  "cat_options os = map_option concat (those os)"

definition peer_input :: "guid_env \<Rightarrow> peer \<Rightarrow> bytes option" where
  "peer_input ge p =
     cat_options ([Some (PublicKey p), b2Number (length (AllowedIPs p))]
                  @ map (\<lambda>a. b2String ge (ipcidr_string a)) (AllowedIPs p))"

definition guid_input :: "guid_env \<Rightarrow> config \<Rightarrow> bytes option" where
  "guid_input ge c =
     (if ge_fixed ge
      then cat_options [Some (string_bytes fixedGUIDLabel), b2String ge (Name c)]
      else cat_options ([Some (string_bytes deterministicGUIDLabel), b2String ge (Name c),
                         Some (ge_public ge (PrivateKey (Interface c))), b2Number (length (Peers c))]
                        @ map (peer_input ge) (Peers (sort_config c))))"

definition deterministicGUID :: "guid_env \<Rightarrow> config \<Rightarrow> (bytes \<times> config) option" where
  "deterministicGUID ge c =
     map_option (\<lambda>i. (take 16 (ge_hash ge i), if ge_fixed ge then c else sort_config c)) (guid_input ge c)"

section \<open>The encoding can be read back\<close>

lemma cat_options_simps [simp]:
  "cat_options [] = Some []"
  "cat_options (None # os) = None"
  "cat_options (Some x # os) = map_option ((@) x) (cat_options os)"
  by (simp_all add: cat_options_def option.map_comp comp_def)

lemma cat_options_Cons:
  "cat_options (a # os) = Some z \<longleftrightarrow> (\<exists>x y. a = Some x \<and> cat_options os = Some y \<and> z = x @ y)"
  by (cases a) auto

lemma byte_eq: "(of_nat a :: 8 word) = of_nat b \<longleftrightarrow> a mod 256 = b mod 256"
  by (simp add: word_of_nat_eq_iff take_bit_eq_mod)

lemma string_bytes_inj: "string_bytes s = string_bytes t \<Longrightarrow> s = t"
proof -
  have "(of_char c :: nat) < 256" for c :: char using nat_of_char_less_256 by simp
  then have "c = d" if "of_nat (of_char c) = (of_nat (of_char d) :: 8 word)" for c d :: char
    using that by (simp add: byte_eq)
  then have "inj (\<lambda>c :: char. of_nat (of_char c) :: 8 word)" by (auto intro: injI)
  then show "string_bytes s = string_bytes t \<Longrightarrow> s = t"
    unfolding string_bytes_def by (simp add: inj_map_eq_map)
qed

lemma b2Number_length: "b2Number i = Some x \<Longrightarrow> length x = 4"
  by (auto simp: b2Number_def split: if_splits)

lemma b2Number_inj:
  assumes "b2Number i = Some x" "b2Number j = Some x"
  shows "i = j"
proof -
  have small: "i < 2 ^ 32" "j < 2 ^ 32" using assms by (auto simp: b2Number_def split: if_splits)
  have eqs: "i mod 256 = j mod 256" "i div 2 ^ 8 mod 256 = j div 2 ^ 8 mod 256"
      "i div 2 ^ 16 mod 256 = j div 2 ^ 16 mod 256" "i div 2 ^ 24 = j div 2 ^ 24"
    using assms by (auto simp: b2Number_def byte_eq less_mult_imp_div_less split: if_splits)
  have step: "m = n" if "m mod 256 = n mod 256" "m div 256 = n div 256" for m n :: nat
    using that by (metis div_mult_mod_eq)
  have divs: "n div 2 ^ 16 = n div 2 ^ 8 div 256" "n div 2 ^ 24 = n div 2 ^ 16 div 256" for n :: nat
    by (simp_all flip: div_mult2_eq)
  have "i div 2 ^ 16 = j div 2 ^ 16" using step [OF eqs(3)] eqs(4) divs(2) by simp
  then have "i div 2 ^ 8 = j div 2 ^ 8" using step [OF eqs(2)] divs(1) by simp
  then show ?thesis using step [OF eqs(1)] by simp
qed

text \<open>What is read back from the front of an encoding, and what is left of it.\<close>

lemma b2String_prefix:
  assumes "b2String ge s = Some x" "b2String ge t = Some y" "x @ r = y @ r'"
  shows "ge_nfc ge s = ge_nfc ge t \<and> r = r'"
proof -
  obtain m n where mn: "b2Number (length (ge_nfc ge s)) = Some m" "b2Number (length (ge_nfc ge t)) = Some n"
    and xy: "x = m @ string_bytes (ge_nfc ge s)" "y = n @ string_bytes (ge_nfc ge t)"
    using assms(1,2) by (auto simp: b2String_def Let_def string_bytes_def)
  then have "m = n" using assms(3) b2Number_length by (metis append.assoc append_eq_append_conv)
  then have "length (ge_nfc ge s) = length (ge_nfc ge t)" using mn b2Number_inj by metis
  then have "length (string_bytes (ge_nfc ge s)) = length (string_bytes (ge_nfc ge t))"
    by (simp add: string_bytes_def)
  then show ?thesis using assms(3) xy \<open>m = n\<close> string_bytes_inj by auto
qed

lemma cat_map_prefix:
  assumes code: "\<And>a b x y r r'. a \<in> set as \<Longrightarrow> b \<in> set bs \<Longrightarrow> f a = Some x \<Longrightarrow> f b = Some y \<Longrightarrow>
      x @ r = y @ r' \<Longrightarrow> g a = g b \<and> r = r'"
    and "length as = length bs" "cat_options (map f as) = Some x" "cat_options (map f bs) = Some y"
    and "x @ r = y @ r'"
  shows "map g as = map g bs \<and> r = r'"
  using assms(2-5) code
proof (induction as bs arbitrary: x y rule: list_induct2)
  case (Cons a as b bs)
  obtain x1 x2 y1 y2 where p: "f a = Some x1" "cat_options (map f as) = Some x2" "x = x1 @ x2"
      "f b = Some y1" "cat_options (map f bs) = Some y2" "y = y1 @ y2"
    using Cons.prems(1,2) by (auto simp: cat_options_Cons)
  have "g a = g b \<and> x2 @ r = y2 @ r'"
    using Cons.prems(4) [OF _ _ p(1,4)] Cons.prems(3) p by simp
  moreover have "map g as = map g bs \<and> r = r'" if "x2 @ r = y2 @ r'"
    by (rule Cons.IH [OF p(2,5) that]) (rule Cons.prems(4), simp_all)
  ultimately show ?case by simp
qed simp

definition allowed_texts :: "guid_env \<Rightarrow> peer \<Rightarrow> string list" where
  "allowed_texts ge p = map (\<lambda>a. ge_nfc ge (ipcidr_string a)) (AllowedIPs p)"

lemma peer_input_prefix:
  assumes "peer_input ge p = Some x" "peer_input ge q = Some y" "x @ r = y @ r'"
    and "length (PublicKey p) = length (PublicKey q)"
  shows "(PublicKey p, allowed_texts ge p) = (PublicKey q, allowed_texts ge q) \<and> r = r'"
proof -
  let ?f = "\<lambda>a. b2String ge (ipcidr_string a)"
  obtain m x1 n y1 where p: "b2Number (length (AllowedIPs p)) = Some m" "cat_options (map ?f (AllowedIPs p)) = Some x1"
      "x = PublicKey p @ m @ x1"
    and q: "b2Number (length (AllowedIPs q)) = Some n" "cat_options (map ?f (AllowedIPs q)) = Some y1"
      "y = PublicKey q @ n @ y1"
    using assms(1,2) by (auto simp: peer_input_def cat_options_Cons)
  have key: "PublicKey p = PublicKey q" "m @ x1 @ r = n @ y1 @ r'"
    using assms(3,4) p(3) q(3) by simp_all
  then have "m = n" "x1 @ r = y1 @ r'" using b2Number_length [OF p(1)] b2Number_length [OF q(1)] by simp_all
  note rest = this
  have len: "length (AllowedIPs p) = length (AllowedIPs q)" using p(1) q(1) rest(1) b2Number_inj by metis
  have "map (\<lambda>a. ge_nfc ge (ipcidr_string a)) (AllowedIPs p)
          = map (\<lambda>a. ge_nfc ge (ipcidr_string a)) (AllowedIPs q) \<and> r = r'"
    using _ len p(2) q(2) rest(2) by (rule cat_map_prefix) (rule b2String_prefix)
  then show ?thesis using key(1) by (simp add: allowed_texts_def)
qed

section \<open>Order does not matter\<close>

lemma sort_key_mset_eq:
  assumes "mset xs = mset ys" "inj_on k (set xs)"
  shows "sort_key k xs = sort_key k ys"
proof (rule sort_key_inj_key_eq)
  show "mset xs = mset (sort_key k ys)" using assms(1) by simp
  show "inj_on k (set xs)" by (rule assms(2))
  show "sorted (map k (sort_key k ys))" by simp
qed

lemma insort_key_map: "insort_key k (g x) (map g xs) = map g (insort_key (\<lambda>x. k (g x)) x xs)"
  by (induction xs) simp_all

lemma sort_key_map: "sort_key k (map g xs) = map g (sort_key (\<lambda>x. k (g x)) xs)"
  by (induction xs) (simp_all add: insort_key_map)

lemma allowed_key_inj: "inj allowed_key"
  by (auto simp: inj_def allowed_key_def intro: ipcidr.equality)

lemma sort_allowed_mset:
  "mset as = mset bs \<Longrightarrow> sort_key allowed_key as = sort_key allowed_key bs"
  by (rule sort_key_mset_eq) (simp_all add: inj_on_subset [OF allowed_key_inj])

text \<open>What the encoding holds of a peer: its key and its allowed prefixes, in any order.\<close>

definition peer_content :: "peer \<Rightarrow> key \<times> ipcidr multiset" where
  "peer_content p = (PublicKey p, mset (AllowedIPs p))"

definition guid_content :: "guid_env \<Rightarrow> config \<Rightarrow> string \<times> key \<times> (key \<times> ipcidr multiset) multiset" where
  "guid_content ge c =
     (ge_nfc ge (Name c), ge_public ge (PrivateKey (Interface c)), mset (map peer_content (Peers c)))"

definition sorted_content :: "peer \<Rightarrow> key \<times> ipcidr list" where
  "sorted_content p = (PublicKey p, sort_key allowed_key (AllowedIPs p))"

lemma sorted_content_cong: "peer_content p = peer_content q \<Longrightarrow> sorted_content p = sorted_content q"
  by (auto simp: peer_content_def sorted_content_def intro: sort_allowed_mset)

lemma sorted_contents_eq:
  assumes "mset (map peer_content ps) = mset (map peer_content qs)" "distinct (map PublicKey ps)"
  shows "map sorted_content (sort_key PublicKey ps) = map sorted_content (sort_key PublicKey qs)"
proof -
  define lift where "lift c = sorted_content (SOME p. peer_content p = c)" for c
  have lift: "lift (peer_content p) = sorted_content p" for p
    unfolding lift_def by (rule sorted_content_cong) (rule someI [of "\<lambda>q. peer_content q = peer_content p" p], rule refl)
  have "mset (map sorted_content ps) = image_mset lift (mset (map peer_content ps))"
    by (simp add: lift multiset.map_comp comp_def)
  also have "\<dots> = mset (map sorted_content qs)"
    unfolding assms(1) by (simp add: lift multiset.map_comp comp_def)
  finally have "mset (map sorted_content ps) = mset (map sorted_content qs)" .
  moreover have "inj_on fst (set (map sorted_content ps))"
    using assms(2) by (auto simp: inj_on_def distinct_map sorted_content_def)
  ultimately have "sort_key fst (map sorted_content ps) = sort_key fst (map sorted_content qs)"
    by (rule sort_key_mset_eq)
  then show ?thesis by (simp add: sort_key_map sorted_content_def)
qed

lemma peer_input_content:
  "peer_input ge (sort_allowed p) =
     (\<lambda>(k, as). cat_options ([Some k, b2Number (length as)] @ map (\<lambda>a. b2String ge (ipcidr_string a)) as))
       (sorted_content p)"
  by (simp add: peer_input_def sort_allowed_def sorted_content_def)

section \<open>The encoding says exactly that\<close>

text \<open>Normalisation leaves printable ASCII text as it is.\<close>

definition nfc_ascii :: "guid_env \<Rightarrow> bool" where
  "nfc_ascii ge \<longleftrightarrow> (\<forall>s. list_all is_graphic s \<longrightarrow> ge_nfc ge s = s)"

lemma ipcidr_string_graphic:
  assumes "wf_ipcidr a"
  shows "list_all is_graphic (ipcidr_string a)"
proof -
  have "list_all is_graphic (ip_string (IP a))"
    using ip_string_chars [OF wf_ipcidr_length [OF assms]] hex_graphic
    by (fastforce simp: list_all_iff is_graphic_def)
  then show ?thesis using dec_graphic by (simp add: ipcidr_string_def is_graphic_def)
qed

lemma allowed_texts_inj:
  assumes "nfc_ascii ge" "list_all wf_ipcidr (AllowedIPs p)" "list_all wf_ipcidr (AllowedIPs q)"
    and "allowed_texts ge p = allowed_texts ge q"
  shows "AllowedIPs p = AllowedIPs q"
proof -
  have texts: "allowed_texts ge x = map ipcidr_string (AllowedIPs x)" if "list_all wf_ipcidr (AllowedIPs x)" for x
    using assms(1) that ipcidr_string_graphic by (auto simp: allowed_texts_def nfc_ascii_def list_all_iff)
  have "inj_on ipcidr_string (Collect wf_ipcidr)"
    by (rule inj_onI) (metis mem_Collect_eq parseIPCidr_string sum.inject(2) option.inject)
  moreover have "set (AllowedIPs p) \<union> set (AllowedIPs q) \<subseteq> Collect wf_ipcidr"
    using assms(2,3) by (auto simp: list_all_iff)
  ultimately show ?thesis using assms texts map_inj_on by (metis (no_types, lifting) inj_on_subset)
qed

definition guid_ready :: "config \<Rightarrow> bool" where
  "guid_ready c \<longleftrightarrow>
     distinct (map PublicKey (Peers c))
     \<and> list_all (\<lambda>p. length (PublicKey p) = KeyLength \<and> list_all wf_ipcidr (AllowedIPs p)) (Peers c)"

lemma guid_input_parts:
  assumes "\<not> ge_fixed ge" "guid_input ge c = Some x"
  obtains n k ps where "b2String ge (Name c) = Some n" "b2Number (length (Peers c)) = Some k"
    "cat_options (map (peer_input ge) (Peers (sort_config c))) = Some ps"
    "x = string_bytes deterministicGUIDLabel @ n @ ge_public ge (PrivateKey (Interface c)) @ k @ ps"
  using assms by (auto simp: guid_input_def cat_options_Cons)

lemma sort_config_content: "mset (map peer_content (Peers (sort_config c))) = mset (map peer_content (Peers c))"
proof -
  have "peer_content (sort_allowed p) = peer_content p" for p
    by (simp add: peer_content_def sort_allowed_def)
  then have "map peer_content (Peers (sort_config c)) = map peer_content (sort_key PublicKey (Peers c))"
    by (simp add: sort_config_def)
  then show ?thesis by simp
qed

lemma sort_config_ready: "guid_ready c \<Longrightarrow> p \<in> set (Peers (sort_config c)) \<Longrightarrow>
    length (PublicKey p) = KeyLength \<and> list_all wf_ipcidr (AllowedIPs p)"
  by (auto simp: guid_ready_def sort_config_def sort_allowed_def list_all_iff)

lemma equal_inputs:
  assumes ge: "\<not> ge_fixed ge" "nfc_ascii ge" "\<And>k. length (ge_public ge k) = KeyLength"
    and ready: "guid_ready c" "guid_ready d"
    and input: "guid_input ge c = Some x" "guid_input ge d = Some x"
  shows "guid_content ge c = guid_content ge d"
proof -
  obtain n k ps where c: "b2String ge (Name c) = Some n" "b2Number (length (Peers c)) = Some k"
    "cat_options (map (peer_input ge) (Peers (sort_config c))) = Some ps"
    "x = string_bytes deterministicGUIDLabel @ n @ ge_public ge (PrivateKey (Interface c)) @ k @ ps"
    using ge(1) input(1) by (rule guid_input_parts)
  obtain n' k' ps' where d: "b2String ge (Name d) = Some n'" "b2Number (length (Peers d)) = Some k'"
    "cat_options (map (peer_input ge) (Peers (sort_config d))) = Some ps'"
    "x = string_bytes deterministicGUIDLabel @ n' @ ge_public ge (PrivateKey (Interface d)) @ k' @ ps'"
    using ge(1) input(2) by (rule guid_input_parts)
  have names: "ge_nfc ge (Name c) = ge_nfc ge (Name d)"
    and keys: "ge_public ge (PrivateKey (Interface c)) @ k @ ps = ge_public ge (PrivateKey (Interface d)) @ k' @ ps'"
    using b2String_prefix [OF c(1) d(1)] c(4) d(4) by (metis same_append_eq)+
  then have public: "ge_public ge (PrivateKey (Interface c)) = ge_public ge (PrivateKey (Interface d))"
    and "k @ ps = k' @ ps'"
    using ge(3) by (metis append_eq_append_conv)+
  then have "k = k'" "ps = ps'" using b2Number_length [OF c(2)] b2Number_length [OF d(2)] by simp_all
  have "length (Peers c) = length (Peers d)" using c(2) d(2) \<open>k = k'\<close> b2Number_inj by metis
  then have len: "length (Peers (sort_config c)) = length (Peers (sort_config d))" by (simp add: sort_config_def)
  let ?g = "\<lambda>p. (PublicKey p, allowed_texts ge p)"
  have "map ?g (Peers (sort_config c)) = map ?g (Peers (sort_config d)) \<and> ([] :: bytes) = []"
    using _ len c(3) d(3)
  proof (rule cat_map_prefix)
    show "ps @ [] = ps' @ []" using \<open>ps = ps'\<close> by simp
  next
    fix p q x y and r r' :: bytes
    assume "p \<in> set (Peers (sort_config c))" "q \<in> set (Peers (sort_config d))"
      "peer_input ge p = Some x" "peer_input ge q = Some y" "x @ r = y @ r'"
    then show "?g p = ?g q \<and> r = r'"
      using peer_input_prefix sort_config_ready [OF ready(1)] sort_config_ready [OF ready(2)] by metis
  qed
  then have texts: "map ?g (Peers (sort_config c)) = map ?g (Peers (sort_config d))" by blast
  have "map peer_content (Peers (sort_config c)) = map peer_content (Peers (sort_config d))"
  proof (rule nth_equalityI)
    fix i assume "i < length (map peer_content (Peers (sort_config c)))"
    then have i: "i < length (Peers (sort_config c))" "i < length (Peers (sort_config d))" using len by simp_all
    let ?p = "Peers (sort_config c) ! i" and ?q = "Peers (sort_config d) ! i"
    have "?g ?p = ?g ?q" using arg_cong [OF texts, of "\<lambda>xs. xs ! i"] i by simp
    moreover have "list_all wf_ipcidr (AllowedIPs ?p)" "list_all wf_ipcidr (AllowedIPs ?q)"
      using sort_config_ready ready i nth_mem by blast+
    ultimately have "PublicKey ?p = PublicKey ?q" "AllowedIPs ?p = AllowedIPs ?q"
      using allowed_texts_inj [OF ge(2)] by auto
    then show "map peer_content (Peers (sort_config c)) ! i = map peer_content (Peers (sort_config d)) ! i"
      using i by (simp add: peer_content_def)
  qed (use len in simp)
  then have "mset (map peer_content (Peers c)) = mset (map peer_content (Peers d))"
    using sort_config_content by metis
  then show ?thesis using names public by (simp add: guid_content_def)
qed

lemma equal_contents:
  assumes "\<not> ge_fixed ge" "guid_ready c" "guid_content ge c = guid_content ge d"
  shows "guid_input ge c = guid_input ge d"
proof -
  have eq: "ge_nfc ge (Name c) = ge_nfc ge (Name d)"
    "ge_public ge (PrivateKey (Interface c)) = ge_public ge (PrivateKey (Interface d))"
    "mset (map peer_content (Peers c)) = mset (map peer_content (Peers d))"
    using assms(3) by (simp_all add: guid_content_def)
  have "length (Peers c) = length (Peers d)" using mset_eq_length [OF eq(3)] by simp
  moreover have "map (peer_input ge) (Peers (sort_config c)) = map (peer_input ge) (Peers (sort_config d))"
  proof -
    let ?f = "\<lambda>(k, as). cat_options ([Some k, b2Number (length as)]
                 @ map (\<lambda>a. b2String ge (ipcidr_string a)) as)"
    have inputs: "map (peer_input ge) (Peers (sort_config x))
        = map ?f (map sorted_content (sort_key PublicKey (Peers x)))" for x
      by (simp add: sort_config_def peer_input_content)
    have "map sorted_content (sort_key PublicKey (Peers c)) = map sorted_content (sort_key PublicKey (Peers d))"
      using sorted_contents_eq [OF eq(3)] assms(2) by (simp add: guid_ready_def)
    then show ?thesis by (simp only: inputs)
  qed
  moreover have "b2String ge (Name c) = b2String ge (Name d)" using eq(1) by (simp add: b2String_def)
  ultimately show ?thesis using assms(1) eq(2) by (simp add: guid_input_def)
qed

end
