(* ===== verification/TunnelService.thy ===== *)
theory TunnelService
  imports TunnelWatcher TunnelGUID
begin

text \<open>
  \<open>Execute\<close> of \<open>upstream-tunnel/service.go\<close> and \<open>scriptrunner.go\<close>: a tunnel from its start to its end.
  The start is a list of stages, each with the early return of the code; the goroutines and the
  notifications of Windows take their turns between stages, in the loop and all through the end
  (\<open>background\<close>), also while \<open>Destroy\<close> of the watcher has released its mutex.
  The process that prints its stack and exits when the shutdown hangs is left out.
\<close>

record tunnel_env =
  te_os :: net_os
  te_store :: store_env
  te_files :: "net_history \<Rightarrow> directory"
  te_order :: "string list"
  te_resolve :: "net_history \<Rightarrow> string \<Rightarrow> net_error + string"
  te_guid :: guid_env
  te_locked :: "net_history \<Rightarrow> bool"
  te_booted :: "net_history \<Rightarrow> bool"
  te_luid :: "net_history \<Rightarrow> 64 word"
  te_scripts :: bool
  te_script :: "net_history \<Rightarrow> string \<Rightarrow> net_error + 32 word"

record service =
  sv_world :: net_world
  sv_config :: "config option"
  sv_uapi_conf :: string
  sv_watcher :: "watcher option"
  sv_tun :: "64 word option"
  sv_dev :: bool
  sv_uapi :: bool

definition new_service :: service where
  "new_service =
     \<lparr> sv_world = \<lparr> n_history = [], n_tasks = [] \<rparr>, sv_config = None, sv_uapi_conf = [], sv_watcher = None,
       sv_tun = None, sv_dev = False, sv_uapi = False \<rparr>"

type_synonym failure = "(service_error \<times> net_error) option"
type_synonym stage = "tunnel_env \<Rightarrow> service \<Rightarrow> failure \<times> service"

section \<open>Scripts\<close>

definition runScriptCommand :: "tunnel_env \<Rightarrow> string \<Rightarrow> string \<Rightarrow> net_world \<Rightarrow> net_error option \<times> net_world" where
  "runScriptCommand env command name w =
     (if command = [] then (None, w)
      else if \<not> te_scripts env then (None, w)
      else (case te_script env (n_history w) command of
              Inl e \<Rightarrow> (Some e, net_act (RunScript command name) w)
            | Inr code \<Rightarrow> (if code = 0 then None else Some CommandFailed, net_act (RunScript command name) w)))"

section \<open>What runs beside the service\<close>

datatype background = Added "64 word" family | Bump family | TaskTurn nat

definition on_watcher ::
  "(watcher \<Rightarrow> net_world \<Rightarrow> watcher \<times> net_world) \<Rightarrow> service \<Rightarrow> service"
where
  "on_watcher f sv =
     (case sv_watcher sv of
        None \<Rightarrow> sv
      | Some iw \<Rightarrow> (let (iw1, w1) = f iw (sv_world sv) in sv\<lparr>sv_watcher := Some iw1, sv_world := w1\<rparr>))"

definition drop_task :: "nat \<Rightarrow> net_world \<Rightarrow> net_world" where
  "drop_task i w = w\<lparr>n_tasks := take i (n_tasks w) @ drop (Suc i) (n_tasks w)\<rparr>"

definition run_background :: "tunnel_env \<Rightarrow> background \<Rightarrow> service \<Rightarrow> service" where
  "run_background env b sv =
     (case b of
        Added luid fam \<Rightarrow> on_watcher (interface_added (te_os env) luid fam) sv
      | Bump fam \<Rightarrow> on_watcher (monitor_bump (te_os env) fam) sv
      | TaskTurn i \<Rightarrow>
          if length (n_tasks (sv_world sv)) \<le> i then sv
          else (let w = drop_task i (sv_world sv) in
                case n_tasks (sv_world sv) ! i of
                  PinRoutesLater c \<Rightarrow> sv\<lparr>sv_world := pin_routes_task (te_os env) c w\<rparr>
                | RetrySetup fam via \<Rightarrow> on_watcher (retry_task (te_os env) fam via) (sv\<lparr>sv_world := w\<rparr>)))"

definition turns :: "tunnel_env \<Rightarrow> background list \<Rightarrow> service \<Rightarrow> service" where
  "turns env bs sv = fold (run_background env) bs sv"

section \<open>The stages of the start\<close>

definition on_world ::
  "service_error \<Rightarrow> (net_world \<Rightarrow> net_error option \<times> net_world) \<Rightarrow> service \<Rightarrow> failure \<times> service"
where
  "on_world code f sv =
     (let (err, w) = f (sv_world sv) in (map_option (Pair code) err, sv\<lparr>sv_world := w\<rparr>))"

definition with_config :: "(config \<Rightarrow> service \<Rightarrow> failure \<times> service) \<Rightarrow> service \<Rightarrow> failure \<times> service" where
  "with_config f sv = (case sv_config sv of None \<Rightarrow> (None, sv) | Some c \<Rightarrow> f c sv)"

definition start_log :: stage where
  "start_log env = on_world ErrorRingloggerOpen (net_do (te_os env) OpenLog)"

definition load_config :: "string \<Rightarrow> stage" where
  "load_config path env sv =
     (case LoadFromPath (te_store env) (te_files env (n_history (sv_world sv))) path of
        Inl e \<Rightarrow> (Some (ErrorLoadConfiguration, NetLoad e), sv)
      | Inr c \<Rightarrow> on_world ErrorLoadConfiguration (net_do (te_os env) (CopyOwner path))
                  (sv\<lparr>sv_config := Some (deduplicate_network_entries c)\<rparr>))"

definition announce_if_locked :: stage where
  "announce_if_locked env sv =
     (None, if te_locked env (n_history (sv_world sv))
            then sv\<lparr>sv_world := net_act (Report Running) (sv_world sv)\<rparr> else sv)"

definition start_watcher :: stage where
  "start_watcher env sv =
     (case watchInterface (te_os env) (sv_world sv) of
        (Inl e, w) \<Rightarrow> (Some (ErrorSetNetConfig, e), sv\<lparr>sv_world := w\<rparr>)
      | (Inr iw, w) \<Rightarrow> (None, sv\<lparr>sv_watcher := Some iw, sv_world := w\<rparr>))"

definition resolve_names :: stage where
  "resolve_names env = with_config (\<lambda>c sv.
     case ToUAPI (n_unicode (te_os env)) (te_order env) (te_resolve env (n_history (sv_world sv))) c of
       Inl e \<Rightarrow> (Some (ErrorDNSLookup, e), sv)
     | Inr text \<Rightarrow> (None, sv\<lparr>sv_uapi_conf := text\<rparr>))"

text \<open>Up to five tries, a second apart, unless the machine has been up for more than four minutes.\<close>

fun create_wintun :: "tunnel_env \<Rightarrow> net_action \<Rightarrow> nat \<Rightarrow> nat \<Rightarrow> net_world \<Rightarrow> net_error option \<times> net_world" where
  "create_wintun env create i k w =
     (let (err, w1) = net_do (te_os env) create (if 0 < i then net_act SleepSecond w else w) in
      if err = None \<or> te_booted env (n_history w1) then (err, w1)
      else (case k of 0 \<Rightarrow> (err, w1) | Suc k' \<Rightarrow> create_wintun env create (Suc i) k' w1))"

definition create_interface :: stage where
  "create_interface env = with_config (\<lambda>c sv.
     case deterministicGUID (te_guid env) c of
       None \<Rightarrow> (Some (ErrorCreateWintun, NetPanic (Panic IndexRange)), sv)
     | Some (guid, c1) \<Rightarrow>
         (case create_wintun env (CreateTUN (Name c1) guid) 0 4 (sv_world sv) of
            (Some e, w) \<Rightarrow> (Some (ErrorCreateWintun, e), sv\<lparr>sv_config := Some c1, sv_world := w\<rparr>)
          | (None, w) \<Rightarrow>
              (None, sv\<lparr>sv_config := Some c1, sv_world := w, sv_tun := Some (te_luid env (n_history w))\<rparr>)))"

definition run_script :: "(interface \<Rightarrow> string) \<Rightarrow> stage" where
  "run_script script env = with_config (\<lambda>c.
     on_world ErrorRunScript (runScriptCommand env (script (Interface c)) (Name c)))"

definition pin_routes :: stage where
  "pin_routes env = with_config (\<lambda>c sv.
     (None, sv\<lparr>sv_world := chainPinRoutes (te_os env) c True (sv_world sv)\<rparr>))"

definition start_firewall :: stage where
  "start_firewall env = with_config (\<lambda>c sv.
     case sv_tun sv of
       None \<Rightarrow> (None, sv)
     | Some luid \<Rightarrow> on_world ErrorFirewall (enableFirewall (te_os env) c luid) sv)"

definition drop_privileges :: stage where
  "drop_privileges env = on_world ErrorDropPrivileges (net_do (te_os env) DropPrivileges)"

definition listen_uapi :: stage where
  "listen_uapi env = with_config (\<lambda>c sv.
     (let (err, sv1) = on_world ErrorUAPIListen (net_do (te_os env) (ListenUAPI (Name c))) (sv\<lparr>sv_dev := True\<rparr>)
      in (err, sv1\<lparr>sv_uapi := (err = None)\<rparr>)))"

definition set_device :: stage where
  "set_device env sv = on_world ErrorDeviceSetConfig (net_do (te_os env) (SetDevice (sv_uapi_conf sv))) sv"

definition wait_for_hop :: stage where
  "wait_for_hop env = with_config (\<lambda>c sv.
     (None, sv\<lparr>sv_world := chainWaitForPinBeforeUp (te_os env) c (sv_world sv)\<rparr>))"

definition bring_up :: stage where
  "bring_up env sv = (None, sv\<lparr>sv_world := net_act DeviceUp (sv_world sv)\<rparr>)"

definition configure_watcher :: stage where
  "configure_watcher env = with_config (\<lambda>c sv.
     case sv_tun sv of
       None \<Rightarrow> (None, sv)
     | Some luid \<Rightarrow> (None, on_watcher (Configure (te_os env) c luid) sv))"

definition report_running :: stage where
  "report_running env sv = (None, sv\<lparr>sv_world := net_act (Report RunningAcceptsStop) (sv_world sv)\<rparr>)"

definition stages :: "string \<Rightarrow> stage list" where
  "stages path =
     [start_log, load_config path, announce_if_locked, start_watcher, resolve_names, create_interface,
      run_script PreUp, pin_routes, start_firewall, drop_privileges, listen_uapi, set_device, wait_for_hop,
      bring_up, configure_watcher, run_script PostUp, report_running]"

text \<open>Between two stages the goroutines take the turns \<open>gaps\<close> says.\<close>

fun run_stages :: "tunnel_env \<Rightarrow> (nat \<Rightarrow> background list) \<Rightarrow> nat \<Rightarrow> stage list \<Rightarrow> service \<Rightarrow> failure \<times> service" where
  "run_stages env gaps i [] sv = (None, sv)"
| "run_stages env gaps i (stage # rest) sv =
     (case stage env (fold (run_background env) (gaps i) sv) of
        (Some e, sv1) \<Rightarrow> (Some e, sv1)
      | (None, sv1) \<Rightarrow> run_stages env gaps (Suc i) rest sv1)"

section \<open>The loop and the end\<close>

datatype control = ControlStop | ControlShutdown | ControlInterrogate | ControlOther

datatype tunnel_event = Request control | DeviceGone | WatcherError | Beside background

text \<open>\<open>Some\<close> is what the loop returned with; \<open>None\<close> says that it still runs when the events are over.\<close>

fun service_loop :: "tunnel_env \<Rightarrow> tunnel_event list \<Rightarrow> service \<Rightarrow> failure option \<times> service" where
  "service_loop env [] sv = (None, sv)"
| "service_loop env (Request ControlStop # es) sv = (Some None, sv)"
| "service_loop env (Request ControlShutdown # es) sv = (Some None, sv)"
| "service_loop env (Request ControlInterrogate # es) sv =
     service_loop env es (sv\<lparr>sv_world := net_act (Report Echo) (sv_world sv)\<rparr>)"
| "service_loop env (Request ControlOther # es) sv = service_loop env es sv"
| "service_loop env (DeviceGone # es) sv = (Some None, sv)"
| "service_loop env (WatcherError # es) sv =
     (case sv_watcher sv of
        None \<Rightarrow> service_loop env es sv
      | Some iw \<Rightarrow>
          (case iw_errors iw of
             [] \<Rightarrow> service_loop env es sv
           | e # more_errors \<Rightarrow> (Some (Some e), sv\<lparr>sv_watcher := Some (iw\<lparr>iw_errors := more_errors\<rparr>)\<rparr>)))"
| "service_loop env (Beside b # es) sv = service_loop env es (run_background env b sv)"

text \<open>The deferred function. A failing \<open>PreDown\<close> keeps \<open>PostDown\<close> from running.\<close>

definition script_at_end :: "tunnel_env \<Rightarrow> (interface \<Rightarrow> string) \<Rightarrow> bool \<Rightarrow> service \<Rightarrow> bool \<times> service" where
  "script_at_end env script ok sv =
     (case sv_config sv of
        None \<Rightarrow> (ok, sv)
      | Some c \<Rightarrow>
          if ok \<and> sv_dev sv
          then (let (err, w) = runScriptCommand env (script (Interface c)) (Name c) (sv_world sv)
                in (err = None, sv\<lparr>sv_world := w\<rparr>))
          else (ok, sv))"

definition act_if :: "bool \<Rightarrow> net_action \<Rightarrow> service \<Rightarrow> service" where
  "act_if b a sv = (if b then sv\<lparr>sv_world := net_act a (sv_world sv)\<rparr> else sv)"

text \<open>
  The moments of the end at which others take a turn, \<open>late\<close> says which: while \<open>Execute\<close> returns,
  after each step of the deferred function, and after it until the process is gone.
  \<open>Unregistering i\<close> is the moment when \<open>Destroy\<close>, without the mutex, has unregistered \<open>i\<close> callbacks.
  A turn \<open>Added\<close> after the watcher's own callback was unregistered is a notification that was on
  its way and waited for the mutex.
\<close>

datatype end_moment =
    Returning | Reported | DownScriptRun | RoutesOff | Unregistering nat | WatcherDestroyed | UAPIClosed
  | DeviceClosed | ScriptsOver

fun unregister_turns ::
  "tunnel_env \<Rightarrow> (end_moment \<Rightarrow> background list) \<Rightarrow> nat \<Rightarrow> change_callback list \<Rightarrow> service \<Rightarrow> service"
where
  "unregister_turns env late i [] sv = turns env (late (Unregistering i)) sv"
| "unregister_turns env late i (cb # cbs) sv =
     unregister_turns env late (Suc i) cbs (act_if True (Unregister cb) (turns env (late (Unregistering i)) sv))"

definition own_callback :: "watcher \<Rightarrow> change_callback list" where
  "own_callback iw = (case iw_interface iw of None \<Rightarrow> [] | Some cb \<Rightarrow> [cb])"

definition Destroy :: "tunnel_env \<Rightarrow> (end_moment \<Rightarrow> background list) \<Rightarrow> service \<Rightarrow> service" where
  "Destroy env late sv =
     (case sv_watcher sv of
        None \<Rightarrow> sv
      | Some seen \<Rightarrow>
          on_watcher (destroy_finish seen)
            (unregister_turns env late 0
               (own_callback seen @ iw_callbacks seen INET @ iw_callbacks seen INET6) sv))"

definition take_routes_off :: "tunnel_env \<Rightarrow> service \<Rightarrow> service" where
  "take_routes_off env sv =
     (case sv_config sv of
        None \<Rightarrow> sv
      | Some c \<Rightarrow> sv\<lparr>sv_world := chainPinRoutes (te_os env) c False (sv_world sv)\<rparr>)"

text \<open>The deferred function up to \<open>Destroy\<close>, after it, and as a whole.\<close>

definition before_destroy ::
  "tunnel_env \<Rightarrow> (end_moment \<Rightarrow> background list) \<Rightarrow> failure \<Rightarrow> service \<Rightarrow> bool \<times> service"
where
  "before_destroy env late failure sv =
     (let sv0 = turns env (late Reported) (act_if True (Report StopPending) (turns env (late Returning) sv));
          (ok, sv1) = script_at_end env PreDown (failure = None) sv0
      in (ok, turns env (late RoutesOff) (take_routes_off env (turns env (late DownScriptRun) sv1))))"

definition after_destroy :: "tunnel_env \<Rightarrow> (end_moment \<Rightarrow> background list) \<Rightarrow> bool \<Rightarrow> service \<Rightarrow> service" where
  "after_destroy env late ok sv =
     (let sv3 = turns env (late WatcherDestroyed) sv;
          sv4 = turns env (late UAPIClosed) (act_if (sv_uapi sv3) CloseUAPI sv3);
          sv5 = turns env (late DeviceClosed) (act_if (sv_dev sv4) CloseDevice sv4)
      in turns env (late ScriptsOver) (snd (script_at_end env PostDown ok sv5)))"

definition service_end :: "tunnel_env \<Rightarrow> (end_moment \<Rightarrow> background list) \<Rightarrow> failure \<Rightarrow> service \<Rightarrow> service" where
  "service_end env late failure sv =
     (let (ok, sv2) = before_destroy env late failure sv
      in after_destroy env late ok (Destroy env late sv2))"

definition Execute ::
  "tunnel_env \<Rightarrow> string \<Rightarrow> (nat \<Rightarrow> background list) \<Rightarrow> tunnel_event list \<Rightarrow> (end_moment \<Rightarrow> background list) \<Rightarrow>
   failure option \<times> service"
where
  "Execute env path gaps events late =
     (let started = act_if True (Report StartPending) new_service in
      case run_stages env gaps 0 (stages path) started of
        (Some e, sv) \<Rightarrow> (Some (Some e), service_end env late (Some e) sv)
      | (None, sv) \<Rightarrow>
          (case service_loop env events sv of
             (None, sv1) \<Rightarrow> (None, sv1)
           | (Some failure, sv1) \<Rightarrow> (Some failure, service_end env late failure sv1)))"

section \<open>What every part of a run keeps\<close>

text \<open>
  \<open>sv_keeps\<close>: the callbacks listed stay the registered ones, the history grows by anything but
  \<open>DeviceUp\<close>, and the configuration and the adapter stay.
\<close>

definition tracked :: "tunnel_env \<Rightarrow> service \<Rightarrow> bool" where
  "tracked env sv \<longleftrightarrow>
     live (te_os env) (n_history (sv_world sv)) = (case sv_watcher sv of None \<Rightarrow> {#} | Some iw \<Rightarrow> listed iw)"

definition not_up :: "net_action \<Rightarrow> bool" where "not_up a \<longleftrightarrow> a \<noteq> DeviceUp"

lemma plain_not_up: "plain a \<Longrightarrow> not_up a"
  by (auto simp: not_up_def)

lemma grows_plain_not_up: "grows plain w w' \<Longrightarrow> grows not_up w w'"
  by (rule grows_mono [OF _ plain_not_up])

definition sv_keeps :: "tunnel_env \<Rightarrow> service \<Rightarrow> service \<Rightarrow> bool" where
  "sv_keeps env sv sv' \<longleftrightarrow>
     (tracked env sv \<longrightarrow> tracked env sv') \<and> grows not_up (sv_world sv) (sv_world sv')"

lemma sv_keeps_refl [simp]: "sv_keeps env sv sv"
  by (simp add: sv_keeps_def)

lemma sv_keeps_trans: "sv_keeps env a b \<Longrightarrow> sv_keeps env b c \<Longrightarrow> sv_keeps env a c"
  by (auto simp: sv_keeps_def intro: grows_trans)

lemma sv_keeps_plain:
  assumes "grows plain (sv_world sv) (sv_world sv')" "sv_watcher sv' = sv_watcher sv"
  shows "sv_keeps env sv sv'"
  using assms live_plain [OF assms(1)] grows_plain_not_up [OF assms(1)]
  by (simp add: sv_keeps_def tracked_def)

text \<open>The contract the operations of the watcher share, and what it means for the service.\<close>

locale watcher_operation =
  fixes os :: net_os and operation :: "watcher \<Rightarrow> net_world \<Rightarrow> watcher \<times> net_world"
  assumes keeps: "keeps os iw w (operation iw w)"
begin

lemma service_keeps:
  assumes "te_os env = os"
  shows "sv_keeps env sv (on_watcher operation sv)"
proof (cases "sv_watcher sv")
  case None
  then show ?thesis by (simp add: on_watcher_def)
next
  case (Some iw)
  have "not_up = (\<lambda>a. a \<noteq> DeviceUp)" by (simp add: not_up_def fun_eq_iff)
  then show ?thesis using keeps [of iw "sv_world sv"] Some assms
    by (simp add: on_watcher_def sv_keeps_def tracked_def keeps_def split_beta)
qed

end

interpretation adding: watcher_operation os "interface_added os luid fam" for os luid fam
  by unfold_locales (rule keeps_interface_added)

interpretation bumping: watcher_operation os "monitor_bump os fam" for os fam
  by unfold_locales (rule keeps_monitor_bump)

interpretation retrying: watcher_operation os "retry_task os fam via" for os fam via
  by unfold_locales (rule keeps_retry_task)

interpretation configuring: watcher_operation os "Configure os c luid" for os c luid
  by unfold_locales (rule keeps_Configure)

lemma on_watcher_fields [simp]:
  "sv_config (on_watcher f sv) = sv_config sv" "sv_tun (on_watcher f sv) = sv_tun sv"
  "sv_dev (on_watcher f sv) = sv_dev sv" "sv_uapi (on_watcher f sv) = sv_uapi sv"
  "sv_uapi_conf (on_watcher f sv) = sv_uapi_conf sv"
  by (auto simp: on_watcher_def split_beta split: option.splits)

lemma sv_keeps_background: "sv_keeps env sv (run_background env b sv)"
proof (cases b)
  case (Added luid fam)
  then show ?thesis by (simp add: run_background_def adding.service_keeps)
next
  case (Bump fam)
  then show ?thesis by (simp add: run_background_def bumping.service_keeps)
next
  case (TaskTurn i)
  define w where "w = drop_task i (sv_world sv)"
  have w: "sv_keeps env sv (sv\<lparr>sv_world := w\<rparr>)"
    by (rule sv_keeps_plain) (simp_all add: w_def drop_task_def)
  show ?thesis
  proof (cases "length (n_tasks (sv_world sv)) \<le> i")
    case True
    then show ?thesis by (simp add: TaskTurn run_background_def)
  next
    case False
    show ?thesis
    proof (cases "n_tasks (sv_world sv) ! i")
      case (PinRoutesLater c)
      have "sv_keeps env (sv\<lparr>sv_world := w\<rparr>) (sv\<lparr>sv_world := pin_routes_task (te_os env) c w\<rparr>)"
        by (rule sv_keeps_plain) (simp_all add: pin_routes_task_grows)
      then show ?thesis using False PinRoutesLater sv_keeps_trans [OF w]
        by (simp add: TaskTurn run_background_def w_def)
    next
      case (RetrySetup fam via)
      have "sv_keeps env (sv\<lparr>sv_world := w\<rparr>)
              (on_watcher (retry_task (te_os env) fam via) (sv\<lparr>sv_world := w\<rparr>))"
        by (rule retrying.service_keeps) simp
      then show ?thesis using False RetrySetup sv_keeps_trans [OF w]
        by (simp add: TaskTurn run_background_def w_def)
    qed
  qed
qed

lemma background_fields [simp]:
  "sv_config (run_background env b sv) = sv_config sv" "sv_tun (run_background env b sv) = sv_tun sv"
  "sv_dev (run_background env b sv) = sv_dev sv" "sv_uapi (run_background env b sv) = sv_uapi sv"
  "sv_uapi_conf (run_background env b sv) = sv_uapi_conf sv"
  by (auto simp: run_background_def Let_def split: background.splits net_task.splits)

lemma turns_fields [simp]:
  "sv_config (fold (run_background env) bs sv) = sv_config sv"
  "sv_tun (fold (run_background env) bs sv) = sv_tun sv"
  "sv_uapi_conf (fold (run_background env) bs sv) = sv_uapi_conf sv"
  by (induction bs arbitrary: sv) simp_all

lemma sv_keeps_turns: "sv_keeps env sv (fold (run_background env) bs sv)"
  by (induction bs arbitrary: sv) (auto intro: sv_keeps_trans sv_keeps_background)

section \<open>The stages\<close>

definition stage_keeps :: "tunnel_env \<Rightarrow> stage \<Rightarrow> bool" where
  "stage_keeps env s \<longleftrightarrow> (\<forall>sv r sv'. s env sv = (r, sv') \<longrightarrow> sv_keeps env sv sv')"

lemma runScriptCommand_grows [grow]:
  "runScriptCommand env cmd name w = (e, w') \<Longrightarrow> grows plain w w'"
  by (auto simp: runScriptCommand_def split: if_splits sum.splits)

lemma on_world_keeps:
  assumes "on_world code f sv = (r, sv')" "\<And>e w'. f (sv_world sv) = (e, w') \<Longrightarrow> grows plain (sv_world sv) w'"
  shows "sv_keeps env sv sv'"
proof -
  obtain e w' where f: "f (sv_world sv) = (e, w')" by (cases "f (sv_world sv)")
  then have "sv' = sv\<lparr>sv_world := w'\<rparr>" using assms(1) by (simp add: on_world_def)
  then show ?thesis using assms(2) [OF f] by (intro sv_keeps_plain) simp_all
qed

lemma net_do_plain: "plain a \<Longrightarrow> net_do os a w = (e, w') \<Longrightarrow> grows plain w w'"
  by (auto simp: net_do_def)

declare create_wintun.simps [simp del]

lemma create_wintun_grows [grow]:
  "create_wintun env a i k w = (e, w') \<Longrightarrow> plain a \<Longrightarrow> grows plain w w'"
proof (induction k arbitrary: i w)
  case 0
  then show ?case by (auto simp: create_wintun.simps net_do_def intro: grows_act_after split: if_splits)
next
  case (Suc k)
  define w0 where "w0 = (if 0 < i then net_act SleepSecond w else w)"
  have w0: "grows plain w (net_act a w0)" using Suc.prems(2) by (auto simp: w0_def intro: grows_act_after)
  have "w' = net_act a w0 \<or> create_wintun env a (Suc i) k (net_act a w0) = (e, w')"
    using Suc.prems(1) by (auto simp: create_wintun.simps [of _ _ _ "Suc k"] net_do_def w0_def split: if_splits)
  then show ?case using w0 Suc.IH [OF _ Suc.prems(2)] grows_trans by blast
qed

lemma with_config_keeps:
  assumes "with_config f sv = (r, sv')" "\<And>c r sv'. f c sv = (r, sv') \<Longrightarrow> sv_keeps env sv sv'"
  shows "sv_keeps env sv sv'"
  using assms by (auto simp: with_config_def split: option.splits)

lemma watchInterface_live:
  assumes "watchInterface os w = (r, w')"
  shows "live os (n_history w') = live os (n_history w) + (case r of Inl e \<Rightarrow> {#} | Inr iw \<Rightarrow> listed iw)"
    and "grows not_up w w'"
  using assms by (auto simp: watchInterface_def Let_def net_do_def live_snoc effect_def listed_def new_watcher_def
      not_up_def split: option.splits)

lemma start_watcher_keeps:
  assumes "start_watcher env sv = (r, sv')" "sv_watcher sv = None"
  shows "sv_keeps env sv sv'"
proof -
  obtain x w' where x: "watchInterface (te_os env) (sv_world sv) = (x, w')"
    by (cases "watchInterface (te_os env) (sv_world sv)")
  show ?thesis using watchInterface_live [OF x] assms x
    by (cases x) (auto simp: start_watcher_def sv_keeps_def tracked_def)
qed

lemma simple_stages_keep:
  "stage_keeps env start_log" "stage_keeps env (load_config path)" "stage_keeps env announce_if_locked"
  "stage_keeps env resolve_names" "stage_keeps env create_interface" "stage_keeps env (run_script script)"
  "stage_keeps env pin_routes" "stage_keeps env start_firewall" "stage_keeps env drop_privileges"
  "stage_keeps env listen_uapi" "stage_keeps env set_device" "stage_keeps env wait_for_hop"
  "stage_keeps env configure_watcher" "stage_keeps env report_running"
proof -
  show "stage_keeps env start_log" "stage_keeps env drop_privileges" "stage_keeps env set_device"
    unfolding stage_keeps_def start_log_def drop_privileges_def set_device_def
    by (auto elim!: on_world_keeps intro: net_do_plain [rotated])
  show "stage_keeps env (run_script script)"
    unfolding stage_keeps_def run_script_def
    by (auto elim!: with_config_keeps on_world_keeps intro: runScriptCommand_grows)
  show "stage_keeps env announce_if_locked" "stage_keeps env report_running"
    unfolding stage_keeps_def announce_if_locked_def report_running_def by (auto intro!: sv_keeps_plain)
  show "stage_keeps env resolve_names"
    unfolding stage_keeps_def resolve_names_def
    by (auto elim!: with_config_keeps intro!: sv_keeps_plain split: sum.splits)
  show "stage_keeps env pin_routes" "stage_keeps env wait_for_hop"
    unfolding stage_keeps_def pin_routes_def wait_for_hop_def
    by (auto elim!: with_config_keeps intro!: sv_keeps_plain intro: chainPinRoutes_grows chainWaitForPinBeforeUp_grows)
  show "stage_keeps env start_firewall"
    unfolding stage_keeps_def start_firewall_def
    by (auto elim!: with_config_keeps on_world_keeps intro: enableFirewall_grows split: option.splits)
  show "stage_keeps env configure_watcher"
    unfolding stage_keeps_def configure_watcher_def
    by (auto elim!: with_config_keeps intro!: configuring.service_keeps split: option.splits)
  show "stage_keeps env (load_config path)"
    unfolding stage_keeps_def load_config_def on_world_def
    by (auto simp: net_do_def intro!: sv_keeps_plain split: sum.splits)
  show "stage_keeps env listen_uapi"
    unfolding stage_keeps_def listen_uapi_def on_world_def
    by (auto simp: net_do_def intro!: sv_keeps_plain elim!: with_config_keeps)
  show "stage_keeps env create_interface"
    unfolding stage_keeps_def create_interface_def
    by (auto elim!: with_config_keeps intro!: sv_keeps_plain dest!: create_wintun_grows
        split: option.splits prod.splits)
qed

section \<open>The whole run\<close>

lemma turns_simps [simp]:
  "sv_config (turns env bs sv) = sv_config sv" "sv_tun (turns env bs sv) = sv_tun sv"
  "sv_keeps env sv (turns env bs sv)"
  by (simp_all add: turns_def sv_keeps_turns)

lemma turns_no_watcher: "sv_watcher sv = None \<Longrightarrow> sv_watcher (turns env bs sv) = None"
proof (induction bs arbitrary: sv)
  case (Cons b bs)
  have "sv_watcher (run_background env b sv) = None"
    using Cons.prems by (auto simp: run_background_def on_watcher_def Let_def split: background.splits net_task.splits)
  then show ?case using Cons.IH by (simp add: turns_def)
qed (simp add: turns_def)

lemma run_stages_Cons:
  "run_stages env gaps i (s # rest) sv =
     (case s env (turns env (gaps i) sv) of
        (Some e, sv1) \<Rightarrow> (Some e, sv1)
      | (None, sv1) \<Rightarrow> run_stages env gaps (Suc i) rest sv1)"
  by (simp add: turns_def)

lemma run_stages_append:
  "run_stages env gaps i (xs @ ys) sv =
     (case run_stages env gaps i xs sv of
        (Some e, sv1) \<Rightarrow> (Some e, sv1)
      | (None, sv1) \<Rightarrow> run_stages env gaps (i + length xs) ys sv1)"
proof (induction xs arbitrary: i sv)
  case (Cons x xs)
  obtain r sv1 where "x env (turns env (gaps i) sv) = (r, sv1)" by (cases "x env (turns env (gaps i) sv)")
  moreover have "i + length (x # xs) = Suc i + length xs" by simp
  ultimately show ?case using Cons.IH [of "Suc i" sv1]
    by (cases r) (simp_all only: append_Cons run_stages_Cons prod.case option.case)
qed simp

lemma run_stages_keep:
  "run_stages env gaps i ss sv = (r, sv') \<Longrightarrow> (\<And>s. s \<in> set ss \<Longrightarrow> stage_keeps env s) \<Longrightarrow> sv_keeps env sv sv'"
proof (induction ss arbitrary: i sv)
  case (Cons s ss)
  obtain x sv1 where x: "s env (turns env (gaps i) sv) = (x, sv1)" by (cases "s env (turns env (gaps i) sv)")
  have "sv_keeps env (turns env (gaps i) sv) sv1"
    using x Cons.prems(2) [of s] by (simp add: stage_keeps_def)
  then have first: "sv_keeps env sv sv1" using sv_keeps_trans turns_simps(3) by blast
  show ?case
  proof (cases x)
    case None
    then have "run_stages env gaps (Suc i) ss sv1 = (r, sv')" using Cons.prems(1) x by (simp add: run_stages_Cons del: run_stages.simps)
    then have "sv_keeps env sv1 sv'" using Cons.IH Cons.prems(2) by simp
    then show ?thesis using first sv_keeps_trans by blast
  next
    case (Some e)
    then show ?thesis using Cons.prems(1) x first by (simp add: run_stages_Cons del: run_stages.simps)
  qed
qed simp

definition first_stages :: "string \<Rightarrow> stage list" where
  "first_stages path = [start_log, load_config path, announce_if_locked, start_watcher]"

definition middle_stages :: "stage list" where
  "middle_stages = [resolve_names, create_interface, run_script PreUp, pin_routes, start_firewall, drop_privileges,
             listen_uapi, set_device, wait_for_hop]"

definition last_stages :: "stage list" where
  "last_stages = [configure_watcher, run_script PostUp, report_running]"

lemma stages_split: "stages path = (first_stages path @ middle_stages) @ bring_up # last_stages"
  by (simp add: stages_def first_stages_def middle_stages_def last_stages_def)

lemma middle_stages_keep: "s \<in> set middle_stages \<Longrightarrow> stage_keeps env s"
  and last_stages_keep: "s \<in> set last_stages \<Longrightarrow> stage_keeps env s"
  by (auto simp: middle_stages_def last_stages_def simple_stages_keep)

definition makes_no_watcher :: "tunnel_env \<Rightarrow> stage \<Rightarrow> bool" where
  "makes_no_watcher env s \<longleftrightarrow>
     (\<forall>sv r sv'. s env sv = (r, sv') \<longrightarrow> sv_watcher sv = None \<longrightarrow> sv_watcher sv' = None)"

lemma no_watcher_stages:
  "makes_no_watcher env start_log" "makes_no_watcher env (load_config path)"
  "makes_no_watcher env announce_if_locked"
  by (auto simp: makes_no_watcher_def start_log_def load_config_def announce_if_locked_def on_world_def net_do_def
      split: sum.splits)

lemma run_stages_no_watcher:
  "run_stages env gaps i ss sv = (r, sv') \<Longrightarrow> sv_watcher sv = None \<Longrightarrow>
   (\<And>s. s \<in> set ss \<Longrightarrow> makes_no_watcher env s) \<Longrightarrow> sv_watcher sv' = None"
proof (induction ss arbitrary: i sv)
  case (Cons s ss)
  obtain x sv1 where x: "s env (turns env (gaps i) sv) = (x, sv1)" by (cases "s env (turns env (gaps i) sv)")
  have "sv_watcher sv1 = None"
    using x Cons.prems(3) [of s] turns_no_watcher [OF Cons.prems(2)] by (simp add: makes_no_watcher_def)
  then show ?case using Cons.IH Cons.prems x
    by (cases x) (auto simp: run_stages_Cons simp del: run_stages.simps(2))
qed simp

text \<open>Among the first stages the watcher does not exist before its stage.\<close>

lemma first_stages_keep:
  assumes run: "run_stages env gaps i (first_stages path) sv = (r, sv')" and none: "sv_watcher sv = None"
  shows "sv_keeps env sv sv'"
proof -
  have split: "first_stages path = [start_log, load_config path, announce_if_locked] @ [start_watcher]"
    by (simp add: first_stages_def)
  obtain x sv1 where x: "run_stages env gaps i [start_log, load_config path, announce_if_locked] sv = (x, sv1)"
    by (cases "run_stages env gaps i [start_log, load_config path, announce_if_locked] sv")
  have k: "sv_keeps env sv sv1" using x by (rule run_stages_keep) (auto simp: simple_stages_keep)
  show ?thesis
  proof (cases x)
    case (Some e)
    then have "sv' = sv1" using run [unfolded split run_stages_append x] by simp
    then show ?thesis using k by simp
  next
    case None
    have "sv_watcher sv1 = None"
      using x none by (rule run_stages_no_watcher) (auto simp: no_watcher_stages)
    then have none1: "sv_watcher (turns env (gaps (Suc (Suc (Suc i)))) sv1) = None" by (rule turns_no_watcher)
    obtain y sv2 where y: "start_watcher env (turns env (gaps (Suc (Suc (Suc i)))) sv1) = (y, sv2)"
      by (cases "start_watcher env (turns env (gaps (Suc (Suc (Suc i)))) sv1)")
    have "run_stages env gaps (Suc (Suc (Suc i))) [start_watcher] sv1 = (r, sv')"
      using run [unfolded split run_stages_append x None] by simp
    then have "sv' = sv2" using y by (cases y) (simp_all add: run_stages_Cons del: run_stages.simps(2))
    moreover have "sv_keeps env (turns env (gaps (Suc (Suc (Suc i)))) sv1) sv2" using y none1 by (rule start_watcher_keeps)
    ultimately show ?thesis using k sv_keeps_trans turns_simps(3) by blast
  qed
qed

lemma loop_keeps: "service_loop env es sv = (r, sv') \<Longrightarrow> sv_keeps env sv sv' \<and> sv_config sv' = sv_config sv"
proof (induction env es sv rule: service_loop.induct)
  case (4 env es sv)
  have "sv_keeps env sv (sv\<lparr>sv_world := net_act (Report Echo) (sv_world sv)\<rparr>)" by (rule sv_keeps_plain) simp_all
  then show ?case using 4 sv_keeps_trans by fastforce
next
  case (7 env es sv)
  have "sv_keeps env sv (sv\<lparr>sv_watcher := Some (iw\<lparr>iw_errors := errs\<rparr>)\<rparr>)" if "sv_watcher sv = Some iw" for iw errs
    using that by (simp add: sv_keeps_def tracked_def listed_def)
  then show ?case using 7 by (auto split: option.splits list.splits)
next
  case (8 env b es sv)
  have "sv_keeps env sv (run_background env b sv)" by (rule sv_keeps_background)
  then show ?case using 8 sv_keeps_trans by fastforce
qed simp_all

lemma script_at_end_keeps:
  assumes "script_at_end env script ok sv = (ok', sv')"
  shows "grows plain (sv_world sv) (sv_world sv') \<and> sv_watcher sv' = sv_watcher sv \<and> sv_config sv' = sv_config sv"
  using assms by (auto simp: script_at_end_def split: option.splits if_splits prod.splits intro: runScriptCommand_grows)

lemma act_if_grows: "plain a \<Longrightarrow> grows plain (sv_world sv) (sv_world (act_if b a sv))"
  by (simp add: act_if_def)

lemma act_if_fields [simp]: "sv_watcher (act_if b a sv) = sv_watcher sv" "sv_config (act_if b a sv) = sv_config sv"
  by (simp_all add: act_if_def)

text \<open>
  The end: the lists stay exact up to the moment \<open>Destroy\<close> reads them, and every callback read is
  unregistered afterwards.
\<close>

lemma turns_acts:
  obtains acts where "n_history (sv_world (turns env bs sv)) = n_history (sv_world sv) @ acts"
    "list_all not_up acts" "bs = [] \<Longrightarrow> acts = []"
proof (cases "bs = []")
  case True
  then show thesis using that [of "[]"] by (simp add: turns_def)
next
  case False
  then show thesis using that turns_simps(3) [of env sv bs] by (auto simp: sv_keeps_def grows_def)
qed

lemma unregister_turns_acts:
  "\<exists>acts. n_history (sv_world (unregister_turns env late i cbs sv)) = n_history (sv_world sv) @ acts
     \<and> list_all not_up acts \<and> (\<forall>c. count_list cbs c \<le> count_list acts (Unregister c))
     \<and> ((\<forall>k. late (Unregistering k) = []) \<longrightarrow> acts = map Unregister cbs)"
  (is "\<exists>acts. ?P i cbs sv acts")
proof (induction env late i cbs sv rule: unregister_turns.induct)
  case (1 env late i sv)
  show ?case by (rule turns_acts [of env "late (Unregistering i)" sv]) auto
next
  case (2 env late i cb cbs sv)
  obtain xs where xs: "n_history (sv_world (turns env (late (Unregistering i)) sv)) = n_history (sv_world sv) @ xs"
    "list_all not_up xs" "late (Unregistering i) = [] \<Longrightarrow> xs = []"
    using turns_acts [of env "late (Unregistering i)" sv] by metis
  from "2.IH" obtain ys where ys:
    "n_history (sv_world (unregister_turns env late (Suc i) cbs
        (act_if True (Unregister cb) (turns env (late (Unregistering i)) sv))))
      = n_history (sv_world (turns env (late (Unregistering i)) sv)) @ Unregister cb # ys"
    "list_all not_up ys" "\<forall>c. count_list cbs c \<le> count_list ys (Unregister c)"
    "(\<forall>k. late (Unregistering k) = []) \<longrightarrow> ys = map Unregister cbs"
    by (auto simp: act_if_def)
  have "count_list (cb # cbs) c \<le> count_list (xs @ Unregister cb # ys) (Unregister c)" for c
    using ys(3) by (auto simp: trans_le_add2)
  moreover have "not_up (Unregister cb)" by (simp add: not_up_def)
  ultimately show ?case using xs ys by (intro exI [of _ "xs @ Unregister cb # ys"]) auto
qed

lemma on_watcher_grows:
  assumes "\<And>iw w iw' w'. f iw w = (iw', w') \<Longrightarrow> grows plain w w'"
  shows "grows plain (sv_world sv) (sv_world (on_watcher f sv))"
  using assms by (auto simp: on_watcher_def split: option.splits prod.splits)

lemma Destroy_acts:
  assumes "tracked env sv"
  shows "\<exists>acts. n_history (sv_world (Destroy env late sv)) = n_history (sv_world sv) @ acts \<and> list_all not_up acts
     \<and> (\<forall>c. count (live (te_os env) (n_history (sv_world sv))) c \<le> count_list acts (Unregister c))
     \<and> ((\<forall>k. late (Unregistering k) = []) \<longrightarrow> (\<forall>c. Register c \<notin> set acts))"
proof (cases "sv_watcher sv")
  case None
  then show ?thesis using assms by (intro exI [of _ "[]"]) (simp add: Destroy_def tracked_def)
next
  case (Some iw)
  define cbs where "cbs = own_callback iw @ iw_callbacks iw INET @ iw_callbacks iw INET6"
  obtain xs where xs: "n_history (sv_world (unregister_turns env late 0 cbs sv)) = n_history (sv_world sv) @ xs"
    "list_all not_up xs" "\<forall>c. count_list cbs c \<le> count_list xs (Unregister c)"
    "(\<forall>k. late (Unregistering k) = []) \<longrightarrow> xs = map Unregister cbs"
    using unregister_turns_acts by blast
  have "grows plain (sv_world (unregister_turns env late 0 cbs sv)) (sv_world (Destroy env late sv))"
    using Some by (simp add: Destroy_def cbs_def on_watcher_grows destroy_finish_grows)
  then obtain ys where ys: "n_history (sv_world (Destroy env late sv)) = n_history (sv_world sv) @ xs @ ys" "list_all plain ys"
    using xs(1) by (auto simp: grows_def)
  have "listed iw = mset cbs" by (simp add: listed_def cbs_def own_callback_def split: option.splits)
  then have "live (te_os env) (n_history (sv_world sv)) = mset cbs" using assms Some by (simp add: tracked_def)
  moreover have "list_all not_up ys" using ys(2) plain_not_up by (auto simp: list_all_iff)
  moreover have "Register c \<notin> set ys" for c using ys(2) by (auto simp: list_all_iff)
  ultimately show ?thesis using xs ys
    by (intro exI [of _ "xs @ ys"]) (auto simp: count_mset trans_le_add1)
qed

definition undisturbed :: "(end_moment \<Rightarrow> background list) \<Rightarrow> bool" where
  "undisturbed late \<longleftrightarrow> (\<forall>k. late (Unregistering k) = []) \<and> late WatcherDestroyed = [] \<and> late UAPIClosed = []
     \<and> late DeviceClosed = [] \<and> late ScriptsOver = []"

text \<open>\<open>Q\<close> holds of what is added.\<close>

definition adds :: "(net_action \<Rightarrow> bool) \<Rightarrow> service \<Rightarrow> service \<Rightarrow> bool" where
  "adds Q sv sv' \<longleftrightarrow> grows Q (sv_world sv) (sv_world sv') \<and> sv_config sv' = sv_config sv"

lemma adds_trans [trans]: "adds Q a b \<Longrightarrow> adds Q b c \<Longrightarrow> adds Q a c"
  by (auto simp: adds_def intro: grows_trans)

lemma adds_parts:
  assumes "\<And>a. plain a \<Longrightarrow> Q a"
  shows "plain a \<Longrightarrow> adds Q sv (act_if b a sv)" "adds Q sv (take_routes_off env sv)"
    and "script_at_end env script ok sv = (ok', sv') \<Longrightarrow> adds Q sv sv'"
proof -
  have mono: "grows plain w w' \<Longrightarrow> grows Q w w'" for w w' by (erule grows_mono) (rule assms)
  show "plain a \<Longrightarrow> adds Q sv (act_if b a sv)" using mono [OF act_if_grows] by (simp add: adds_def)
  show "adds Q sv (take_routes_off env sv)"
    using mono [OF chainPinRoutes_grows] by (auto simp: adds_def take_routes_off_def split: option.splits)
  show "script_at_end env script ok sv = (ok', sv') \<Longrightarrow> adds Q sv sv'"
    using script_at_end_keeps [of env script ok sv ok' sv'] mono by (simp add: adds_def)
qed

lemma adds_turns: "adds not_up sv (turns env bs sv)" "bs = [] \<Longrightarrow> adds Q sv (turns env bs sv)"
  using turns_simps(3) [of env sv bs] by (auto simp: adds_def sv_keeps_def turns_def)

lemma before_destroy_keeps:
  assumes "before_destroy env late failure sv = (ok, sv')"
  shows "sv_keeps env sv sv'" "sv_config sv' = sv_config sv"
    "\<exists>xs ys. n_history (sv_world sv') = xs @ Report StopPending # ys"
proof -
  define r where "r = act_if True (Report StopPending) (turns env (late Returning) sv)"
  define sv0 where "sv0 = turns env (late Reported) r"
  obtain ok1 sv1 where sv1: "script_at_end env PreDown (failure = None) sv0 = (ok1, sv1)"
    by (cases "script_at_end env PreDown (failure = None) sv0")
  define sv2 where "sv2 = turns env (late DownScriptRun) sv1"
  have sv': "sv' = turns env (late RoutesOff) (take_routes_off env sv2)"
    using assms sv1 by (simp add: before_destroy_def Let_def sv0_def r_def sv2_def)
  have k1: "sv_keeps env sv0 sv1" using script_at_end_keeps [OF sv1] by (auto intro: sv_keeps_plain)
  have "sv_keeps env sv2 (take_routes_off env sv2)"
    by (auto simp: take_routes_off_def chainPinRoutes_grows intro!: sv_keeps_plain split: option.splits)
  then have "sv_keeps env r sv'"
    using k1 turns_simps(3) unfolding sv' sv2_def sv0_def by (meson sv_keeps_trans)
  moreover have "sv_keeps env (turns env (late Returning) sv) r"
    unfolding r_def by (rule sv_keeps_plain) (simp_all add: act_if_grows)
  ultimately show "sv_keeps env sv sv'" using turns_simps(3) by (meson sv_keeps_trans)
  show "sv_config sv' = sv_config sv"
    using script_at_end_keeps [OF sv1] by (simp add: sv' sv2_def sv0_def r_def take_routes_off_def split: option.splits)
  obtain ys where "n_history (sv_world sv') = n_history (sv_world r) @ ys"
    using \<open>sv_keeps env r sv'\<close> by (auto simp: sv_keeps_def grows_def)
  then show "\<exists>xs ys. n_history (sv_world sv') = xs @ Report StopPending # ys"
    by (auto simp: r_def act_if_def)
qed

lemma after_destroy_adds:
  assumes plain: "\<And>a. plain a \<Longrightarrow> Q a"
    and late: "\<And>m sv. m \<in> {WatcherDestroyed, UAPIClosed, DeviceClosed, ScriptsOver} \<Longrightarrow> adds Q sv (turns env (late m) sv)"
  shows "adds Q sv (after_destroy env late ok sv)"
proof -
  define sv3 where "sv3 = turns env (late WatcherDestroyed) sv"
  define sv4 where "sv4 = turns env (late UAPIClosed) (act_if (sv_uapi sv3) CloseUAPI sv3)"
  define sv5 where "sv5 = turns env (late DeviceClosed) (act_if (sv_dev sv4) CloseDevice sv4)"
  obtain ok' sv6 where sv6: "script_at_end env PostDown ok sv5 = (ok', sv6)"
    by (cases "script_at_end env PostDown ok sv5")
  note parts = adds_parts [where Q = Q, OF plain]
  have "adds Q sv sv3" unfolding sv3_def by (rule late) simp
  also have "adds Q sv3 (act_if (sv_uapi sv3) CloseUAPI sv3)" by (rule parts) simp_all
  also have "adds Q \<dots> sv4" unfolding sv4_def by (rule late) simp
  also have "adds Q sv4 (act_if (sv_dev sv4) CloseDevice sv4)" by (rule parts) simp_all
  also have "adds Q \<dots> sv5" unfolding sv5_def by (rule late) simp
  also have "adds Q sv5 sv6" by (rule parts(3)) (use sv6 in simp_all)
  also have "adds Q sv6 (turns env (late ScriptsOver) sv6)" by (rule late) simp
  finally show ?thesis using sv6 by (simp add: after_destroy_def Let_def sv3_def sv4_def sv5_def)
qed

lemma Destroy_config: "sv_config (Destroy env late sv) = sv_config sv"
proof -
  have "sv_config (unregister_turns env late i cbs v) = sv_config v" for i cbs v
    by (induction env late i cbs v rule: unregister_turns.induct) simp_all
  then show ?thesis by (simp add: Destroy_def split: option.splits)
qed

text \<open>What is still registered at the end was registered after \<open>Destroy\<close> had read the lists.\<close>

lemma service_end_spec:
  fixes late failure
  assumes "tracked env sv"
  defines "sv' \<equiv> service_end env late failure sv"
  shows "\<exists>pre post. n_history (sv_world sv') = pre @ post \<and> (\<exists>xs ys. pre = xs @ Report StopPending # ys)
      \<and> (\<forall>c \<in># live (te_os env) (n_history (sv_world sv')). Register c \<in> set post)
      \<and> (undisturbed late \<longrightarrow> (\<forall>c. Register c \<notin> set post))"
    and "grows not_up (sv_world sv) (sv_world sv')"
    and "sv_config sv' = sv_config sv"
proof -
  obtain ok sv2 where sv2: "before_destroy env late failure sv = (ok, sv2)"
    by (cases "before_destroy env late failure sv")
  note before = before_destroy_keeps [OF sv2]
  have sv': "sv' = after_destroy env late ok (Destroy env late sv2)"
    using sv2 by (simp add: sv'_def service_end_def)
  have tracked: "tracked env sv2" using before(1) assms by (simp add: sv_keeps_def)
  obtain xs where xs: "n_history (sv_world (Destroy env late sv2)) = n_history (sv_world sv2) @ xs" "list_all not_up xs"
    "\<forall>c. count (live (te_os env) (n_history (sv_world sv2))) c \<le> count_list xs (Unregister c)"
    "(\<forall>k. late (Unregistering k) = []) \<longrightarrow> (\<forall>c. Register c \<notin> set xs)"
    using Destroy_acts [OF tracked] by blast
  have "adds not_up (Destroy env late sv2) sv'"
    unfolding sv' by (rule after_destroy_adds) (auto simp: plain_not_up adds_turns)
  then obtain ys where ys: "n_history (sv_world sv') = n_history (sv_world sv2) @ xs @ ys" "list_all not_up ys"
    "sv_config sv' = sv_config (Destroy env late sv2)"
    using xs(1) by (auto simp: adds_def grows_def)
  have none: "Register c \<notin> set ys" if "undisturbed late" for c
  proof -
    have "adds (\<lambda>a. a \<noteq> Register c) (Destroy env late sv2) sv'"
      unfolding sv' by (rule after_destroy_adds) (use that in \<open>auto simp: undisturbed_def intro!: adds_turns\<close>)
    then show ?thesis using xs(1) ys(1) by (auto simp: adds_def grows_def list_all_iff)
  qed
  have "Register c \<in> set (xs @ ys)" if "c \<in># live (te_os env) (n_history (sv_world sv'))" for c
  proof (rule live_registered)
    show "c \<in># live (te_os env) (n_history (sv_world sv2) @ (xs @ ys))" using that ys(1) by simp
    show "\<forall>d. count (live (te_os env) (n_history (sv_world sv2))) d \<le> count_list (xs @ ys) (Unregister d)"
      using xs(3) by (simp add: trans_le_add1)
  qed
  then show "\<exists>pre post. n_history (sv_world sv') = pre @ post \<and> (\<exists>xs ys. pre = xs @ Report StopPending # ys)
      \<and> (\<forall>c \<in># live (te_os env) (n_history (sv_world sv')). Register c \<in> set post)
      \<and> (undisturbed late \<longrightarrow> (\<forall>c. Register c \<notin> set post))"
    using ys(1) before(3) xs(4) none
    by (intro exI [of _ "n_history (sv_world sv2)"] exI [of _ "xs @ ys"]) (auto simp: undisturbed_def)
  have "grows not_up (sv_world sv2) (sv_world sv')" using xs(2) ys by (auto simp: grows_def)
  then show "grows not_up (sv_world sv) (sv_world sv')"
    using before(1) by (auto simp: sv_keeps_def intro: grows_trans)
  show "sv_config sv' = sv_config sv" using ys(3) Destroy_config before(2) by simp
qed

section \<open>What comes before the device is up\<close>

text \<open>An action of the history that returned no error.\<close>

definition accomplished :: "net_os \<Rightarrow> net_history \<Rightarrow> net_action \<Rightarrow> bool" where
  "accomplished os h a \<longleftrightarrow> (\<exists>p q. h = p @ a # q \<and> n_fault os p a = None)"

text \<open>The hop underneath was there at some moment, or the service waited for all its tries.\<close>

definition hop_awaited :: "net_os \<Rightarrow> config \<Rightarrow> net_history \<Rightarrow> bool" where
  "hop_awaited os c h \<longleftrightarrow>
     pin_via c = [] \<or> chainUpWaitTries \<le> sleeps h
     \<or> (\<exists>w q. h = n_history w @ q \<and> chainPinnedInterfaceReady os (pin_via c) w)"

definition gate_passed :: "tunnel_env \<Rightarrow> service \<Rightarrow> config \<Rightarrow> 64 word \<Rightarrow> net_history \<Rightarrow> bool" where
  "gate_passed env sv c luid h \<longleftrightarrow>
     sv_config sv = Some c
     \<and> accomplished (te_os env) h
         (EnableFirewall luid (PinEndpointVia (Interface c) \<noteq> [] \<or> \<not> full_tunnel c) (DNS (Interface c)))
     \<and> accomplished (te_os env) h DropPrivileges \<and> (\<exists>t. accomplished (te_os env) h (SetDevice t))
     \<and> hop_awaited (te_os env) c h"

lemma accomplished_grows: "accomplished os h a \<Longrightarrow> accomplished os (h @ more_acts) a"
  unfolding accomplished_def by (metis append.assoc append_Cons)

lemma accomplished_now: "n_fault os h a = None \<Longrightarrow> accomplished os (h @ [a]) a"
  unfolding accomplished_def by blast

lemma hop_awaited_grows: "hop_awaited os c h \<Longrightarrow> hop_awaited os c (h @ more_acts)"
  unfolding hop_awaited_def by (metis append.assoc sleeps_simps(3) trans_le_add1)

lemma chainWaitForPinBeforeUp_awaits: "hop_awaited os c (n_history (chainWaitForPinBeforeUp os c w))"
proof (cases "pin_via c = [] \<or> chainPinnedInterfaceReady os (pin_via c) w")
  case True
  then show ?thesis
    by (auto simp: chainWaitForPinBeforeUp_def hop_awaited_def intro: exI [of _ w] exI [of _ "[]"])
next
  case False
  obtain r w1 where wait: "wait_for_pin os (pin_via c) 0 chainUpWaitTries w = (r, w1)"
    by (cases "wait_for_pin os (pin_via c) 0 chainUpWaitTries w")
  obtain acts where acts: "n_history w1 = n_history w @ acts" "\<not> r \<Longrightarrow> sleeps acts = chainUpWaitTries"
      "r \<Longrightarrow> chainPinnedInterfaceReady os (pin_via c) w1"
    using wait_for_pin_acts [OF wait] by blast
  show ?thesis
  proof (cases r)
    case True
    have "chainWaitForPinBeforeUp os c w = chainPinRoutes os c True w1"
      using False wait True by (simp add: chainWaitForPinBeforeUp_def)
    moreover obtain q where "n_history (chainPinRoutes os c True w1) = n_history w1 @ q"
      using chainPinRoutes_grows [of w1 os c True] by (auto simp: grows_def)
    ultimately show ?thesis using acts(3) True by (auto simp: hop_awaited_def)
  next
    case r: False
    then have "chainWaitForPinBeforeUp os c w = w1"
      using False wait by (simp add: chainWaitForPinBeforeUp_def)
    then show ?thesis using acts r by (simp add: hop_awaited_def)
  qed
qed

text \<open>A stage that leaves the configuration and the adapter alone.\<close>

definition fixes_config :: "tunnel_env \<Rightarrow> stage \<Rightarrow> bool" where
  "fixes_config env s \<longleftrightarrow>
     (\<forall>sv r sv'. s env sv = (r, sv') \<longrightarrow>
        sv_config sv' = sv_config sv \<and> sv_tun sv' = sv_tun sv
        \<and> (\<exists>q. n_history (sv_world sv') = n_history (sv_world sv) @ q))"

lemma keeps_history: "sv_keeps env sv sv' \<Longrightarrow> \<exists>q. n_history (sv_world sv') = n_history (sv_world sv) @ q"
  by (auto simp: sv_keeps_def grows_def)

lemma fixing_stages:
  "fixes_config env announce_if_locked" "fixes_config env start_watcher" "fixes_config env resolve_names"
  "fixes_config env (run_script script)" "fixes_config env pin_routes" "fixes_config env start_firewall"
  "fixes_config env drop_privileges" "fixes_config env listen_uapi" "fixes_config env set_device"
  "fixes_config env wait_for_hop" "fixes_config env configure_watcher" "fixes_config env report_running"
proof -
  have by_keep: "fixes_config env s"
    if "stage_keeps env s" "\<And>sv r sv'. s env sv = (r, sv') \<Longrightarrow> sv_config sv' = sv_config sv \<and> sv_tun sv' = sv_tun sv"
    for s
    using that keeps_history unfolding fixes_config_def stage_keeps_def by blast
  note defs = announce_if_locked_def resolve_names_def run_script_def pin_routes_def start_firewall_def
    drop_privileges_def listen_uapi_def set_device_def wait_for_hop_def configure_watcher_def report_running_def
    with_config_def on_world_def net_do_def
  show "fixes_config env start_watcher"
    unfolding fixes_config_def start_watcher_def
    by (auto split: sum.splits prod.splits dest!: watchInterface_live(2) simp: grows_def)
  show "fixes_config env announce_if_locked" "fixes_config env resolve_names"
    "fixes_config env (run_script script)" "fixes_config env pin_routes" "fixes_config env start_firewall"
    "fixes_config env drop_privileges" "fixes_config env listen_uapi" "fixes_config env set_device"
    "fixes_config env wait_for_hop" "fixes_config env configure_watcher" "fixes_config env report_running"
    by (rule by_keep, rule simple_stages_keep, auto simp: defs split: option.splits sum.splits prod.splits)+
qed

lemma run_stages_None:
  assumes "run_stages env gaps i (s # rest) sv = (None, sv')"
  obtains sv1 where "s env (turns env (gaps i) sv) = (None, sv1)"
    "run_stages env gaps (Suc i) rest sv1 = (None, sv')"
proof -
  obtain x sv1 where x: "s env (turns env (gaps i) sv) = (x, sv1)" by (cases "s env (turns env (gaps i) sv)")
  then show thesis using assms that
    by (cases x) (simp_all add: run_stages_Cons del: run_stages.simps(2))
qed

text \<open>\<open>extends_run\<close>: the same configuration and adapter, a longer history.\<close>

definition extends_run :: "service \<Rightarrow> service \<Rightarrow> bool" where
  "extends_run sv sv' \<longleftrightarrow>
     sv_config sv' = sv_config sv \<and> sv_tun sv' = sv_tun sv
     \<and> (\<exists>q. n_history (sv_world sv') = n_history (sv_world sv) @ q)"

lemma extends_run_trans [trans]: "extends_run a b \<Longrightarrow> extends_run b c \<Longrightarrow> extends_run a c"
  by (auto simp: extends_run_def)

lemma extends_run_turns: "extends_run sv (turns env bs sv)"
  using keeps_history [OF turns_simps(3)] by (simp add: extends_run_def)

lemma extends_run_stage:
  "fixes_config env s \<Longrightarrow> s env (turns env bs sv) = (r, sv') \<Longrightarrow> extends_run sv sv'"
  using extends_run_turns [of sv env bs] unfolding fixes_config_def extends_run_def by fastforce

lemma accomplished_extends:
  "extends_run sv sv' \<Longrightarrow> accomplished os (n_history (sv_world sv)) a \<Longrightarrow> accomplished os (n_history (sv_world sv')) a"
  by (auto simp: extends_run_def accomplished_grows)

lemma load_config_some: "load_config path env sv = (None, sv') \<Longrightarrow> sv_config sv' \<noteq> None"
  by (auto simp: load_config_def on_world_def net_do_def split: sum.splits)

lemma create_interface_some:
  "create_interface env sv = (None, sv') \<Longrightarrow> sv_config sv \<noteq> None \<Longrightarrow> sv_config sv' \<noteq> None \<and> sv_tun sv' \<noteq> None"
  by (auto simp: create_interface_def with_config_def split: option.splits prod.splits)

lemma firewall_accomplished:
  assumes "start_firewall env sv = (None, sv')" "sv_config sv = Some c" "sv_tun sv = Some l"
  shows "accomplished (te_os env) (n_history (sv_world sv'))
           (EnableFirewall l (PinEndpointVia (Interface c) \<noteq> [] \<or> \<not> full_tunnel c) (DNS (Interface c)))"
  using assms
  by (auto simp: start_firewall_def with_config_def enableFirewall_def on_world_def net_do_def Let_def
      split: if_splits intro: accomplished_now)

lemma privileges_accomplished:
  "drop_privileges env sv = (None, sv') \<Longrightarrow> accomplished (te_os env) (n_history (sv_world sv')) DropPrivileges"
  by (auto simp: drop_privileges_def on_world_def net_do_def intro: accomplished_now)

lemma device_accomplished:
  "set_device env sv = (None, sv') \<Longrightarrow> \<exists>t. accomplished (te_os env) (n_history (sv_world sv')) (SetDevice t)"
  by (auto simp: set_device_def on_world_def net_do_def 
      intro!: exI [of _ "sv_uapi_conf sv"] accomplished_now)

lemma hop_waited:
  "wait_for_hop env sv = (None, sv') \<Longrightarrow> sv_config sv = Some c \<Longrightarrow>
   hop_awaited (te_os env) c (n_history (sv_world sv'))"
  by (auto simp: wait_for_hop_def with_config_def chainWaitForPinBeforeUp_awaits)

lemma middle_passes:
  assumes run: "run_stages env gaps i middle_stages sv = (None, sv')" and conf: "sv_config sv \<noteq> None"
  shows "\<exists>c l. gate_passed env sv' c l (n_history (sv_world sv'))"
proof -
  obtain a1 where a1: "resolve_names env (turns env (gaps i) sv) = (None, a1)"
    "run_stages env gaps (Suc i) (tl middle_stages) a1 = (None, sv')"
    using run unfolding middle_stages_def list.sel by (rule run_stages_None)
  have "sv_config a1 \<noteq> None"
    using extends_run_stage [OF fixing_stages(3) a1(1)] conf by (simp add: extends_run_def)
  obtain a2 where a2: "create_interface env (turns env (gaps (Suc i)) a1) = (None, a2)"
    "run_stages env gaps (Suc (Suc i)) (tl (tl middle_stages)) a2 = (None, sv')"
    using a1(2) unfolding middle_stages_def list.sel by (rule run_stages_None)
  obtain c l where cl: "sv_config a2 = Some c" "sv_tun a2 = Some l"
    using create_interface_some [OF a2(1)] \<open>sv_config a1 \<noteq> None\<close> by auto
  obtain a3 j3 where a3: "extends_run a2 a3"
    "run_stages env gaps j3 (tl (tl (tl middle_stages))) a3 = (None, sv')"
    using a2(2) unfolding middle_stages_def list.sel
    by (rule run_stages_None) (use extends_run_stage [OF fixing_stages(4)] in blast)
  obtain a4 j4 where a4: "extends_run a3 a4"
    "run_stages env gaps j4 [start_firewall, drop_privileges, listen_uapi, set_device, wait_for_hop] a4 = (None, sv')"
    using a3(2) unfolding middle_stages_def list.sel
    by (rule run_stages_None) (use extends_run_stage [OF fixing_stages(5)] in blast)
  have cl4: "sv_config a4 = Some c" "sv_tun a4 = Some l"
    using cl a3(1) a4(1) by (simp_all add: extends_run_def)
  obtain a5 where a5: "start_firewall env (turns env (gaps j4) a4) = (None, a5)"
    "run_stages env gaps (Suc j4) [drop_privileges, listen_uapi, set_device, wait_for_hop] a5 = (None, sv')"
    using a4(2) by (rule run_stages_None)
  obtain a6 where a6: "drop_privileges env (turns env (gaps (Suc j4)) a5) = (None, a6)"
    "run_stages env gaps (Suc (Suc j4)) [listen_uapi, set_device, wait_for_hop] a6 = (None, sv')"
    using a5(2) by (rule run_stages_None)
  obtain a7 j7 where a7: "extends_run a6 a7"
    "run_stages env gaps j7 [set_device, wait_for_hop] a7 = (None, sv')"
    using a6(2) by (rule run_stages_None) (use extends_run_stage [OF fixing_stages(8)] in blast)
  obtain a8 where a8: "set_device env (turns env (gaps j7) a7) = (None, a8)"
    "run_stages env gaps (Suc j7) [wait_for_hop] a8 = (None, sv')"
    using a7(2) by (rule run_stages_None)
  obtain a9 where a9: "wait_for_hop env (turns env (gaps (Suc j7)) a8) = (None, a9)"
    "run_stages env gaps (Suc (Suc j7)) [] a9 = (None, sv')"
    using a8(2) by (rule run_stages_None)
  have same: "a9 = sv'" using a9(2) by simp
  have e5: "extends_run a4 a5" using fixing_stages(6) a5(1) by (rule extends_run_stage)
  have e6: "extends_run a5 a6" using fixing_stages(7) a6(1) by (rule extends_run_stage)
  have e8: "extends_run a7 a8" using fixing_stages(9) a8(1) by (rule extends_run_stage)
  have e9: "extends_run a8 sv'" using fixing_stages(10) a9(1) unfolding same by (rule extends_run_stage)
  have to_end6: "extends_run a6 sv'" using a7(1) e8 e9 by (blast intro: extends_run_trans)
  have to_end5: "extends_run a5 sv'" using e6 to_end6 by (rule extends_run_trans)
  have c8: "sv_config a8 = Some c" "sv_config sv' = Some c"
    using cl4 e5 e6 a7(1) e8 e9 by (simp_all add: extends_run_def)
  have "gate_passed env sv' c l (n_history (sv_world sv'))"
    unfolding gate_passed_def
  proof (intro conjI)
    show "sv_config sv' = Some c" by (rule c8(2))
    show "accomplished (te_os env) (n_history (sv_world sv'))
        (EnableFirewall l (PinEndpointVia (Interface c) \<noteq> [] \<or> \<not> full_tunnel c) (DNS (Interface c)))"
      using to_end5 firewall_accomplished [OF a5(1)] cl4 by (auto intro: accomplished_extends)
    show "accomplished (te_os env) (n_history (sv_world sv')) DropPrivileges"
      using to_end6 privileges_accomplished [OF a6(1)] by (rule accomplished_extends)
    show "\<exists>t. accomplished (te_os env) (n_history (sv_world sv')) (SetDevice t)"
      using device_accomplished [OF a8(1)] accomplished_extends [OF e9] by blast
    show "hop_awaited (te_os env) c (n_history (sv_world sv'))"
      using hop_waited [OF a9(1)] c8(1) same by simp
  qed
  then show ?thesis by blast
qed

section \<open>Runs of the service\<close>

definition started :: service where "started = act_if True (Report StartPending) new_service"

lemma started_simps [simp]: "sv_watcher started = None" "n_history (sv_world started) = [Report StartPending]"
  by (simp_all add: started_def new_service_def act_if_def)

lemma started_tracked: "tracked env started"
  using live_snoc(1) [of "te_os env" "[]" "Report StartPending"] by (simp add: tracked_def effect_def)

text \<open>A run up to the point where the device goes up, and what follows.\<close>

lemma before_up_keeps:
  assumes "run_stages env gaps 0 (first_stages path @ middle_stages) started = (r, sv)"
  shows "sv_keeps env started sv"
proof -
  obtain x sv1 where x: "run_stages env gaps 0 (first_stages path) started = (x, sv1)"
    by (cases "run_stages env gaps 0 (first_stages path) started")
  have k: "sv_keeps env started sv1" using x by (rule first_stages_keep) simp
  show ?thesis
  proof (cases x)
    case (Some e)
    then show ?thesis using assms [unfolded run_stages_append x] k by simp
  next
    case None
    then have "run_stages env gaps (length (first_stages path)) middle_stages sv1 = (r, sv)"
      using assms [unfolded run_stages_append x] by simp
    then have "sv_keeps env sv1 sv" by (rule run_stages_keep) (rule middle_stages_keep)
    then show ?thesis using k sv_keeps_trans by blast
  qed
qed

lemma before_up_passes:
  assumes "run_stages env gaps 0 (first_stages path @ middle_stages) started = (None, sv)"
  shows "\<exists>c l. gate_passed env sv c l (n_history (sv_world sv))"
proof -
  obtain x sv1 where x: "run_stages env gaps 0 (first_stages path) started = (x, sv1)"
    by (cases "run_stages env gaps 0 (first_stages path) started")
  have "x = None" using assms [unfolded run_stages_append x] by (cases x) simp_all
  note x = x [unfolded this]
  have mid: "run_stages env gaps (length (first_stages path)) middle_stages sv1 = (None, sv)"
    using assms [unfolded run_stages_append x] by simp
  obtain a1 j1 where "run_stages env gaps j1 [load_config path, announce_if_locked, start_watcher] a1 = (None, sv1)"
    using x unfolding first_stages_def by (rule run_stages_None)
  then obtain a2 j2 where a2: "sv_config a2 \<noteq> None"
    "run_stages env gaps j2 [announce_if_locked, start_watcher] a2 = (None, sv1)"
    by (rule run_stages_None) (use load_config_some in blast)
  obtain a3 j3 where a3: "extends_run a2 a3" "run_stages env gaps j3 [start_watcher] a3 = (None, sv1)"
    using a2(2) by (rule run_stages_None) (use extends_run_stage [OF fixing_stages(1)] in blast)
  obtain a4 j4 where a4: "extends_run a3 a4" "run_stages env gaps j4 [] a4 = (None, sv1)"
    using a3(2) by (rule run_stages_None) (use extends_run_stage [OF fixing_stages(2)] in blast)
  have "sv_config sv1 \<noteq> None" using a2(1) a3(1) a4 by (simp add: extends_run_def)
  with mid show ?thesis by (rule middle_passes)
qed

lemma last_stages_fix:
  assumes "run_stages env gaps i last_stages sv = (r, sv')"
  shows "sv_config sv' = sv_config sv"
proof -
  have same: "run_stages env gaps i ss v = (q, v') \<Longrightarrow> (\<And>s. s \<in> set ss \<Longrightarrow> fixes_config env s)
      \<Longrightarrow> sv_config v' = sv_config v" for ss i v q v'
  proof (induction ss arbitrary: i v)
    case (Cons s ss)
    obtain x v1 where x: "s env (turns env (gaps i) v) = (x, v1)" by (cases "s env (turns env (gaps i) v)")
    have "sv_config v1 = sv_config v"
      using x Cons.prems(2) [of s] unfolding fixes_config_def by fastforce
    then show ?case using Cons x
      by (cases x) (auto simp: run_stages_Cons simp del: run_stages.simps(2))
  qed simp
  show ?thesis using assms by (rule same) (auto simp: last_stages_def fixing_stages)
qed

text \<open>How a run goes: it fails before the device is up, or the device goes up exactly once.\<close>

lemma Execute_cases:
  assumes run: "Execute env path gaps events late = (r, sv)"
  obtains (early) e sv1 where "r = Some (Some e)" "sv_keeps env started sv1" "sv = service_end env late (Some e) sv1"
  | (failed) c l e up sv1 where "gate_passed env up c l (n_history (sv_world up))" "sv_keeps env started up"
      "sv_keeps env (snd (bring_up env up)) sv1" "sv_config sv1 = Some c"
      "r = Some e" "sv = service_end env late e sv1"
  | (running) c l up where "gate_passed env up c l (n_history (sv_world up))" "sv_keeps env started up"
      "sv_keeps env (snd (bring_up env up)) sv" "sv_config sv = Some c" "r = None"
proof -
  obtain x b where x: "run_stages env gaps 0 (first_stages path @ middle_stages) started = (x, b)"
    by (cases "run_stages env gaps 0 (first_stages path @ middle_stages) started")
  have keepb: "sv_keeps env started b" using x by (rule before_up_keeps)
  have exec: "Execute env path gaps events late =
      (case run_stages env gaps 0 ((first_stages path @ middle_stages) @ bring_up # last_stages) started of
         (Some e, sv) \<Rightarrow> (Some (Some e), service_end env late (Some e) sv)
       | (None, sv) \<Rightarrow>
           (case service_loop env events sv of
              (None, sv1) \<Rightarrow> (None, sv1)
            | (Some failure, sv1) \<Rightarrow> (Some failure, service_end env late failure sv1)))"
    by (simp only: Execute_def Let_def stages_split started_def)
  show thesis
  proof (cases x)
    case (Some e)
    then have "r = Some (Some e)" "sv = service_end env late (Some e) b"
      using run unfolding exec run_stages_append [of _ _ _ "first_stages path @ middle_stages"] x by simp_all
    then show thesis using early keepb by blast
  next
    case None
    note x = x [unfolded None]
    obtain c l where gate: "gate_passed env b c l (n_history (sv_world b))"
      using before_up_passes [OF x] by blast
    define j where "j = length (first_stages path @ middle_stages)"
    define up where "up = turns env (gaps j) b"
    have keepu: "sv_keeps env started up" using keepb sv_keeps_trans turns_simps(3) unfolding up_def by blast
    obtain q where q: "n_history (sv_world up) = n_history (sv_world b) @ q"
      using keeps_history [OF turns_simps(3)] unfolding up_def by blast
    have gate_up: "gate_passed env up c l (n_history (sv_world up))"
      using gate unfolding gate_passed_def q
      by (auto simp: up_def intro: accomplished_grows hop_awaited_grows)
    define b2 where "b2 = snd (bring_up env up)"
    have conf2: "sv_config b2 = Some c" using gate_up by (simp add: b2_def bring_up_def gate_passed_def)
    obtain y b3 where y: "run_stages env gaps (Suc j) last_stages b2 = (y, b3)"
      by (cases "run_stages env gaps (Suc j) last_stages b2")
    have keep3: "sv_keeps env b2 b3" using y by (rule run_stages_keep) (rule last_stages_keep)
    have conf3: "sv_config b3 = Some c" using last_stages_fix [OF y] conf2 by simp
    have step: "run_stages env gaps 0 ((first_stages path @ middle_stages) @ bring_up # last_stages) started = (y, b3)"
      using y unfolding run_stages_append [of _ _ _ "first_stages path @ middle_stages"] x prod.case option.case
        run_stages_Cons j_def [symmetric] add_0
      by (simp add: b2_def up_def bring_up_def del: run_stages.simps)
    show thesis
    proof (cases y)
      case (Some e)
      then have "r = Some (Some e)" "sv = service_end env late (Some e) b3" using run unfolding exec step by simp_all
      then show thesis using failed gate_up keepu keep3 conf3 unfolding b2_def by blast
    next
      case None
      obtain z b4 where z: "service_loop env events b3 = (z, b4)" by (cases "service_loop env events b3")
      have keep4: "sv_keeps env b2 b4" "sv_config b4 = Some c"
        using loop_keeps [OF z] keep3 conf3 sv_keeps_trans by auto
      show thesis
      proof (cases z)
        case loops: None
        then have "r = None" "sv = b4" using run z unfolding exec step None by simp_all
        then show thesis using running gate_up keepu keep4 unfolding b2_def by blast
      next
        case (Some e)
        then have "r = Some e" "sv = service_end env late e b4" using run z unfolding exec step None by simp_all
        then show thesis using failed gate_up keepu keep4 unfolding b2_def by blast
      qed
    qed
  qed
qed

lemma bring_up_tracked: "tracked env sv \<Longrightarrow> tracked env (snd (bring_up env sv))"
  by (simp add: tracked_def bring_up_def live_snoc)

lemma Execute_tracked:
  assumes "Execute env path gaps events late = (r, sv)"
  obtains (running) "r = None" "tracked env sv"
  | (ended) pre post where "r \<noteq> None" "n_history (sv_world sv) = pre @ post" "\<exists>xs ys. pre = xs @ Report StopPending # ys"
      "\<forall>c \<in># live (te_os env) (n_history (sv_world sv)). Register c \<in> set post"
      "undisturbed late \<longrightarrow> (\<forall>c. Register c \<notin> set post)"
  using assms
proof (cases rule: Execute_cases)
  case (early e sv1)
  then have "tracked env sv1" using started_tracked by (simp add: sv_keeps_def)
  from service_end_spec(1) [OF this, of late "Some e"] show ?thesis using early ended by blast
next
  case (failed c l e up sv1)
  then have "tracked env sv1" using started_tracked bring_up_tracked by (auto simp: sv_keeps_def)
  from service_end_spec(1) [OF this, of late e] show ?thesis using failed ended by blast
next
  case (running c l up)
  then have "tracked env sv" using started_tracked bring_up_tracked by (auto simp: sv_keeps_def)
  then show ?thesis using running that(1) by blast
qed

lemma grows_not_up_mem: "grows not_up w w' \<Longrightarrow> DeviceUp \<notin> set (n_history w) \<Longrightarrow> DeviceUp \<notin> set (n_history w')"
  by (auto simp: grows_def not_up_def list_all_iff)

lemma started_not_up: "sv_keeps env started sv \<Longrightarrow> DeviceUp \<notin> set (n_history (sv_world sv))"
  using grows_not_up_mem [of "sv_world started" "sv_world sv"] by (simp add: sv_keeps_def)

lemma Execute_up:
  assumes "Execute env path gaps events late = (r, sv)" and h: "n_history (sv_world sv) = pre @ DeviceUp # post"
  shows "DeviceUp \<notin> set pre \<and> DeviceUp \<notin> set post \<and> (\<exists>c l. gate_passed env sv c l pre)"
proof -
  have once: ?thesis
    if up: "sv_keeps env started up" "gate_passed env up c l (n_history (sv_world up))"
      and more_acts: "grows not_up (sv_world (snd (bring_up env up))) (sv_world sv)" and conf: "sv_config sv = Some c"
    for up c l
  proof -
    have no: "DeviceUp \<notin> set (n_history (sv_world up))" using up(1) by (rule started_not_up)
    obtain q where q: "n_history (sv_world sv) = n_history (sv_world up) @ DeviceUp # q" "list_all not_up q"
      using more_acts by (auto simp: bring_up_def grows_def)
    then have "DeviceUp \<notin> set q" by (auto simp: not_up_def list_all_iff)
    then have "pre = n_history (sv_world up) \<and> post = q"
      using no h q(1) append_Cons_eq_iff [of DeviceUp "n_history (sv_world up)" q pre post] by auto
    then show ?thesis using no \<open>DeviceUp \<notin> set q\<close> up(2) conf by (auto simp: gate_passed_def)
  qed
  from assms(1) show ?thesis
  proof (cases rule: Execute_cases)
    case (early e sv1)
    have "tracked env sv1" using early started_tracked by (simp add: sv_keeps_def)
    then have "grows not_up (sv_world sv1) (sv_world sv)" using early service_end_spec(2) by simp
    then have "DeviceUp \<notin> set (n_history (sv_world sv))"
      using early started_not_up grows_not_up_mem by blast
    then show ?thesis using h by simp
  next
    case (failed c l e up sv1)
    have "tracked env sv1" using failed started_tracked bring_up_tracked by (auto simp: sv_keeps_def)
    then have "grows not_up (sv_world (snd (bring_up env up))) (sv_world sv)" "sv_config sv = Some c"
      using failed service_end_spec(2,3) [of env sv1 late e] by (auto simp: sv_keeps_def intro: grows_trans)
    then show ?thesis using once failed by blast
  next
    case (running c l up)
    then show ?thesis using once [of up c l] by (simp add: sv_keeps_def)
  qed
qed

end
