(* ===== verification/TunnelClaims.thy ===== *)
theory TunnelClaims
  imports TunnelService Samples
begin

text \<open>
  The properties of the tunnel service (\<open>upstream-tunnel/\<close>): its start and its end, the routes and
  the socket of a pinned hop, its adapter's routes, MTU and GUID.
\<close>

section \<open>A tunnel service for the witnesses\<close>

text \<open>Every call succeeds; the hop underneath has an adapter without an IPv6 index.\<close>

definition hop_adapter :: adapter where
  "hop_adapter =
     \<lparr> ad_friendly = ''pair-hop1'', ad_description = ''WireGuard Tunnel'', ad_luid = 7, ad_up = True,
       ad_index4 = 5, ad_index6 = 0, ad_addresses = [] \<rparr>"

definition default_row :: "64 word \<Rightarrow> 32 word \<Rightarrow> 32 word \<Rightarrow> fwd_row" where
  "default_row luid index metric =
     \<lparr> fr_luid = luid, fr_prefix = \<lparr> net_ip = replicate 4 0, net_mask = replicate 4 0 \<rparr>, fr_length = 0,
       fr_hop = [192, 168, 0, 1], fr_metric = metric, fr_index = index \<rparr>"

definition sample_net :: net_os where
  "sample_net =
     \<lparr> n_unicode = ascii_unicode, n_adapters = (\<lambda>_ _. Inr [hop_adapter]), n_lookup = (\<lambda>_ _. None),
       n_table = (\<lambda>_ _. Inr [default_row 3 30 20, default_row 4 40 10]), n_service = (\<lambda>_ _. None),
       n_interface = (\<lambda>_ _. Inr \<lparr> if_up = True, if_mtu = 1500 \<rparr>),
       n_ipif = (\<lambda>_ _ _. Inr \<lparr> ii_mtu = 1420, ii_metric = 5, ii_auto_metric = True, ii_dad = 1, ii_discovery = True \<rparr>),
       n_fault = (\<lambda>_ _. None) \<rparr>"

definition sample_tunnel :: tunnel_env where
  "sample_tunnel =
     \<lparr> te_os = sample_net, te_store = sample_env, te_files = (\<lambda>_. sample_dir), te_order = [],
       te_resolve = (\<lambda>_ s. Inr s),
       te_guid = \<lparr> ge_hash = id, ge_nfc = (\<lambda>_. []), ge_public = id, ge_fixed = True \<rparr>,
       te_locked = (\<lambda>_. False), te_booted = (\<lambda>_. True), te_luid = (\<lambda>_. 9), te_scripts = False,
       te_script = (\<lambda>_ _. Inr 0) \<rparr>"

definition sample_path :: string where "sample_path = ''pair'' @ configFileUnencryptedSuffix"

lemma sample_net_simps [simp]:
  "n_fault sample_net h a = None" "n_table sample_net h fam = Inr [default_row 3 30 20, default_row 4 40 10]"
  "n_adapters sample_net h f = Inr [hop_adapter]" "n_unicode sample_net = ascii_unicode"
  "n_interface sample_net h l = Inr \<lparr> if_up = True, if_mtu = 1500 \<rparr>"
  "n_ipif sample_net h l fam
     = Inr \<lparr> ii_mtu = 1420, ii_metric = 5, ii_auto_metric = True, ii_dad = 1, ii_discovery = True \<rparr>"
  "n_service sample_net h s = None" "n_lookup sample_net h s = None"
  by (simp_all add: sample_net_def)

lemma sample_tunnel_simps [simp]:
  "te_os sample_tunnel = sample_net" "te_scripts sample_tunnel = False" "te_resolve sample_tunnel h = Inr"
  by (simp_all add: sample_tunnel_def fun_eq_iff)

lemma sample_path_loads: "LoadFromPath sample_env sample_dir sample_path = Inr hop2_conf"
proof -
  have read: "read_file sample_dir (''pair'' @ configFileUnencryptedSuffix) = Inr (ToWgQuick ascii_unicode [] hop2_conf)"
    by (simp add: read_file_def find_entry_def sample_dir_def plain_file_def configFileUnencryptedSuffix_def)
  have name: "TunnelNameIsValid ascii_unicode ''pair''" using sample_names by simp
  show ?thesis
    using read load_unknown_written [OF hop_wf(2), of "[]"] sample_order NameFromPath_plain [OF name]
      suffixes_differ(1) [of "''pair''"]
    by (simp add: LoadFromPath_def sample_path_def)
qed

lemma ToUAPI_resolved: "\<exists>t. ToUAPI u ord Inr c = (Inr t :: net_error + string)"
proof -
  have "\<exists>ls. uapi_peer_lines Inr p = (Inr ls :: net_error + string list)" for p
    by (simp add: uapi_peer_lines_def)
  then obtain f where "\<And>p. uapi_peer_lines Inr p = (Inr (f p) :: net_error + string list)" by metis
  then have "rmap (uapi_peer_lines Inr) ps = (Inr (map f ps) :: net_error + string list list)" for ps
    by (intro rmap_all_Inr)
  then show ?thesis by (auto simp: ToUAPI_def rbind_Inr_iff)
qed

lemma sample_guid: "\<exists>g d. deterministicGUID (te_guid sample_tunnel) c = Some (g, d)"
  by (simp add: deterministicGUID_def guid_input_def sample_tunnel_def b2String_def string_bytes_def b2Number_def)

lemma sample_stages: "s \<in> set (stages sample_path) \<Longrightarrow> fst (s sample_tunnel sv) = None"
proof -
  have world: "fst (on_world code (net_do sample_net a) sv) = None" for code a sv
    by (simp add: on_world_def net_do_def)
  have script: "runScriptCommand sample_tunnel cmd n w = (None, w)" for cmd n w
    by (simp add: runScriptCommand_def)
  have load: "LoadFromPath (te_store sample_tunnel) (te_files sample_tunnel h) sample_path = Inr hop2_conf" for h
    using sample_path_loads by (simp add: sample_tunnel_def)
  have tun: "fst (create_wintun sample_tunnel a i k w) = None" for a i k w
    by (cases k) (simp_all add: create_wintun.simps net_do_def)
  have "fst (create_interface sample_tunnel sv) = None" for sv
  proof (cases "sv_config sv")
    case (Some c)
    obtain g d where g: "deterministicGUID (te_guid sample_tunnel) c = Some (g, d)" using sample_guid by blast
    then show ?thesis using Some tun [of "CreateTUN (Name d) g" 0 4 "sv_world sv"]
      by (auto simp: create_interface_def with_config_def split: prod.splits option.splits)
  qed (simp add: create_interface_def with_config_def)
  moreover have "fst (resolve_names sample_tunnel sv) = None" for sv
    using ToUAPI_resolved [of ascii_unicode "te_order sample_tunnel"]
    by (auto simp: resolve_names_def with_config_def split: option.splits sum.splits)
      (metis Inl_Inr_False)
  moreover have "fst (start_watcher sample_tunnel sv) = None" for sv
    by (simp add: start_watcher_def watchInterface_def net_do_def Let_def)
  moreover have "fst (listen_uapi sample_tunnel sv) = None" for sv
    by (simp add: listen_uapi_def with_config_def on_world_def net_do_def split: option.splits)
  moreover have "fst (start_firewall sample_tunnel sv) = None" for sv
    by (simp add: start_firewall_def with_config_def on_world_def net_do_def enableFirewall_def Let_def split: option.splits)
  ultimately show "s \<in> set (stages sample_path) \<Longrightarrow> fst (s sample_tunnel sv) = None"
    by (auto simp: stages_def start_log_def load_config_def load announce_if_locked_def run_script_def pin_routes_def
        drop_privileges_def set_device_def wait_for_hop_def bring_up_def configure_watcher_def report_running_def
        with_config_def world script on_world_def net_do_def split: option.splits)
qed

lemma sample_starts: "fst (run_stages sample_tunnel gaps 0 (stages sample_path) started) = None"
proof -
  have "(\<And>s v. s \<in> set ss \<Longrightarrow> fst (s sample_tunnel v) = None) \<Longrightarrow>
      fst (run_stages sample_tunnel gaps i ss sv) = None" for ss i sv
  proof (induction ss arbitrary: i sv)
    case (Cons s ss)
    then have "fst (s sample_tunnel (turns sample_tunnel (gaps i) sv)) = None" by simp
    then show ?case using Cons
      by (cases "s sample_tunnel (turns sample_tunnel (gaps i) sv)")
        (simp add: run_stages_Cons del: run_stages.simps(2))
  qed simp
  then show ?thesis using sample_stages by blast
qed

section \<open>The start and the end of a tunnel\<close>

text \<open>
  C7: The device of a tunnel goes up at most once, and only after the firewall was enabled, the
  privileges dropped and the configuration set, all without error; the tunnel of a chain hop
  never restricts traffic on its own, and a pinned one goes up only after its adapter was seen up or
  after all ten tries of two seconds. Whatever other goroutines do and however the run ends.
\<close>

theorem up_behind_the_gate:
  assumes "Execute env path gaps events late = (r, sv)"
    and "n_history (sv_world sv) = pre @ DeviceUp # post"
  shows "DeviceUp \<notin> set pre \<and> DeviceUp \<notin> set post \<and> (\<exists>c luid. gate_passed env sv c luid pre)"
  using Execute_up [OF assms] .

theorem up_behind_the_gate_witness:
  "\<exists>r sv pre post. Execute sample_tunnel sample_path (\<lambda>_. []) [] (\<lambda>_. []) = (r, sv)
     \<and> n_history (sv_world sv) = pre @ DeviceUp # post \<and> (\<exists>c luid. gate_passed sample_tunnel sv c luid pre)"
proof -
  obtain r sv where run: "Execute sample_tunnel sample_path (\<lambda>_. []) [] (\<lambda>_. []) = (r, sv)"
    by (cases "Execute sample_tunnel sample_path (\<lambda>_. []) [] (\<lambda>_. [])")
  have "fst (run_stages sample_tunnel (\<lambda>_. []) 0 (stages sample_path) started) = None" by (rule sample_starts)
  then have "r = None" using run
    by (auto simp: Execute_def Let_def split: prod.splits simp flip: started_def)
  with run obtain up where "sv_keeps sample_tunnel (snd (bring_up sample_tunnel up)) sv"
    by (cases rule: Execute_cases) auto
  then obtain q where "n_history (sv_world sv) = (n_history (sv_world up) @ [DeviceUp]) @ q"
    using keeps_history by (fastforce simp: bring_up_def)
  then have h: "n_history (sv_world sv) = n_history (sv_world up) @ DeviceUp # q" by simp
  show ?thesis using run h up_behind_the_gate [OF run h] by blast
qed

text \<open>
  C26: While a tunnel runs, the callbacks registered with Windows and not unregistered are exactly
  those its watcher lists. The end unregisters all of them, whatever others do meanwhile: a callback
  that is left was registered by somebody's turn after the service reported that it stops, and none
  is left when nobody takes a turn from the moment \<open>Destroy\<close> has read the lists.
\<close>

theorem callbacks_accounted:
  assumes "Execute env path gaps events late = (r, sv)"
  shows "(r = None \<longrightarrow> live (te_os env) (n_history (sv_world sv))
             = (case sv_watcher sv of None \<Rightarrow> {#} | Some iw \<Rightarrow> listed iw))
    \<and> (r \<noteq> None \<longrightarrow>
        (\<exists>pre post. n_history (sv_world sv) = pre @ Report StopPending # post
           \<and> (\<forall>c \<in># live (te_os env) (n_history (sv_world sv)). Register c \<in> set post))
        \<and> (undisturbed late \<longrightarrow> live (te_os env) (n_history (sv_world sv)) = {#}))"
  using assms
proof (cases rule: Execute_tracked)
  case running
  then show ?thesis by (simp add: tracked_def)
next
  case (ended pre post)
  then obtain xs ys where "n_history (sv_world sv) = xs @ Report StopPending # (ys @ post)" by auto
  moreover have "\<forall>c \<in># live (te_os env) (n_history (sv_world sv)). Register c \<in> set (ys @ post)"
    using ended(4) by simp
  moreover have "live (te_os env) (n_history (sv_world sv)) = {#}" if "undisturbed late"
    using ended(4,5) that by (meson multiset_nonemptyE)
  ultimately show ?thesis using ended(1) by blast
qed

theorem callbacks_accounted_witness:
  "\<exists>sv. Execute sample_tunnel sample_path (\<lambda>_. []) [Request ControlStop] (\<lambda>_. []) = (Some None, sv)
     \<and> live sample_net (n_history (sv_world sv)) = {#}"
proof -
  obtain r sv where run: "Execute sample_tunnel sample_path (\<lambda>_. []) [Request ControlStop] (\<lambda>_. []) = (r, sv)"
    by (cases "Execute sample_tunnel sample_path (\<lambda>_. []) [Request ControlStop] (\<lambda>_. [])")
  have "fst (run_stages sample_tunnel (\<lambda>_. []) 0 (stages sample_path) started) = None" by (rule sample_starts)
  then have "r = Some None" using run
    by (auto simp: Execute_def Let_def split: prod.splits simp flip: started_def)
  then show ?thesis using run callbacks_accounted [OF run] by (auto simp: undisturbed_def)
qed

text \<open>
  A callback can be left: an interface notification that waits for the mutex while \<open>Destroy\<close> has
  released it registers two, and they are taken off the list without being unregistered.
\<close>

definition plain_watcher :: watcher where
  "plain_watcher = new_watcher\<lparr>iw_tun := Some 9, iw_conf := Some \<lparr> Name = ''pair'', Interface = zero_interface, Peers = [] \<rparr>,
     iw_interface := Some (InterfaceAddedCallback 0),
     iw_callbacks := (\<lambda>_. [])(INET := [RouteCallback INET 1, InterfaceCallback INET 2])\<rparr>"

definition plain_service :: service where
  "plain_service = new_service\<lparr>sv_watcher := Some plain_watcher,
     sv_world := \<lparr> n_history = map Register [InterfaceAddedCallback 0, RouteCallback INET 1, InterfaceCallback INET 2],
       n_tasks = [] \<rparr>\<rparr>"

lemma sample_lowest:
  "lowest_default sample_net h INET 9 [default_row 3 30 20, default_row 4 40 10]
     = \<lparr> lo_metric = 15, lo_index = 40, lo_luid = 4 \<rparr>"
  by (simp add: lowest_default_def try_row_def default_row_def)

lemma sample_monitor:
  "\<exists>m w'. monitorDefaultRoutes sample_net INET 9 True bh [] w
     = (Inr [RouteCallback INET (length (n_history w) + 3), InterfaceCallback INET (length (n_history w) + 4)], m, w')
     \<and> (\<exists>a b c. plain a \<and> plain b \<and> plain c
          \<and> n_history w' = n_history w @ [a, b, c] @ map Register
              [RouteCallback INET (length (n_history w) + 3), InterfaceCallback INET (length (n_history w) + 4)])"
  by (simp add: monitorDefaultRoutes_def monitor_turn_def new_monitor_def no_binding_def bindSocketRoute_def sample_lowest
      net_do_def follow_mtu_def register_changes_def Let_def)

lemma plain_watcher_set_up:
  assumes "live sample_net (n_history w) = listed plain_watcher"
  shows "\<exists>m c w'. setup_family sample_net INET plain_watcher w
      = (plain_watcher\<lparr>iw_callbacks := (\<lambda>_. [])(INET := [RouteCallback INET (length (n_history w) + 5),
            InterfaceCallback INET (length (n_history w) + 6)]),
          iw_monitor := (\<lambda>_. None)(INET := Some (False, m)), iw_conf := Some c\<rparr>, w')
    \<and> live sample_net (n_history w') = {#InterfaceAddedCallback 0, RouteCallback INET (length (n_history w) + 5),
            InterfaceCallback INET (length (n_history w) + 6)#}"
proof -
  define w1 where "w1 = unregister_all [RouteCallback INET 1, InterfaceCallback INET 2] w"
  have len: "length (n_history w1) = length (n_history w) + 2" by (simp add: w1_def unregister_all_def)
  obtain m w2 where m: "monitorDefaultRoutes sample_net INET 9 True False [] w1
      = (Inr [RouteCallback INET (length (n_history w) + 5), InterfaceCallback INET (length (n_history w) + 6)], m, w2)"
    using sample_monitor [of False w1] len by (auto simp: eval_nat_numeral)
  define c where "c = \<lparr> Name = ''pair'', Interface = zero_interface, Peers = [] \<rparr>"
  have "\<exists>c' w3. configureInterface sample_net INET c 9 w2 = (None, c', w3)"
    by (simp add: configureInterface_def mask_allowed_def c_def set_addresses_def finish_interface_def net_do_def Let_def)
  then obtain c' w3 where conf: "configureInterface sample_net INET c 9 w2 = (None, c', w3)" by blast
  have "live sample_net (n_history w1) = {#InterfaceAddedCallback 0#}"
    using assms by (simp add: w1_def listed_def plain_watcher_def)
  then have "live sample_net (n_history w3) = {#InterfaceAddedCallback 0, RouteCallback INET (length (n_history w) + 5),
      InterfaceCallback INET (length (n_history w) + 6)#}"
    using live_plain [OF configureInterface_grows [OF conf]] live_monitorDefaultRoutes [OF m] by simp
  moreover have "hasDefaultRoute INET (Peers c) = False" "MTU (Interface c) = 0" "PinEndpointVia (Interface c) = []"
    by (simp_all add: c_def hasDefaultRoute_def allows_def zero_interface_def)
  ultimately show ?thesis
    using m conf
    by (auto simp: setup_family_def plain_watcher_def new_watcher_def w1_def fun_eq_iff simp flip: c_def)
qed

theorem destroy_leaves_callbacks:
  "tracked sample_tunnel plain_service
   \<and> (let sv = Destroy sample_tunnel (\<lambda>m. if m = Unregistering 0 then [Added 9 INET] else []) plain_service
      in map_option listed (sv_watcher sv) = Some {#}
         \<and> live sample_net (n_history (sv_world sv)) = {#RouteCallback INET 8, InterfaceCallback INET 9#})"
proof -
  define w where "w = sv_world plain_service"
  have w: "live sample_net (n_history w) = listed plain_watcher" "length (n_history w) = 3"
    by (simp_all add: w_def plain_service_def plain_watcher_def listed_def live_def effect_def)
  obtain m c w' where up: "setup_family sample_net INET plain_watcher w
      = (plain_watcher\<lparr>iw_callbacks := (\<lambda>_. [])(INET := [RouteCallback INET 8, InterfaceCallback INET 9]),
          iw_monitor := (\<lambda>_. None)(INET := Some (False, m)), iw_conf := Some c\<rparr>, w')"
    "live sample_net (n_history w') = {#InterfaceAddedCallback 0, RouteCallback INET 8, InterfaceCallback INET 9#}"
    using plain_watcher_set_up [OF w(1)] unfolding w(2) by auto
  define sv where "sv = Destroy sample_tunnel (\<lambda>m. if m = Unregistering 0 then [Added 9 INET] else []) plain_service"
  have start: "sv_watcher plain_service = Some plain_watcher" "iw_tun plain_watcher = Some 9"
    "own_callback plain_watcher = [InterfaceAddedCallback 0]" "iw_callbacks plain_watcher INET6 = []"
    "iw_callbacks plain_watcher INET = [RouteCallback INET 1, InterfaceCallback INET 2]"
    by (simp_all add: plain_service_def plain_watcher_def own_callback_def)
  have "n_history (sv_world sv) = n_history w' @ [Unregister (InterfaceAddedCallback 0)] @ [Unregister (RouteCallback INET 1)]
      @ [Unregister (InterfaceCallback INET 2)] @ [DisableFirewall] @ [FlushAll 9]"
    "map_option listed (sv_watcher sv) = Some {#}"
    using up(1) unfolding sv_def w_def
    by (simp_all add: Destroy_def start turns_def run_background_def on_watcher_def interface_added_def
        destroy_finish_def act_if_def Let_def listed_def)
  then have "live sample_net (n_history (sv_world sv)) = {#RouteCallback INET 8, InterfaceCallback INET 9#}"
    using up(2) by (simp only: append_assoc [symmetric] live_snoc(1)) (simp add: effect_def)
  moreover have "tracked sample_tunnel plain_service"
    using w(1) start(1) by (simp add: tracked_def w_def)
  ultimately show ?thesis using \<open>map_option listed (sv_watcher sv) = Some {#}\<close> by (simp add: sv_def Let_def)
qed

section \<open>The pinned hop\<close>

text \<open>
  The wait before the device goes up has three ends. With the adapter up at once it does nothing,
  so it pins no route either, even if the adapter was missing when the routes were to be pinned and
  their goroutine has not run; with the adapter up after a try it pins the routes; otherwise it has
  slept for every try. It asks for the hop underneath and sleeps, nothing else.
\<close>

theorem wait_before_up:
  assumes via: "pin_via c \<noteq> []"
  shows "(chainPinnedInterfaceReady os (pin_via c) w \<and> chainWaitForPinBeforeUp os c w = w
          \<and> (\<forall>e v. findInterfaceByName os (pin_via c) v = Inl e \<longrightarrow>
               chainPinRoutes os c True v = net_start (PinRoutesLater c) v))
    \<or> (\<not> chainPinnedInterfaceReady os (pin_via c) w \<and>
        (\<exists>acts u. n_history u = n_history w @ acts \<and> list_all waiting acts \<and> n_tasks u = n_tasks w
           \<and> (chainPinnedInterfaceReady os (pin_via c) u \<and> sleeps acts \<le> chainUpWaitTries
                \<and> chainWaitForPinBeforeUp os c w = chainPinRoutes os c True u
              \<or> sleeps acts = chainUpWaitTries \<and> chainWaitForPinBeforeUp os c w = u)))"
proof (cases "chainPinnedInterfaceReady os (pin_via c) w")
  case True
  have "chainPinRoutes os c True v = net_start (PinRoutesLater c) v"
    if "findInterfaceByName os (pin_via c) v = Inl e" for e v
    using via that by (simp add: chainPinRoutes_def chainPinRoutesLater_def)
  then show ?thesis using True via by (simp add: chainWaitForPinBeforeUp_def)
next
  case False
  obtain r u where wait: "wait_for_pin os (pin_via c) 0 chainUpWaitTries w = (r, u)"
    by (cases "wait_for_pin os (pin_via c) 0 chainUpWaitTries w")
  have "chainWaitForPinBeforeUp os c w = (if r then chainPinRoutes os c True u else u)"
    using False wait via by (simp add: chainWaitForPinBeforeUp_def split: bool.splits)
  then show ?thesis using False wait_for_pin_acts [OF wait] by (cases r) auto
qed

lemma sample_pin:
  "pin_via hop2_conf = ''pair-hop1''" "findInterfaceByName sample_net ''pair-hop1'' w = Inr hop_adapter"
  "chainPinEndpointIPs sample_net hop2_conf w = [v4_mapped [203, 0, 113, 5]]"
proof -
  show "pin_via hop2_conf = ''pair-hop1''" unfolding pin_via_def hop_names by code_simp
  show "findInterfaceByName sample_net ''pair-hop1'' w = Inr hop_adapter"
    by (simp add: findInterfaceByName_def hop_adapter_def)
  obtain p where p: "Peers hop2_conf = [p]" "Endpoint p = \<lparr> Host = ''203.0.113.5'', Port = 443 \<rparr>"
    by (simp add: hop2_conf_def build_hop2_def chainCopyPeers_def inner_conf_def Let_def zero_peer_def)
  then show "chainPinEndpointIPs sample_net hop2_conf w = [v4_mapped [203, 0, 113, 5]]"
    using sample_endpoint_texts by (simp add: chainPinEndpointIPs_def endpoint_is_empty_def)
qed

theorem wait_before_up_witness:
  "chainWaitForPinBeforeUp sample_net hop2_conf \<lparr> n_history = [], n_tasks = [] \<rparr> = \<lparr> n_history = [], n_tasks = [] \<rparr>"
proof -
  have "trim_space ''pair-hop1'' = ''pair-hop1''" by code_simp
  then have ready: "chainPinnedInterfaceReady sample_net (pin_via hop2_conf) w" for w
    by (simp add: sample_pin chainPinnedInterfaceReady_iff) (simp add: hop_adapter_def)
  show ?thesis using wait_before_up [of hop2_conf sample_net "\<lparr> n_history = [], n_tasks = [] \<rparr>"] ready
    by (simp add: sample_pin)
qed

text \<open>The routes added and the routes deleted, in the same order, are the same while the next hops stay.\<close>

lemma taken_off_same:
  assumes hops: "length hops = length (List.map_filter host_route ips)"
      "n_history (fold (pin_one os True luid) ips w)
         = n_history w @ map (route_action True luid) (zip (List.map_filter host_route ips) hops)"
    and hops': "length hops' = length (List.map_filter host_route ips)"
      "n_history (fold (pin_one os False luid) ips v)
         = n_history v @ map (route_action False luid) (zip (List.map_filter host_route ips) hops')"
    and hop: "\<forall>x \<in> set ips. \<forall>u. next_hop os luid x u = hop x"
  shows "hops' = hops"
proof -
  have inj: "inj (route_action add luid)" for add by (auto simp: inj_def route_action_def split: if_splits)
  have "zip (List.map_filter host_route ips) hops = pins hop ips"
    using pin_fold_stable [of ips os luid hop True w] hop hops(2) inj by (simp add: inj_map_eq_map)
  moreover have "zip (List.map_filter host_route ips) hops' = pins hop ips"
    using pin_fold_stable [of ips os luid hop False v] hop hops'(2) inj by (simp add: inj_map_eq_map)
  ultimately have "map snd (zip (List.map_filter host_route ips) hops)
      = map snd (zip (List.map_filter host_route ips) hops')" by simp
  then show ?thesis using hops(1) hops'(1) by simp
qed

lemma taken_off_single:
  assumes "host_route x = Some d" and "length hs = length (List.map_filter host_route [x])"
    and "n_history (fold (pin_one os add luid) [x] u)
      = n_history u @ map (route_action add luid) (zip (List.map_filter host_route [x]) hs)"
  shows "hs = [next_hop os luid x u]"
proof -
  have dests: "List.map_filter host_route [x] = [d]" using assms(1) by (simp add: map_filter_simps)
  obtain h where "hs = [h]" using assms(2) dests by (auto simp: length_Suc_conv)
  then show ?thesis using assms(3) dests assms(1) by (cases add) (simp_all add: pin_one_simps route_action_def)
qed

text \<open>
  C27: At the start a hop whose adapter is found pins one host route per address of its endpoints, on
  that adapter and in the order of the endpoints. At the end it takes routes off the adapter that is
  found then, for the addresses the endpoints resolve to then and through the gateway of that
  moment: when the adapter is the same, the endpoints resolve to the same addresses and the gateway
  stays, these are exactly the routes that were pinned. When the adapter is no longer found nothing
  is taken off. For a single endpoint that resolves as before the route taken off is the one pinned
  only if the next hop is the same.
\<close>

theorem pinned_routes_taken_off:
  assumes via: "pin_via c \<noteq> []" and found: "findInterfaceByName os (pin_via c) w = Inr a"
    and ips: "chainPinEndpointIPs os c w = ips"
  shows "\<exists>hops. length hops = length (List.map_filter host_route ips)
    \<and> n_history (chainPinRoutes os c True w)
        = n_history w @ map (\<lambda>(d, h). AddRoute (ad_luid a) d h) (zip (List.map_filter host_route ips) hops)
    \<and> (case findInterfaceByName os (pin_via c) v of
         Inl _ \<Rightarrow> chainPinRoutes os c False v = v
       | Inr b \<Rightarrow> (let ends = chainPinEndpointIPs os c v in
           \<exists>hops'. length hops' = length (List.map_filter host_route ends)
             \<and> n_history (chainPinRoutes os c False v)
                 = n_history v @ map (\<lambda>(d, h). DeleteRoute (ad_luid b) d h) (zip (List.map_filter host_route ends) hops')
             \<and> (ad_luid b = ad_luid a \<and> ends = ips
                 \<and> (\<exists>hop. \<forall>x \<in> set ips. \<forall>u. next_hop os (ad_luid a) x u = hop x) \<longrightarrow> hops' = hops)
             \<and> (\<forall>x d. ad_luid b = ad_luid a \<and> ends = ips \<and> ips = [x] \<and> host_route x = Some d \<longrightarrow>
                 hops = [next_hop os (ad_luid a) x w] \<and> hops' = [next_hop os (ad_luid a) x v])))"
proof -
  have run: "chainPinRoutes os c add u = fold (pin_one os add (ad_luid x)) (chainPinEndpointIPs os c u) u"
    if "findInterfaceByName os (pin_via c) u = Inr x" for add u x
    using via that by (simp add: chainPinRoutes_def)
  have add: "route_action True l = (\<lambda>(d, h). AddRoute l d h)"
    and del: "route_action False l = (\<lambda>(d, h). DeleteRoute l d h)" for l
    by (auto simp: route_action_def)
  obtain hops where hops: "length hops = length (List.map_filter host_route ips)"
    "n_history (fold (pin_one os True (ad_luid a)) ips w)
       = n_history w @ map (route_action True (ad_luid a)) (zip (List.map_filter host_route ips) hops)"
    using pin_fold_acts [of ips os True "ad_luid a" w] by blast
  have gone: "chainPinRoutes os c False v = v" if "findInterfaceByName os (pin_via c) v = Inl x" for x
    using that via by (simp add: chainPinRoutes_def)
  have there: "\<exists>hops'. length hops' = length (List.map_filter host_route ends)
      \<and> n_history (chainPinRoutes os c False v)
          = n_history v @ map (\<lambda>(d, h). DeleteRoute (ad_luid b) d h) (zip (List.map_filter host_route ends) hops')
      \<and> (ad_luid b = ad_luid a \<and> ends = ips
          \<and> (\<exists>hop. \<forall>x \<in> set ips. \<forall>u. next_hop os (ad_luid a) x u = hop x) \<longrightarrow> hops' = hops)
      \<and> (\<forall>x d. ad_luid b = ad_luid a \<and> ends = ips \<and> ips = [x] \<and> host_route x = Some d \<longrightarrow>
          hops = [next_hop os (ad_luid a) x w] \<and> hops' = [next_hop os (ad_luid a) x v])"
    if b: "findInterfaceByName os (pin_via c) v = Inr b" and ends: "ends = chainPinEndpointIPs os c v" for b ends
  proof -
    obtain hops' where hops': "length hops' = length (List.map_filter host_route ends)"
      "n_history (fold (pin_one os False (ad_luid b)) ends v)
         = n_history v @ map (route_action False (ad_luid b)) (zip (List.map_filter host_route ends) hops')"
      using pin_fold_acts [of ends os False "ad_luid b" v] by blast
    have "n_history (chainPinRoutes os c False v)
        = n_history v @ map (route_action False (ad_luid b)) (zip (List.map_filter host_route ends) hops')"
      using hops'(2) run [OF b] ends by simp
    moreover have "hops' = hops"
      if "ad_luid b = ad_luid a" "ends = ips" and hop: "\<forall>x \<in> set ips. \<forall>u. next_hop os (ad_luid a) x u = hop x" for hop
      using taken_off_same [OF hops, of hops' v hop] hops' that by simp
    moreover have "hops = [next_hop os (ad_luid a) x w] \<and> hops' = [next_hop os (ad_luid a) x v]"
      if "ad_luid b = ad_luid a" "ends = ips" "ips = [x]" "host_route x = Some d" for x d
      using taken_off_single [OF that(4)] hops hops' that by simp
    ultimately show ?thesis using hops'(1) unfolding del by blast
  qed
  show ?thesis
    using hops run [OF found] ips gone there unfolding add
    by (intro exI [of _ hops] conjI) (simp_all add: Let_def split: sum.split)
qed

theorem pinned_routes_taken_off_witness:
  "\<exists>h. n_history (chainPinRoutes sample_net hop2_conf True \<lparr> n_history = [], n_tasks = [] \<rparr>)
        = [AddRoute 7 \<lparr> net_ip = [203, 0, 113, 5], net_mask = [255, 255, 255, 255] \<rparr> h]
     \<and> n_history (chainPinRoutes sample_net hop2_conf False \<lparr> n_history = [], n_tasks = [] \<rparr>)
        = [DeleteRoute 7 \<lparr> net_ip = [203, 0, 113, 5], net_mask = [255, 255, 255, 255] \<rparr> h]"
proof -
  have route: "host_route (v4_mapped [203, 0, 113, 5])
      = Some \<lparr> net_ip = [203, 0, 113, 5], net_mask = [255, 255, 255, 255] \<rparr>"
    by code_simp
  then have dests: "List.map_filter host_route [v4_mapped [203, 0, 113, 5]]
      = [\<lparr> net_ip = [203, 0, 113, 5], net_mask = [255, 255, 255, 255] \<rparr>]"
    by (simp add: map_filter_simps)
  have "ad_luid hop_adapter = 7" by (simp add: hop_adapter_def)
  then show ?thesis
    using pinned_routes_taken_off [where c = hop2_conf and os = sample_net
        and a = hop_adapter and ips = "[v4_mapped [203, 0, 113, 5]]" and w = "\<lparr> n_history = [], n_tasks = [] \<rparr>"
        and v = "\<lparr> n_history = [], n_tasks = [] \<rparr>"] route
    unfolding dests by (force simp: sample_pin)
qed

text \<open>
  A hop whose pinned adapter is up but has no index of a family is given up: the goroutine that
  waits for it sets the family up once, finds it not ready, and because it is still marked as
  waiting no other wait begins. The family stays without addresses, monitor, retry and error.
\<close>

theorem retry_gives_up:
  assumes conf: "iw_conf iw = Some c" "iw_tun iw = Some luid" and busy: "iw_retrying iw fam"
    and via: "PinEndpointVia (Interface c) = via" "via \<noteq> []" "trim_space via = via"
    and there: "\<And>w. findInterfaceByName os via w = Inr a" "ad_up a" "adapter_index fam a = 0"
    and run: "retry_task os fam via iw w = (iw', w')"
  shows "iw_callbacks iw' fam = [] \<and> iw_monitor iw' fam = None \<and> \<not> iw_retrying iw' fam
    \<and> iw_errors iw' = iw_errors iw \<and> n_tasks w' = n_tasks w
    \<and> (\<exists>acts. n_history w' = n_history w @ acts \<and> (\<forall>x \<in> set acts. \<forall>as. x \<noteq> SetAddresses luid fam as))"
proof -
  obtain r w1 where wait: "wait_for_pin os via 0 chainPinRetryTries w = (r, w1)"
    by (cases "wait_for_pin os via 0 chainPinRetryTries w")
  have "chainPinnedInterfaceReady os via u" for u
    using via there by (simp add: chainPinnedInterfaceReady_iff)
  then have r: "r" using wait by (simp add: chainPinRetryTries_def eval_nat_numeral Let_def split: if_splits)
  obtain acts where acts: "n_history w1 = n_history w @ acts" "list_all waiting acts" "n_tasks w1 = n_tasks w"
    using wait_for_pin_acts [OF wait] by blast
  define w2 where "w2 = unregister_all (iw_callbacks iw fam) w1"
  have "bindSocketPinned os fam via b u = (Some (PinNotReady via), b, u)" for b u
    using there by (simp add: bindSocketPinned_def)
  then have mon: "monitorDefaultRoutes os fam luid x y via u
      = (Inl (PinNotReady via), new_monitor\<lparr>mo_binding := mo_binding new_monitor\<rparr>, u)" for x y u
    using via by (simp add: monitorDefaultRoutes_def monitor_turn_def)
  define iw1 where "iw1 = iw\<lparr>iw_callbacks := (iw_callbacks iw)(fam := []), iw_monitor := (iw_monitor iw)(fam := None)\<rparr>"
  have "setup_family os fam iw w1 = (iw1, w2)"
    using conf via busy mon
    by (simp add: setup_family_def iw1_def w2_def is_pin_not_ready_def chainRetrySetup_def pin_via_def)
  then have res: "iw' = iw1\<lparr>iw_retrying := (iw_retrying iw1)(fam := False)\<rparr>" "w' = w2"
    using run wait r by (simp_all add: retry_task_def)
  have unreg: "n_history (unregister_all cbs u) = n_history u @ map Unregister cbs
      \<and> n_tasks (unregister_all cbs u) = n_tasks u" for cbs u
    by (induction cbs arbitrary: u) (simp_all add: unregister_all_def)
  have "n_history w' = n_history w @ acts @ map Unregister (iw_callbacks iw fam)"
    using unreg acts(1) by (simp add: res w2_def)
  moreover have "x \<noteq> SetAddresses luid fam as" if "x \<in> set (acts @ map Unregister (iw_callbacks iw fam))" for x as
    using that acts(2) by (auto simp: list_all_iff waiting_def)
  ultimately show ?thesis using unreg acts(3) by (auto simp: res iw1_def w2_def)
qed

theorem retry_gives_up_witness:
  "iw_callbacks (fst (retry_task sample_net INET6 ''pair-hop1''
      (new_watcher\<lparr>iw_conf := Some hop2_conf, iw_tun := Some 9, iw_retrying := (\<lambda>_. True)\<rparr>)
      \<lparr> n_history = [], n_tasks = [] \<rparr>)) INET6 = []"
proof -
  define iw where "iw = new_watcher\<lparr>iw_conf := Some hop2_conf, iw_tun := Some 9, iw_retrying := (\<lambda>_. True)\<rparr>"
  obtain iw' w' where run: "retry_task sample_net INET6 ''pair-hop1'' iw \<lparr> n_history = [], n_tasks = [] \<rparr> = (iw', w')"
    by (cases "retry_task sample_net INET6 ''pair-hop1'' iw \<lparr> n_history = [], n_tasks = [] \<rparr>")
  have "trim_space ''pair-hop1'' = ''pair-hop1''" by code_simp
  then have "iw_callbacks iw' INET6 = []"
    using retry_gives_up [where iw = iw and c = hop2_conf and luid = 9 and a = hop_adapter, OF _ _ _ _ _ _ _ _ _ run]
    by (simp add: iw_def sample_pin hop_adapter_def adapter_index_def)
  then show ?thesis using run by (simp add: iw_def)
qed

section \<open>The adapter of the tunnel\<close>

text \<open>
  Without a pin the socket goes to the default route of the lowest metric, the sum of the route's
  and the interface's as 32-bit words, among the other interfaces that are up; to interface 0,
  as a black hole if asked to, when there is none below the greatest word. It is bound again
  exactly when interface or index change.
\<close>

theorem socket_follows_lowest_route:
  assumes table: "n_table os (n_history w) fam = Inr rows"
    and run: "bindSocketRoute os fam ours blackhole b w = (e, b', w')"
  shows "((\<exists>r \<in> set rows. \<exists>m. default_metric os (n_history w) fam ours r = Some m \<and> fr_luid r \<noteq> ours
              \<and> b' = \<lparr> lastLUID = fr_luid r, lastIndex = fr_index r \<rparr>
              \<and> (\<forall>q \<in> set rows. \<forall>k. default_metric os (n_history w) fam ours q = Some k \<longrightarrow> m \<le> k))
          \<or> (b' = \<lparr> lastLUID = 0, lastIndex = 0 \<rparr>
              \<and> (\<forall>q \<in> set rows. \<forall>k. default_metric os (n_history w) fam ours q = Some k \<longrightarrow> k = - 1)))
    \<and> (if b' = b then e = None \<and> w' = w
       else w' = net_act (BindSocket fam (lastIndex b') (blackhole \<and> lastIndex b' = 0)) w
         \<and> e = n_fault os (n_history w) (BindSocket fam (lastIndex b') (blackhole \<and> lastIndex b' = 0)))"
proof -
  define lo where "lo = lowest_default os (n_history w) fam ours rows"
  have spec: "(lo = \<lparr> lo_metric = - 1, lo_index = 0, lo_luid = 0 \<rparr>
      \<or> (\<exists>r \<in> set rows. is_default os (n_history w) fam ours lo r))
    \<and> (\<forall>q \<in> set rows. \<forall>k. default_metric os (n_history w) fam ours q = Some k \<longrightarrow> lo_metric lo \<le> k)"
    using fold_try_row [of os "n_history w" fam ours rows "\<lparr> lo_metric = - 1, lo_index = 0, lo_luid = 0 \<rparr>"]
    by (simp add: lo_def lowest_default_def)
  have b': "b' = \<lparr> lastLUID = lo_luid lo, lastIndex = lo_index lo \<rparr>"
    using run table by (cases b) (auto simp: bindSocketRoute_def net_do_def Let_def lo_def split: if_splits)
  have act: "if b' = b then e = None \<and> w' = w
      else w' = net_act (BindSocket fam (lastIndex b') (blackhole \<and> lastIndex b' = 0)) w
        \<and> e = n_fault os (n_history w) (BindSocket fam (lastIndex b') (blackhole \<and> lastIndex b' = 0))"
    using run table unfolding b' by (cases b) (auto simp: bindSocketRoute_def net_do_def Let_def lo_def split: if_splits)
  have foreign: "fr_luid r \<noteq> ours" if "default_metric os (n_history w) fam ours r = Some m" for r m
    using that by (simp add: default_metric_def split: if_splits)
  have which: "(\<exists>r \<in> set rows. \<exists>m. default_metric os (n_history w) fam ours r = Some m \<and> fr_luid r \<noteq> ours
        \<and> b' = \<lparr> lastLUID = fr_luid r, lastIndex = fr_index r \<rparr>
        \<and> (\<forall>q \<in> set rows. \<forall>k. default_metric os (n_history w) fam ours q = Some k \<longrightarrow> m \<le> k))
    \<or> (b' = \<lparr> lastLUID = 0, lastIndex = 0 \<rparr>
        \<and> (\<forall>q \<in> set rows. \<forall>k. default_metric os (n_history w) fam ours q = Some k \<longrightarrow> k = - 1))"
  proof (cases "\<exists>r \<in> set rows. is_default os (n_history w) fam ours lo r")
    case True
    then obtain r where r: "r \<in> set rows" "default_metric os (n_history w) fam ours r = Some (lo_metric lo)"
      "b' = \<lparr> lastLUID = fr_luid r, lastIndex = fr_index r \<rparr>"
      by (auto simp: is_default_def b')
    then show ?thesis using spec foreign [OF r(2)] by blast
  next
    case False
    then have "lo = \<lparr> lo_metric = - 1, lo_index = 0, lo_luid = 0 \<rparr>" using spec by blast
    then show ?thesis using spec by (auto simp: b' intro: antisym)
  qed
  show ?thesis using which act by (rule conjI)
qed

theorem socket_follows_lowest_route_witness:
  "\<exists>e b' w'. bindSocketRoute sample_net INET 9 False no_binding \<lparr> n_history = [], n_tasks = [] \<rparr> = (e, b', w')
     \<and> b' = \<lparr> lastLUID = 4, lastIndex = 40 \<rparr>"
proof -
  obtain e b' w' where run: "bindSocketRoute sample_net INET 9 False no_binding \<lparr> n_history = [], n_tasks = [] \<rparr> = (e, b', w')"
    by (cases "bindSocketRoute sample_net INET 9 False no_binding \<lparr> n_history = [], n_tasks = [] \<rparr>")
  have "default_metric sample_net [] INET 9 (default_row 3 30 20) = Some 25"
    "default_metric sample_net [] INET 9 (default_row 4 40 10) = Some 15"
    by (simp_all add: default_metric_def default_row_def)
  then have "b' = \<lparr> lastLUID = 4, lastIndex = 40 \<rparr>"
    using socket_follows_lowest_route [OF _ run] by (auto simp: default_row_def)
  then show ?thesis using run by blast
qed

text \<open>
  C38: When a monitor follows a new MTU, it gives the tunnel 80 bytes less, but not less than
  576 or 1280; an MTU below 80 makes the difference wrap around to almost 2 ^ 32.
\<close>

theorem tunnel_mtu_bounds:
  assumes run: "follow_mtu os fam ours force m w = (None, m', w')" and new: "mo_mtu m' \<noteq> mo_mtu m"
  shows "\<exists>iface r. n_interface os (n_history w) (lastLUID (mo_binding m)) = Inr r \<and> if_mtu r = mo_mtu m'
    \<and> n_history w' = n_history w @ SetInterface ours fam iface # (if force then [ForceMTU (uint (ii_mtu iface))] else [])
    \<and> uint (ii_mtu iface) =
         (if 80 \<le> mo_mtu m' then max (uint (min_mtu fam)) (uint (mo_mtu m') - 80) else 2 ^ 32 + uint (mo_mtu m') - 80)"
proof -
  have l: "lastLUID (mo_binding m) \<noteq> 0" using run new by (auto simp: follow_mtu_def Let_def split: if_splits)
  obtain r where r: "n_interface os (n_history w) (lastLUID (mo_binding m)) = Inr r"
    using run l by (cases "n_interface os (n_history w) (lastLUID (mo_binding m))") (simp_all add: follow_mtu_def)
  obtain ii where ii: "n_ipif os (n_history w) ours fam = Inr ii"
    using run new l r by (cases "n_ipif os (n_history w) ours fam") (auto simp: follow_mtu_def split: if_splits)
  define iface where "iface = ii\<lparr>ii_mtu := tunnel_mtu fam (if_mtu r)\<rparr>"
  have "if_mtu r = mo_mtu m'
      \<and> n_history w' = n_history w @ SetInterface ours fam iface # (if force then [ForceMTU (uint (ii_mtu iface))] else [])"
    using run new l r ii
    by (auto simp: follow_mtu_def net_do_def Let_def iface_def split: if_splits option.splits)
  moreover have "uint (tunnel_mtu fam x) = (if 80 \<le> x then max (uint (min_mtu fam)) (uint x - 80) else 2 ^ 32 + uint x - 80)" for x
    using tunnel_mtu_large tunnel_mtu_wraps by (auto simp: not_le)
  moreover have "ii_mtu iface = tunnel_mtu fam (if_mtu r)" by (simp add: iface_def)
  ultimately show ?thesis using r by metis
qed

theorem tunnel_mtu_bounds_witness:
  "\<exists>m' w' iface. follow_mtu sample_net INET 9 False \<lparr> mo_binding = \<lparr> lastLUID = 4, lastIndex = 40 \<rparr>, mo_mtu = 0 \<rparr>
       \<lparr> n_history = [], n_tasks = [] \<rparr> = (None, m', w')
     \<and> n_history w' = [SetInterface 9 INET iface] \<and> uint (ii_mtu iface) = 1420"
proof -
  define m where "m = \<lparr> mo_binding = \<lparr> lastLUID = 4, lastIndex = 40 \<rparr>, mo_mtu = 0 \<rparr>"
  obtain w' where run: "follow_mtu sample_net INET 9 False m \<lparr> n_history = [], n_tasks = [] \<rparr> = (None, m\<lparr>mo_mtu := 1500\<rparr>, w')"
    by (simp add: follow_mtu_def m_def net_do_def)
  have "mo_mtu (m\<lparr>mo_mtu := 1500\<rparr>) \<noteq> mo_mtu m" by (simp add: m_def)
  from tunnel_mtu_bounds [OF run this] obtain iface
    where "n_history w' = [SetInterface 9 INET iface]" "uint (ii_mtu iface) = 1420"
    by (auto simp: m_def min_mtu_def)
  then show ?thesis using run unfolding m_def by blast
qed

definition is_routes :: "net_action \<Rightarrow> bool" where
  "is_routes a \<longleftrightarrow> (\<exists>l fam rs. a = SetRoutes l fam rs)"

lemma no_routes_set_addresses:
  assumes "set_addresses os l fam as w = (e, w')"
  shows "grows (\<lambda>a. \<not> is_routes a) w w'"
proof -
  have "grows (\<lambda>a. \<not> is_routes a) v (cleanup_adapter as i v)" for i v
    unfolding cleanup_adapter_def by (auto intro!: grows_fold simp: is_routes_def)
  then have clean: "grows (\<lambda>a. \<not> is_routes a) v (cleanupAddressesOnDisconnectedInterfaces os fam as v)" for v
    unfolding cleanupAddressesOnDisconnectedInterfaces_def by (auto split: sum.splits intro: grows_fold)
  have set: "\<not> is_routes (SetAddresses l fam as)" by (simp add: is_routes_def)
  show ?thesis
    using assms set unfolding set_addresses_def net_do_def
    by (auto split: option.splits net_error.splits
        intro!: grows_act_after intro: grows_trans [OF _ clean])
qed

lemma no_routes_finish_interface:
  "finish_interface os fam c l w = (e, w') \<Longrightarrow> grows (\<lambda>a. \<not> is_routes a) w w'"
  unfolding finish_interface_def net_do_def Let_def
  by (auto simp: is_routes_def split: sum.splits if_splits option.splits intro!: grows_act_after)

text \<open>
  C29: When the adapter is configured, the routes set are those of the allowed prefixes, masked, of
  the families the tunnel has an address of: in order and none twice, whatever duplicates the
  configuration holds. With \<open>Table = off\<close> no routes are set. The configuration keeps the masked prefixes.
\<close>

theorem routes_of_the_adapter:
  assumes wf: "wf_ips c0" and run: "configureInterface os fam c0 luid w = (None, c, w')"
  shows "c = c0\<lparr>Peers := map mask_peer (Peers c0)\<rparr>
    \<and> (\<exists>acts. n_history w' = n_history w @ acts
         \<and> filter is_routes acts = (if TableOff (Interface c) then [] else [SetRoutes luid fam (deduplicatedRoutes c)]))
    \<and> sorted_wrt (\<lambda>a b. route_key a < route_key b) (deduplicatedRoutes c)
    \<and> set (deduplicatedRoutes c) = {route_of a | a p. p \<in> set (Peers c) \<and> a \<in> set (AllowedIPs p)
                                        \<and> have_address c (ipcidr_bits a)}"
proof -
  have mask: "mask_allowed c0 = Inr (c0\<lparr>Peers := map mask_peer (Peers c0)\<rparr>)"
    using wf by (intro mask_allowed_wf) (auto simp: wf_ips_def list_all_iff)
  have none: "filter is_routes acts = []" if "list_all (\<lambda>a. \<not> is_routes a) acts" for acts
    using that by (simp add: list_all_iff filter_empty_conv)
  have "c = c0\<lparr>Peers := map mask_peer (Peers c0)\<rparr>
    \<and> (\<exists>acts. n_history w' = n_history w @ acts
         \<and> filter is_routes acts = (if TableOff (Interface c) then [] else [SetRoutes luid fam (deduplicatedRoutes c)]))"
    using run
  proof (cases rule: configureInterface_cases)
    case (no_table w1)
    obtain xs where "n_history w1 = n_history w @ xs" "filter is_routes xs = []"
      using no_routes_set_addresses [OF no_table(3)] none by (auto simp: grows_def)
    moreover obtain ys where "n_history w' = n_history w1 @ ys" "filter is_routes ys = []"
      using no_routes_finish_interface [OF no_table(4)] none by (auto simp: grows_def)
    ultimately show ?thesis using no_table mask by auto
  next
    case (routes w1)
    obtain xs where "n_history w1 = n_history w @ xs" "filter is_routes xs = []"
      using no_routes_set_addresses [OF routes(3)] none by (auto simp: grows_def)
    moreover obtain ys where "n_history w' = n_history w1 @ SetRoutes luid fam (deduplicatedRoutes c) # ys"
        "filter is_routes ys = []"
      using no_routes_finish_interface [OF routes(4)] none by (auto simp: grows_def)
    ultimately have "n_history w' = n_history w @ xs @ SetRoutes luid fam (deduplicatedRoutes c) # ys"
      "filter is_routes (xs @ SetRoutes luid fam (deduplicatedRoutes c) # ys) = [SetRoutes luid fam (deduplicatedRoutes c)]"
      by (simp_all add: is_routes_def)
    then show ?thesis using routes mask by auto
  qed (use mask in auto)
  then show ?thesis using deduplicatedRoutes_spec [of c] by (auto simp: routed_def image_iff)
qed

theorem routes_of_the_adapter_witness:
  "\<exists>c w' acts. configureInterface sample_net INET inner_conf 9 \<lparr> n_history = [], n_tasks = [] \<rparr> = (None, c, w')
     \<and> n_history w' = acts \<and> filter is_routes acts = [SetRoutes 9 INET (deduplicatedRoutes c)]"
proof -
  have wf: "wf_ips inner_conf" using sample_prefixes by (simp add: wf_ips_def inner_conf_def)
  then obtain c where mask: "mask_allowed inner_conf = Inr c" "Interface c = Interface inner_conf"
    using mask_allowed_wf [of inner_conf] by (auto simp: wf_ips_def list_all_iff)
  then have table: "\<not> TableOff (Interface c)" by (simp add: inner_conf_def zero_interface_def)
  obtain w' where run: "configureInterface sample_net INET inner_conf 9 \<lparr> n_history = [], n_tasks = [] \<rparr> = (None, c, w')"
    using mask table by (simp add: configureInterface_def set_addresses_def finish_interface_def net_do_def Let_def)
  show ?thesis using routes_of_the_adapter [OF wf run] run table by auto
qed

text \<open>
  C28: The GUID of a tunnel's adapter is the hash of a text that is the same for two configurations
  exactly when they have the same name up to normalisation, the same public key, and the
  same peers with the same allowed prefixes, each in any order. So the GUID does not depend on the order.
\<close>

theorem guid_depends_on_content:
  assumes "\<not> ge_fixed ge" and "nfc_ascii ge" and "\<And>k. length (ge_public ge k) = KeyLength"
    and "guid_ready c" and "guid_ready d"
    and "guid_input ge c = Some x" and "guid_input ge d = Some y"
  shows "(x = y \<longleftrightarrow> guid_content ge c = guid_content ge d)
    \<and> (guid_content ge c = guid_content ge d \<longrightarrow>
         map_option fst (deterministicGUID ge c) = map_option fst (deterministicGUID ge d))"
  using equal_inputs [OF assms(1-5)] equal_contents [OF assms(1,4), of d] assms(6,7)
  by (auto simp: deterministicGUID_def)

definition sample_guid_env :: guid_env where
  "sample_guid_env = \<lparr> ge_hash = id, ge_nfc = id, ge_public = (\<lambda>k. sample_key), ge_fixed = False \<rparr>"

definition guid_conf :: "ipcidr list \<Rightarrow> config" where
  "guid_conf as = \<lparr> Name = ''pair'', Interface = zero_interface, Peers = [zero_peer\<lparr>AllowedIPs := as\<rparr>] \<rparr>"

theorem guid_depends_on_content_witness:
  "map_option fst (deterministicGUID sample_guid_env (guid_conf [v4 0 0 0 0 1, v4 128 0 0 0 1]))
     = map_option fst (deterministicGUID sample_guid_env (guid_conf [v4 128 0 0 0 1, v4 0 0 0 0 1]))"
proof -
  have short: "\<exists>x. b2String sample_guid_env s = Some x" if "length s < 100" for s
    using that by (simp add: b2String_def sample_guid_env_def string_bytes_def b2Number_def Let_def)
  have texts: "length (ipcidr_string (v4 0 0 0 0 1)) < 100" "length (ipcidr_string (v4 128 0 0 0 1)) < 100"
    by code_simp+
  have input: "\<exists>x. guid_input sample_guid_env (guid_conf as) = Some x"
    if sub: "set as \<subseteq> {v4 0 0 0 0 1, v4 128 0 0 0 1}" and len: "length as = 2" for as
  proof -
    obtain a b where ab: "sort_key allowed_key as = [a, b]"
      using len by (metis (no_types, lifting) length_0_conv length_Suc_conv length_sort numeral_2_eq_2)
    then have "{a, b} = set as" by (metis list.simps(15) set_empty set_sort empty_set)
    then have "a \<in> {v4 0 0 0 0 1, v4 128 0 0 0 1}" "b \<in> {v4 0 0 0 0 1, v4 128 0 0 0 1}" using sub by auto
    then have "length (ipcidr_string a) < 100" "length (ipcidr_string b) < 100" using texts by auto
    then obtain x y where "b2String sample_guid_env (ipcidr_string a) = Some x"
      "b2String sample_guid_env (ipcidr_string b) = Some y" using short by blast
    moreover obtain z where "b2String sample_guid_env ''pair'' = Some z" using short [of "''pair''"] by auto
    moreover have "\<not> ge_fixed sample_guid_env" by (simp add: sample_guid_env_def)
    ultimately show ?thesis
      using ab by (simp add: guid_input_def guid_conf_def sort_config_def sort_allowed_def peer_input_def b2Number_def)
  qed
  obtain x y where xy: "guid_input sample_guid_env (guid_conf [v4 0 0 0 0 1, v4 128 0 0 0 1]) = Some x"
    "guid_input sample_guid_env (guid_conf [v4 128 0 0 0 1, v4 0 0 0 0 1]) = Some y"
    using input [of "[v4 0 0 0 0 1, v4 128 0 0 0 1]"] input [of "[v4 128 0 0 0 1, v4 0 0 0 0 1]"] by auto
  have ready: "guid_ready (guid_conf as)" if "set as \<subseteq> {v4 0 0 0 0 1, v4 128 0 0 0 1}" for as
    using that by (auto simp: guid_ready_def guid_conf_def zero_peer_def zero_key_def KeyLength_def list_all_iff
        wf_ipcidr_def v4_def)
  have env: "\<not> ge_fixed sample_guid_env" "nfc_ascii sample_guid_env" "length (ge_public sample_guid_env k) = KeyLength" for k
    by (simp_all add: sample_guid_env_def nfc_ascii_def sample_key_def KeyLength_def)
  have "guid_content sample_guid_env (guid_conf [v4 0 0 0 0 1, v4 128 0 0 0 1])
      = guid_content sample_guid_env (guid_conf [v4 128 0 0 0 1, v4 0 0 0 0 1])"
    by (simp add: guid_content_def guid_conf_def peer_content_def zero_peer_def)
  then show ?thesis using guid_depends_on_content [OF env(1,2,3) ready ready xy] by simp
qed

end
