(* ===== verification/GoSpaces.thy ===== *)
theory GoSpaces
  imports GoStrings
begin

text \<open>
  Trimming white space from both ends. The spaces are a prefix code and a suffix code, so the two
  cuts of \<open>strings.TrimSpace\<close> do not depend on each other, and cutting before or after another
  cut makes no difference. \<open>strings.TrimRight\<close> with a cut set of single bytes is here too.
\<close>

section \<open>Codes\<close>

definition prefix_code :: "string list \<Rightarrow> bool" where
  "prefix_code ps \<longleftrightarrow>
     list_all (\<lambda>p. p \<noteq> [] \<and> list_all (\<lambda>q. has_prefix q p \<longrightarrow> p = q) ps) ps"

lemma go_spaces_code: "prefix_code go_spaces" "prefix_code (map rev go_spaces)"
  by code_simp+

lemma has_prefix_either: "has_prefix (p @ s) q \<Longrightarrow> has_prefix p q \<or> has_prefix q p"
  by (auto simp: has_prefix_ex append_eq_append_conv2)

lemma cut_front_code:
  assumes "prefix_code ps" and "p \<in> set ps"
  shows "cut_front ps (p @ s) = cut_front ps s"
proof -
  have code: "q \<noteq> []" "has_prefix r q \<Longrightarrow> q = r" if "q \<in> set ps" "r \<in> set ps" for q r
    using assms(1) that by (auto simp: prefix_code_def list_all_iff)
  have "find (\<lambda>q. q \<noteq> [] \<and> has_prefix (p @ s) q) ps \<noteq> None"
    using assms(2) code by (auto simp: find_None_iff)
  then obtain q where q: "find (\<lambda>q. q \<noteq> [] \<and> has_prefix (p @ s) q) ps = Some q" by blast
  then have "q \<in> set ps" "has_prefix (p @ s) q" by (auto simp: find_Some_iff)
  then have "q = p" using has_prefix_either code assms(2) by metis
  with q show ?thesis by (subst cut_front.simps) simp
qed

lemma cut_front_concat:
  "prefix_code ps \<Longrightarrow> set qs \<subseteq> set ps \<Longrightarrow> cut_front ps (concat qs @ s) = cut_front ps s"
  by (induction qs) (simp_all add: cut_front_code)

lemma cut_front_split: "\<exists>qs. set qs \<subseteq> set ps \<and> s = concat qs @ cut_front ps s"
proof (induction ps s rule: cut_front.induct)
  case (1 ps s)
  show ?case
  proof (cases "find (\<lambda>p. p \<noteq> [] \<and> has_prefix s p) ps")
    case None
    then have "cut_front ps s = s" by (subst cut_front.simps) simp
    then show ?thesis by (intro exI [of _ "[]"]) simp
  next
    case (Some p)
    then obtain s' where s': "s = p @ s'" and p: "p \<in> set ps" by (auto simp: find_Some_iff has_prefix_ex)
    from 1 [OF Some] s' obtain qs where "set qs \<subseteq> set ps" "s' = concat qs @ cut_front ps s'" by auto
    moreover from Some s' have "cut_front ps s = cut_front ps s'"
      by (subst cut_front.simps) simp
    ultimately show ?thesis using s' p by (intro exI [of _ "p # qs"]) simp
  qed
qed

lemma cut_front_Nil [simp]: "cut_front ps [] = []"
  by (rule cut_front_id) (simp add: starts_with_any_def list_ex_iff has_prefix_ex)

section \<open>Runs of white space\<close>

definition spaces :: "string \<Rightarrow> bool" where
  "spaces w \<longleftrightarrow> (\<exists>ps. set ps \<subseteq> set go_spaces \<and> w = concat ps)"

lemma spaces_Nil [simp]: "spaces []"
  by (auto simp: spaces_def intro: exI [of _ "[]"])

lemma spaces_one: "[c] \<in> set go_spaces \<Longrightarrow> spaces [c]"
  by (auto simp: spaces_def intro: exI [of _ "[[c]]"])

lemma trim_left_spaces: "spaces w \<Longrightarrow> trim_left_space (w @ s) = trim_left_space s"
  by (auto simp: spaces_def trim_left_space_def cut_front_concat [OF go_spaces_code(1)])

lemma trim_right_spaces: "spaces w \<Longrightarrow> trim_right_space (s @ w) = trim_right_space s"
proof -
  assume "spaces w"
  then obtain ps where "set ps \<subseteq> set go_spaces" "w = concat ps" by (auto simp: spaces_def)
  then have "set (rev (map rev ps)) \<subseteq> set (map rev go_spaces)" "rev w = concat (rev (map rev ps))"
    by (auto simp: rev_concat rev_map)
  then show ?thesis
    using cut_front_concat [OF go_spaces_code(2)] by (simp add: trim_right_space_def)
qed

lemma trim_left_split: obtains w where "spaces w" "s = w @ trim_left_space s"
  using cut_front_split [of go_spaces s] by (auto simp: spaces_def trim_left_space_def)

lemma trim_right_split: obtains w where "spaces w" "s = trim_right_space s @ w"
proof -
  obtain qs where qs: "set qs \<subseteq> set (map rev go_spaces)"
    "rev s = concat qs @ cut_front (map rev go_spaces) (rev s)"
    using cut_front_split by blast
  then have "set (rev (map rev qs)) \<subseteq> set go_spaces" by auto
  moreover have "s = trim_right_space s @ concat (rev (map rev qs))"
    using arg_cong [OF qs(2), of rev] by (simp add: trim_right_space_def rev_concat rev_map)
  ultimately show thesis using that spaces_def by blast
qed

lemma trim_space_Nil [simp]: "trim_left_space [] = []" "trim_right_space [] = []" "trim_space [] = []"
  by (simp_all add: trim_left_space_def trim_right_space_def trim_space_def)

lemma spaces_trim: "spaces w \<Longrightarrow> trim_left_space w = []" "spaces w \<Longrightarrow> trim_right_space w = []"
  using trim_left_spaces [of w "[]"] trim_right_spaces [of w "[]"] by simp_all

text \<open>No space straddles the seam in front of a run of spaces.\<close>

lemma space_bytes:
  "c # cs \<in> set go_spaces \<Longrightarrow>
   (byte c < 128 \<or> 192 \<le> byte c) \<and> list_all (\<lambda>d. 128 \<le> byte d \<and> byte d < 192) cs"
  by (auto simp: go_spaces_def ascii_spaces_def wide_spaces_def)

lemma spaces_first:
  assumes "spaces (c # w)"
  shows "byte c < 128 \<or> 192 \<le> byte c"
proof -
  from assms obtain p ps where "p \<in> set go_spaces" "c # w = p @ concat ps"
    unfolding spaces_def by (metis concat.simps list.distinct(1) list.set_intros(1) neq_Nil_conv subsetD)
  moreover from this go_space_nonempty obtain d p' where "p = d # p'" by (metis neq_Nil_conv)
  ultimately show ?thesis using space_bytes [of c p'] by simp
qed

lemma no_straddle:
  assumes "p \<in> set go_spaces" and "has_prefix (r @ w) p" and "spaces w" and "r \<noteq> []"
  shows "has_prefix r p"
proof (rule ccontr)
  assume no: "\<not> has_prefix r p"
  from assms(2) no obtain t where t: "p = r @ t" "t \<noteq> []" "has_prefix w t"
    by (auto simp: has_prefix_ex append_eq_append_conv2)
  then obtain c t' w' where c: "t = c # t'" "w = c # w'" by (cases t) (auto simp: has_prefix_ex)
  from assms(4) t c obtain a r' where "p = a # r' @ c # t'" by (cases r) auto
  with assms(1) have "128 \<le> byte c \<and> byte c < 192" using space_bytes [of a "r' @ c # t'"] by simp
  with spaces_first assms(3) c show False by force
qed

lemma trim_left_append_spaces:
  assumes "spaces w"
  shows "trim_left_space (r @ w) = (if trim_left_space r = [] then [] else trim_left_space r @ w)"
proof -
  obtain v where v: "spaces v" "r = v @ trim_left_space r" by (rule trim_left_split)
  define x where "x = trim_left_space r"
  have x: "\<not> starts_with_any go_spaces x" by (simp add: x_def trim_left_space_def cut_front_result)
  have eq: "trim_left_space (r @ w) = trim_left_space (x @ w)"
    using trim_left_spaces [OF v(1)] v(2) by (metis append.assoc x_def)
  show ?thesis
  proof (cases "x = []")
    case True
    then show ?thesis using eq assms by (simp add: x_def spaces_trim)
  next
    case False
    have "\<not> starts_with_any go_spaces (x @ w)"
      using x no_straddle [OF _ _ assms False] by (auto simp: starts_with_any_def list_ex_iff)
    then have "trim_left_space (x @ w) = x @ w" by (simp add: trim_left_space_def cut_front_id)
    with eq False show ?thesis by (simp add: x_def)
  qed
qed

section \<open>Trimming twice\<close>

lemma trim_space_append_spaces: "spaces w \<Longrightarrow> trim_space (r @ w) = trim_space r"
  by (simp add: trim_space_def trim_left_append_spaces trim_right_spaces)

lemma trim_space_spaces_append: "spaces w \<Longrightarrow> trim_space (w @ r) = trim_space r"
  by (simp add: trim_space_def trim_left_spaces)

lemma trim_space_right [simp]: "trim_space (trim_right_space s) = trim_space s"
  by (metis trim_right_split trim_space_append_spaces)

lemma trim_space_left [simp]: "trim_space (trim_left_space s) = trim_space s"
  by (metis trim_left_split trim_space_spaces_append)

lemma trim_space_split: obtains v w where "spaces v" "spaces w" "s = v @ trim_space s @ w"
proof -
  obtain v where v: "spaces v" "s = v @ trim_left_space s" by (rule trim_left_split)
  obtain w where w: "spaces w" "trim_left_space s = trim_right_space (trim_left_space s) @ w"
    by (rule trim_right_split)
  have "trim_left_space s = trim_space s @ w" using w(2) by (simp add: trim_space_def)
  with v w(1) that show thesis by metis
qed

lemma spaces_not_graphic:
  assumes "spaces w" and "c \<in> set w"
  shows "\<not> is_graphic c"
proof -
  from assms obtain p where "p \<in> set go_spaces" "c \<in> set p" unfolding spaces_def by fastforce
  then show ?thesis using go_space_bytes by blast
qed

text \<open>Behind a printable byte and a blank only the right end counts.\<close>

lemma trim_right_after:
  assumes "is_ascii c"
  shows "trim_right_space (k @ c # s) =
    (if trim_right_space s = [] then trim_right_space (k @ [c]) else k @ c # trim_right_space s)"
proof -
  obtain w where w: "spaces w" "s = trim_right_space s @ w" by (rule trim_right_split)
  define x where "x = trim_right_space s"
  have x: "\<not> starts_with_any (map rev go_spaces) (rev x)"
    by (simp add: x_def trim_right_space_def cut_front_result)
  have eq: "trim_right_space (k @ c # s) = trim_right_space (k @ c # x)"
    using trim_right_spaces [OF w(1), of "k @ c # x"] w(2) x_def by simp
  show ?thesis
  proof (cases "x = []")
    case False
    then have "trim_right_space (k @ c # x) = k @ c # x"
      using ends_after_ascii [OF False x assms] by (simp add: trim_right_space_def cut_front_id)
    with eq False show ?thesis by (simp add: x_def)
  qed (use eq x_def in simp)
qed

section \<open>TrimRight with a cut set\<close>

definition trim_right :: "string \<Rightarrow> string \<Rightarrow> string" where
  "trim_right s cutset = rev (dropWhile (\<lambda>c. c \<in> set cutset) (rev s))"

lemma trim_right_rest: obtains w where "set w \<subseteq> set cutset" "s = trim_right s cutset @ w"
proof -
  let ?P = "\<lambda>c. c \<in> set cutset"
  have s: "s = trim_right s cutset @ rev (takeWhile ?P (rev s))"
    unfolding trim_right_def by (metis rev_append rev_rev_ident takeWhile_dropWhile_id)
  show thesis by (rule that [OF _ s]) (auto dest: set_takeWhileD)
qed

lemma spaces_append: "spaces v \<Longrightarrow> spaces w \<Longrightarrow> spaces (v @ w)"
proof -
  assume "spaces v" "spaces w"
  then obtain ps qs where "set ps \<subseteq> set go_spaces" "v = concat ps" "set qs \<subseteq> set go_spaces" "w = concat qs"
    by (auto simp: spaces_def)
  then show ?thesis unfolding spaces_def by (intro exI [of _ "ps @ qs"]) simp
qed

lemma spaces_bytes: "list_all (\<lambda>c. [c] \<in> set go_spaces) w \<Longrightarrow> spaces w"
proof (induction w)
  case (Cons c w)
  then show ?case using spaces_append [OF spaces_one, of c w] by simp
qed simp

lemma trim_space_trim_right:
  assumes "list_all (\<lambda>c. [c] \<in> set go_spaces) cutset"
  shows "trim_space (trim_right s cutset) = trim_space s"
    and "trim_right_space (trim_right s cutset) = trim_right_space s"
proof -
  obtain w where w: "set w \<subseteq> set cutset" "s = trim_right s cutset @ w" by (rule trim_right_rest)
  with assms have sp: "spaces w" by (intro spaces_bytes) (auto simp: list_all_iff)
  show "trim_space (trim_right s cutset) = trim_space s"
    using trim_space_append_spaces [OF sp, of "trim_right s cutset"] w(2) by simp
  show "trim_right_space (trim_right s cutset) = trim_right_space s"
    using trim_right_spaces [OF sp, of "trim_right s cutset"] w(2) by simp
qed

end
