(* ===== verification/EditorText.thy ===== *)
theory EditorText
  imports GoSpaces WgQuickRoundtrip
begin

text \<open>
  The text of the edit window, \<open>upstream-ui/chainbuild.go\<close>: both configurations of a chain in one text,
  the outer one on lines that begin with \<open>#!\<close>, and the way back from the text to the two
  configurations. What the parser makes of a text depends on its lines without their outer white
  space, so the decoration the editor adds and takes away is invisible to it.
\<close>

section \<open>The two halves\<close>

definition chainHopPrefix :: string where "chainHopPrefix = ''#!''"

abbreviation CR :: char where "CR \<equiv> CHR 0x0D"
abbreviation BLANK :: char where "BLANK \<equiv> CHR 0x20"
abbreviation TAB :: char where "TAB \<equiv> CHR 0x09"

text \<open>\<open>strings.ReplaceAll(s, cr, "")\<close>, and a text given by its code points.\<close>

definition drop_crs :: "string \<Rightarrow> string" where "drop_crs s = filter (\<lambda>c. c \<noteq> CR) s"

definition utf8 :: "nat list \<Rightarrow> string" where "utf8 rs = concat (map encode_rune rs)"

text \<open>The comment lines of the window.\<close>

definition header2 :: string where
  "header2 =
     ''# ===== '' @ utf8 [0x426, 0x415, 0x41F, 0x41E, 0x427, 0x41A, 0x410] @ '', ''
     @ utf8 [0x417, 0x412, 0x415, 0x41D, 0x41E] @ '' 2: Amnezia ('' @ utf8 [0x432, 0x43D, 0x443,
     0x442, 0x440, 0x435, 0x43D, 0x43D, 0x435, 0x435] @ '') =====''"

definition header1 :: string where
  "header1 =
     ''# ===== '' @ utf8 [0x426, 0x415, 0x41F, 0x41E, 0x427, 0x41A, 0x410] @ '', ''
     @ utf8 [0x417, 0x412, 0x415, 0x41D, 0x41E] @ '' 1: WARP (''
     @ utf8 [0x432, 0x43D, 0x435, 0x448, 0x43D, 0x435, 0x435] @ '') =====''"

definition hint1 :: string where
  "hint1 =
     ''# '' @ utf8 [0x421, 0x442, 0x440, 0x43E, 0x43A, 0x438] @ '' ''
     @ utf8 [0x43D, 0x438, 0x436, 0x435] @ '' '' @ utf8 [0x43D, 0x430, 0x447, 0x438, 0x43D,
     0x430, 0x44E, 0x442, 0x441, 0x44F] @ '' '' @ utf8 [0x441] @ '' '' @ [CHR 0x22] @ ''#!''
     @ [CHR 0x22] @ '' - '' @ utf8 [0x44D, 0x442, 0x43E] @ '' ''
     @ utf8 [0x432, 0x442, 0x43E, 0x440, 0x43E, 0x439] @ '' ''
     @ utf8 [0x43A, 0x43E, 0x43D, 0x444, 0x438, 0x433] @ '' ''
     @ utf8 [0x446, 0x435, 0x43F, 0x43E, 0x447, 0x43A, 0x438] @ ''.''"

definition hint2 :: string where
  "hint2 =
     ''# '' @ utf8 [0x41C, 0x435, 0x43D, 0x44F, 0x439] @ '' '' @ utf8 [0x438, 0x445] @ '' ''
     @ utf8 [0x43A, 0x430, 0x43A] @ '' ''
     @ utf8 [0x43E, 0x431, 0x44B, 0x447, 0x43D, 0x44B, 0x435] @ '' ''
     @ utf8 [0x441, 0x442, 0x440, 0x43E, 0x43A, 0x438] @ '', '' @ utf8 [0x43D, 0x43E] @ '' ''
     @ utf8 [0x43F, 0x440, 0x435, 0x444, 0x438, 0x43A, 0x441] @ '' '' @ [CHR 0x22] @ ''#!''
     @ [CHR 0x22] @ '' '' @ utf8 [0x441, 0x43E, 0x445, 0x440, 0x430, 0x43D, 0x44F, 0x439] @ ''.''"

definition hint3 :: string where
  "hint3 =
     ''# '' @ utf8 [0x423, 0x434, 0x430, 0x43B, 0x438, 0x448, 0x44C] @ '' ''
     @ utf8 [0x432, 0x441, 0x435] @ '' '' @ utf8 [0x442, 0x430, 0x43A, 0x438, 0x435] @ '' ''
     @ utf8 [0x441, 0x442, 0x440, 0x43E, 0x43A, 0x438] @ '' - ''
     @ utf8 [0x432, 0x43D, 0x435, 0x448, 0x43D, 0x435, 0x435] @ '' ''
     @ utf8 [0x437, 0x432, 0x435, 0x43D, 0x43E] @ '' ''
     @ utf8 [0x43E, 0x441, 0x442, 0x430, 0x43D, 0x435, 0x442, 0x441, 0x44F] @ '' ''
     @ utf8 [0x43A, 0x430, 0x43A] @ '' '' @ utf8 [0x431, 0x44B, 0x43B, 0x43E] @ ''.''"

text \<open>One line of the outer configuration in the window.\<close>

definition hop_text :: "string \<Rightarrow> string" where
  "hop_text raw =
     (let line = trim_right raw [BLANK, TAB] in
      if line = [] then chainHopPrefix else chainHopPrefix @ [BLANK] @ line)"

definition chainComposeEditorText :: "string \<Rightarrow> string \<Rightarrow> string" where
  "chainComposeEditorText mainText hopText =
     header2 @ [NL]
     @ trim_right (drop_crs mainText) [BLANK, TAB, NL] @ [NL, NL]
     @ header1 @ [NL] @ hint1 @ [NL] @ hint2 @ [NL] @ hint3 @ [NL]
     @ concat (map (\<lambda>line. hop_text line @ [NL]) (split_on NL (drop_crs hopText)))"

definition hop_line :: "string \<Rightarrow> bool" where
  "hop_line line = has_prefix (trim_space line) chainHopPrefix"

definition hop_rest :: "string \<Rightarrow> string" where
  "hop_rest line = trim_prefix (trim_prefix (trim_space line) chainHopPrefix) [BLANK]"

text \<open>The loop over the lines, with the two builders it fills.\<close>

fun split_editor_lines :: "string list \<Rightarrow> string \<times> string" where
  "split_editor_lines [] = ([], [])"
| "split_editor_lines (line # rest) =
     (let (main, hop) = split_editor_lines rest in
      if hop_line line then (main, hop_rest line @ NL # hop) else (line @ NL # main, hop))"

definition chainSplitEditorText :: "string \<Rightarrow> string \<times> string" where
  "chainSplitEditorText t = split_editor_lines (split_on NL (drop_crs t))"

definition chainKeepHop1 :: "string \<Rightarrow> string \<Rightarrow> string" where
  "chainKeepHop1 oldText newMainText =
     (let hop = snd (chainSplitEditorText oldText) in
      if trim_space hop = [] then newMainText else chainComposeEditorText newMainText hop)"

section \<open>What the parser sees of a text\<close>

text \<open>The lines without outer white space that are not empty, and those that are no comment.\<close>

definition bare_lines :: "string list \<Rightarrow> string list" where
  "bare_lines ls = filter (\<lambda>l. l \<noteq> []) (map trim_space ls)"

definition bare :: "string \<Rightarrow> string list" where "bare t = bare_lines (split_on NL t)"

definition line_core :: "string \<Rightarrow> string" where "line_core l = trim_space (cut_comment l)"

definition significant :: "string \<Rightarrow> string list" where
  "significant t = filter (\<lambda>l. line_core l \<noteq> []) (bare t)"

lemma cut_comment_takeWhile: "cut_comment l = takeWhile (\<lambda>c. c \<noteq> CHR ''#'') l"
proof -
  have "(case index_byte c l of None \<Rightarrow> l | Some i \<Rightarrow> take i l) = takeWhile (\<lambda>d. d \<noteq> c) l" for c
    by (induction l) (auto split: option.splits)
  then show ?thesis by (simp add: cut_comment_def)
qed

lemma hash_graphic: "is_graphic (CHR ''#'')" by (simp add: is_graphic_def)

lemma cut_comment_free: "CHR ''#'' \<notin> set l \<Longrightarrow> cut_comment l = l"
  by (auto simp: cut_comment_takeWhile intro: takeWhile_eq_all_conv [THEN iffD2])

lemma cut_comment_append:
  "cut_comment (l @ m) = (if CHR ''#'' \<in> set l then cut_comment l else l @ cut_comment m)"
  by (induction l) (auto simp: cut_comment_takeWhile)

lemma line_core_trim [simp]: "line_core (trim_space l) = line_core l"
proof -
  obtain v w where vw: "spaces v" "spaces w" "l = v @ trim_space l @ w" by (rule trim_space_split)
  define x where "x = trim_space l"
  have no: "CHR ''#'' \<notin> set v" "CHR ''#'' \<notin> set w"
    using vw(1,2) spaces_not_graphic hash_graphic by blast+
  have "cut_comment l = v @ cut_comment x @ (if CHR ''#'' \<in> set x then [] else w)"
    by (subst vw(3)) (simp add: cut_comment_append cut_comment_free no x_def)
  then show ?thesis
    using vw(1,2) by (simp add: line_core_def trim_space_spaces_append trim_space_append_spaces flip: x_def)
qed

lemma line_core_core [simp]: "line_core (line_core l) = line_core l"
proof -
  have "CHR ''#'' \<notin> set (cut_comment l)" by (auto simp: cut_comment_takeWhile dest: set_takeWhileD)
  then have "CHR ''#'' \<notin> set (line_core l)" using set_trim_space by (auto simp: line_core_def)
  then have "cut_comment (line_core l) = line_core l" by (rule cut_comment_free)
  then show ?thesis by (simp add: line_core_def [of "line_core l"]) (simp add: line_core_def)
qed

lemma line_core_Nil [simp]: "line_core [] = []"
  by (simp add: line_core_def cut_comment_def)

lemma wgquick_line_core: "line_core a = line_core b \<Longrightarrow> wgquick_line u st a = wgquick_line u st b"
  unfolding wgquick_line_def line_core_def by simp

lemma wgquick_line_skip: "line_core l = [] \<Longrightarrow> wgquick_line u st l = Inr st"
  using wgquick_line_core [of l "[]"] by simp

lemma rfold_significant:
  "rfold (wgquick_line u) st (filter (\<lambda>l. line_core l \<noteq> []) (bare_lines ls)) = rfold (wgquick_line u) st ls"
proof (induction ls arbitrary: st)
  case (Cons l ls)
  have same: "wgquick_line u st (trim_space l) = wgquick_line u st l"
    by (rule wgquick_line_core) simp
  have "trim_space l = [] \<Longrightarrow> line_core l = []" by (metis line_core_trim line_core_Nil)
  with Cons same show ?case
    by (cases "wgquick_line u st l") (auto simp: bare_lines_def wgquick_line_skip)
qed (simp add: bare_lines_def)

lemma FromWgQuick_significant:
  assumes "significant s = significant t"
  shows "FromWgQuick u s n = FromWgQuick u t n"
proof -
  have "rfold (wgquick_line u) st (split_on NL x) = rfold (wgquick_line u) st (significant x)" for st x
    by (simp add: significant_def bare_def rfold_significant)
  with assms show ?thesis by (simp add: FromWgQuick_def)
qed

section \<open>Lines\<close>

lemma bare_lines_simps [simp]:
  "bare_lines [] = []"
  "bare_lines (l # ls) = (if trim_space l = [] then bare_lines ls else trim_space l # bare_lines ls)"
  "bare_lines (ls @ ms) = bare_lines ls @ bare_lines ms"
  by (simp_all add: bare_lines_def)

lemma bare_unlines: "list_all (\<lambda>l. NL \<notin> set l) ls \<Longrightarrow> bare (unlines ls) = bare_lines ls"
  using split_unlines [of ls] by (simp add: bare_def list_all_iff)

lemma unlines_split: "unlines (split_on NL s) = s @ [NL]"
proof -
  have "xs \<noteq> [] \<Longrightarrow> unlines xs = join [NL] xs @ [NL]" for xs
    by (induction xs rule: induct_list012) (auto simp: join_Cons)
  then show ?thesis using join_split [of NL s] by simp
qed

lemma split_on_snoc_sep: "split_on c (s @ [c]) = split_on c s @ [[]]"
  by (induction s) (auto split: list.splits)

lemma split_on_snoc:
  "d \<noteq> c \<Longrightarrow> \<exists>ls l. split_on c s = ls @ [l] \<and> split_on c (s @ [d]) = ls @ [l @ [d]]"
proof (induction s)
  case (Cons x s)
  then obtain ls l where i: "split_on c s = ls @ [l]" "split_on c (s @ [d]) = ls @ [l @ [d]]" by blast
  show ?case
  proof (cases "x = c")
    case True
    then show ?thesis using i by (intro exI [of _ "[] # ls"] exI [of _ l]) simp
  next
    case False
    then show ?thesis
      using i by (cases ls) (force intro: exI [of _ "[]"], force intro: exI [of _ "(x # hd ls) # tl ls"])
  qed
qed simp

lemma blank_tab_spaces: "list_all (\<lambda>c. [c] \<in> set go_spaces) [BLANK, TAB]"
  by (simp add: go_spaces_def ascii_spaces_def)

lemma bare_snoc:
  assumes "c \<in> {BLANK, TAB, NL}"
  shows "bare (s @ [c]) = bare s"
proof (cases "c = NL")
  case True
  then show ?thesis by (simp add: bare_def split_on_snoc_sep)
next
  case False
  then obtain ls l where l: "split_on NL s = ls @ [l]" "split_on NL (s @ [c]) = ls @ [l @ [c]]"
    using split_on_snoc by blast
  from False assms have "spaces [c]" using blank_tab_spaces by (auto intro: spaces_one)
  then show ?thesis using l by (simp add: bare_def trim_space_append_spaces)
qed

lemma bare_trim_right: "bare (trim_right s [BLANK, TAB, NL]) = bare s"
proof -
  have "bare (t @ w) = bare t" if "set w \<subseteq> {BLANK, TAB, NL}" for t w
    using that
  proof (induction w rule: rev_induct)
    case (snoc c w)
    then show ?case using bare_snoc [of c "t @ w"] by simp
  qed simp
  then show ?thesis using trim_right_rest [of "[BLANK, TAB, NL]" s] by (metis list.set(1,2))
qed

section \<open>The comment lines\<close>

lemma encode_rune_wide:
  assumes "128 \<le> r" and "c \<in> set (encode_rune r)"
  shows "128 \<le> byte c"
proof -
  have "128 \<le> (224 + n) mod 256" if "n < 16" for n :: nat using that by simp
  moreover have "128 \<le> (192 + n) mod 256" if "n < 32" for n :: nat using that by simp
  moreover have "128 \<le> (240 + n) mod 256" if "n < 16" for n :: nat using that by simp
  moreover have "128 \<le> (128 + n mod 64) mod 256" for n :: nat by (subst mod_less) simp_all
  ultimately show ?thesis
    using assms by (auto simp: encode_rune_def Let_def take_bit_eq_mod less_mult_imp_div_less split: if_splits)
qed

lemma utf8_wide: "list_all (\<lambda>r. 128 \<le> r) rs \<Longrightarrow> c \<in> set (utf8 rs) \<Longrightarrow> 128 \<le> byte c"
  using encode_rune_wide by (auto simp: utf8_def list_all_iff)

lemma utf8_no: "list_all (\<lambda>r. 128 \<le> r) rs \<Longrightarrow> byte c < 128 \<Longrightarrow> c \<notin> set (utf8 rs)"
  using utf8_wide by fastforce

definition remark :: "string \<Rightarrow> bool" where
  "remark l \<longleftrightarrow> has_prefix l ''# '' \<and> NL \<notin> set l \<and> CR \<notin> set l"

lemma remarks: "remark header1" "remark header2" "remark hint1" "remark hint2" "remark hint3"
  by (simp_all add: remark_def has_prefix_def header1_def header2_def hint1_def hint2_def hint3_def utf8_no)

lemma remark_core: "remark l \<Longrightarrow> line_core l = []"
  by (auto simp: remark_def has_prefix_ex line_core_def cut_comment_def)

lemma remark_no_hop: "remark l \<Longrightarrow> \<not> hop_line l"
proof
  assume "remark l" and hop: "hop_line l"
  then obtain t where t: "l = CHR ''#'' # BLANK # t" by (auto simp: remark_def has_prefix_ex)
  then have left: "trim_left_space l = l"
    using starts_graphic(1) [OF hash_graphic] by (simp add: trim_left_space_def cut_front_id)
  obtain w where w: "l = trim_right_space l @ w" by (rule trim_right_split)
  from hop left obtain r where r: "trim_right_space l = ''#!'' @ r"
    by (auto simp: hop_line_def trim_space_def chainHopPrefix_def has_prefix_ex)
  from w [unfolded r] t show False by simp
qed

section \<open>The text of the window by lines\<close>

definition editor_lines :: "string \<Rightarrow> string \<Rightarrow> string list" where
  "editor_lines m h =
     header2 # split_on NL (trim_right m [BLANK, TAB, NL])
     @ [[], header1, hint1, hint2, hint3] @ map hop_text (split_on NL h)"

lemma compose_unlines: "chainComposeEditorText m h = unlines (editor_lines (drop_crs m) (drop_crs h))"
proof -
  have "concat (map (\<lambda>l. hop_text l @ [NL]) ls) = unlines (map hop_text ls)" for ls
    by (induction ls) simp_all
  then show ?thesis
    by (simp add: chainComposeEditorText_def editor_lines_def unlines_split [of "trim_right _ _"])
qed

lemma set_trim_right: "set (trim_right s cs) \<subseteq> set s"
  using trim_right_rest [of cs s] by (metis set_append Un_upper1)

lemma set_hop_text: "set (hop_text l) \<subseteq> insert (CHR ''#'') (insert (CHR ''!'') (insert BLANK (set l)))"
  using set_trim_right [of l "[BLANK, TAB]"] by (auto simp: hop_text_def Let_def chainHopPrefix_def)

lemma split_on_subset: "l \<in> set (split_on c s) \<Longrightarrow> set l \<subseteq> set s"
  by (induction s arbitrary: l) (auto split: if_splits list.splits, force+)

lemma editor_lines_free:
  assumes "l \<in> set (editor_lines m h)"
  shows "NL \<notin> set l" and "CR \<notin> set m \<Longrightarrow> CR \<notin> set h \<Longrightarrow> CR \<notin> set l"
proof -
  from assms consider "remark l \<or> l = []"
    | "l \<in> set (split_on NL (trim_right m [BLANK, TAB, NL]))"
    | x where "x \<in> set (split_on NL h)" "l = hop_text x"
    using remarks by (auto simp: editor_lines_def)
  then have "NL \<notin> set l \<and> (CR \<notin> set m \<longrightarrow> CR \<notin> set h \<longrightarrow> CR \<notin> set l)"
  proof cases
    case 2
    then show ?thesis using split_on_pieces split_on_subset set_trim_right by fast
  next
    case 3
    then show ?thesis
      using split_on_pieces [OF 3(1)] split_on_subset [OF 3(1)] set_hop_text [of x] by auto
  qed (auto simp: remark_def)
  then show "NL \<notin> set l" "CR \<notin> set m \<Longrightarrow> CR \<notin> set h \<Longrightarrow> CR \<notin> set l" by auto
qed

lemma drop_crs_free: "CR \<notin> set (drop_crs s)" by (simp add: drop_crs_def)

lemma drop_crs_id: "CR \<notin> set s \<Longrightarrow> drop_crs s = s"
  by (auto simp: drop_crs_def filter_id_conv)

lemma lines_of_compose:
  "split_on NL (drop_crs (chainComposeEditorText m h)) = editor_lines (drop_crs m) (drop_crs h) @ [[]]"
proof -
  let ?ls = "editor_lines (drop_crs m) (drop_crs h)"
  have "CR \<notin> set (unlines ?ls)"
    using editor_lines_free(2) [OF _ drop_crs_free drop_crs_free] by (auto simp: unlines_def)
  then show ?thesis
    using editor_lines_free(1) by (simp add: compose_unlines drop_crs_id split_unlines)
qed

section \<open>The outer half\<close>

lemma trim_right_space_trim: "trim_right_space (trim_right l [BLANK, TAB]) = trim_right_space l"
  by (rule trim_space_trim_right(2) [OF blank_tab_spaces])

lemma trim_hop_text:
  "trim_space (hop_text l) =
     (if trim_right_space l = [] then ''#!'' else ''#!'' @ BLANK # trim_right_space l)"
proof (cases "trim_right l [BLANK, TAB] = []")
  case True
  then have "trim_right_space l = []" using trim_right_space_trim [of l] by simp
  moreover have "trimmed ''#!''" by (rule trimmed_all_graphic) (simp add: is_graphic_def)
  ultimately show ?thesis using True by (simp add: hop_text_def chainHopPrefix_def)
next
  case False
  let ?x = "trim_right l [BLANK, TAB]"
  have left: "trim_left_space (CHR ''#'' # s) = CHR ''#'' # s" for s
    using starts_graphic(1) [OF hash_graphic] by (simp add: trim_left_space_def cut_front_id)
  have "trim_right_space (''#!'' @ [BLANK]) = ''#!''"
  proof -
    have "spaces [BLANK]" using blank_tab_spaces by (auto intro: spaces_one)
    moreover have "trim_right_space ''#!'' = ''#!''"
      using left trimmed_all_graphic [of "''#!''"] trim_space_id [of "''#!''"]
      by (simp add: trim_space_def is_graphic_def)
    ultimately show ?thesis using trim_right_spaces [of "[BLANK]" "''#!''"] by simp
  qed
  then show ?thesis
    using False left trim_right_after [of BLANK "''#!''" ?x]
    by (simp add: hop_text_def chainHopPrefix_def trim_space_def is_ascii_def trim_right_space_trim)
qed

lemma hop_text_facts: "hop_line (hop_text l)" "hop_rest (hop_text l) = trim_right_space l"
  by (simp_all add: hop_line_def hop_rest_def trim_hop_text chainHopPrefix_def has_prefix_def trim_prefix_def)

lemma hop_line_core: "hop_line l \<Longrightarrow> line_core l = []"
proof -
  assume "hop_line l"
  then obtain t where "trim_space l = CHR ''#'' # t" by (auto simp: hop_line_def chainHopPrefix_def has_prefix_ex)
  then have "line_core (trim_space l) = []" by (simp add: line_core_def cut_comment_def)
  then show ?thesis by simp
qed

lemma split_editor_lines_filter:
  "split_editor_lines ls =
     (unlines (filter (\<lambda>l. \<not> hop_line l) ls), unlines (map hop_rest (filter hop_line ls)))"
  by (induction ls) (auto simp: Let_def)

lemma hop_lines_bare:
  "list_ex hop_line (split_on NL s) \<longleftrightarrow> list_ex (\<lambda>l. has_prefix l chainHopPrefix) (bare s)"
proof -
  have "\<not> has_prefix [] chainHopPrefix" by (simp add: has_prefix_def chainHopPrefix_def)
  then have "list_ex hop_line ls \<longleftrightarrow> list_ex (\<lambda>l. has_prefix l chainHopPrefix) (bare_lines ls)" for ls
    by (induction ls) (auto simp: hop_line_def)
  then show ?thesis by (simp add: bare_def)
qed

lemma set_trim_right_space: "set (trim_right_space l) \<subseteq> set l"
  by (metis trim_right_split set_append Un_upper1)

lemma split_compose_hop:
  assumes "\<not> list_ex hop_line (split_on NL (drop_crs m))"
  shows "snd (chainSplitEditorText (chainComposeEditorText m h))
    = unlines (map trim_right_space (split_on NL (drop_crs h)))"
proof -
  have "\<not> list_ex hop_line (split_on NL (trim_right (drop_crs m) [BLANK, TAB, NL]))"
    using assms by (simp add: hop_lines_bare bare_trim_right)
  then have "filter hop_line (split_on NL (trim_right (drop_crs m) [BLANK, TAB, NL])) = []"
    by (auto simp: filter_empty_conv list_ex_iff)
  moreover have "\<not> hop_line []" by (simp add: hop_line_def has_prefix_def chainHopPrefix_def)
  ultimately have "filter hop_line (editor_lines (drop_crs m) (drop_crs h) @ [[]])
      = map hop_text (split_on NL (drop_crs h))"
    using remark_no_hop remarks hop_text_facts(1) by (simp add: editor_lines_def filter_map comp_def)
  then show ?thesis
    by (simp add: chainSplitEditorText_def lines_of_compose split_editor_lines_filter comp_def hop_text_facts)
qed

lemma bare_hop_half:
  assumes "\<not> list_ex hop_line (split_on NL (drop_crs m))"
  shows "bare (snd (chainSplitEditorText (chainComposeEditorText m h))) = bare (drop_crs h)"
proof -
  let ?ls = "split_on NL (drop_crs h)"
  have "list_all (\<lambda>l. NL \<notin> set l) (map trim_right_space ?ls)"
    using split_on_pieces set_trim_right_space by (fastforce simp: list_all_iff)
  moreover have "bare_lines (map trim_right_space ls) = bare_lines ls" for ls
    by (induction ls) simp_all
  ultimately show ?thesis by (simp add: split_compose_hop [OF assms] bare_unlines) (simp add: bare_def)
qed

section \<open>The inner half\<close>

lemma significant_main_half: "significant (fst (chainSplitEditorText t)) = significant (drop_crs t)"
proof -
  let ?f = "\<lambda>l. line_core l \<noteq> []"
  have "filter ?f (bare_lines (filter (\<lambda>l. \<not> hop_line l) ls)) = filter ?f (bare_lines ls)" for ls
    by (induction ls) (auto simp: hop_line_core)
  moreover have "list_all (\<lambda>l. NL \<notin> set l) (filter (\<lambda>l. \<not> hop_line l) (split_on NL (drop_crs t)))"
    using split_on_pieces by (auto simp: list_all_iff)
  ultimately show ?thesis
    by (simp add: chainSplitEditorText_def split_editor_lines_filter significant_def bare_unlines)
      (simp add: bare_def)
qed

lemma significant_compose:
  "significant (drop_crs (chainComposeEditorText m h)) = significant (drop_crs m)"
proof -
  let ?f = "\<lambda>l. line_core l \<noteq> []"
  have skip: "filter ?f (bare_lines ls) = []" if "list_all (\<lambda>l. line_core l = []) ls" for ls
    using that by (induction ls) auto
  have "filter ?f (bare_lines (map hop_text ls)) = []" for ls
    using hop_line_core [OF hop_text_facts(1)] by (intro skip) (simp add: list_all_iff)
  moreover have "filter ?f (bare_lines (l # ls)) = filter ?f (bare_lines ls)" if "line_core l = []" for l ls
    using that by auto
  ultimately show ?thesis
    using remarks [THEN remark_core] bare_trim_right [of "drop_crs m"]
    by (simp add: significant_def bare_def lines_of_compose editor_lines_def del: bare_lines_simps(2))
qed

section \<open>Both configurations come back\<close>

lemma parse_main_half: "FromWgQuick u (fst (chainSplitEditorText t)) n = FromWgQuick u (drop_crs t) n"
  by (rule FromWgQuick_significant) (rule significant_main_half)

lemma parse_composed_main:
  "FromWgQuick u (fst (chainSplitEditorText (chainComposeEditorText m h))) n = FromWgQuick u (drop_crs m) n"
  by (rule FromWgQuick_significant) (simp add: significant_main_half significant_compose)

lemma parse_composed_hop:
  "\<not> list_ex hop_line (split_on NL (drop_crs m)) \<Longrightarrow>
   FromWgQuick u (snd (chainSplitEditorText (chainComposeEditorText m h))) n = FromWgQuick u (drop_crs h) n"
  by (rule FromWgQuick_significant) (simp add: significant_def bare_hop_half)

section \<open>Putting the outer half back\<close>

lemma split_editor_free: "CR \<notin> set (snd (chainSplitEditorText t))"
proof -
  have "set (trim_prefix s p) \<subseteq> set s" for s p
    by (auto simp: trim_prefix_def has_prefix_ex)
  then have "set (hop_rest l) \<subseteq> set l" for l
    unfolding hop_rest_def using set_trim_space by blast
  then show ?thesis
    using split_on_subset [of _ NL "drop_crs t"] drop_crs_free [of t]
    by (auto simp: chainSplitEditorText_def split_editor_lines_filter unlines_def)
qed

lemma parse_kept_main: "FromWgQuick u (fst (chainSplitEditorText (chainKeepHop1 t m))) n = FromWgQuick u (drop_crs m) n"
proof (cases "trim_space (snd (chainSplitEditorText t)) = []")
  case True
  then show ?thesis using parse_main_half [of u m n] by (simp add: chainKeepHop1_def Let_def)
next
  case False
  then show ?thesis
    using parse_composed_main [of u m "snd (chainSplitEditorText t)" n] by (simp add: chainKeepHop1_def Let_def)
qed

lemma parse_kept_hop:
  assumes "\<not> list_ex hop_line (split_on NL (drop_crs m))" and "trim_space (snd (chainSplitEditorText t)) \<noteq> []"
  shows "FromWgQuick u (snd (chainSplitEditorText (chainKeepHop1 t m))) n
    = FromWgQuick u (snd (chainSplitEditorText t)) n"
  using assms parse_composed_hop drop_crs_id [OF split_editor_free]
  by (simp add: chainKeepHop1_def Let_def)

end
