(* ===== verification/ChainWindow.thy ===== *)
theory ChainWindow
  imports ManagerSession EditorText ChainRun TunnelNet ChainPair "HOL-Library.Monad_Syntax"
begin

text \<open>
  The chain behind one entry of the window, \<open>upstream-ui/chainbuild.go\<close> and \<open>chainroles.go\<close>: choosing the roles, finding
  the outer adapter, creating, deleting and editing a pair of tunnels through the manager.

  A call to the manager is \<open>perform\<close>, the direct call the pipe was shown to deliver, and the calls of
  one operation follow each other without another client in between. \<open>None\<close> is a call that never
  comes back, a manager that crashed, or a panic of the window itself.
\<close>

section \<open>The window and its calls\<close>

text \<open>
  \<open>win_env\<close> and \<open>win_dir\<close> are what the window's own process reads of the store (it may not be allowed
  to open it), the other two are its answers about the adapters and the IPv4 routing table.
\<close>

record window =
  win_env :: store_env
  win_dir :: "world \<Rightarrow> directory option"
  win_adapters :: "world \<Rightarrow> (64 word \<times> string) list option"
  win_routes :: "world \<Rightarrow> fwd_row list option"

abbreviation win_unicode :: "window \<Rightarrow> unicode" where
  "win_unicode win \<equiv> env_unicode (win_env win)"

datatype window_error =
    FromManager client_error | FromStore store_error | FromParser conf_error
  | NoDefaultRoute | AdaptersFailed | RoutesFailed

definition ask_names ::
  "server \<Rightarrow> server_state \<Rightarrow> ((string list \<times> client_error option) \<times> server_state) option"
where
  "ask_names sv st = do {
     ((a, err), st1) \<leftarrow> perform sv CallTunnels st;
     Some ((case a of NamesAre names \<Rightarrow> names | _ \<Rightarrow> [], err), st1)
   }"

definition ask_config ::
  "server \<Rightarrow> string \<Rightarrow> server_state \<Rightarrow> ((config \<times> client_error option) \<times> server_state) option"
where
  "ask_config sv name st = do {
     ((a, err), st1) \<leftarrow> perform sv (CallStoredConfig name) st;
     Some ((case a of ConfigIs c \<Rightarrow> c | _ \<Rightarrow> zero_config, err), st1)
   }"

text \<open>A call of which only the error is looked at.\<close>

definition ask_error :: "server \<Rightarrow> call \<Rightarrow> server_state \<Rightarrow> (client_error option \<times> server_state) option" where
  "ask_error sv call st = do { ((a, err), st1) \<leftarrow> perform sv call st; Some (err, st1) }"

section \<open>Names and adapters\<close>

definition chainTakenNames :: "server \<Rightarrow> window \<Rightarrow> server_state \<Rightarrow> (string list \<times> server_state) option" where
  "chainTakenNames sv win st = do {
     ((tunnels, err), st1) \<leftarrow> ask_names sv st;
     let names = (if err = None then tunnels else []);
     Some (case ListConfigNames (win_unicode win) (win_dir win (sv_world st1)) of
             Inr stored \<Rightarrow> names @ stored
           | Inl _ \<Rightarrow> names, st1)
   }"

definition chainIsKnownTunnel :: "window \<Rightarrow> world \<Rightarrow> string \<Rightarrow> bool" where
  "chainIsKnownTunnel win w name =
     (case ListConfigNames (win_unicode win) (win_dir win w) of
        Inl _ \<Rightarrow> False
      | Inr stored \<Rightarrow> list_ex (\<lambda>candidate. equal_fold (win_unicode win) candidate name) stored)"

definition adapter_names :: "(64 word \<times> string) list \<Rightarrow> 64 word \<Rightarrow> string" where
  "adapter_names adapters = fold (\<lambda>(luid, name) names. names(luid := name)) adapters (\<lambda>_. [])"

text \<open>The name a row of the routing table stands for, empty for a row the loop skips.\<close>

definition row_adapter :: "window \<Rightarrow> world \<Rightarrow> (64 word \<Rightarrow> string) \<Rightarrow> fwd_row \<Rightarrow> string" where
  "row_adapter win w names row =
     (let prefix = fr_prefix row; nextHop = fr_hop row; name = names (fr_luid row) in
      if fst (mask_size (net_mask prefix)) \<noteq> 0 \<or> net_ip prefix = [] \<or> \<not> is_unspecified (net_ip prefix)
      then []
      else if nextHop = [] \<or> is_unspecified nextHop then []
      else if name = [] \<or> ChainIsHiddenHopName (win_unicode win) name \<or> chainIsKnownTunnel win w name
      then []
      else name)"

fun best_adapter :: "(fwd_row \<Rightarrow> string) \<Rightarrow> string \<Rightarrow> 32 word \<Rightarrow> fwd_row list \<Rightarrow> string" where
  "best_adapter f bestName bestMetric [] = bestName"
| "best_adapter f bestName bestMetric (row # rows) =
     (if f row = [] then best_adapter f bestName bestMetric rows
      else if bestName = [] \<or> fr_metric row < bestMetric then best_adapter f (f row) (fr_metric row) rows
      else best_adapter f bestName bestMetric rows)"

definition chainOuterAdapter :: "window \<Rightarrow> world \<Rightarrow> window_error + string" where
  "chainOuterAdapter win w =
     (case win_adapters win w of
        None \<Rightarrow> Inl AdaptersFailed
      | Some adapters \<Rightarrow>
          (case win_routes win w of
             None \<Rightarrow> Inl RoutesFailed
           | Some rows \<Rightarrow>
               (let bestName = best_adapter (row_adapter win w (adapter_names adapters)) [] 0 rows in
                if bestName = [] then Inl NoDefaultRoute else Inr bestName)))"

section \<open>Creating and deleting\<close>

fun remove_matching :: "server \<Rightarrow> unicode \<Rightarrow> string \<Rightarrow> string list \<Rightarrow> server_state \<Rightarrow> server_state option" where
  "remove_matching sv u name [] st = Some st"
| "remove_matching sv u name (tunnel # tunnels) st =
     (if equal_fold u tunnel name then do {
        (_, st1) \<leftarrow> ask_error sv (CallDelete tunnel) st;
        (_, st2) \<leftarrow> ask_error sv (CallWaitForStop tunnel) st1;
        remove_matching sv u name tunnels st2
      } else remove_matching sv u name tunnels st)"

definition chainRemoveByName :: "server \<Rightarrow> unicode \<Rightarrow> string \<Rightarrow> server_state \<Rightarrow> server_state option" where
  "chainRemoveByName sv u name st = do {
     ((tunnels, err), st1) \<leftarrow> ask_names sv st;
     if err \<noteq> None then Some st1 else remove_matching sv u name tunnels st1
   }"

definition chainCreatePair ::
  "server \<Rightarrow> unicode \<Rightarrow> config \<Rightarrow> config \<Rightarrow> server_state \<Rightarrow> (client_error option \<times> server_state) option"
where
  "chainCreatePair sv u hop1 hop2 st = do {
     st1 \<leftarrow> chainRemoveByName sv u (Name hop2) st;
     st2 \<leftarrow> chainRemoveByName sv u (Name hop1) st1;
     (err1, st3) \<leftarrow> ask_error sv (CallCreate hop1) st2;
     if err1 \<noteq> None then Some (err1, st3) else ask_error sv (CallCreate hop2) st3
   }"

definition chainDeleteTunnel ::
  "server \<Rightarrow> unicode \<Rightarrow> string \<Rightarrow> server_state \<Rightarrow> (client_error option \<times> server_state) option"
where
  "chainDeleteTunnel sv u tunnel st = do {
     (err, st1) \<leftarrow> ask_error sv (CallDelete tunnel) st;
     (_, st2) \<leftarrow> ask_error sv (CallWaitForStop tunnel) st1;
     let hidden = ChainHiddenHopName u tunnel;
     st3 \<leftarrow> (if \<not> equal_fold u hidden tunnel then chainRemoveByName sv u hidden st2 else Some st2);
     Some (err, st3)
   }"

section \<open>Editing\<close>

text \<open>The window's own reading of a configuration; a panic of the parser is its end.\<close>

definition load_here :: "window \<Rightarrow> world \<Rightarrow> string \<Rightarrow> (store_error + config) option" where
  "load_here win w name =
     (case LoadFromName (win_env win) (win_dir win w) name of
        Inl e \<Rightarrow> if is_panic (MStore e) then None else Some (Inl e)
      | Inr c \<Rightarrow> Some (Inr c))"

definition chainStoredHopConfig ::
  "server \<Rightarrow> window \<Rightarrow> string \<Rightarrow> server_state \<Rightarrow> ((window_error + config) \<times> server_state) option"
where
  "chainStoredHopConfig sv win name st = do {
     ((tunnels, ipcErr), st1) \<leftarrow> ask_names sv st;
     (case (if ipcErr = None then find (\<lambda>t. equal_fold (win_unicode win) t name) tunnels else None) of
        Some holder \<Rightarrow> do {
          ((stored, err), st2) \<leftarrow> ask_config sv holder st1;
          Some (case err of Some e \<Rightarrow> Inl (FromManager e) | None \<Rightarrow> Inr stored, st2)
        }
      | None \<Rightarrow> do {
          r \<leftarrow> load_here win (sv_world st1) name;
          Some (case r of
                  Inr stored \<Rightarrow> Inr stored
                | Inl e \<Rightarrow> Inl (case ipcErr of Some e' \<Rightarrow> FromManager e' | None \<Rightarrow> FromStore e), st1)
        })
   }"

definition window_text :: "window \<Rightarrow> config \<Rightarrow> string" where
  "window_text win c = ToWgQuick (win_unicode win) (env_order (win_env win) c) c"

text \<open>The text, the pending outer hop afterwards, and the manager.\<close>

definition chainEditorText ::
  "server \<Rightarrow> window \<Rightarrow> string option \<Rightarrow> config \<Rightarrow> server_state \<Rightarrow> (string \<times> config option \<times> server_state) option"
where
  "chainEditorText sv win tunnel c st =
     (let t = window_text win c in
      case tunnel of
        None \<Rightarrow> Some (t, None, st)
      | Some name \<Rightarrow>
          (let hidden = ChainHiddenHopName (win_unicode win) name in
           if equal_fold (win_unicode win) hidden name then Some (t, None, st)
           else do {
             (r, st1) \<leftarrow> chainStoredHopConfig sv win hidden st;
             Some (case r of
                     Inl _ \<Rightarrow> t
                   | Inr hopConfig \<Rightarrow> chainComposeEditorText t (window_text win hopConfig), None, st1)
           }))"

text \<open>The error, if any, and the pending outer hop afterwards.\<close>

definition chainStashHop1 ::
  "window \<Rightarrow> string \<Rightarrow> string \<Rightarrow> world \<Rightarrow> (window_error option \<times> config option) option"
where
  "chainStashHop1 win hopText visibleName w =
     (if trim_space hopText = [] then Some (None, None)
      else
        (case FromWgQuick (win_unicode win) hopText (ChainHiddenHopName (win_unicode win) visibleName) of
           Inl e \<Rightarrow> if is_panic (MConf e) then None else Some (Some (FromParser e), None)
         | Inr c \<Rightarrow>
             (let hop = c\<lparr>Interface := (Interface c)\<lparr>TableOff := True\<rparr>\<rparr> in
              if trim_space (PinEndpointVia (Interface hop)) = [] then
                (case chainOuterAdapter win w of
                   Inl e \<Rightarrow> Some (Some e, None)
                 | Inr alias \<Rightarrow>
                     Some (None, Some (hop\<lparr>Interface := (Interface hop)\<lparr>PinEndpointVia := alias\<rparr>\<rparr>)))
              else Some (None, Some hop))))"

definition pinned_via :: "string \<Rightarrow> config \<Rightarrow> config" where
  "pinned_via name c = c\<lparr>Interface := (Interface c)\<lparr>PinEndpointVia := name\<rparr>\<rparr>"

text \<open>The edited configuration afterwards; nothing is pending when it returns.\<close>

definition chainBeforeEdit ::
  "server \<Rightarrow> window \<Rightarrow> string \<Rightarrow> config \<Rightarrow> config option \<Rightarrow> server_state \<Rightarrow> (config \<times> server_state) option"
where
  "chainBeforeEdit sv win oldName c pending st =
     (let u = win_unicode win;
          oldHidden = ChainHiddenHopName u oldName;
          newHidden = ChainHiddenHopName u (Name c)
      in if equal_fold u oldHidden oldName then Some (c, st)
         else do {
           (existing, st1) \<leftarrow> chainStoredHopConfig sv win oldHidden st;
           if isl existing \<and> pending = None then Some (c, st1)
           else if pending = None \<and> equal_fold u newHidden oldHidden
           then Some (pinned_via oldHidden c, st1)
           else do {
             let source = (case pending of Some p \<Rightarrow> p | None \<Rightarrow> projr existing);
             let hopConfig = source\<lparr>Name := newHidden, Interface := (Interface source)\<lparr>TableOff := True\<rparr>\<rparr>;
             st2 \<leftarrow> chainRemoveByName sv u oldHidden st1;
             st3 \<leftarrow> (if \<not> equal_fold u newHidden oldHidden then chainRemoveByName sv u newHidden st2
                     else Some st2);
             (err, st4) \<leftarrow> ask_error sv (CallCreate hopConfig) st3;
             Some (if err \<noteq> None then c else pinned_via newHidden c, st4)
           }
         })"

end
