(* ===== verification/WindowStore.thy ===== *)
theory WindowStore
  imports ChainWindow
begin

text \<open>
  What the calls of the window leave of the store: a call about some names changes the files of these
  names and no others, and a configuration the manager has created is what it loads from then on.
\<close>

section \<open>Files of other names\<close>

definition entry_at :: "directory option \<Rightarrow> string \<Rightarrow> dir_entry option" where
  "entry_at dir f = (case dir of None \<Rightarrow> None | Some d \<Rightarrow> find_entry d f)"

definition unchanged_but :: "string set \<Rightarrow> directory option \<Rightarrow> directory option \<Rightarrow> bool" where
  "unchanged_but N dir dir' \<longleftrightarrow>
     (dir = None \<longleftrightarrow> dir' = None)
     \<and> (\<forall>n. n \<notin> N \<longrightarrow>
         entry_at dir' (n @ configFileSuffix) = entry_at dir (n @ configFileSuffix)
         \<and> entry_at dir' (n @ configFileUnencryptedSuffix) = entry_at dir (n @ configFileUnencryptedSuffix))"

lemma unchanged_refl [simp]: "unchanged_but N dir dir"
  by (simp add: unchanged_but_def)

lemma unchanged_trans:
  "unchanged_but N a b \<Longrightarrow> unchanged_but N b c \<Longrightarrow> unchanged_but N a c"
  by (simp add: unchanged_but_def)

lemma unchanged_exists: "unchanged_but N a b \<Longrightarrow> a \<noteq> None \<Longrightarrow> b \<noteq> None"
  by (simp add: unchanged_but_def)

lemma unchanged_mono: "unchanged_but M a b \<Longrightarrow> M \<subseteq> N \<Longrightarrow> unchanged_but N a b"
  by (auto simp: unchanged_but_def)

lemma load_unchanged:
  assumes "unchanged_but N dir dir'" and "n \<notin> N"
  shows "LoadFromName env dir' n = LoadFromName env dir n"
proof (cases dir)
  case None
  with assms(1) have "dir' = None" by (simp add: unchanged_but_def)
  with None show ?thesis by simp
next
  case (Some d)
  with assms(1) obtain d' where d': "dir' = Some d'" by (auto simp: unchanged_but_def)
  have find: "find_entry d' (n @ configFileSuffix) = find_entry d (n @ configFileSuffix)"
    "find_entry d' (n @ configFileUnencryptedSuffix) = find_entry d (n @ configFileUnencryptedSuffix)"
    using assms Some d' by (simp_all add: unchanged_but_def entry_at_def)
  then have same: "read_file d' (n @ configFileSuffix) = read_file d (n @ configFileSuffix)"
    "read_file d' (n @ configFileUnencryptedSuffix) = read_file d (n @ configFileUnencryptedSuffix)"
    "exists_file d' (n @ configFileSuffix) = exists_file d (n @ configFileSuffix)"
    "exists_file d' (n @ configFileUnencryptedSuffix) = exists_file d (n @ configFileUnencryptedSuffix)"
    by (simp_all add: read_file_def exists_file_def)
  then have plain: "chainPlainPath u d' n = chainPlainPath u d n" for u
    by (simp add: chainPlainPath_def fileIsChainHop_def Let_def)
  have load: "LoadFromPath env d' f = LoadFromPath env d f" if "read_file d' f = read_file d f" for f
    by (simp add: LoadFromPath_def that)
  show ?thesis
  proof (cases "chainPlainPath (env_unicode env) d n")
    case None
    then show ?thesis using same plain load by (simp add: LoadFromName_def Some d')
  next
    case (Some f)
    then have "f = n @ configFileUnencryptedSuffix" by (simp add: chainPlainPath_def Let_def split: if_splits)
    with Some show ?thesis using same plain load by (simp add: LoadFromName_def \<open>dir = Some d\<close> d')
  qed
qed

section \<open>Calls\<close>

lemma Stop_dir: "w_dir (snd (Stop os name w)) = w_dir w"
  using Stop_quiet [of os name w] chainBeforeStop_dir [of os name w] by (simp add: quiet_def)

lemma find_foldr_remove:
  "n \<notin> set fs \<Longrightarrow> find_entry (foldr remove_entry fs d) n = find_entry d n"
  by (induction fs) (auto simp: find_remove_entry)

lemma DeleteName_unchanged:
  assumes "DeleteName u can dir n = Inr d'"
  shows "unchanged_but {n} dir (Some d')"
proof -
  from assms obtain d where d: "dir = Some d" by (auto simp: DeleteName_def split: if_splits option.splits)
  define fs where "fs = filter can (filter (exists_file d) [n @ configFileSuffix, n @ configFileUnencryptedSuffix])"
  from assms d have fs: "d' = foldr remove_entry fs d"
    by (auto simp add: DeleteName_def Let_def fs_def split: if_splits simp del: filter.simps foldr.simps)
  have sub: "set fs \<subseteq> {n @ configFileSuffix, n @ configFileUnencryptedSuffix}" by (auto simp: fs_def)
  have "m @ configFileSuffix \<noteq> n @ configFileUnencryptedSuffix"
    "m @ configFileUnencryptedSuffix \<noteq> n @ configFileSuffix" for m
    using suffixes_differ by metis+
  then show ?thesis
    using fs sub d find_foldr_remove [of _ fs d] by (auto simp: unchanged_but_def entry_at_def)
qed

lemma Delete_unchanged: "unchanged_but {n} (w_dir w) (w_dir (snd (Delete os n w)))"
proof -
  obtain e w1 where stop: "Stop os n w = (e, w1)" by fastforce
  then have "w_dir w1 = w_dir w" using Stop_dir [of os n w] by simp
  then show ?thesis
    using stop DeleteName_unchanged [of "os_unicode os" _ "w_dir w" n]
    by (auto simp: Delete_def act_def split: option.split sum.split)
qed

lemma Save_unchanged:
  assumes "Save env ok dir c ow = Inr d'"
  shows "unchanged_but {Name c} dir (Some d')"
proof -
  have other: "m @ configFileSuffix \<noteq> n @ configFileUnencryptedSuffix"
    "m @ configFileUnencryptedSuffix \<noteq> n @ configFileSuffix" for m n
    using suffixes_differ by metis+
  from assms show ?thesis
    using other by (auto simp: Save_def Let_def writeLockedDownFile_def unchanged_but_def entry_at_def find_put_entry
        split: if_splits option.splits)
qed

abbreviation dir_of :: "server_state \<Rightarrow> directory option" where "dir_of st \<equiv> w_dir (sv_world st)"

lemma ask_names_state: "ask_names sv st = Some (r, st') \<Longrightarrow> st' = st"
  by (auto simp: ask_names_def answered_def split: sum.splits if_splits)

lemma ask_config_state: "ask_config sv n st = Some (r, st') \<Longrightarrow> st' = st"
  by (auto simp: ask_config_def answered_config_def answered_def split: sum.splits if_splits)

lemma delete_call:
  "ask_error sv (CallDelete n) st = Some (e, st') \<Longrightarrow> unchanged_but {n} (dir_of st) (dir_of st')"
  using Delete_unchanged [of n "sv_world st" "sv_os sv"]
  by (auto simp: ask_error_def answered_outcome_def answered_def split: prod.splits if_splits)

lemma wait_call:
  assumes "ask_error sv (CallWaitForStop n) st = Some (e, st')"
  shows "dir_of st' = dir_of st"
proof -
  from assms obtain r where "WaitForStop (sv_os sv) n (sv_world st) = Some r" "sv_world st' = snd r"
    by (auto simp: ask_error_def answered_outcome_def answered_def split: option.splits prod.splits if_splits)
  moreover have "quiet (sv_world st) (snd r)" if "WaitForStop (sv_os sv) n (sv_world st) = Some r" for r
    using that wait_gone_quiet by (auto simp: WaitForStop_def split: sum.splits option.splits)
  ultimately show ?thesis by (simp add: quiet_def)
qed

lemma create_call:
  assumes "ask_error sv (CallCreate c) st = Some (e, st')"
  shows "unchanged_but {Name c} (dir_of st) (dir_of st')"
    and "e = None \<Longrightarrow> \<exists>d. dir_of st' = Some d \<and>
      Save (os_store (sv_os sv)) (os_store_ok (sv_os sv) (w_history (sv_world st))) (dir_of st) c True = Inr d"
proof -
  let ?os = "sv_os sv" and ?w = "sv_world st"
  let ?r = "Save (os_store ?os) (os_store_ok ?os (w_history ?w)) (w_dir ?w) c True"
  obtain e1 w1 where c: "Create ?os c ?w = (e1, w1)" by fastforce
  then have w1: "e1 = None \<and> (\<exists>d. ?r = Inr d \<and> w_dir w1 = Some d) \<or> e1 \<noteq> None \<and> w1 = ?w"
    by (auto simp: Create_def act_def split: if_splits sum.splits)
  from assms c have st': "sv_world st' = w1" "e = failure sv e1"
    by (auto simp: ask_error_def answered_def split: option.splits if_splits)
  show "unchanged_but {Name c} (dir_of st) (dir_of st')"
    using w1 st' Save_unchanged by fastforce
  show "e = None \<Longrightarrow> \<exists>d. dir_of st' = Some d \<and> ?r = Inr d"
    using w1 st' by (auto simp: failure_def)
qed

text \<open>A hop that can be stored is what the manager loads once its creation has succeeded.\<close>

definition storable :: "store_env \<Rightarrow> config \<Rightarrow> bool" where
  "storable env c \<longleftrightarrow>
     wf_config (env_unicode env) c \<and> set (env_order env c) = dom (IPackets (Interface c))
     \<and> PinEndpointVia (Interface c) \<noteq> []
     \<and> short_lines (ToWgQuick (env_unicode env) (env_order env c) c)"

lemma created_loads:
  assumes "ask_error sv (CallCreate c) st = Some (None, st')" and "storable (os_store (sv_os sv)) c"
  shows "LoadFromName (os_store (sv_os sv)) (dir_of st') (Name c) = Inr c"
proof -
  from create_call(2) [OF assms(1)] obtain d' where d': "dir_of st' = Some d'"
    and save: "Save (os_store (sv_os sv)) (os_store_ok (sv_os sv) (w_history (sv_world st))) (dir_of st) c True = Inr d'"
    by auto
  then obtain d where "dir_of st = Some d" by (auto simp: Save_def Let_def split: if_splits option.splits)
  with save assms(2) d' Save_chain_hop(1) show ?thesis by (fastforce simp: storable_def)
qed

section \<open>Operations\<close>

definition named_like :: "unicode \<Rightarrow> string \<Rightarrow> string set" where
  "named_like u name = {t. equal_fold u t name}"

lemma remove_matching_unchanged:
  "remove_matching sv u name tunnels st = Some st' \<Longrightarrow> unchanged_but (named_like u name) (dir_of st) (dir_of st')"
proof (induction sv u name tunnels st arbitrary: st' rule: remove_matching.induct)
  case (2 sv u name t ts st)
  show ?case
  proof (cases "equal_fold u t name")
    case True
    with 2(3) obtain e1 st1 e2 st2 where s: "ask_error sv (CallDelete t) st = Some (e1, st1)"
      "ask_error sv (CallWaitForStop t) st1 = Some (e2, st2)" "remove_matching sv u name ts st2 = Some st'"
      by (auto simp: bind_eq_Some_conv)
    have "unchanged_but (named_like u name) (dir_of st) (dir_of st2)"
      using delete_call [OF s(1)] wait_call [OF s(2)] True unchanged_mono [of "{t}"]
      by (auto simp: named_like_def)
    moreover have "unchanged_but (named_like u name) (dir_of st2) (dir_of st')"
      by (rule 2(1) [OF True s(1) refl s(2) refl s(3)])
    ultimately show ?thesis by (rule unchanged_trans)
  next
    case False
    with 2 show ?thesis by simp
  qed
qed simp

lemma chainRemoveByName_unchanged:
  assumes "chainRemoveByName sv u name st = Some st'"
  shows "unchanged_but (named_like u name) (dir_of st) (dir_of st')"
proof -
  from assms obtain names err st1 where n: "ask_names sv st = Some ((names, err), st1)"
    and st': "st' = st1 \<or> remove_matching sv u name names st1 = Some st'"
    by (auto simp: chainRemoveByName_def bind_eq_Some_conv split: if_splits)
  from st' ask_names_state [OF n] remove_matching_unchanged show ?thesis by auto
qed

text \<open>After a pair is created without an error both hops load, and other tunnels are as they were.\<close>

lemma pair_created:
  assumes r: "chainCreatePair sv u hop1 hop2 st = Some (None, st')"
    and ok: "storable (os_store (sv_os sv)) hop1" "storable (os_store (sv_os sv)) hop2"
    and names: "Name hop1 \<noteq> Name hop2"
  shows "LoadFromName (os_store (sv_os sv)) (dir_of st') (Name hop1) = Inr hop1"
    and "LoadFromName (os_store (sv_os sv)) (dir_of st') (Name hop2) = Inr hop2"
    and "\<not> equal_fold u n (Name hop1) \<Longrightarrow> \<not> equal_fold u n (Name hop2) \<Longrightarrow>
      LoadFromName (os_store (sv_os sv)) (dir_of st') n = LoadFromName (os_store (sv_os sv)) (dir_of st) n"
proof -
  let ?env = "os_store (sv_os sv)"
  from r obtain st1 st2 st3 where s: "chainRemoveByName sv u (Name hop2) st = Some st1"
    "chainRemoveByName sv u (Name hop1) st1 = Some st2"
    "ask_error sv (CallCreate hop1) st2 = Some (None, st3)" "ask_error sv (CallCreate hop2) st3 = Some (None, st')"
    by (auto simp: chainCreatePair_def bind_eq_Some_conv split: if_splits)
  from created_loads [OF s(3) ok(1)] load_unchanged [OF create_call(1) [OF s(4)]] names
  show "LoadFromName ?env (dir_of st') (Name hop1) = Inr hop1" by simp
  show "LoadFromName ?env (dir_of st') (Name hop2) = Inr hop2" by (rule created_loads [OF s(4) ok(2)])
  let ?N = "named_like u (Name hop1) \<union> named_like u (Name hop2)"
  have "unchanged_but ?N (dir_of st) (dir_of st1)"
    using chainRemoveByName_unchanged [OF s(1)] by (rule unchanged_mono) simp
  moreover have "unchanged_but ?N (dir_of st1) (dir_of st2)"
    using chainRemoveByName_unchanged [OF s(2)] by (rule unchanged_mono) simp
  moreover have "unchanged_but ?N (dir_of st2) (dir_of st3)" "unchanged_but ?N (dir_of st3) (dir_of st')"
    using create_call(1) [OF s(3)] create_call(1) [OF s(4)]
    by (auto elim!: unchanged_mono simp: named_like_def)
  ultimately have "unchanged_but ?N (dir_of st) (dir_of st')" by (metis unchanged_trans)
  then show "\<not> equal_fold u n (Name hop1) \<Longrightarrow> \<not> equal_fold u n (Name hop2) \<Longrightarrow>
      LoadFromName ?env (dir_of st') n = LoadFromName ?env (dir_of st) n"
    by (rule load_unchanged) (simp add: named_like_def)
qed

lemma delete_others:
  assumes r: "chainDeleteTunnel sv u tunnel st = Some (err, st')"
    and n: "n \<noteq> tunnel" "\<not> equal_fold u n (ChainHiddenHopName u tunnel)"
  shows "LoadFromName env (dir_of st') n = LoadFromName env (dir_of st) n"
proof -
  let ?h = "ChainHiddenHopName u tunnel"
  from r obtain e2 st1 st2 where s: "ask_error sv (CallDelete tunnel) st = Some (err, st1)"
    "ask_error sv (CallWaitForStop tunnel) st1 = Some (e2, st2)"
    and st': "st' = st2 \<or> chainRemoveByName sv u ?h st2 = Some st'"
    by (auto simp: chainDeleteTunnel_def bind_eq_Some_conv Let_def split: if_splits)
  have "unchanged_but ({tunnel} \<union> named_like u ?h) (dir_of st) (dir_of st2)"
    using delete_call [OF s(1)] wait_call [OF s(2)] by (auto elim!: unchanged_mono)
  moreover have "unchanged_but ({tunnel} \<union> named_like u ?h) (dir_of st2) (dir_of st')"
    using st' unchanged_mono [OF chainRemoveByName_unchanged [of sv u ?h st2 st'], of "{tunnel} \<union> named_like u ?h"]
    by auto
  ultimately have "unchanged_but ({tunnel} \<union> named_like u ?h) (dir_of st) (dir_of st')"
    by (rule unchanged_trans)
  then show ?thesis by (rule load_unchanged) (use n in \<open>simp add: named_like_def\<close>)
qed

section \<open>The outer adapter\<close>

lemma best_adapter_keeps:
  assumes "b \<noteq> []"
  shows "best_adapter f b m rows = b \<and> (\<forall>r\<in>set rows. f r \<noteq> [] \<longrightarrow> m \<le> fr_metric r)
    \<or> (\<exists>r\<in>set rows. f r \<noteq> [] \<and> best_adapter f b m rows = f r \<and> fr_metric r < m
        \<and> (\<forall>r'\<in>set rows. f r' \<noteq> [] \<longrightarrow> fr_metric r \<le> fr_metric r'))"
  using assms
proof (induction rows arbitrary: b m)
  case (Cons row rows)
  show ?case
  proof (cases "f row \<noteq> [] \<and> fr_metric row < m")
    case True
    then show ?thesis using Cons.IH [of "f row" "fr_metric row"] by fastforce
  next
    case False
    then show ?thesis using Cons.IH [OF Cons.prems, of m] Cons.prems by (auto simp: not_less)
  qed
qed simp

lemma best_adapter_spec:
  "best_adapter f [] m rows = [] \<longleftrightarrow> (\<forall>r\<in>set rows. f r = [])"
  "best_adapter f [] m rows = name \<Longrightarrow> name \<noteq> [] \<Longrightarrow>
    \<exists>r\<in>set rows. f r = name \<and> (\<forall>r'\<in>set rows. f r' \<noteq> [] \<longrightarrow> fr_metric r \<le> fr_metric r')"
proof -
  have "(best_adapter f [] m rows = [] \<longleftrightarrow> (\<forall>r\<in>set rows. f r = []))
    \<and> (best_adapter f [] m rows \<noteq> [] \<longrightarrow>
        (\<exists>r\<in>set rows. f r = best_adapter f [] m rows \<and> (\<forall>r'\<in>set rows. f r' \<noteq> [] \<longrightarrow> fr_metric r \<le> fr_metric r')))"
  proof (induction rows)
    case (Cons row rows)
    show ?case
    proof (cases "f row = []")
      case True
      then show ?thesis using Cons by auto
    next
      case False
      then show ?thesis using best_adapter_keeps [OF False, of f "fr_metric row" rows] by fastforce
    qed
  qed simp
  then show "best_adapter f [] m rows = [] \<longleftrightarrow> (\<forall>r\<in>set rows. f r = [])"
    "best_adapter f [] m rows = name \<Longrightarrow> name \<noteq> [] \<Longrightarrow>
      \<exists>r\<in>set rows. f r = name \<and> (\<forall>r'\<in>set rows. f r' \<noteq> [] \<longrightarrow> fr_metric r \<le> fr_metric r')"
    by auto
qed

text \<open>A row that gives a way out: a default route with a gateway, over an adapter that is no tunnel.\<close>

definition way_out :: "window \<Rightarrow> world \<Rightarrow> (64 word \<times> string) list \<Rightarrow> fwd_row \<Rightarrow> bool" where
  "way_out win w adapters row \<longleftrightarrow>
     fst (mask_size (net_mask (fr_prefix row))) = 0
     \<and> net_ip (fr_prefix row) \<noteq> [] \<and> is_unspecified (net_ip (fr_prefix row))
     \<and> fr_hop row \<noteq> [] \<and> \<not> is_unspecified (fr_hop row)
     \<and> (let name = adapter_names adapters (fr_luid row) in
          name \<noteq> [] \<and> \<not> ChainIsHiddenHopName (win_unicode win) name \<and> \<not> chainIsKnownTunnel win w name)"

lemma row_adapter_way_out:
  "row_adapter win w (adapter_names adapters) row =
     (if way_out win w adapters row then adapter_names adapters (fr_luid row) else [])"
  by (auto simp: row_adapter_def way_out_def Let_def)

lemma outer_adapter_spec:
  assumes "win_adapters win w = Some adapters" and "win_routes win w = Some rows"
  shows "chainOuterAdapter win w = Inl NoDefaultRoute \<longleftrightarrow> (\<forall>row\<in>set rows. \<not> way_out win w adapters row)"
    and "chainOuterAdapter win w = Inr name \<Longrightarrow>
      \<exists>row\<in>set rows. way_out win w adapters row \<and> adapter_names adapters (fr_luid row) = name
        \<and> (\<forall>other\<in>set rows. way_out win w adapters other \<longrightarrow> fr_metric row \<le> fr_metric other)"
proof -
  let ?f = "row_adapter win w (adapter_names adapters)"
  have f: "?f row \<noteq> [] \<longleftrightarrow> way_out win w adapters row" for row
    by (auto simp: row_adapter_way_out) (auto simp: way_out_def Let_def)
  have r: "chainOuterAdapter win w =
      (if best_adapter ?f [] 0 rows = [] then Inl NoDefaultRoute else Inr (best_adapter ?f [] 0 rows))"
    using assms by (simp add: chainOuterAdapter_def Let_def)
  show "chainOuterAdapter win w = Inl NoDefaultRoute \<longleftrightarrow> (\<forall>row\<in>set rows. \<not> way_out win w adapters row)"
    using f by (auto simp: r best_adapter_spec(1))
  assume "chainOuterAdapter win w = Inr name"
  then have n: "best_adapter ?f [] 0 rows = name" "name \<noteq> []" by (auto simp: r split: if_splits)
  from best_adapter_spec(2) [OF n] obtain row where row: "row \<in> set rows" "?f row = name"
    "\<forall>r'\<in>set rows. ?f r' \<noteq> [] \<longrightarrow> fr_metric row \<le> fr_metric r'" by blast
  then have "way_out win w adapters row" using n(2) f by blast
  with row f show "\<exists>row\<in>set rows. way_out win w adapters row \<and> adapter_names adapters (fr_luid row) = name
        \<and> (\<forall>other\<in>set rows. way_out win w adapters other \<longrightarrow> fr_metric row \<le> fr_metric other)"
    by (intro bexI [OF _ row(1)]) (simp add: row_adapter_way_out)
qed

end
