(* ===== verification/EditDialog.thy ===== *)
theory EditDialog
  imports WindowStore
begin

text \<open>
  The edit dialog, \<open>upstream-ui/editdialog.go\<close> and \<open>chainchecks.go\<close>, and what the list page does with its result,
  \<open>onEditTunnel\<close> of \<open>tunnelspage.go\<close>. The widgets are the fields of a record: the name, the text, and the
  three check boxes, which are there or not. A message shown to the user is a constructor of the result.
\<close>

section \<open>The dialog\<close>

record dialog =
  dlg_name :: string
  dlg_text :: string
  dlg_config :: config
  dlg_checks :: "tunnel_settings option"

definition ask_settings ::
  "server \<Rightarrow> string \<Rightarrow> server_state \<Rightarrow> ((tunnel_settings option \<times> client_error option) \<times> server_state) option"
where
  "ask_settings sv name st = do {
     ((a, err), st1) \<leftarrow> perform sv (CallSettings name) st;
     Some ((case a of SettingsAre s \<Rightarrow> Some s | _ \<Rightarrow> None, err), st1)
   }"

definition all_checked :: tunnel_settings where
  "all_checked = \<lparr> KillSwitch = True, BlockIPv6 = True, AllowLAN = True \<rparr>"

definition chainLoadChecks :: "server \<Rightarrow> string \<Rightarrow> server_state \<Rightarrow> (tunnel_settings \<times> server_state) option" where
  "chainLoadChecks sv name st =
     (if name = [] then Some (all_checked, st)
      else do {
        ((saved, err), st1) \<leftarrow> ask_settings sv name st;
        Some (case (saved, err) of (Some s, None) \<Rightarrow> s | _ \<Rightarrow> all_checked, st1)
      })"

definition chainSaveChecks ::
  "server \<Rightarrow> string \<Rightarrow> tunnel_settings option \<Rightarrow> server_state \<Rightarrow> (client_error option \<times> server_state) option"
where
  "chainSaveChecks sv name checks st =
     (case checks of
        None \<Rightarrow> Some (None, st)
      | Some settings \<Rightarrow> ask_error sv (CallSaveSettings name settings) st)"

text \<open>\<open>key\<close> is the private key made for a new tunnel. An error of \<open>StoredConfig\<close> is not looked at.\<close>

definition newEditDialog ::
  "server \<Rightarrow> window \<Rightarrow> key \<Rightarrow> string option \<Rightarrow> server_state \<Rightarrow> (dialog \<times> config option \<times> server_state) option"
where
  "newEditDialog sv win key tunnel st = do {
     (c, st1) \<leftarrow>
       (case tunnel of
          None \<Rightarrow> Some (zero_config\<lparr>Interface := zero_interface\<lparr>PrivateKey := key\<rparr>\<rparr>, st)
        | Some name \<Rightarrow> do { ((c, _), st1) \<leftarrow> ask_config sv name st; Some (c, st1) });
     (checks, st2) \<leftarrow> chainLoadChecks sv (Name c) st1;
     (t, pending, st3) \<leftarrow> chainEditorText sv win tunnel c st2;
     Some (\<lparr> dlg_name = Name c, dlg_text = t, dlg_config = c, dlg_checks = Some checks \<rparr>, pending, st3)
   }"

datatype save_result =
    NameRequired | NameInvalid | ListFailed client_error | NameExists
  | HopRefused window_error | MainRefused conf_error | Saved config "client_error option"

text \<open>The checks of the name; \<open>None\<close> lets the dialog go on.\<close>

definition check_name ::
  "server \<Rightarrow> unicode \<Rightarrow> string \<Rightarrow> string \<Rightarrow> server_state \<Rightarrow> (save_result option \<times> server_state) option"
where
  "check_name sv u newName oldName st =
     (if newName = [] then Some (Some NameRequired, st)
      else if \<not> TunnelNameIsValid u newName then Some (Some NameInvalid, st)
      else if to_lower u newName \<noteq> to_lower u oldName then do {
        ((tunnels, err), st1) \<leftarrow> ask_names sv st;
        Some (case err of
                Some e \<Rightarrow> Some (ListFailed e)
              | None \<Rightarrow> if list_ex (\<lambda>t. to_lower u t = to_lower u newName) tunnels then Some NameExists else None,
              st1)
      } else Some (None, st))"

definition onSaveButtonClicked ::
  "server \<Rightarrow> window \<Rightarrow> dialog \<Rightarrow> config option \<Rightarrow> server_state \<Rightarrow>
   (save_result \<times> config option \<times> server_state) option"
where
  "onSaveButtonClicked sv win dlg pending st = do {
     let u = win_unicode win;
     let newName = dlg_name dlg;
     (refused, st1) \<leftarrow> check_name sv u newName (Name (dlg_config dlg)) st;
     (case refused of
        Some r \<Rightarrow> Some (r, pending, st1)
      | None \<Rightarrow> do {
          let (mainText, hopText) = chainSplitEditorText (dlg_text dlg);
          (chainErr, pending1) \<leftarrow> chainStashHop1 win hopText newName (sv_world st1);
          (case chainErr of
             Some e \<Rightarrow> Some (HopRefused e, pending1, st1)
           | None \<Rightarrow>
               (case FromWgQuick u mainText newName of
                  Inl e \<Rightarrow> if is_panic (MConf e) then None else Some (MainRefused e, pending1, st1)
                | Inr cfg \<Rightarrow> do {
                    (err, st2) \<leftarrow> chainSaveChecks sv newName (dlg_checks dlg) st1;
                    Some (Saved cfg err, pending1, st2)
                  }))
        })
   }"

section \<open>After the dialog\<close>

definition ask_state ::
  "server \<Rightarrow> string \<Rightarrow> server_state \<Rightarrow> ((int \<times> client_error option) \<times> server_state) option"
where
  "ask_state sv name st = do {
     ((a, err), st1) \<leftarrow> perform sv (CallState name) st;
     Some ((case a of StateIs n \<Rightarrow> n | _ \<Rightarrow> 0, err), st1)
   }"

definition edit_tunnel ::
  "server \<Rightarrow> window \<Rightarrow> string \<Rightarrow> config \<Rightarrow> config option \<Rightarrow> server_state \<Rightarrow> server_state option"
where
  "edit_tunnel sv win tunnel c pending st = do {
     ((priorState, err), st1) \<leftarrow> ask_state sv tunnel st;
     (c1, st2) \<leftarrow> chainBeforeEdit sv win tunnel c pending st1;
     (_, st3) \<leftarrow> ask_error sv (CallDelete tunnel) st2;
     (_, st4) \<leftarrow> ask_error sv (CallWaitForStop tunnel) st3;
     (err2, st5) \<leftarrow> ask_error sv (CallCreate c1) st4;
     if err = None \<and> err2 = None
        \<and> (priorState = state_number TunnelStarting \<or> priorState = state_number TunnelStarted)
     then do { (_, st6) \<leftarrow> ask_error sv (CallStart (Name c1)) st5; Some st6 }
     else Some st5
   }"

section \<open>Calls that leave the store alone\<close>

lemma ask_settings_dir: "ask_settings sv n st = Some (r, st') \<Longrightarrow> dir_of st' = dir_of st"
  by (auto simp: ask_settings_def ChainSettingsFor_eq answered_def)

lemma settings_set_dir: "chainServeSettingsSet os n s w = (ok, w') \<Longrightarrow> w_dir w' = w_dir w"
  by (auto simp: chainServeSettingsSet_def ChainSettingsSave_def chainSettingsStoreLocked_def load_book
      chainSettingsApplyNow_def ChainSettingsFor_eq chainDropIPv6Block_def Let_def act_def
      split: prod.splits if_splits option.splits write_result.splits)

lemma save_settings_dir: "ask_error sv (CallSaveSettings n s) st = Some (e, st') \<Longrightarrow> dir_of st' = dir_of st"
  using settings_set_dir [of "sv_os sv" n s "sv_world st"]
  by (auto simp: ask_error_def saved_def split: prod.splits)

lemma chainLoadChecks_dir: "chainLoadChecks sv n st = Some (r, st') \<Longrightarrow> dir_of st' = dir_of st"
  by (auto simp: chainLoadChecks_def bind_eq_Some_conv dest: ask_settings_dir split: if_splits)

lemma chainSaveChecks_dir: "chainSaveChecks sv n c st = Some (e, st') \<Longrightarrow> dir_of st' = dir_of st"
  by (auto simp: chainSaveChecks_def dest: save_settings_dir split: option.splits)

lemma ask_state_state: "ask_state sv n st = Some (r, st') \<Longrightarrow> st' = st"
  by (auto simp: ask_state_def answered_def split: sum.splits if_splits)

lemma start_call:
  assumes "ask_error sv (CallStart n) st = Some (e, st')"
  shows "dir_of st' = dir_of st"
proof -
  from assms obtain e1 w1 where "Start (sv_depth sv) (sv_os sv) n (sv_world st) = Some (e1, w1)"
    "sv_world st' = w1"
    by (auto simp: ask_error_def answered_outcome_def answered_def split: option.splits prod.splits if_splits)
  then show ?thesis using quiet_callD [OF Start_quiet] by (auto simp: quiet_def)
qed

lemma check_name_state:
  "check_name sv u n old st = Some (r, st') \<Longrightarrow> st' = st"
  "check_name sv u n old st = Some (r, st') \<Longrightarrow> r \<noteq> Some (Saved cfg e)"
  by (auto simp: check_name_def bind_eq_Some_conv dest: ask_names_state split: if_splits option.splits)

section \<open>What Save accepts\<close>

text \<open>The hop as its lines say it, without routes, and pinned to \<open>via\<close> only if the lines name no adapter.\<close>

definition stashed :: "config \<Rightarrow> string \<Rightarrow> config" where
  "stashed c via =
     c\<lparr>Interface := (Interface c)\<lparr>TableOff := True, PinEndpointVia :=
        (if trim_space (PinEndpointVia (Interface c)) = [] then via else PinEndpointVia (Interface c))\<rparr>\<rparr>"

lemma chainStashHop1_result:
  assumes "chainStashHop1 win hopText visible w = Some (None, pending)"
  shows "pending = None \<and> trim_space hopText = []
    \<or> (\<exists>c via. FromWgQuick (win_unicode win) hopText (ChainHiddenHopName (win_unicode win) visible) = Inr c
        \<and> pending = Some (stashed c via) \<and> Name c = ChainHiddenHopName (win_unicode win) visible
        \<and> (trim_space (PinEndpointVia (Interface c)) = [] \<longrightarrow> chainOuterAdapter win w = Inr via \<and> via \<noteq> []))"
proof (cases "trim_space hopText = []")
  case False
  let ?n = "ChainHiddenHopName (win_unicode win) visible"
  from assms False obtain c where c: "FromWgQuick (win_unicode win) hopText ?n = Inr c"
    by (auto simp: chainStashHop1_def split: sum.splits if_splits)
  have adapter: "a \<noteq> []" if "chainOuterAdapter win w = Inr a" for a
    using that by (auto simp: chainOuterAdapter_def Let_def split: option.splits if_splits)
  show ?thesis
    using assms False c FromWgQuick_ok(1) [OF c]
    by (auto simp: chainStashHop1_def stashed_def Let_def dest: adapter split: sum.splits if_splits)
qed (use assms in \<open>simp add: chainStashHop1_def\<close>)

lemma save_accepted:
  assumes "onSaveButtonClicked sv win dlg pending st = Some (Saved cfg err, pending', st')"
  shows "FromWgQuick (win_unicode win) (drop_crs (dlg_text dlg)) (dlg_name dlg) = Inr cfg"
    and "check_name sv (win_unicode win) (dlg_name dlg) (Name (dlg_config dlg)) st = Some (None, st)"
    and "chainStashHop1 win (snd (chainSplitEditorText (dlg_text dlg))) (dlg_name dlg) (sv_world st)
      = Some (None, pending')"
    and "chainSaveChecks sv (dlg_name dlg) (dlg_checks dlg) st = Some (err, st')"
proof -
  let ?u = "win_unicode win" and ?n = "dlg_name dlg"
  from assms obtain r st1 where c: "check_name sv ?u ?n (Name (dlg_config dlg)) st = Some (r, st1)"
    by (auto simp: onSaveButtonClicked_def bind_eq_Some_conv Let_def)
  with check_name_state(1) have st1: "st1 = st" by blast
  obtain mainText hopText where split: "chainSplitEditorText (dlg_text dlg) = (mainText, hopText)" by fastforce
  have "r \<noteq> Some (Saved cfg err)" by (rule check_name_state(2) [OF c])
  with assms c st1 split have "r = None" "chainStashHop1 win hopText ?n (sv_world st) = Some (None, pending')"
    "FromWgQuick ?u mainText ?n = Inr cfg" "chainSaveChecks sv ?n (dlg_checks dlg) st = Some (err, st')"
    by (auto simp: onSaveButtonClicked_def bind_eq_Some_conv Let_def
        split: option.splits sum.splits if_splits)
  with c st1 split parse_main_half [of ?u "dlg_text dlg" ?n]
  show "FromWgQuick ?u (drop_crs (dlg_text dlg)) ?n = Inr cfg"
    "check_name sv ?u ?n (Name (dlg_config dlg)) st = Some (None, st)"
    "chainStashHop1 win (snd (chainSplitEditorText (dlg_text dlg))) ?n (sv_world st) = Some (None, pending')"
    "chainSaveChecks sv ?n (dlg_checks dlg) st = Some (err, st')"
    by simp_all
qed

lemma check_name_free:
  assumes "check_name sv u n old st = Some (None, st)"
  shows "TunnelNameIsValid u n"
    and "to_lower u n \<noteq> to_lower u old \<Longrightarrow>
      \<exists>tunnels. ask_names sv st = Some ((tunnels, None), st) \<and> (\<forall>t\<in>set tunnels. to_lower u t \<noteq> to_lower u n)"
  using assms
  by (auto simp: check_name_def bind_eq_Some_conv list_ex_iff dest: ask_names_state split: if_splits option.splits)

end
