(* ===== verification/EditRound.thy ===== *)
theory EditRound
  imports EditDialog
begin

text \<open>
  A whole edit: the dialog opened on a chain shows both stored configurations, saving the text as it is gives
  both back, and the calls that follow leave both stored as they were.
\<close>

section \<open>The texts\<close>

lemma written_no_hash:
  assumes wf: "wf_config u c" and ord: "set ord = dom (IPackets (Interface c))"
  shows "CHR ''#'' \<notin> set (ToWgQuick u ord c)"
proof -
  have kv: "CHR ''#'' \<notin> set (kv k v)" if "key_text k" "value_text v" for k v
    using that by (auto simp: key_text_def list_all_iff name_char_def is_digit_def kv_split value_text_def)
  have kvs: "CHR ''#'' \<notin> set l" if "list_all good_kv kvs" "l \<in> set (map kv_line kvs)" for kvs l
    using that kv by (auto simp: list_all_iff good_kv_def)
  have wfs: "wf_interface (Interface c)" "\<And>p. p \<in> set (Peers c) \<Longrightarrow> wf_peer p"
    using wf by (simp_all add: wf_config_def list_all_iff)
  have "CHR ''#'' \<notin> set l"
    if l: "l \<in> set (interface_lines u ord (Interface c) @ concat (map peer_lines (Peers c)))" for l
  proof -
    from l consider "l \<in> {''[Interface]'', [], ''[Peer]''}"
      | "l \<in> set (map kv_line (interface_kvs u ord (Interface c)))"
      | p where "p \<in> set (Peers c)" "l \<in> set (map kv_line (peer_kvs p))"
      by (auto simp: interface_lines_kvs peer_lines_kvs split: if_splits)
    then show ?thesis
      using kvs [OF good_interface_kvs [OF wfs(1) ord]] kvs [OF good_peer_kvs [OF wfs(2)]]
      by cases auto
  qed
  then show ?thesis by (auto simp: ToWgQuick_def unlines_def)
qed

lemma no_hash_no_hop:
  assumes "CHR ''#'' \<notin> set t"
  shows "\<not> list_ex hop_line (split_on NL t)"
proof
  assume "list_ex hop_line (split_on NL t)"
  then obtain l where l: "l \<in> set (split_on NL t)" "hop_line l" by (auto simp: list_ex_iff)
  then have "CHR ''#'' \<in> set (trim_space l)" by (auto simp: hop_line_def chainHopPrefix_def has_prefix_ex)
  with set_trim_space split_on_subset [OF l(1)] assms show False by blast
qed

text \<open>A printable byte survives the trimming of the lines, and a text with one is not blank.\<close>

lemma graphic_not_blank:
  assumes "d \<in> set t" and "is_graphic d"
  shows "trim_space t \<noteq> []"
proof
  assume "trim_space t = []"
  then obtain v w where "spaces v" "spaces w" "t = v @ w" by (metis append_Nil trim_space_split)
  then show False using assms spaces_not_graphic by auto
qed

lemma graphic_kept:
  assumes "d \<in> set s" and "is_graphic d"
  shows "d \<in> set (unlines (map trim_right_space (split_on NL s)))"
proof -
  have "d \<noteq> NL" using assms(2) by (auto simp: is_graphic_def)
  then have "d \<in> set (unlines (split_on NL s)) \<longleftrightarrow> d \<in> set s" by (simp add: unlines_split)
  with assms(1) \<open>d \<noteq> NL\<close> obtain l where l: "l \<in> set (split_on NL s)" "d \<in> set l"
    by (auto simp: unlines_def)
  obtain w where w: "spaces w" "l = trim_right_space l @ w" by (rule trim_right_split)
  then have "d \<notin> set w" using spaces_not_graphic assms(2) by blast
  with w(2) l(2) have "d \<in> set (trim_right_space l)" by (metis Un_iff set_append)
  with l(1) show ?thesis by (auto simp: unlines_def)
qed

lemma written_bracket: "CHR ''['' \<in> set (ToWgQuick u ord c)"
  by (simp add: ToWgQuick_def interface_lines_def)

section \<open>Names\<close>

lemma valid_name_ascii: "TunnelNameIsValid u n \<Longrightarrow> list_all is_ascii n"
  using valid_name_chars name_char_graphic graphic_ascii by (auto simp: list_all_iff)

lemma hidden_differs:
  assumes "TunnelNameIsValid u n"
  shows "\<not> equal_fold u (ChainHiddenHopName u n) n"
proof -
  have n: "list_all is_ascii n" "trim_space n = n"
    using assms valid_name_ascii valid_name_trimmed by auto
  have len: "length s = length t" if "equal_fold u s t" "list_all is_ascii s" "list_all is_ascii t" for s t
    using that by (metis equal_fold_ascii length_map)
  show ?thesis
  proof (cases "equal_fold u n ChainLegacyInner")
    case True
    then have "ChainHiddenHopName u n = ChainLegacyOuter" using n by (simp add: ChainHiddenHopName_def)
    moreover have "length n = 12" using len [OF True n(1)] by (simp add: ChainLegacyInner_def is_ascii_def)
    moreover have "list_all is_ascii ChainLegacyOuter" "length ChainLegacyOuter = 9"
      by (simp_all add: ChainLegacyOuter_def is_ascii_def)
    ultimately show ?thesis using len [of ChainLegacyOuter n] n(1) by auto
  next
    case False
    then have "ChainHiddenHopName u n = n @ ChainHiddenSuffix" using n by (simp add: ChainHiddenHopName_def)
    moreover have "list_all is_ascii (n @ ChainHiddenSuffix)" "length ChainHiddenSuffix = 5"
      using n by (simp_all add: ChainHiddenSuffix_def is_ascii_def)
    ultimately show ?thesis using len [of "n @ ChainHiddenSuffix" n] n(1) by auto
  qed
qed

section \<open>A chain that is stored\<close>

text \<open>
  The manager grants the window its requests and can write the store; the tunnel \<open>c\<close> and its outer hop
  \<open>h\<close> are stored, \<open>h\<close> is the tunnel the name of the hidden hop finds, and neither text has a carriage return.
\<close>

definition willing :: "server \<Rightarrow> bool" where
  "willing sv \<longleftrightarrow> os_elevated (sv_os sv) \<and> (\<forall>hist. os_store_ok (sv_os sv) hist)"

definition printable :: "window \<Rightarrow> config \<Rightarrow> bool" where
  "printable win c \<longleftrightarrow>
     set (env_order (win_env win) c) = dom (IPackets (Interface c)) \<and> CR \<notin> set (window_text win c)"

definition chain_stored :: "server \<Rightarrow> window \<Rightarrow> config \<Rightarrow> config \<Rightarrow> directory option \<Rightarrow> bool" where
  "chain_stored sv win c h dir \<longleftrightarrow>
     win_unicode win = os_unicode (sv_os sv)
     \<and> storable (os_store (sv_os sv)) c \<and> storable (os_store (sv_os sv)) h
     \<and> LoadFromName (os_store (sv_os sv)) dir (Name c) = Inr c
     \<and> LoadFromName (os_store (sv_os sv)) dir (Name h) = Inr h
     \<and> (\<exists>names. ListConfigNames (os_unicode (sv_os sv)) dir = Inr names
          \<and> find (\<lambda>t. equal_fold (os_unicode (sv_os sv)) t (Name h)) names = Some (Name h))
     \<and> Name h = ChainHiddenHopName (os_unicode (sv_os sv)) (Name c)
     \<and> PinEndpointVia (Interface c) = Name h
     \<and> TableOff (Interface h) \<and> trim_space (PinEndpointVia (Interface h)) \<noteq> []"

lemma stored_hop_found:
  assumes "chain_stored sv win c h (dir_of st)" and "willing sv"
  shows "chainStoredHopConfig sv win (Name h) st = Some (Inr h, st)"
    and "ask_config sv (Name c) st = Some ((c, None), st)"
  using assms
  by (auto simp: chain_stored_def willing_def chainStoredHopConfig_def ask_names_def ask_config_def
      ManagerIPC.Tunnels_def StoredConfig_def answered_def answered_config_def failure_def)

lemma create_granted:
  assumes "willing sv" and "storable (os_store (sv_os sv)) c" and "dir_of st \<noteq> None"
  shows "\<exists>st'. ask_error sv (CallCreate c) st = Some (None, st')"
proof -
  from assms obtain d where "Create (sv_os sv) c (sv_world st) =
      (None, act WriteStore (sv_world st)\<lparr>w_dir := Some d\<rparr>)"
    by (auto simp: Create_def willing_def storable_def wf_config_def Save_def Let_def writeLockedDownFile_def)
  then show ?thesis by (simp add: ask_error_def answered_def failure_def)
qed

section \<open>Open, save, store\<close>

lemma checks_loaded: "\<exists>checks st1. chainLoadChecks sv n st = Some (checks, st1)"
  by (simp add: chainLoadChecks_def ask_settings_def ChainSettingsFor_eq answered_def)

lemma checks_saved: "\<exists>err st1. chainSaveChecks sv n checks st = Some (err, st1)"
  by (cases checks) (simp_all add: chainSaveChecks_def ask_error_def saved_def split: prod.split)

lemma dialog_opened:
  assumes ch: "chain_stored sv win c h (dir_of st)" and sv: "willing sv"
  shows "\<exists>checks st1. newEditDialog sv win key (Some (Name c)) st =
      Some (\<lparr> dlg_name = Name c, dlg_text = chainComposeEditorText (window_text win c) (window_text win h),
              dlg_config = c, dlg_checks = Some checks \<rparr>, None, st1) \<and> dir_of st1 = dir_of st"
proof -
  have u: "win_unicode win = os_unicode (sv_os sv)" "Name h = ChainHiddenHopName (win_unicode win) (Name c)"
    "TunnelNameIsValid (win_unicode win) (Name c)"
    using ch by (auto simp: chain_stored_def storable_def wf_config_def)
  obtain checks st1 where checks: "chainLoadChecks sv (Name c) st = Some (checks, st1)"
    using checks_loaded by blast
  have dir: "dir_of st1 = dir_of st" by (rule chainLoadChecks_dir [OF checks])
  then have "chain_stored sv win c h (dir_of st1)" using ch by simp
  from stored_hop_found(1) [OF this sv] have "chainStoredHopConfig sv win (Name h) st1 = Some (Inr h, st1)" .
  then have "chainEditorText sv win (Some (Name c)) c st1
      = Some (chainComposeEditorText (window_text win c) (window_text win h), None, st1)"
    using hidden_differs [OF u(3)] u(2) by (simp add: chainEditorText_def Let_def)
  with checks dir stored_hop_found(2) [OF ch sv] show ?thesis by (simp add: newEditDialog_def)
qed

lemma text_parses:
  assumes "storable env c" and "printable win c" and "win_unicode win = env_unicode env"
  shows "FromWgQuick (win_unicode win) (drop_crs (window_text win c)) (Name c) = Inr c"
    and "\<not> list_ex hop_line (split_on NL (drop_crs (window_text win c)))"
    and "CHR ''['' \<in> set (drop_crs (window_text win c))"
proof -
  have wf: "wf_config (win_unicode win) c" and ord: "set (env_order (win_env win) c) = dom (IPackets (Interface c))"
    and cr: "CR \<notin> set (window_text win c)"
    using assms by (simp_all add: storable_def printable_def)
  show "FromWgQuick (win_unicode win) (drop_crs (window_text win c)) (Name c) = Inr c"
    using FromWgQuick_ToWgQuick_aux [OF wf ord] by (simp add: drop_crs_id [OF cr]) (simp add: window_text_def)
  show "\<not> list_ex hop_line (split_on NL (drop_crs (window_text win c)))"
    unfolding drop_crs_id [OF cr] using written_no_hash [OF wf ord]
    by (intro no_hash_no_hop) (simp add: window_text_def)
  show "CHR ''['' \<in> set (drop_crs (window_text win c))"
    by (simp add: drop_crs_id [OF cr]) (simp add: window_text_def written_bracket)
qed

lemma saved_unchanged:
  assumes ch: "chain_stored sv win c h dir" and pr: "printable win c" "printable win h"
    and dlg: "dlg_name dlg = Name c" "dlg_config dlg = c"
    and same: "drop_crs (dlg_text dlg)
      = drop_crs (chainComposeEditorText (window_text win c) (window_text win h))"
  shows "\<exists>err st'. onSaveButtonClicked sv win dlg pending st = Some (Saved c err, Some h, st')
    \<and> dir_of st' = dir_of st"
proof -
  let ?u = "win_unicode win" and ?m = "window_text win c" and ?h = "window_text win h"
  have u: "?u = env_unicode (os_store (sv_os sv))" "Name h = ChainHiddenHopName ?u (Name c)"
    and st: "storable (os_store (sv_os sv)) c" "storable (os_store (sv_os sv)) h"
    and hop: "TableOff (Interface h)" "trim_space (PinEndpointVia (Interface h)) \<noteq> []"
    using ch by (auto simp: chain_stored_def)
  note main = text_parses [OF st(1) pr(1) u(1)] and outer = text_parses [OF st(2) pr(2) u(1)]
  obtain mainText hopText where split: "chainSplitEditorText (dlg_text dlg) = (mainText, hopText)" by fastforce
  with same have composed: "chainSplitEditorText (chainComposeEditorText ?m ?h) = (mainText, hopText)"
    by (simp add: chainSplitEditorText_def)
  have m: "FromWgQuick ?u mainText (Name c) = Inr c"
    using parse_composed_main [of ?u ?m ?h "Name c"] main(1) composed by simp
  have hp: "FromWgQuick ?u hopText (Name h) = Inr h"
    using parse_composed_hop [OF main(2), of ?u ?h "Name h"] outer(1) composed by simp
  have "CHR ''['' \<in> set hopText"
    using graphic_kept [OF outer(3)] split_compose_hop [OF main(2), of ?h] composed by (simp add: is_graphic_def)
  then have "trim_space hopText \<noteq> []" by (rule graphic_not_blank) (simp add: is_graphic_def)
  then have stash: "chainStashHop1 win hopText (Name c) w = Some (None, Some h)" for w
    using hp hop u(2) by (simp add: chainStashHop1_def Let_def)
  have "TunnelNameIsValid ?u (Name c)" using st(1) u(1) by (simp add: storable_def wf_config_def)
  then have name: "check_name sv ?u (Name c) (Name c) st = Some (None, st)"
    using valid_name_nonempty by (auto simp: check_name_def)
  obtain err st1 where checks: "chainSaveChecks sv (Name c) (dlg_checks dlg) st = Some (err, st1)"
    using checks_saved by blast
  then have "onSaveButtonClicked sv win dlg pending st = Some (Saved c err, Some h, st1)"
    by (simp add: onSaveButtonClicked_def dlg name split stash m)
  then show ?thesis using chainSaveChecks_dir [OF checks] by blast
qed

lemma hop_recreated:
  assumes ch: "chain_stored sv win c h (dir_of st)" and sv: "willing sv"
    and r: "chainBeforeEdit sv win (Name c) c (Some h) st = Some (c', st')"
  shows "c' = c" and "LoadFromName (os_store (sv_os sv)) (dir_of st') (Name h) = Inr h"
    and "unchanged_but (named_like (win_unicode win) (Name h)) (dir_of st) (dir_of st')"
proof -
  let ?u = "win_unicode win" and ?env = "os_store (sv_os sv)"
  have u: "?u = env_unicode ?env" and h: "Name h = ChainHiddenHopName ?u (Name c)" and st: "storable ?env h"
    and off: "TableOff (Interface h)" and pin: "PinEndpointVia (Interface c) = Name h"
    and valid: "TunnelNameIsValid ?u (Name c)" and dir: "dir_of st \<noteq> None"
    using ch by (auto simp: chain_stored_def storable_def wf_config_def ListConfigNames_def split: option.splits)
  have "(Interface h)\<lparr>TableOff := TableOff (Interface h)\<rparr> = Interface h" by simp
  with off have hop: "h\<lparr>Interface := (Interface h)\<lparr>TableOff := True\<rparr>\<rparr> = h" by simp
  from r stored_hop_found(1) [OF ch sv] hidden_differs [OF valid] obtain st2 err where
    rm: "chainRemoveByName sv ?u (Name h) st = Some st2"
    and mk: "ask_error sv (CallCreate h) st2 = Some (err, st')"
    and c': "c' = (if err \<noteq> None then c else pinned_via (Name h) c)"
    by (auto simp: chainBeforeEdit_def Let_def bind_eq_Some_conv hop simp flip: h)
  note gone = chainRemoveByName_unchanged [OF rm]
  from unchanged_exists [OF gone dir] have "dir_of st2 \<noteq> None" .
  from create_granted [OF sv st this] mk have err: "err = None" by auto
  have "pinned_via (PinEndpointVia (Interface c)) c = c" by (simp add: pinned_via_def)
  with c' err pin show "c' = c" by simp
  show "LoadFromName ?env (dir_of st') (Name h) = Inr h" using created_loads [OF _ st] mk err by simp
  have "unchanged_but (named_like ?u (Name h)) (dir_of st2) (dir_of st')"
    using create_call(1) [OF mk] by (rule unchanged_mono) (simp add: named_like_def)
  with gone show "unchanged_but (named_like ?u (Name h)) (dir_of st) (dir_of st')" by (rule unchanged_trans)
qed

lemma edited_unchanged:
  assumes ch: "chain_stored sv win c h (dir_of st)" and sv: "willing sv"
    and r: "edit_tunnel sv win (Name c) c (Some h) st = Some st'"
  shows "LoadFromName (os_store (sv_os sv)) (dir_of st') (Name c) = Inr c"
    and "LoadFromName (os_store (sv_os sv)) (dir_of st') (Name h) = Inr h"
    and "n \<noteq> Name c \<Longrightarrow> \<not> equal_fold (win_unicode win) n (Name h) \<Longrightarrow>
      LoadFromName (os_store (sv_os sv)) (dir_of st') n = LoadFromName (os_store (sv_os sv)) (dir_of st) n"
proof -
  let ?u = "win_unicode win" and ?env = "os_store (sv_os sv)"
  have st: "storable ?env c" and valid: "TunnelNameIsValid ?u (Name c)"
    and h: "Name h = ChainHiddenHopName ?u (Name c)" and dir: "dir_of st \<noteq> None"
    using ch by (auto simp: chain_stored_def storable_def wf_config_def ListConfigNames_def split: option.splits)
  have names: "Name h \<noteq> Name c" using hidden_differs [OF valid] h by auto
  from r obtain a c1 st2 e3 st3 e4 st4 e5 st5 where s: "ask_state sv (Name c) st = Some (a, st)"
    "chainBeforeEdit sv win (Name c) c (Some h) st = Some (c1, st2)"
    "ask_error sv (CallDelete (Name c)) st2 = Some (e3, st3)"
    "ask_error sv (CallWaitForStop (Name c)) st3 = Some (e4, st4)"
    "ask_error sv (CallCreate c1) st4 = Some (e5, st5)"
    and fin: "st' = st5 \<or> (\<exists>e. ask_error sv (CallStart (Name c1)) st5 = Some (e, st'))"
    by (auto simp: edit_tunnel_def bind_eq_Some_conv split: if_splits dest: ask_state_state)
  note before = hop_recreated [OF ch sv s(2)]
  have end_dir: "dir_of st' = dir_of st5" using fin start_call by auto
  have del: "unchanged_but {Name c} (dir_of st2) (dir_of st4)"
    using delete_call [OF s(3)] wait_call [OF s(4)] by simp
  have mk: "unchanged_but {Name c} (dir_of st4) (dir_of st5)" using create_call(1) [OF s(5)] before(1) by simp
  have rest: "unchanged_but {Name c} (dir_of st2) (dir_of st')"
    using unchanged_trans [OF del mk] end_dir by simp
  from unchanged_exists [OF del unchanged_exists [OF before(3) dir]] have "dir_of st4 \<noteq> None" .
  from create_granted [OF sv st this] s(5) before(1) have "e5 = None" by auto
  with s(5) before(1) show "LoadFromName ?env (dir_of st') (Name c) = Inr c"
    using created_loads [OF _ st] end_dir by simp
  show "LoadFromName ?env (dir_of st') (Name h) = Inr h"
    using load_unchanged [OF rest, of "Name h"] names before(2) by simp
  show "LoadFromName ?env (dir_of st') n = LoadFromName ?env (dir_of st) n"
    if "n \<noteq> Name c" "\<not> equal_fold ?u n (Name h)"
    using load_unchanged [OF rest, of n] load_unchanged [OF before(3), of n] that by (simp add: named_like_def)
qed

section \<open>A name too long for the pair\<close>

text \<open>
  The lines of the outer hop are deleted and the tunnel gets a name to which the suffix of the hidden hop
  cannot be added: the stored hop is removed, its copy under the new name refused, and the tunnel keeps the pin.
\<close>

lemma rename_refused:
  assumes r: "chainBeforeEdit sv win oldName c None st = Some (c', st')"
    and valid: "TunnelNameIsValid (win_unicode win) oldName"
    and stored: "chainStoredHopConfig sv win (ChainHiddenHopName (win_unicode win) oldName) st = Some (Inr h, st)"
    and new: "\<not> equal_fold (win_unicode win) (ChainHiddenHopName (win_unicode win) (Name c))
      (ChainHiddenHopName (win_unicode win) oldName)"
    and long: "\<not> TunnelNameIsValid (os_unicode (sv_os sv)) (ChainHiddenHopName (win_unicode win) (Name c))"
  shows "c' = c"
    and "\<exists>st1. chainRemoveByName sv (win_unicode win) (ChainHiddenHopName (win_unicode win) oldName) st = Some st1
      \<and> chainRemoveByName sv (win_unicode win) (ChainHiddenHopName (win_unicode win) (Name c)) st1 = Some st'"
proof -
  let ?u = "win_unicode win"
  let ?old = "ChainHiddenHopName ?u oldName" and ?new = "ChainHiddenHopName ?u (Name c)"
  let ?hop = "h\<lparr>Name := ?new, Interface := (Interface h)\<lparr>TableOff := True\<rparr>\<rparr>"
  from r stored new hidden_differs [OF valid] obtain st1 st2 err where
    s: "chainRemoveByName sv ?u ?old st = Some st1" "chainRemoveByName sv ?u ?new st1 = Some st2"
    "ask_error sv (CallCreate ?hop) st2 = Some (err, st')"
    and c': "c' = (if err \<noteq> None then c else pinned_via ?new c)"
    by (auto simp: chainBeforeEdit_def Let_def bind_eq_Some_conv)
  have "\<exists>e. Create (sv_os sv) ?hop (sv_world st2) = (Some e, sv_world st2)"
    using long by (auto simp: Create_def Save_def Let_def)
  with s(3) have "err \<noteq> None" "st' = st2" by (auto simp: ask_error_def answered_def failure_def split: if_splits)
  with s c' show "c' = c"
    and "\<exists>st1. chainRemoveByName sv ?u ?old st = Some st1 \<and> chainRemoveByName sv ?u ?new st1 = Some st'"
    by auto
qed

text \<open>A tunnel the manager is able to delete, and of which no file is left, cannot be loaded any more.\<close>

definition no_file :: "string \<Rightarrow> directory option \<Rightarrow> bool" where
  "no_file n dir \<longleftrightarrow>
     entry_at dir (n @ configFileSuffix) = None \<and> entry_at dir (n @ configFileUnencryptedSuffix) = None"

lemma no_file_load:
  assumes "no_file n dir"
  shows "isl (LoadFromName env dir n)"
proof (cases dir)
  case None
  then show ?thesis by (simp add: LoadFromName_def)
next
  case (Some d)
  have fail: "isl (LoadFromPath env d f)" if "find_entry d f = None" for f
  proof -
    have "read_file d f = Inl (NotExist f)" using that by (simp add: read_file_def)
    then show ?thesis by (cases "NameFromPath (env_unicode env) f") (simp_all add: LoadFromPath_def)
  qed
  have "find_entry d (n @ configFileSuffix) = None" "find_entry d (n @ configFileUnencryptedSuffix) = None"
    using assms Some by (simp_all add: no_file_def entry_at_def)
  with Some fail show ?thesis
    by (simp add: LoadFromName_def chainPlainPath_def fileIsChainHop_def read_file_def exists_file_def Let_def)
qed

lemma no_file_unchanged: "unchanged_but N dir dir' \<Longrightarrow> n \<notin> N \<Longrightarrow> no_file n dir \<Longrightarrow> no_file n dir'"
  by (simp add: unchanged_but_def no_file_def)

lemma find_foldr_gone:
  "find_entry d n = None \<or> n \<in> set fs \<Longrightarrow> find_entry (foldr remove_entry fs d) n = None"
  by (induction fs) (auto simp: find_remove_entry)

lemma DeleteName_gone:
  assumes "DeleteName u can dir n = Inr d'"
  shows "no_file n dir \<or> (\<forall>f. can f) \<Longrightarrow> no_file n (Some d')"
proof -
  from assms obtain d where d: "dir = Some d" by (auto simp: DeleteName_def split: if_splits option.splits)
  define fs where "fs = filter can (filter (exists_file d) [n @ configFileSuffix, n @ configFileUnencryptedSuffix])"
  from assms d have d': "d' = foldr remove_entry fs d"
    by (auto simp add: DeleteName_def Let_def fs_def split: if_splits simp del: filter.simps foldr.simps)
  assume "no_file n dir \<or> (\<forall>f. can f)"
  then have "find_entry d f = None \<or> f \<in> set fs"
    if "f \<in> {n @ configFileSuffix, n @ configFileUnencryptedSuffix}" for f
    using that d by (auto simp: no_file_def entry_at_def fs_def exists_file_def)
  then show "no_file n (Some d')"
    using find_foldr_gone d' by (simp add: no_file_def entry_at_def)
qed

text \<open>What has to be granted for the deletion of \<open>n\<close> from the store \<open>dir\<close>.\<close>

definition can_delete :: "os \<Rightarrow> string \<Rightarrow> directory option \<Rightarrow> bool" where
  "can_delete os n dir \<longleftrightarrow>
     (\<forall>w. w_dir w = dir \<longrightarrow> fst (Delete os n w) = None) \<and> (\<forall>h f. os_can_remove os h f)"

lemma Delete_gone:
  assumes "no_file n (w_dir w) \<or> fst (Delete os n w) = None \<and> (\<forall>h f. os_can_remove os h f)"
  shows "no_file n (w_dir (snd (Delete os n w)))"
proof -
  obtain e w1 where stop: "Stop os n w = (e, w1)" by fastforce
  then have "w_dir w1 = w_dir w" using Stop_dir [of os n w] by simp
  then show ?thesis
    using assms stop DeleteName_gone [of "os_unicode os" _ "w_dir w" n]
    by (auto simp: Delete_def act_def split: option.splits sum.splits if_splits)
qed

lemma delete_call_gone:
  assumes "ask_error sv (CallDelete n) st = Some (e, st')" and "no_file n (dir_of st) \<or> can_delete (sv_os sv) n (dir_of st)"
  shows "no_file n (dir_of st')"
proof -
  have "sv_world st' = snd (Delete (sv_os sv) n (sv_world st))"
    using assms(1) by (auto simp: ask_error_def answered_outcome_def answered_def split: prod.splits if_splits)
  moreover have "no_file n (dir_of st) \<or> fst (Delete (sv_os sv) n (sv_world st)) = None \<and> (\<forall>h f. os_can_remove (sv_os sv) h f)"
    using assms(2) unfolding can_delete_def by blast
  ultimately show ?thesis using Delete_gone by simp
qed

lemma remove_matching_gone:
  assumes "remove_matching sv u n names st = Some st'" and "\<And>t. t \<in> set names \<Longrightarrow> equal_fold u t n \<Longrightarrow> t = n"
    and "no_file n (dir_of st) \<or> can_delete (sv_os sv) n (dir_of st) \<and> n \<in> set names"
  shows "no_file n (dir_of st')"
  using assms
proof (induction sv u n names st arbitrary: st' rule: remove_matching.induct)
  case (2 sv u n t ts st)
  show ?case
  proof (cases "equal_fold u t n")
    case True
    with 2(4) have t: "t = n" by simp
    from 2(3) True obtain e1 st1 e2 st2 where s: "ask_error sv (CallDelete t) st = Some (e1, st1)"
      "ask_error sv (CallWaitForStop t) st1 = Some (e2, st2)" "remove_matching sv u n ts st2 = Some st'"
      by (auto simp: bind_eq_Some_conv)
    have "no_file n (dir_of st1)" using delete_call_gone [of sv n st e1 st1] s(1) 2(5) t by auto
    then have "no_file n (dir_of st2)" using wait_call [OF s(2)] by simp
    with 2(1) [OF True s(1) refl s(2) refl s(3)] 2(4) show ?thesis by simp
  next
    case False
    moreover from this have "t \<noteq> n" by auto
    ultimately show ?thesis using 2(2) [OF False] 2(3-5) by simp
  qed
qed simp

text \<open>The stored hop of the old name is gone after the renaming, and the tunnel is still pinned to it.\<close>

lemma rename_loses:
  assumes r: "chainBeforeEdit sv win oldName c None st = Some (c', st')"
    and valid: "TunnelNameIsValid (win_unicode win) oldName"
    and old: "old = ChainHiddenHopName (win_unicode win) oldName"
    and stored: "chainStoredHopConfig sv win old st = Some (Inr h, st)"
    and new: "\<not> equal_fold (win_unicode win) (ChainHiddenHopName (win_unicode win) (Name c)) old"
    and long: "\<not> TunnelNameIsValid (os_unicode (sv_os sv)) (ChainHiddenHopName (win_unicode win) (Name c))"
    and names: "ask_names sv st = Some ((names, None), st)" "old \<in> set names"
      "\<And>t. t \<in> set names \<Longrightarrow> equal_fold (win_unicode win) t old \<Longrightarrow> t = old"
    and able: "can_delete (sv_os sv) old (dir_of st)"
  shows "c' = c" and "isl (LoadFromName env (dir_of st') old)"
proof -
  let ?u = "win_unicode win"
  note refused = rename_refused [OF r valid stored [unfolded old] new [unfolded old] long, folded old]
  show "c' = c" by (rule refused(1))
  from refused(2) obtain st1 where s: "chainRemoveByName sv ?u old st = Some st1"
    "chainRemoveByName sv ?u (ChainHiddenHopName ?u (Name c)) st1 = Some st'" by blast
  have "remove_matching sv ?u old names st = Some st1" using s(1) names(1) by (simp add: chainRemoveByName_def)
  then have "no_file old (dir_of st1)"
    by (rule remove_matching_gone) (use names able in auto)
  moreover have "old \<notin> named_like ?u (ChainHiddenHopName ?u (Name c))"
    using new equal_fold_sym [of ?u old] by (simp add: named_like_def)
  ultimately have "no_file old (dir_of st')"
    using no_file_unchanged [OF chainRemoveByName_unchanged [OF s(2)]] by blast
  then show "isl (LoadFromName env (dir_of st') old)" by (rule no_file_load)
qed

end
