(* ===== verification/TunnelsPage.thy ===== *)
theory TunnelsPage
  imports EditRound
begin

text \<open>
  The list of tunnels and the page around it, \<open>upstream-ui/listview.go\<close>, \<open>tunnelspage.go\<close>, \<open>chainroles.go\<close> and
  \<open>chainprotect.go\<close>: what the list shows, deleting, importing and exporting, building a chain out of two files, the line
  about the protection, and leaving the program.

  Files and archives are read through parameters; what the user answers in a message box is an argument. Of the volume
  names of Windows only the drive letter is modelled.
\<close>

section \<open>The list\<close>

text \<open>
  \<open>Load\<close>. The range over the map of new tunnels visits them in the order \<open>ord\<close> gives;
  \<open>sort.SliceStable\<close> is the stable sort by the key of the natural order.
\<close>

definition visible :: "unicode \<Rightarrow> string list \<Rightarrow> string list" where
  "visible u tunnels = filter (\<lambda>t. \<not> ChainIsHiddenHopName u t) tunnels"

definition Sort :: "unicode \<Rightarrow> string list \<Rightarrow> string list" where
  "Sort u tunnels = sort_key (name_key u) tunnels"

definition Load :: "unicode \<Rightarrow> (string list \<Rightarrow> string list) \<Rightarrow> string list \<Rightarrow> string list \<Rightarrow> string list" where
  "Load u ord tunnels old =
     (let newTunnels = visible u tunnels;
          kept = filter (\<lambda>t. t \<in> set newTunnels) old;
          added = filter (\<lambda>t. t \<notin> set old) (ord newTunnels)
      in if added = [] then kept else Sort u (kept @ added))"

text \<open>The name to select when something was added and nothing is selected.\<close>

definition first_added :: "unicode \<Rightarrow> (string list \<Rightarrow> string list) \<Rightarrow> string list \<Rightarrow> string list \<Rightarrow> string" where
  "first_added u ord tunnels old =
     fold (\<lambda>t first. if first = [] \<or> \<not> TunnelNameIsLess u first t then t else first)
       (filter (\<lambda>t. t \<notin> set old) (ord (visible u tunnels))) []"

text \<open>The first tunnel of the list that is starting or started.\<close>

fun first_active :: "server \<Rightarrow> string list \<Rightarrow> server_state \<Rightarrow> (string option \<times> server_state) option" where
  "first_active sv [] st = Some (None, st)"
| "first_active sv (t # ts) st = do {
     ((state, err), st1) \<leftarrow> ask_state sv t st;
     if err = None \<and> (state = state_number TunnelStarting \<or> state = state_number TunnelStarted)
     then Some (Some t, st1) else first_active sv ts st1
   }"

section \<open>Deleting\<close>

text \<open>The loop over the sorted selected rows: the row to select afterwards.\<close>

fun select_loop :: "nat \<Rightarrow> nat option \<Rightarrow> nat list \<Rightarrow> nat \<Rightarrow> nat" where
  "select_loop n before [] best = best"
| "select_loop n before (idx # rest) best =
     select_loop n (Some idx) rest
       (if idx + 1 < n \<and> (rest = [] \<or> idx + 1 \<noteq> hd rest) then idx + 1
        else if 1 \<le> idx \<and> (before = None \<or> idx - 1 \<noteq> the before) then idx - 1
        else best)"

definition select_after :: "string list \<Rightarrow> nat list \<Rightarrow> string" where
  "select_after tunnels indices =
     (if length indices < length tunnels
      then tunnels ! select_loop (length tunnels) None (sort indices) 0
      else [])"

text \<open>\<open>err_text\<close> words an error; an error worded like the last one collected is not collected again.\<close>

fun delete_all ::
  "server \<Rightarrow> unicode \<Rightarrow> (client_error \<Rightarrow> string) \<Rightarrow> string list \<Rightarrow> client_error list \<Rightarrow> server_state \<Rightarrow>
   (client_error list \<times> server_state) option"
where
  "delete_all sv u err_text [] errors st = Some (errors, st)"
| "delete_all sv u err_text (tunnel # tunnels) errors st = do {
     (err, st1) \<leftarrow> chainDeleteTunnel sv u tunnel st;
     delete_all sv u err_text tunnels
       (case err of
          None \<Rightarrow> errors
        | Some e \<Rightarrow> if errors = [] \<or> err_text (last errors) \<noteq> err_text e then errors @ [e] else errors) st1
   }"

definition onDelete ::
  "server \<Rightarrow> unicode \<Rightarrow> (client_error \<Rightarrow> string) \<Rightarrow> bool \<Rightarrow> string list \<Rightarrow> nat list \<Rightarrow> server_state \<Rightarrow>
   (string \<times> client_error list \<times> server_state) option"
where
  "onDelete sv u err_text confirmed tunnels indices st =
     (if indices = [] \<or> \<not> confirmed then Some ([], [], st)
      else do {
        let indices1 = (if length indices < length tunnels then sort indices else indices);
        (errors, st1) \<leftarrow> delete_all sv u err_text (map ((!) tunnels) indices1) [] st;
        Some (select_after tunnels indices, errors, st1)
      })"

section \<open>File names\<close>

definition path_separator :: "char \<Rightarrow> bool" where
  "path_separator c \<longleftrightarrow> c = CHR ''/'' \<or> c = CHR 0x5C"

definition last_element :: "string \<Rightarrow> string" where
  "last_element path = rev (takeWhile (\<lambda>c. \<not> path_separator c) (rev path))"

definition file_ext :: "string \<Rightarrow> string" where
  "file_ext path =
     (let name = last_element path in
      if CHR ''.'' \<in> set name then CHR ''.'' # rev (takeWhile (\<lambda>c. c \<noteq> CHR ''.'') (rev name)) else [])"

definition drive_letter :: "string \<Rightarrow> bool" where
  "drive_letter path \<longleftrightarrow>
     2 \<le> length path \<and> path ! 1 = CHR '':'' \<and>
     (let c = byte (path ! 0) in (97 \<le> c \<and> c \<le> 122) \<or> (65 \<le> c \<and> c \<le> 90))"

definition file_base :: "string \<Rightarrow> string" where
  "file_base path =
     (if path = [] then ''.''
      else (let stripped = rev (dropWhile path_separator (rev path));
                rest = (if drive_letter stripped then drop 2 stripped else stripped);
                name = last_element rest
            in if name = [] then [CHR 0x5C] else name))"

definition config_name :: "string \<Rightarrow> string" where
  "config_name path = trim_suffix (file_base path) (file_ext path)"

section \<open>Importing and exporting\<close>

datatype import_error =
    FileUnreadable string | ArchiveUnreadable string | EntryUnreadable string | NoConfigurations
  | NamesUnknown | AlreadyThere string | Unparsable conf_error | NotCreated client_error

record files =
  read_path :: "string \<Rightarrow> string option"
  open_zip :: "string \<Rightarrow> (string \<times> string option) list option"

fun collect_zip ::
  "unicode \<Rightarrow> (string \<times> string option) list \<Rightarrow> (string \<times> string) list \<times> import_error option \<Rightarrow>
   (string \<times> string) list \<times> import_error option"
where
  "collect_zip u [] acc = acc"
| "collect_zip u ((name, data) # rest) (found, lastErr) =
     collect_zip u rest
       (if to_lower u (file_ext name) \<noteq> ''.conf'' then (found, lastErr)
        else (case data of
                None \<Rightarrow> (found, Some (EntryUnreadable name))
              | Some t \<Rightarrow> (found @ [(config_name name, t)], lastErr)))"

fun collect_paths ::
  "unicode \<Rightarrow> files \<Rightarrow> string list \<Rightarrow> (string \<times> string) list \<times> import_error option \<Rightarrow>
   (string \<times> string) list \<times> import_error option"
where
  "collect_paths u fs [] acc = acc"
| "collect_paths u fs (path # paths) (found, lastErr) =
     collect_paths u fs paths
       (let ext = to_lower u (file_ext path) in
        if ext = ''.conf'' then
          (case read_path fs path of
             None \<Rightarrow> (found, Some (FileUnreadable path))
           | Some t \<Rightarrow> (found @ [(config_name path, t)], lastErr))
        else if ext = ''.zip'' then
          (case open_zip fs path of
             None \<Rightarrow> (found, Some (ArchiveUnreadable path))
           | Some entries \<Rightarrow> collect_zip u entries (found, lastErr))
        else (found, lastErr))"

text \<open>The loop over the configurations: how many were created, and the last error.\<close>

fun import_all ::
  "server \<Rightarrow> window \<Rightarrow> string list \<Rightarrow> (string \<times> string) list \<Rightarrow> nat \<times> import_error option \<Rightarrow> server_state \<Rightarrow>
   ((nat \<times> import_error option) \<times> server_state) option"
where
  "import_all sv win existing [] acc st = Some (acc, st)"
| "import_all sv win existing ((name, t) # rest) (count, lastErr) st =
     (let u = win_unicode win in
      if to_lower u name \<in> to_lower u ` set existing
      then import_all sv win existing rest (count, Some (AlreadyThere name)) st
      else
        (case FromWgQuickWithUnknownEncoding u (env_decoders (win_env win)) t name of
           Inl e \<Rightarrow>
             if is_panic (MConf e) then None
             else import_all sv win existing rest (count, Some (Unparsable e)) st
         | Inr c \<Rightarrow> do {
             (err, st1) \<leftarrow> ask_error sv (CallCreate c) st;
             import_all sv win existing rest
               (case err of None \<Rightarrow> (count + 1, lastErr) | Some e \<Rightarrow> (count, Some (NotCreated e))) st1
           }))"

datatype import_report =
    NothingImported import_error | OneRefused "import_error option" | OneImported | AllImported nat | SomeImported nat nat

text \<open>\<open>order\<close> is \<open>sort.Slice\<close>, which leaves open the order of names that are equal in the natural order.\<close>

definition importFiles ::
  "server \<Rightarrow> window \<Rightarrow> files \<Rightarrow> ((string \<times> string) list \<Rightarrow> (string \<times> string) list) \<Rightarrow> string list \<Rightarrow> server_state \<Rightarrow>
   (import_report \<times> server_state) option"
where
  "importFiles sv win fs order paths st =
     (case collect_paths (win_unicode win) fs paths ([], None) of
        (found, Some e) \<Rightarrow> Some (NothingImported e, st)
      | (found, None) \<Rightarrow>
          if found = [] then Some (NothingImported NoConfigurations, st)
          else do {
            ((existing, err), st1) \<leftarrow> ask_names sv st;
            if err \<noteq> None then Some (NothingImported NamesUnknown, st1)
            else do {
              ((m, lastErr), st2) \<leftarrow> import_all sv win existing (order found) (0, None) st1;
              let n = length found;
              Some (if n = 1 \<and> m \<noteq> n then OneRefused lastErr
                    else if n = 1 then OneImported
                    else if m = n then AllImported m
                    else SomeImported m n, st2)
            }
          })"

text \<open>\<open>write_ok\<close> says whether an entry of that name could be written into the archive.\<close>

fun exportTunnels ::
  "server \<Rightarrow> window \<Rightarrow> (string \<Rightarrow> bool) \<Rightarrow> string list \<Rightarrow> server_state \<Rightarrow>
   (((string \<times> string) list \<times> bool) \<times> server_state) option"
where
  "exportTunnels sv win write_ok [] st = Some (([], True), st)"
| "exportTunnels sv win write_ok (t # ts) st = do {
     ((c, err), st1) \<leftarrow> ask_config sv t st;
     if err \<noteq> None \<or> \<not> write_ok (t @ ''.conf'') then Some (([], False), st1)
     else do {
       ((entries, ok), st2) \<leftarrow> exportTunnels sv win write_ok ts st1;
       Some (((t @ ''.conf'', window_text win c) # entries, ok), st2)
     }
   }"

section \<open>Building a chain\<close>

datatype box_answer = Yes | No | Cancel

definition chainPickRoles ::
  "unicode \<Rightarrow> (config \<Rightarrow> string list) \<Rightarrow> box_answer \<Rightarrow> config list \<Rightarrow> (config \<times> config) option"
where
  "chainPickRoles u ord answer configs =
     (case configs of
        a # b # _ \<Rightarrow>
          (case ChainSortRolesScored u ord (Some a) (Some b) of
             (outer, inner, sure) \<Rightarrow>
               if sure then Some (the outer, the inner)
               else (case answer of
                       Yes \<Rightarrow> Some (ChainSortRolesForced a b False)
                     | No \<Rightarrow> Some (ChainSortRolesForced a b True)
                     | Cancel \<Rightarrow> None))
      | _ \<Rightarrow> None)"

datatype build_result =
    NotTwoFiles | Unread string | Unparsed conf_error | Cancelled
  | NoAdapter window_error | NotBuilt chain_error | Built "client_error option" config config

fun read_configs :: "window \<Rightarrow> files \<Rightarrow> string list \<Rightarrow> build_result + config list" where
  "read_configs win fs [] = Inr []"
| "read_configs win fs (path # paths) =
     (case read_path fs path of
        None \<Rightarrow> Inl (Unread path)
      | Some t \<Rightarrow>
          rbind (case FromWgQuickWithUnknownEncoding (win_unicode win) (env_decoders (win_env win)) t (config_name path) of
                   Inl e \<Rightarrow> Inl (Unparsed e)
                 | Inr c \<Rightarrow> Inr c) (\<lambda>c. rbind (read_configs win fs paths) (\<lambda>cs. Inr (c # cs))))"

fun build_panics :: "build_result \<Rightarrow> bool" where
  "build_panics (Unparsed e) = is_panic (MConf e)"
| "build_panics _ = False"

definition onBuildChain ::
  "server \<Rightarrow> window \<Rightarrow> files \<Rightarrow> box_answer \<Rightarrow> bool \<Rightarrow> string list \<Rightarrow> server_state \<Rightarrow>
   (build_result \<times> server_state) option"
where
  "onBuildChain sv win fs roles confirmed paths st =
     (let u = win_unicode win in
      if length paths \<noteq> 2 then Some (NotTwoFiles, st)
      else (case read_configs win fs paths of
        Inl r \<Rightarrow> if build_panics r then None else Some (r, st)
      | Inr configs \<Rightarrow>
      (case chainPickRoles u (env_order (win_env win)) roles configs of
        None \<Rightarrow> Some (Cancelled, st)
      | Some (warpConfig, innerConfig) \<Rightarrow>
      (case chainOuterAdapter win (sv_world st) of
        Inl e \<Rightarrow> Some (NoAdapter e, st)
      | Inr outerAlias \<Rightarrow> do {
          (taken, st1) \<leftarrow> chainTakenNames sv win st;
          (case ChainBuild u (Some warpConfig) (Some innerConfig) outerAlias (ChainNextPairName u taken) of
             Inl e \<Rightarrow> Some (NotBuilt e, st1)
           | Inr (hop1, hop2) \<Rightarrow>
               if \<not> confirmed then Some (Cancelled, st1)
               else do {
                 (err, st2) \<leftarrow> chainCreatePair sv u hop1 hop2 st1;
                 Some (Built err hop1 hop2, st2)
               })
        }))))"

section \<open>The line about the protection, and the way out\<close>

datatype protection = ServiceSilent | ProtectionOff | HeldByGuard | ProtectionOn | ProtectsOther string

text \<open>What the poll has stored last: the status and whether the call succeeded.\<close>

definition chainProtectPoll :: "server \<Rightarrow> server_state \<Rightarrow> ((status_info \<times> bool) \<times> server_state) option" where
  "chainProtectPoll sv st = do {
     ((a, err), st1) \<leftarrow> perform sv CallStatus st;
     Some ((case a of StatusIs info \<Rightarrow> info | _ \<Rightarrow> zero_status, err = None), st1)
   }"

definition chainProtectionText :: "unicode \<Rightarrow> status_info \<times> bool \<Rightarrow> string \<Rightarrow> protection" where
  "chainProtectionText u stored name =
     (let (info, fresh) = stored in
      if \<not> fresh then ServiceSilent
      else if \<not> si_lock_on info then ProtectionOff
      else if \<not> si_in_proc info then HeldByGuard
      else if si_lock_leaf info = [] \<or> equal_fold u (si_lock_leaf info) name then ProtectionOn
      else ProtectsOther (si_lock_leaf info))"

definition chainLiftLockBeforeQuit :: "server \<Rightarrow> server_state \<Rightarrow> server_state option" where
  "chainLiftLockBeforeQuit sv st = do {
     ((a, err), st1) \<leftarrow> perform sv CallGlobal st;
     if err \<noteq> None then Some st1
     else if \<not> (case a of GlobalIs global \<Rightarrow> LiftLockOnQuit global | _ \<Rightarrow> False) then Some st1
     else do { (_, st2) \<leftarrow> ask_error sv CallLift st1; Some st2 }
   }"

text \<open>A double click: only when no tunnel is between two states.\<close>

definition ask_global_state :: "server \<Rightarrow> server_state \<Rightarrow> ((int \<times> client_error option) \<times> server_state) option" where
  "ask_global_state sv st = do {
     ((a, err), st1) \<leftarrow> perform sv CallGlobalState st;
     Some ((case a of StateIs n \<Rightarrow> n | _ \<Rightarrow> 0, err), st1)
   }"

definition onTunnelsViewItemActivated ::
  "server \<Rightarrow> string \<Rightarrow> server_state \<Rightarrow> ((int \<times> client_error option) option \<times> server_state) option"
where
  "onTunnelsViewItemActivated sv tunnel st = do {
     ((globalState, err), st1) \<leftarrow> ask_global_state sv st;
     if err \<noteq> None
        \<or> (globalState \<noteq> state_number TunnelStarted \<and> globalState \<noteq> state_number TunnelStopped)
     then Some (None, st1)
     else do {
       ((oldState, err1), st2) \<leftarrow> ask_state sv tunnel st1;
       if err1 \<noteq> None then Some (Some (state_number TunnelUnknown, err1), st2)
       else if oldState = state_number TunnelStarted then do {
         (err2, st3) \<leftarrow> ask_error sv (CallStop tunnel) st2;
         Some (Some (oldState, err2), st3)
       }
       else if oldState = state_number TunnelStopped then do {
         (err2, st3) \<leftarrow> ask_error sv (CallStart tunnel) st2;
         Some (Some (oldState, err2), st3)
       }
       else Some (Some (oldState, None), st2)
     }
   }"

end
