(* ===== verification/PageFacts.thy ===== *)
theory PageFacts
  imports TunnelsPage
begin

text \<open>
  Facts about the page: the list is the visible tunnels in order, the row selected after a deletion is one that stays,
  an import leaves the tunnels that were there alone, and an export reads back.
\<close>

section \<open>The list\<close>

definition any_order :: "(string list \<Rightarrow> string list) \<Rightarrow> bool" where
  "any_order ord \<longleftrightarrow> (\<forall>xs. distinct (ord xs) \<and> set (ord xs) = set xs)"

lemma Load_list:
  assumes "any_order ord" and "distinct old"
  shows "set (Load u ord tunnels old) = set (visible u tunnels)"
    and "distinct (Load u ord tunnels old)"
    and "sorted (map (name_key u) old) \<Longrightarrow> sorted (map (name_key u) (Load u ord tunnels old))"
proof -
  let ?new = "visible u tunnels"
  let ?kept = "filter (\<lambda>t. t \<in> set ?new) old" and ?added = "filter (\<lambda>t. t \<notin> set old) (ord ?new)"
  have ord: "distinct (ord ?new)" "set (ord ?new) = set ?new" using assms(1) by (auto simp: any_order_def)
  have l: "Load u ord tunnels old = (if ?added = [] then ?kept else Sort u (?kept @ ?added))"
    by (simp add: Load_def Let_def)
  have none: "?added = [] \<Longrightarrow> set ?new \<subseteq> set old" using ord(2) by (auto simp: filter_empty_conv)
  show "set (Load u ord tunnels old) = set ?new"
    using none ord(2) by (cases "?added = []") (auto simp: l Sort_def)
  show "distinct (Load u ord tunnels old)"
    using ord assms(2) by (auto simp: l Sort_def)
  show "sorted (map (name_key u) old) \<Longrightarrow> sorted (map (name_key u) (Load u ord tunnels old))"
    by (simp add: l Sort_def sorted_filter)
qed

section \<open>The row selected after a deletion\<close>

text \<open>The loop sees all selected rows \<open>S\<close>; its tests say whether a neighbour is selected.\<close>

lemma strict_last: "sorted_wrt (<) xs \<Longrightarrow> j \<in> set xs \<Longrightarrow> j \<le> last (xs :: nat list)"
  by (induction xs rule: rev_induct) (auto simp: sorted_wrt_append)

lemma select_tests:
  assumes "sorted_wrt (<) (pre @ (i :: nat) # rest)" and "before = (if pre = [] then None else Some (last pre))"
  shows "(rest = [] \<or> i + 1 \<noteq> hd rest) \<longleftrightarrow> i + 1 \<notin> set (pre @ i # rest)"
    and "1 \<le> i \<Longrightarrow> (before = None \<or> i - 1 \<noteq> the before) \<longleftrightarrow> i - 1 \<notin> set (pre @ i # rest)"
proof -
  have below: "\<forall>j\<in>set pre. j < i" and above: "\<forall>j\<in>set rest. i < j"
    and pre: "sorted_wrt (<) pre" and rest: "sorted_wrt (<) rest"
    using assms(1) by (auto simp: sorted_wrt_append)
  show "(rest = [] \<or> i + 1 \<noteq> hd rest) \<longleftrightarrow> i + 1 \<notin> set (pre @ i # rest)"
  proof (cases rest)
    case (Cons j js)
    then have j: "\<forall>k\<in>set js. j < k" "i < j" using rest above by auto
    have "i + 1 < k" if "k \<in> set js" for k using bspec [OF j(1) that] j(2) by simp
    then have "i + 1 \<notin> set js" by blast
    moreover have "i + 1 \<notin> set pre" using below by auto
    ultimately show ?thesis using Cons by auto
  qed (use below in auto)
  show "(before = None \<or> i - 1 \<noteq> the before) \<longleftrightarrow> i - 1 \<notin> set (pre @ i # rest)" if "1 \<le> i"
  proof (cases "pre = []")
    case False
    then have "last pre \<in> set pre" "\<forall>j\<in>set pre. j \<le> last pre" using strict_last [OF pre] by auto
    then have "i - 1 \<in> set pre \<longleftrightarrow> i - 1 = last pre" using below that by fastforce
    then show ?thesis using False above that assms(2) by auto
  qed (use assms(2) above that in auto)
qed

definition gap_at :: "nat \<Rightarrow> nat set \<Rightarrow> nat \<Rightarrow> bool" where
  "gap_at n S i \<longleftrightarrow> (i + 1 < n \<and> i + 1 \<notin> S) \<or> (1 \<le> i \<and> i - 1 \<notin> S)"

lemma select_loop_stays:
  assumes "sorted_wrt (<) (pre @ xs)" and "\<forall>i\<in>set (pre @ xs). i < n"
    and "before = (if pre = [] then None else Some (last pre))"
    and "(best \<notin> set (pre @ xs) \<and> best < n) \<or> (\<exists>i\<in>set xs. gap_at n (set (pre @ xs)) i)"
  shows "select_loop n before xs best \<notin> set (pre @ xs) \<and> select_loop n before xs best < n"
  using assms
proof (induction xs arbitrary: pre before best)
  case (Cons i rest)
  let ?S = "set (pre @ i # rest)"
  define best' where "best' =
    (if i + 1 < n \<and> i + 1 \<notin> ?S then i + 1 else if 1 \<le> i \<and> i - 1 \<notin> ?S then i - 1 else best)"
  note tests = select_tests [OF Cons.prems(1,3)]
  have step: "select_loop n before (i # rest) best = select_loop n (Some i) rest best'"
    using tests by (auto simp: best'_def)
  have "i < n" using Cons.prems(2) by simp
  then have "(best' \<notin> ?S \<and> best' < n) \<or> (\<exists>i\<in>set rest. gap_at n ?S i)"
    using Cons.prems(4) by (auto simp: best'_def gap_at_def)
  then show ?case
    using Cons.IH [of "pre @ [i]" "Some i" best'] Cons.prems(1,2) unfolding step by simp
qed simp

lemma gap_exists:
  assumes "S \<subseteq> {..<n}" and "S \<noteq> {}" and "S \<noteq> {..<n}"
  shows "\<exists>i\<in>S. gap_at n S i"
proof (rule ccontr)
  assume none: "\<not> ?thesis"
  from assms(2) obtain i where i: "i \<in> S" by auto
  have up: "j \<in> S" if "i \<le> j" "j < n" for j
    using that(1,2)
  proof (induction rule: dec_induct)
    case (step k)
    then show ?case using none by (auto simp: gap_at_def)
  qed (rule i)
  have down: "i - k \<in> S" for k
  proof (induction k)
    case (Suc k)
    then show ?case using none by (cases "1 \<le> i - k") (auto simp: gap_at_def)
  qed (use i in simp)
  have "j \<in> S" if "j < n" for j
    using up [of j] down [of "i - j"] that by (cases "i \<le> j") auto
  then have "{..<n} \<subseteq> S" by auto
  with assms(1,3) show False by simp
qed

text \<open>As long as something stays, the row selected is one that stays.\<close>

lemma select_row_stays:
  assumes "distinct indices" and "set indices \<subseteq> {..<n}" and "indices \<noteq> []" and "length indices < n"
  shows "select_loop n None (sort indices) 0 \<notin> set indices \<and> select_loop n None (sort indices) 0 < n"
proof -
  have "set indices \<noteq> {..<n}" using distinct_card [OF assms(1)] assms(4) by (metis card_lessThan nat_neq_iff)
  then have "\<exists>i\<in>set indices. gap_at n (set indices) i" using gap_exists [OF assms(2)] assms(3) by simp
  moreover have "sorted_wrt (<) (sort indices)" using assms(1) by (simp add: strict_sorted_iff)
  ultimately show ?thesis using select_loop_stays [of "[]" "sort indices" n None 0] assms(2) by auto
qed

section \<open>Deleting\<close>

lemma delete_all_others:
  assumes "delete_all sv u err_text tunnels errors st = Some (errors', st')"
    and "\<And>t. t \<in> set tunnels \<Longrightarrow> n \<noteq> t \<and> \<not> equal_fold u n (ChainHiddenHopName u t)"
  shows "LoadFromName env (dir_of st') n = LoadFromName env (dir_of st) n"
  using assms
proof (induction tunnels arbitrary: errors st)
  case (Cons t ts)
  then obtain err st1 errors1 where d: "chainDeleteTunnel sv u t st = Some (err, st1)"
    and r: "delete_all sv u err_text ts errors1 st1 = Some (errors', st')"
    by (auto simp: bind_eq_Some_conv)
  have "LoadFromName env (dir_of st') n = LoadFromName env (dir_of st1) n"
    by (rule Cons.IH [OF r]) (use Cons.prems(2) in auto)
  then show ?case using delete_others [OF d] Cons.prems(2) by auto
qed simp

section \<open>Importing\<close>

lemma unknown_encoding_name:
  assumes "FromWgQuickWithUnknownEncoding u ds s name = Inr c"
  shows "Name c = name"
proof -
  have "try_decoders u ds s name e = Inr c \<Longrightarrow> Name c = name" for e
    by (induction ds) (auto dest: FromWgQuick_ok(1) split: option.splits sum.splits conf_error.splits)
  then show ?thesis
    using assms by (auto simp: FromWgQuickWithUnknownEncoding_def dest: FromWgQuick_ok(1)
        split: sum.splits conf_error.splits)
qed

definition import_names :: "unicode \<Rightarrow> string list \<Rightarrow> (string \<times> string) list \<Rightarrow> string set" where
  "import_names u existing found = {n \<in> fst ` set found. to_lower u n \<notin> to_lower u ` set existing}"

lemma import_all_facts:
  assumes "import_all sv win existing found acc st = Some (r, st')"
  shows "unchanged_but (import_names (win_unicode win) existing found) (dir_of st) (dir_of st')
    \<and> fst acc \<le> fst r \<and> fst r \<le> fst acc + length found
    \<and> (fst r = fst acc + length found \<longrightarrow> snd r = snd acc)"
  using assms
proof (induction found arbitrary: acc st)
  case (Cons f rest)
  obtain name t count lastErr where p: "f = (name, t)" "acc = (count, lastErr)" by fastforce
  let ?u = "win_unicode win"
  let ?N = "import_names ?u existing (f # rest)"
  have sub: "import_names ?u existing rest \<subseteq> ?N" by (auto simp: import_names_def)
  show ?case
  proof (cases "to_lower ?u name \<in> to_lower ?u ` set existing")
    case True
    then have r: "import_all sv win existing rest (count, Some (AlreadyThere name)) st = Some (r, st')"
      using Cons.prems p by simp
    show ?thesis using Cons.IH [OF r] unchanged_mono [OF _ sub] p by auto
  next
    case False
    show ?thesis
    proof (cases "FromWgQuickWithUnknownEncoding ?u (env_decoders (win_env win)) t name")
      case (Inl e)
      then have r: "import_all sv win existing rest (count, Some (Unparsable e)) st = Some (r, st')"
        using Cons.prems p False by (auto split: if_splits)
      show ?thesis using Cons.IH [OF r] unchanged_mono [OF _ sub] p by auto
    next
      case (Inr c)
      then obtain err st1 where s: "ask_error sv (CallCreate c) st = Some (err, st1)"
        and r: "import_all sv win existing rest
          (case err of None \<Rightarrow> (count + 1, lastErr) | Some e \<Rightarrow> (count, Some (NotCreated e))) st1 = Some (r, st')"
        using Cons.prems p False by (auto simp: bind_eq_Some_conv)
      have "Name c \<in> ?N" using unknown_encoding_name [OF Inr] False p by (simp add: import_names_def)
      then have "unchanged_but ?N (dir_of st) (dir_of st1)"
        using create_call(1) [OF s] by (auto elim!: unchanged_mono)
      moreover have "unchanged_but ?N (dir_of st1) (dir_of st')"
        using Cons.IH [OF r] unchanged_mono [OF _ sub] by auto
      ultimately have "unchanged_but ?N (dir_of st) (dir_of st')" by (rule unchanged_trans)
      then show ?thesis using Cons.IH [OF r] p by (auto split: option.splits)
    qed
  qed
qed simp

section \<open>Exporting\<close>

lemma name_no_separator: "name_char c \<Longrightarrow> \<not> path_separator c"
  by (auto simp: name_char_def path_separator_def is_digit_def)

lemma exported_name:
  assumes "TunnelNameIsValid u t"
  shows "file_ext (t @ ''.conf'') = ''.conf''" and "config_name (t @ ''.conf'') = t"
proof -
  have chars: "\<not> path_separator c" if "c \<in> set t" for c
    using that valid_name_chars [OF assms] name_no_separator by (auto simp: list_all_iff)
  have suffix: "\<not> path_separator c" if "c \<in> set ''.conf''" for c
    using that by (auto simp: path_separator_def)
  have none: "\<not> path_separator c" if "c \<in> set (t @ ''.conf'')" for c
    using that chars suffix by (auto simp del: list.set)
  have last: "last_element (t @ ''.conf'') = t @ ''.conf''"
  proof -
    have "takeWhile (\<lambda>c. \<not> path_separator c) (rev (t @ ''.conf'')) = rev (t @ ''.conf'')"
      using none by (subst takeWhile_eq_all_conv) (simp only: set_rev, blast)
    then show ?thesis by (simp only: last_element_def rev_rev_ident)
  qed
  show ext: "file_ext (t @ ''.conf'') = ''.conf''" by (simp only: file_ext_def last Let_def) simp
  have strip: "rev (dropWhile path_separator (rev (t @ ''.conf''))) = t @ ''.conf''"
    by (simp add: path_separator_def)
  have "\<not> drive_letter (t @ ''.conf'')"
  proof
    assume "drive_letter (t @ ''.conf'')"
    then have "(t @ ''.conf'') ! 1 = CHR '':''" by (simp only: drive_letter_def)
    moreover have "(t @ ''.conf'') ! 1 \<in> set (t @ ''.conf'')" by (rule nth_mem) simp
    ultimately have "CHR '':'' \<in> set t" by auto
    with valid_name_no_path(3) [OF assms] show False by simp
  qed
  then have "file_base (t @ ''.conf'') = t @ ''.conf''"
    unfolding file_base_def Let_def strip last by (simp add: last)
  then show "config_name (t @ ''.conf'') = t" by (simp only: config_name_def ext trim_suffix_append)
qed

lemma collect_exported:
  assumes "list_all (TunnelNameIsValid u) ts"
  shows "collect_zip u (map (\<lambda>t. (t @ ''.conf'', Some (f t))) ts) (found, e) = (found @ map (\<lambda>t. (t, f t)) ts, e)"
  using assms
proof (induction ts arbitrary: found)
  case (Cons t ts)
  have "to_lower u ''.conf'' = ''.conf''" by (simp add: to_lower_ascii is_ascii_def)
  with Cons show ?case using exported_name [of u t] by simp
qed simp

lemma export_step:
  assumes "exportTunnels sv win write_ok (t # ts) st = Some ((entries, True), st')"
  obtains c es where "ask_config sv t st = Some ((c, None), st)"
    "exportTunnels sv win write_ok ts st = Some ((es, True), st')"
    "entries = (t @ ''.conf'', window_text win c) # es"
proof -
  from assms obtain c err st1 where c: "ask_config sv t st = Some ((c, err), st1)"
    by (auto simp: bind_eq_Some_conv)
  with ask_config_state have "st1 = st" by blast
  with assms c that show thesis by (auto simp: bind_eq_Some_conv split: if_splits)
qed

lemma export_state: "exportTunnels sv win write_ok ts st = Some ((entries, True), st') \<Longrightarrow> st' = st"
  by (induction ts arbitrary: entries) (simp, blast elim: export_step)

lemma export_entries:
  assumes "exportTunnels sv win write_ok ts st = Some ((entries, True), st')" and "os_elevated (sv_os sv)"
    and "list_all (\<lambda>t. LoadFromName (os_store (sv_os sv)) (dir_of st) t = Inr (cfg t)) ts"
  shows "entries = map (\<lambda>t. (t @ ''.conf'', window_text win (cfg t))) ts"
  using assms(1,3)
proof (induction ts arbitrary: entries)
  case (Cons t ts)
  from Cons.prems(1) obtain c es where e: "ask_config sv t st = Some ((c, None), st)"
    "exportTunnels sv win write_ok ts st = Some ((es, True), st')"
    "entries = (t @ ''.conf'', window_text win c) # es" by (rule export_step)
  have "c = cfg t"
    using e(1) Cons.prems(2) assms(2) by (simp add: ask_config_def StoredConfig_def answered_config_def answered_def)
  then show ?case using Cons.IH [OF e(2)] Cons.prems(2) e(3) by simp
qed simp

lemma exported_names:
  "exportTunnels sv win write_ok ts st = Some ((entries, ok), st') \<Longrightarrow> e \<in> set entries \<Longrightarrow>
   \<exists>t\<in>set ts. fst e = t @ ''.conf''"
proof (induction ts arbitrary: entries ok st)
  case (Cons t ts)
  then obtain c err st1 where c: "ask_config sv t st = Some ((c, err), st1)"
    by (auto simp: bind_eq_Some_conv)
  show ?case
  proof (cases "err \<noteq> None \<or> \<not> write_ok (t @ ''.conf'')")
    case True
    then show ?thesis using Cons.prems c by auto
  next
    case False
    with Cons.prems(1) c obtain es ok1 where "exportTunnels sv win write_ok ts st1 = Some ((es, ok1), st')"
      "entries = (t @ ''.conf'', window_text win c) # es"
      by (auto simp: bind_eq_Some_conv)
    then show ?thesis using Cons.IH Cons.prems(2) by fastforce
  qed
qed simp

section \<open>Building a chain\<close>

lemma pair_candidate_trimmed: "trim_space (pair_candidate i) = pair_candidate i"
  using pair_candidate_chars [of i] name_char_graphic
  by (intro trim_space_id trimmed_all_graphic) (auto simp: list_all_iff)

lemma taken_state: "chainTakenNames sv win st = Some (taken, st') \<Longrightarrow> st' = st"
  by (auto simp: chainTakenNames_def bind_eq_Some_conv Let_def dest: ask_names_state)

lemma built_chain:
  assumes r: "onBuildChain sv win fs roles confirmed paths st = Some (Built err hop1 hop2, st')"
  obtains taken st1 w i via where "chainTakenNames sv win st = Some (taken, st1)"
    "chainOuterAdapter win (sv_world st) = Inr via"
    "ChainBuild (win_unicode win) (Some w) (Some i) via (ChainNextPairName (win_unicode win) taken)
      = Inr (hop1, hop2)"
    "chainCreatePair sv (win_unicode win) hop1 hop2 st1 = Some (err, st')"
proof -
  have rc: "read_configs win fs ps \<noteq> Inl (Built e a b)" for ps e a b
    by (induction ps) (auto simp: rbind_Inl_iff split: option.splits sum.splits)
  have two: "length paths = 2" using r by (auto simp: onBuildChain_def Let_def split: if_splits)
  note r1 = r [unfolded onBuildChain_def Let_def, simplified two]
  obtain cs where cs: "read_configs win fs paths = Inr cs"
    using r1 rc by (cases "read_configs win fs paths") (auto split: if_splits)
  obtain w i where wi: "chainPickRoles (win_unicode win) (env_order (win_env win)) roles cs = Some (w, i)"
    using r1 cs by (cases "chainPickRoles (win_unicode win) (env_order (win_env win)) roles cs") auto
  obtain via where via: "chainOuterAdapter win (sv_world st) = Inr via"
    using r1 cs wi by (cases "chainOuterAdapter win (sv_world st)") auto
  obtain taken st1 where t: "chainTakenNames sv win st = Some (taken, st1)"
    using r1 cs wi via by (auto simp: bind_eq_Some_conv)
  let ?b = "ChainBuild (win_unicode win) (Some w) (Some i) via (ChainNextPairName (win_unicode win) taken)"
  obtain h1 h2 where b: "?b = Inr (h1, h2)" using r1 cs wi via t by (cases ?b) auto
  have "chainCreatePair sv (win_unicode win) h1 h2 st1 = Some (err, st') \<and> h1 = hop1 \<and> h2 = hop2"
    using r1 cs wi via t b by (auto simp: bind_eq_Some_conv split: if_splits)
  then show thesis using that [OF t via] b by auto
qed

section \<open>Leaving the program\<close>

lemma drop_block_lock: "chainLockOn (chainDropIPv6Block w) = chainLockOn w"
  by (simp add: chainDropIPv6Block_def)

lemma lift_before_quit:
  assumes "chainLiftLockBeforeQuit sv st = Some st'"
  shows "if LiftLockOnQuit (Global (current_book (sv_world st)))
    then \<not> chainLockOn (sv_world st') else lock_part (sv_world st') = lock_part (sv_world st)"
proof -
  have g: "perform sv CallGlobal st = Some ((GlobalIs (Global (current_book (sv_world st))), None),
      st\<lparr>sv_world := (sv_world st)\<lparr>chainSettingsCache := Some (current_book (sv_world st))\<rparr>\<rparr>)"
    by (simp add: ChainGlobal_def load_book answered_def failure_def)
  show ?thesis
    using assms unfolding chainLiftLockBeforeQuit_def g
    by (auto simp: ask_error_def answered_def chainServeLiftLock_def drop_block_lock
        chainDisarmLockInProc_off(1) lock_part_def split: if_splits)
qed

end
