(* ===== verification/WindowSamples.thy ===== *)
theory WindowSamples
  imports PageFacts Samples
begin

text \<open>
  A machine on which no tunnel service exists, a window on it, and two states of the manager: one with the
  sample pair in the store, one with an empty store.
\<close>

definition still_os :: os where
  "still_os = sample_os\<lparr>os_open := (\<lambda>_ _. Some ERROR_SERVICE_DOES_NOT_EXIST)\<rparr>"

definition still_server :: server where
  "still_server =
     \<lparr> sv_os = still_os, sv_text = (\<lambda>_. ''failed''), sv_save_text = ''not saved'', sv_depth = 3, sv_update = 0 \<rparr>"

definition pair_state :: server_state where
  "pair_state = \<lparr> sv_world = sample_world, sv_quit = False \<rparr>"

definition empty_state :: server_state where
  "empty_state = \<lparr> sv_world = sample_world\<lparr>w_dir := Some []\<rparr>, sv_quit = False \<rparr>"

definition way_row :: fwd_row where
  "way_row =
     \<lparr> fr_luid = 5, fr_prefix = \<lparr> net_ip = [0, 0, 0, 0], net_mask = [0, 0, 0, 0] \<rparr>, fr_length = 0,
       fr_hop = [192, 168, 1, 1], fr_metric = 25, fr_index = 3 \<rparr>"

definition sample_window :: window where
  "sample_window =
     \<lparr> win_env = sample_env, win_dir = (\<lambda>_. None),
       win_adapters = (\<lambda>_. Some [(5, ''Ethernet''), (17, ''pair-hop1'')]),
       win_routes = (\<lambda>_. Some [way_row\<lparr>fr_luid := 17, fr_metric := 0\<rparr>, way_row]) \<rparr>"

lemma still_simps [simp]:
  "sv_os still_server = still_os" "os_store still_os = sample_env" "os_elevated still_os"
  "os_store_ok still_os h" "win_env sample_window = sample_env" "dir_of pair_state = Some sample_dir"
  "dir_of empty_state = Some []" "win_dir sample_window w = None"
  by (simp_all add: still_server_def still_os_def sample_os_def sample_window_def pair_state_def empty_state_def)

section \<open>Every call comes back\<close>

lemma names_answer: "\<exists>r. ask_names sv st = Some (r, st)"
  by (auto simp: ask_names_def ManagerIPC.Tunnels_def ListConfigNames_def answered_def split: option.split)

lemma create_answers: "\<exists>e st'. ask_error sv (CallCreate c) st = Some (e, st')"
  by (auto simp: ask_error_def Create_def answered_def Save_def writeLockedDownFile_def Let_def
      split: option.split sum.split)

lemma still_uninstall: "UninstallTunnel still_os n w = (Some (MWin ERROR_SERVICE_DOES_NOT_EXIST), w)"
  by (simp add: UninstallTunnel_def still_os_def sample_os_def)

lemma still_stop: "\<exists>e w'. Stop still_os n w = (e, w') \<and> (\<forall>x. e = Some x \<longrightarrow> \<not> is_panic x)"
  by (auto simp: Stop_def Let_def still_uninstall)

lemma still_delete: "\<exists>e st'. ask_error still_server (CallDelete n) st = Some (e, st')"
proof -
  have "\<not> is_panic (MStore e)" if "DeleteName u can dir n = Inl e" for u can dir n e
    using that by (auto simp: DeleteName_def Let_def split: if_splits option.splits)
  moreover obtain e w' where "Stop still_os n (sv_world st) = (e, w')" "\<forall>x. e = Some x \<longrightarrow> \<not> is_panic x"
    using still_stop by blast
  ultimately show ?thesis
    by (auto simp: ask_error_def answered_outcome_def answered_def Delete_def split: option.split sum.split)
qed

lemma still_wait: "\<exists>e st'. ask_error still_server (CallWaitForStop n) st = Some (e, st')"
  by (simp add: ask_error_def answered_outcome_def answered_def WaitForStop_def still_os_def sample_os_def
      wait_gone.simps)

lemma still_state: "ask_state still_server n st = Some ((2, None), st)"
  by (simp add: ask_state_def State_def still_os_def sample_os_def answered_def failure_def)

lemma still_remove: "\<exists>st'. chainRemoveByName still_server u n st = Some st'"
proof -
  have m: "\<exists>st'. remove_matching still_server u n ts st = Some st'" for ts st
  proof (induction ts arbitrary: st)
    case (Cons t ts)
    obtain e1 st1 where "ask_error still_server (CallDelete t) st = Some (e1, st1)" using still_delete by blast
    moreover obtain e2 st2 where "ask_error still_server (CallWaitForStop t) st1 = Some (e2, st2)"
      using still_wait by blast
    ultimately show ?case using Cons [of st] Cons [of st2] by simp
  qed simp
  obtain r where "ask_names still_server st = Some (r, st)" using names_answer by blast
  then show ?thesis using m by (cases r) (auto simp: chainRemoveByName_def)
qed

lemma still_delete_pair: "\<exists>err st'. chainDeleteTunnel still_server u n st = Some (err, st')"
proof -
  obtain e1 st1 where "ask_error still_server (CallDelete n) st = Some (e1, st1)" using still_delete by blast
  moreover obtain e2 st2 where "ask_error still_server (CallWaitForStop n) st1 = Some (e2, st2)"
    using still_wait by blast
  moreover obtain st3 where "chainRemoveByName still_server u (ChainHiddenHopName u n) st2 = Some st3"
    using still_remove by blast
  ultimately show ?thesis by (simp add: chainDeleteTunnel_def Let_def)
qed

section \<open>The sample pair\<close>

lemma sample_storable: "storable sample_env hop1_conf" "storable sample_env hop2_conf"
  using hop_wf sample_short sample_order by (simp_all add: storable_def)

lemma network_texts:
  "CR \<notin> set (concat (network_lines (Interface hop1_conf)))"
  "CR \<notin> set (concat (network_lines (Interface hop2_conf)))"
  "CR \<notin> set (comma_list (map ipcidr_string chainSplitDefault))"
  "CR \<notin> set (comma_list (map ipcidr_string [v4 0 0 0 0 0]))"
  "CR \<notin> set (endpoint_string \<lparr> Host = ''203.0.113.5'', Port = 443 \<rparr>)"
  "CR \<notin> set (endpoint_string \<lparr> Host = ''162.159.192.1'', Port = 500 \<rparr>)"
  by code_simp+

lemma key_no_return: "CR \<notin> set (key_string k)"
  using b64_encode_chars by (force simp: key_string_def is_graphic_def)

lemma in_unlines: "c \<in> set (unlines ls) \<longleftrightarrow> c \<in> set (concat ls) \<or> (ls \<noteq> [] \<and> c = NL)"
  by (induction ls) auto

lemma hop_no_return:
  "CR \<notin> set (ToWgQuick ascii_unicode [] hop1_conf)" "CR \<notin> set (ToWgQuick ascii_unicode [] hop2_conf)"
proof -
  have "junk_lines (Interface hop1_conf) = [''Jc = 4'']" "timing_lines (Interface hop1_conf) = []"
    using interface_texts(9)
    by (simp_all add: junk_lines_def timing_lines_def opt_line_def hop1_conf_def build_hop1_def Let_def
        warp_conf_def zero_interface_def key_is_zero_def kv_def)
  then show "CR \<notin> set (ToWgQuick ascii_unicode [] hop1_conf)"
    using network_texts
    by (simp add: ToWgQuick_def interface_lines_def in_unlines hop1_peer peer_lines_def opt_line_def
        zero_peer_def key_is_zero_def kv_def key_no_return)
  have "junk_lines (Interface hop2_conf) = []" "timing_lines (Interface hop2_conf) = []"
    by (simp_all add: junk_lines_def timing_lines_def opt_line_def hop2_conf_def build_hop2_def Let_def
        inner_conf_def zero_interface_def key_is_zero_def)
  then show "CR \<notin> set (ToWgQuick ascii_unicode [] hop2_conf)"
    using network_texts
    by (simp add: ToWgQuick_def interface_lines_def in_unlines hop2_peer peer_lines_def opt_line_def
        zero_peer_def key_is_zero_def kv_def key_no_return)
qed

lemma sample_printable: "printable sample_window hop1_conf" "printable sample_window hop2_conf"
  using hop_no_return sample_order by (simp_all add: printable_def window_text_def)

lemma still_willing: "willing still_server"
  by (simp add: willing_def)

lemma sample_stored: "chain_stored still_server sample_window hop2_conf hop1_conf (Some sample_dir)"
  using sample_storable sample_load sample_list sample_folds pair_texts
  by (simp add: chain_stored_def) (simp add: hop1_conf_def)

lemma still_edit:
  assumes ch: "chain_stored still_server sample_window c h (dir_of st)"
  shows "\<exists>st'. edit_tunnel still_server sample_window (Name c) c (Some h) st = Some st'"
proof -
  have hop: "chainStoredHopConfig still_server sample_window (ChainHiddenHopName ascii_unicode (Name c)) st
      = Some (Inr h, st)"
    using stored_hop_found(1) [OF ch still_willing] ch by (simp add: chain_stored_def)
  have create: "\<exists>e st'. ask_error still_server (CallCreate x) y = Some (e, st')" for x y by (rule create_answers)
  have "\<exists>r. chainBeforeEdit still_server sample_window (Name c) c (Some h) st = Some r"
  proof -
    obtain st2 where "chainRemoveByName still_server ascii_unicode (ChainHiddenHopName ascii_unicode (Name c)) st = Some st2"
      using still_remove by blast
    then show ?thesis
      using hop create [of "h\<lparr>Name := ChainHiddenHopName ascii_unicode (Name c),
        Interface := (Interface h)\<lparr>TableOff := True\<rparr>\<rparr>" st2]
      by (auto simp: chainBeforeEdit_def Let_def)
  qed
  then obtain c1 st2 where b: "chainBeforeEdit still_server sample_window (Name c) c (Some h) st = Some (c1, st2)"
    by force
  obtain e3 st3 where d: "ask_error still_server (CallDelete (Name c)) st2 = Some (e3, st3)" using still_delete by blast
  obtain e4 st4 where w: "ask_error still_server (CallWaitForStop (Name c)) st3 = Some (e4, st4)"
    using still_wait by blast
  obtain e5 st5 where "ask_error still_server (CallCreate c1) st4 = Some (e5, st5)" using create by blast
  with b d w show ?thesis by (simp add: edit_tunnel_def still_state)
qed

lemma pair_names: "ask_names still_server pair_state = Some (([''pair-hop1'', ''pair''], None), pair_state)"
  using sample_list by (simp add: ask_names_def ManagerIPC.Tunnels_def answered_def failure_def)

section \<open>Files\<close>

text \<open>Two files of a name that is taken: neither is imported.\<close>

definition twice_pair :: files where
  "twice_pair = \<lparr> read_path = (\<lambda>_. Some ''[Interface]''), open_zip = (\<lambda>_. None) \<rparr>"

lemma twice_refused:
  "importFiles still_server sample_window twice_pair id [''D:/PAIR.conf'', ''D:/b/Pair.conf''] pair_state
    = Some (SomeImported 0 2, pair_state)"
proof -
  have "collect_paths ascii_unicode twice_pair [''D:/PAIR.conf'', ''D:/b/Pair.conf''] ([], None)
      = ([(''PAIR'', ''[Interface]''), (''Pair'', ''[Interface]'')], None)"
  proof -
    have "to_lower ascii_unicode ''.conf'' = ''.conf''" by (simp add: to_lower_ascii is_ascii_def)
    moreover have e: "file_ext ''D:/PAIR.conf'' = ''.conf''" "file_ext ''D:/b/Pair.conf'' = ''.conf''"
      by (simp_all add: file_ext_def last_element_def path_separator_def Let_def)
    moreover have "config_name ''D:/PAIR.conf'' = ''PAIR''" "config_name ''D:/b/Pair.conf'' = ''Pair''"
      by (simp_all add: config_name_def e file_base_def drive_letter_def last_element_def path_separator_def
          trim_suffix_def has_suffix_def Let_def)
    ultimately show ?thesis by (simp add: twice_pair_def Let_def)
  qed
  moreover have "char_of (112 :: nat) = CHR ''p''" "char_of (97 :: nat) = CHR ''a''"
    "char_of (105 :: nat) = CHR ''i''" "char_of (114 :: nat) = CHR ''r''" by code_simp+
  then have "to_lower ascii_unicode ''PAIR'' = ''pair''" "to_lower ascii_unicode ''Pair'' = ''pair''"
    "to_lower ascii_unicode ''pair'' = ''pair''" by (simp_all add: to_lower_ascii is_ascii_def lower_char_def)
  ultimately show ?thesis by (simp add: importFiles_def pair_names)
qed

section \<open>A name too long for a chain\<close>

definition long_name :: string where "long_name = replicate 30 (CHR ''a'')"

lemma long_name_facts:
  "ChainHiddenHopName ascii_unicode long_name = long_name @ ChainHiddenSuffix"
  "\<not> TunnelNameIsValid ascii_unicode (long_name @ ChainHiddenSuffix)"
  "\<not> equal_fold ascii_unicode (long_name @ ChainHiddenSuffix) ''pair-hop1''"
  "\<not> equal_fold ascii_unicode ''pair-hop1'' ''pair''"
  by code_simp+

lemma long_before_edit:
  "\<exists>c' st'. chainBeforeEdit still_server sample_window ''pair'' (hop2_conf\<lparr>Name := long_name\<rparr>) None pair_state
    = Some (c', st')"
proof -
  have found: "chainStoredHopConfig still_server sample_window ''pair-hop1'' pair_state
      = Some (Inr hop1_conf, pair_state)"
    using stored_hop_found(1) [of still_server sample_window hop2_conf hop1_conf pair_state] sample_stored still_willing
    by simp
  let ?n = "long_name @ ChainHiddenSuffix"
  let ?h = "hop1_conf\<lparr>Name := ?n, Interface := (Interface hop1_conf)\<lparr>TableOff := True\<rparr>\<rparr>"
  obtain st1 where 1: "chainRemoveByName still_server ascii_unicode ''pair-hop1'' pair_state = Some st1"
    using still_remove by blast
  obtain st2 where 2: "chainRemoveByName still_server ascii_unicode ?n st1 = Some st2" using still_remove by blast
  obtain e st3 where 3: "ask_error still_server (CallCreate ?h) st2 = Some (e, st3)" using create_answers by blast
  show ?thesis using found 1 2 3 long_name_facts by (simp add: chainBeforeEdit_def Let_def pair_texts)
qed

text \<open>Deleting the outer hop of the sample pair succeeds, and it cannot be loaded any more.\<close>

lemma sample_delete_name:
  "DeleteName ascii_unicode (\<lambda>_. True) (Some sample_dir) ''pair-hop1''
    = Inr [plain_file ''pair'' (ToWgQuick ascii_unicode [] hop2_conf)]"
  using sample_names
  by (simp add: DeleteName_def Let_def sample_dir_def plain_file_def exists_file_def find_entry_def remove_entry_def
      configFileSuffix_def configFileUnencryptedSuffix_def)

lemma still_can_delete: "can_delete still_os ''pair-hop1'' (Some sample_dir)"
proof -
  have able: "os_can_remove still_os h f" for h f by (simp add: still_os_def sample_os_def)
  moreover have "fst (Delete still_os ''pair-hop1'' w) = None" if w: "w_dir w = Some sample_dir" for w
  proof -
    have dir: "w_dir (snd (Stop still_os ''pair-hop1'' w)) = Some sample_dir" using w by (simp add: Stop_dir)
    then have "fst (Stop still_os ''pair-hop1'' w) = None"
      by (simp add: Stop_def Let_def still_uninstall loaded_def sample_load split: if_splits)
    then obtain w1 where "Stop still_os ''pair-hop1'' w = (None, w1)" by (metis prod.collapse)
    moreover have "os_can_remove still_os h = (\<lambda>_. True)" for h using able by blast
    ultimately show ?thesis using dir sample_delete_name by (simp add: Delete_def)
  qed
  ultimately show ?thesis by (simp add: can_delete_def)
qed

section \<open>A chain out of one configuration twice\<close>

definition twin1 :: config where "twin1 = build_hop1 inner_conf ''warpam-hop1'' ''Ethernet''"

definition twin2 :: config where "twin2 = build_hop2 inner_conf ''warpam'' ''warpam-hop1''"

definition twins :: files where
  "twins = \<lparr> read_path = (\<lambda>_. Some (ToWgQuick ascii_unicode [] inner_conf)), open_zip = (\<lambda>_. None) \<rparr>"

lemma twin_names:
  "TunnelNameIsValid ascii_unicode ''warpam''" "TunnelNameIsValid ascii_unicode ''warpam-hop1''"
  "ChainHiddenHopName ascii_unicode ''warpam'' = ''warpam-hop1''" "trim_space ''warpam'' = ''warpam''"
  by code_simp+

lemma twin_pair_name: "ChainNextPairName ascii_unicode [] = ''warpam''"
  by (simp add: ChainNextPairName_def name_is_free_def ChainPairBase_def Let_def)

lemma twins_built:
  "ChainBuild ascii_unicode (Some inner_conf) (Some inner_conf) ''Ethernet'' ''warpam'' = Inr (twin1, twin2)"
  using twin_names by (simp add: ChainBuild_def Let_def pair_texts twin1_def twin2_def)

lemma twin_wf: "wf_config ascii_unicode twin1" "wf_config ascii_unicode twin2"
  using ChainBuild_wf [OF twins_built sample_wf(2,2)] sample_values by (simp_all add: pair_texts)

lemma twin_texts:
  "length (concat (network_lines (Interface twin1))) \<le> 300" "length (network_lines (Interface twin1)) \<le> 20"
  "length (concat (network_lines (Interface twin2))) \<le> 300" "length (network_lines (Interface twin2)) \<le> 20"
  by code_simp+

lemma twin_peers:
  "Peers twin1 = [zero_peer\<lparr>PublicKey := sample_key, AllowedIPs := [v4 0 0 0 0 0],
     Endpoint := \<lparr> Host = ''203.0.113.5'', Port = 443 \<rparr>, PersistentKeepalive := ''25''\<rparr>]"
  "Peers twin2 = Peers hop2_conf"
proof -
  have "trim_space ''25'' = ''25''" by code_simp
  then show "Peers twin1 = [zero_peer\<lparr>PublicKey := sample_key, AllowedIPs := [v4 0 0 0 0 0],
     Endpoint := \<lparr> Host = ''203.0.113.5'', Port = 443 \<rparr>, PersistentKeepalive := ''25''\<rparr>]"
    by (simp add: twin1_def chainCopyPeers_def inner_conf_def zero_peer_def)
  show "Peers twin2 = Peers hop2_conf" by (simp add: twin2_def hop2_conf_def hop2_peers)
qed

lemma twin_plain:
  "junk_lines (Interface twin1) = []" "timing_lines (Interface twin1) = []" "PrivateKey (Interface twin1) = sample_key"
  "junk_lines (Interface twin2) = []" "timing_lines (Interface twin2) = []" "PrivateKey (Interface twin2) = sample_key"
  "IPackets (Interface twin1) = Map.empty" "IPackets (Interface twin2) = Map.empty"
  by (simp_all add: junk_lines_def timing_lines_def opt_line_def twin1_def twin2_def build_hop1_def build_hop2_def
      Let_def inner_conf_def zero_interface_def key_is_zero_def)

lemma twin_short:
  "short_lines (ToWgQuick ascii_unicode [] twin1)" "short_lines (ToWgQuick ascii_unicode [] twin2)"
proof -
  have "length (ToWgQuick ascii_unicode [] twin1) \<le> 1000" "length (ToWgQuick ascii_unicode [] twin2) \<le> 1000"
    using twin_texts interface_texts
    by (simp_all add: ToWgQuick_def interface_lines_def length_unlines twin_plain twin_peers hop2_peer
        peer_lines_def opt_line_def zero_peer_def key_is_zero_def kv_def key_length)
  then show "short_lines (ToWgQuick ascii_unicode [] twin1)" "short_lines (ToWgQuick ascii_unicode [] twin2)"
    by (simp_all add: short_text_lines)
qed

lemma twin_storable: "storable sample_env twin1" "storable sample_env twin2"
  using twin_wf twin_plain twin_short by (simp_all add: storable_def) (simp_all add: twin1_def twin2_def)

lemma twins_read:
  "read_configs sample_window twins [''D:/a/inner.conf'', ''D:/b/inner.conf''] = Inr [inner_conf, inner_conf]"
proof -
  have "config_name ''D:/a/inner.conf'' = ''inner''" "config_name ''D:/b/inner.conf'' = ''inner''"
    by (simp_all add: config_name_def file_ext_def file_base_def drive_letter_def last_element_def path_separator_def
        trim_suffix_def has_suffix_def Let_def)
  moreover have "FromWgQuickWithUnknownEncoding ascii_unicode ds (ToWgQuick ascii_unicode [] inner_conf) ''inner''
      = Inr inner_conf" for ds
    using load_unknown_written [OF sample_wf(2), of "[]" ds] sample_order by (simp add: inner_conf_def)
  ultimately show ?thesis by (simp add: twins_def)
qed

lemma sample_way: "chainOuterAdapter sample_window w = Inr ''Ethernet''"
proof -
  have "char_of (101 :: nat) = CHR ''e''" by code_simp
  then have "\<not> ChainIsHiddenHopName ascii_unicode ''Ethernet''" "ChainIsHiddenHopName ascii_unicode ''pair-hop1''"
    by (simp_all add: ChainIsHiddenHopName_def sample_folds to_lower_ascii is_ascii_def lower_char_def
        ChainHiddenSuffix_def has_suffix_def has_prefix_def Let_def)
  moreover have "fst (mask_size ([0, 0, 0, 0] :: bytes)) = 0" by code_simp
  moreover have "is_unspecified [0, 0, 0, 0]" "\<not> is_unspecified [192, 168, 1, 1]" by code_simp+
  ultimately show ?thesis
    by (simp add: chainOuterAdapter_def sample_window_def row_adapter_def adapter_names_def way_row_def
        chainIsKnownTunnel_def ListConfigNames_def Let_def)
qed

lemma twins_created:
  "\<exists>st'. onBuildChain still_server sample_window twins Yes True [''D:/a/inner.conf'', ''D:/b/inner.conf''] empty_state
    = Some (Built None twin1 twin2, st')"
proof -
  have names: "ask_names still_server empty_state = Some (([], None), empty_state)"
    by (simp add: ask_names_def ManagerIPC.Tunnels_def ListConfigNames_def answered_def failure_def)
  then have taken: "chainTakenNames still_server sample_window empty_state = Some ([], empty_state)"
    by (simp add: chainTakenNames_def ListConfigNames_def)
  have rm: "chainRemoveByName still_server u n empty_state = Some empty_state" for u n
    using names by (simp add: chainRemoveByName_def)
  have pick: "chainPickRoles u ord Yes [c, c] = Some (c, c)" for u ord and c :: config
    by (simp add: chainPickRoles_def ChainSortRolesScored_def ChainSortRolesForced_def Let_def)
  obtain st1 where c1: "ask_error still_server (CallCreate twin1) empty_state = Some (None, st1)"
    using create_granted [OF still_willing, of twin1 empty_state] twin_storable by auto
  then have "dir_of st1 \<noteq> None" using create_call(2) by blast
  then obtain st2 where c2: "ask_error still_server (CallCreate twin2) st1 = Some (None, st2)"
    using create_granted [OF still_willing, of twin2 st1] twin_storable by auto
  show ?thesis
    using c1 c2
    by (simp add: onBuildChain_def twins_read pick sample_way taken twin_pair_name twins_built chainCreatePair_def rm
        del: read_configs.simps)
qed

end
