(* ===== verification/WindowClaims.thy ===== *)
theory WindowClaims
  imports WindowSamples
begin

text \<open>The properties of the edit window, the dialog and the page of tunnels.\<close>

section \<open>The text\<close>

text \<open>
  C14: Whatever two texts the window composes into one, splitting that text again gives two texts which the parser
  reads as it reads the originals, also after the main half was replaced with the outer half kept.
\<close>

theorem editor_text_roundtrip:
  assumes "\<not> list_ex hop_line (split_on NL (drop_crs mainText))"
  shows "FromWgQuick u (fst (chainSplitEditorText (chainComposeEditorText mainText hopText))) n
      = FromWgQuick u (drop_crs mainText) n
    \<and> FromWgQuick u (snd (chainSplitEditorText (chainComposeEditorText mainText hopText))) n
      = FromWgQuick u (drop_crs hopText) n
    \<and> FromWgQuick u (fst (chainSplitEditorText (chainKeepHop1 old mainText))) n
      = FromWgQuick u (drop_crs mainText) n
    \<and> (trim_space (snd (chainSplitEditorText old)) \<noteq> [] \<longrightarrow>
        FromWgQuick u (snd (chainSplitEditorText (chainKeepHop1 old mainText))) n
        = FromWgQuick u (snd (chainSplitEditorText old)) n)"
  using parse_composed_main parse_composed_hop [OF assms] parse_kept_main parse_kept_hop [OF assms] by blast

theorem editor_text_roundtrip_witness:
  "FromWgQuick ascii_unicode
     (snd (chainSplitEditorText (chainComposeEditorText (window_text sample_window hop2_conf)
        (window_text sample_window hop1_conf)))) ''pair-hop1'' = Inr hop1_conf"
proof -
  note t = text_parses [where env = sample_env and win = sample_window]
  have "\<not> list_ex hop_line (split_on NL (drop_crs (window_text sample_window hop2_conf)))"
    using t(2) [OF sample_storable(2) sample_printable(2)] by simp
  moreover have "FromWgQuick ascii_unicode (drop_crs (window_text sample_window hop1_conf)) ''pair-hop1'' = Inr hop1_conf"
    using t(1) [OF sample_storable(1) sample_printable(1)] by simp
  ultimately show ?thesis using editor_text_roundtrip by simp
qed

section \<open>Editing a chain\<close>

text \<open>
  C11: On a stored chain the edit window opens with both configurations in its text; saving that text with nothing
  but the line ends changed is accepted with both configurations as they were, and once the page has
  replaced the tunnel both are in the store again and every other tunnel is as it was.
\<close>

theorem edit_keeps_chain:
  assumes "chain_stored sv win c h (dir_of st)" and "willing sv" and "printable win c" and "printable win h"
  shows "\<exists>dlg st1. newEditDialog sv win key (Some (Name c)) st = Some (dlg, None, st1)
    \<and> dlg_text dlg = chainComposeEditorText (window_text win c) (window_text win h)
    \<and> (\<forall>t. drop_crs t = drop_crs (dlg_text dlg) \<longrightarrow>
        (\<exists>err st2. onSaveButtonClicked sv win (dlg\<lparr>dlg_text := t\<rparr>) None st1 = Some (Saved c err, Some h, st2)
          \<and> dir_of st2 = dir_of st
          \<and> (\<forall>st3. edit_tunnel sv win (Name c) c (Some h) st2 = Some st3 \<longrightarrow>
               LoadFromName (os_store (sv_os sv)) (dir_of st3) (Name c) = Inr c
               \<and> LoadFromName (os_store (sv_os sv)) (dir_of st3) (Name h) = Inr h
               \<and> (\<forall>n. n \<noteq> Name c \<longrightarrow> \<not> equal_fold (win_unicode win) n (Name h) \<longrightarrow>
                    LoadFromName (os_store (sv_os sv)) (dir_of st3) n
                    = LoadFromName (os_store (sv_os sv)) (dir_of st) n))))"
proof -
  let ?text = "chainComposeEditorText (window_text win c) (window_text win h)"
  obtain checks st1 where opened: "newEditDialog sv win key (Some (Name c)) st = Some (\<lparr> dlg_name = Name c,
      dlg_text = ?text, dlg_config = c, dlg_checks = Some checks \<rparr>, None, st1)" and d1: "dir_of st1 = dir_of st"
    using dialog_opened [OF assms(1,2)] by blast
  let ?dlg = "\<lambda>t. \<lparr> dlg_name = Name c, dlg_text = t, dlg_config = c, dlg_checks = Some checks \<rparr>"
  have saved: "\<exists>err st2. onSaveButtonClicked sv win (?dlg t) None st1 = Some (Saved c err, Some h, st2)
      \<and> dir_of st2 = dir_of st" if "drop_crs t = drop_crs ?text" for t
    using saved_unchanged [OF assms(1,3,4), of "?dlg t" None st1] that d1 by simp
  show ?thesis
  proof (rule exI [of _ "?dlg ?text"], rule exI [of _ st1], intro conjI allI impI)
    fix t assume "drop_crs t = drop_crs (dlg_text (?dlg ?text))"
    then obtain err st2 where s: "onSaveButtonClicked sv win (?dlg t) None st1 = Some (Saved c err, Some h, st2)"
      and d2: "dir_of st2 = dir_of st" using saved by fastforce
    have ch: "chain_stored sv win c h (dir_of st2)" using assms(1) d2 by simp
    note kept = edited_unchanged [OF ch assms(2)]
    show "\<exists>err st2. onSaveButtonClicked sv win ((?dlg ?text)\<lparr>dlg_text := t\<rparr>) None st1 = Some (Saved c err, Some h, st2)
      \<and> dir_of st2 = dir_of st
      \<and> (\<forall>st3. edit_tunnel sv win (Name c) c (Some h) st2 = Some st3 \<longrightarrow>
               LoadFromName (os_store (sv_os sv)) (dir_of st3) (Name c) = Inr c
               \<and> LoadFromName (os_store (sv_os sv)) (dir_of st3) (Name h) = Inr h
               \<and> (\<forall>n. n \<noteq> Name c \<longrightarrow> \<not> equal_fold (win_unicode win) n (Name h) \<longrightarrow>
                    LoadFromName (os_store (sv_os sv)) (dir_of st3) n
                    = LoadFromName (os_store (sv_os sv)) (dir_of st) n))"
      using s kept d2 by (intro exI [of _ err] exI [of _ st2]) simp
  qed (simp_all add: opened)
qed

theorem edit_keeps_chain_witness:
  "\<exists>dlg st1 err st2 st3.
     newEditDialog still_server sample_window sample_key (Some ''pair'') pair_state = Some (dlg, None, st1)
     \<and> onSaveButtonClicked still_server sample_window (dlg\<lparr>dlg_text := dlg_text dlg\<rparr>) None st1
       = Some (Saved hop2_conf err, Some hop1_conf, st2)
     \<and> edit_tunnel still_server sample_window ''pair'' hop2_conf (Some hop1_conf) st2 = Some st3
     \<and> LoadFromName sample_env (dir_of st3) ''pair-hop1'' = Inr hop1_conf"
proof -
  have st: "chain_stored still_server sample_window hop2_conf hop1_conf (dir_of pair_state)"
    using sample_stored by simp
  from edit_keeps_chain [OF st still_willing sample_printable(2,1), of sample_key, unfolded hop_names still_simps]
  have "\<exists>dlg st1 err st2.
      newEditDialog still_server sample_window sample_key (Some ''pair'') pair_state = Some (dlg, None, st1)
      \<and> onSaveButtonClicked still_server sample_window (dlg\<lparr>dlg_text := dlg_text dlg\<rparr>) None st1
        = Some (Saved hop2_conf err, Some hop1_conf, st2)
      \<and> dir_of st2 = Some sample_dir
      \<and> (\<forall>st3. edit_tunnel still_server sample_window ''pair'' hop2_conf (Some hop1_conf) st2 = Some st3 \<longrightarrow>
          LoadFromName sample_env (dir_of st3) ''pair-hop1'' = Inr hop1_conf)"
    by (elim exE conjE) (drule spec, drule mp, rule refl, elim exE conjE, intro exI conjI allI impI,
        assumption, assumption, assumption, drule spec, drule (1) mp, elim conjE, assumption)
  then obtain dlg st1 err st2 where
    o: "newEditDialog still_server sample_window sample_key (Some ''pair'') pair_state = Some (dlg, None, st1)" and
    s: "onSaveButtonClicked still_server sample_window (dlg\<lparr>dlg_text := dlg_text dlg\<rparr>) None st1
        = Some (Saved hop2_conf err, Some hop1_conf, st2)" and
    d: "dir_of st2 = Some sample_dir" and
    kept: "\<And>st3. edit_tunnel still_server sample_window ''pair'' hop2_conf (Some hop1_conf) st2 = Some st3 \<Longrightarrow>
      LoadFromName sample_env (dir_of st3) ''pair-hop1'' = Inr hop1_conf"
    by blast
  obtain st3 where "edit_tunnel still_server sample_window ''pair'' hop2_conf (Some hop1_conf) st2 = Some st3"
    using still_edit [of hop2_conf hop1_conf st2] sample_stored d by auto
  with o s kept show ?thesis by blast
qed

text \<open>
  C25: When Save accepts a dialog, its name is one a tunnel may have and no other tunnel has it in any case, the
  configuration is what the parser makes of the whole text under that name, and the outer hop to be written is
  what the parser makes of the marked lines under the hidden name, in every field but two: it is without
  routes, and where the lines name no adapter it is pinned to the one with the best way out.
\<close>

theorem save_accepts:
  assumes "onSaveButtonClicked sv win dlg pending st = Some (Saved cfg err, pending', st')"
  shows "TunnelNameIsValid (win_unicode win) (dlg_name dlg)
    \<and> (to_lower (win_unicode win) (dlg_name dlg) \<noteq> to_lower (win_unicode win) (Name (dlg_config dlg)) \<longrightarrow>
        (\<exists>tunnels. ask_names sv st = Some ((tunnels, None), st)
          \<and> (\<forall>t\<in>set tunnels. to_lower (win_unicode win) t \<noteq> to_lower (win_unicode win) (dlg_name dlg))))
    \<and> FromWgQuick (win_unicode win) (drop_crs (dlg_text dlg)) (dlg_name dlg) = Inr cfg
    \<and> (pending' = None \<and> trim_space (snd (chainSplitEditorText (dlg_text dlg))) = []
      \<or> (\<exists>c via. FromWgQuick (win_unicode win) (snd (chainSplitEditorText (dlg_text dlg)))
              (ChainHiddenHopName (win_unicode win) (dlg_name dlg)) = Inr c
          \<and> pending' = Some (c\<lparr>Interface := (Interface c)\<lparr>TableOff := True, PinEndpointVia :=
              (if trim_space (PinEndpointVia (Interface c)) = [] then via else PinEndpointVia (Interface c))\<rparr>\<rparr>)
          \<and> Name c = ChainHiddenHopName (win_unicode win) (dlg_name dlg)
          \<and> (trim_space (PinEndpointVia (Interface c)) = [] \<longrightarrow>
               chainOuterAdapter win (sv_world st) = Inr via \<and> via \<noteq> [])))"
  using save_accepted(1) [OF assms] check_name_free [OF save_accepted(2) [OF assms]]
    chainStashHop1_result [OF save_accepted(3) [OF assms]] unfolding stashed_def by auto

theorem save_accepts_witness:
  "\<exists>dlg pending' err st'.
     onSaveButtonClicked still_server sample_window dlg None pair_state = Some (Saved hop2_conf err, pending', st')
     \<and> TunnelNameIsValid ascii_unicode (dlg_name dlg)
     \<and> FromWgQuick ascii_unicode (drop_crs (dlg_text dlg)) (dlg_name dlg) = Inr hop2_conf"
proof -
  let ?dlg = "\<lparr> dlg_name = ''pair'', dlg_text = chainComposeEditorText (window_text sample_window hop2_conf)
    (window_text sample_window hop1_conf), dlg_config = hop2_conf, dlg_checks = None \<rparr>"
  obtain err st' where s: "onSaveButtonClicked still_server sample_window ?dlg None pair_state
      = Some (Saved hop2_conf err, Some hop1_conf, st')"
    using saved_unchanged [OF sample_stored sample_printable(2,1), of ?dlg None pair_state] by auto
  show ?thesis
    by (intro exI conjI, rule s) (use save_accepts [OF s] in \<open>simp_all only: still_simps sample_env_simps\<close>)
qed

text \<open>
  C40: A chain under whose name a hidden hop cannot be named, because the suffix makes it too long, loses the stored
  outer hop when its marked lines are deleted and it is renamed: when the manager can delete the old hop and no
  other tunnel is named like it, the old hop cannot be loaded afterwards, the copy under the new name is refused,
  and the configuration keeps the pin to the hop that is gone.
\<close>

theorem rename_loses_hop:
  assumes "chainBeforeEdit sv win oldName c None st = Some (c', st')"
    and "TunnelNameIsValid (win_unicode win) oldName" and "old = ChainHiddenHopName (win_unicode win) oldName"
    and "chainStoredHopConfig sv win old st = Some (Inr h, st)" and "PinEndpointVia (Interface c) = old"
    and "\<not> equal_fold (win_unicode win) (ChainHiddenHopName (win_unicode win) (Name c)) old"
    and "\<not> TunnelNameIsValid (os_unicode (sv_os sv)) (ChainHiddenHopName (win_unicode win) (Name c))"
    and "ask_names sv st = Some ((names, None), st)" and "old \<in> set names"
    and "\<And>t. t \<in> set names \<Longrightarrow> equal_fold (win_unicode win) t old \<Longrightarrow> t = old"
    and "can_delete (sv_os sv) old (dir_of st)"
  shows "isl (LoadFromName env (dir_of st') old) \<and> c' = c \<and> PinEndpointVia (Interface c') = old"
  using rename_loses [OF assms(1-4) assms(6-11)] assms(5) by blast

theorem rename_loses_hop_witness:
  "\<exists>st'. chainBeforeEdit still_server sample_window ''pair'' (hop2_conf\<lparr>Name := long_name\<rparr>) None pair_state
      = Some (hop2_conf\<lparr>Name := long_name\<rparr>, st')
    \<and> isl (LoadFromName sample_env (dir_of st') ''pair-hop1'')"
proof -
  have found: "chainStoredHopConfig still_server sample_window ''pair-hop1'' pair_state = Some (Inr hop1_conf, pair_state)"
    using stored_hop_found(1) [of still_server sample_window hop2_conf hop1_conf pair_state] sample_stored still_willing
    by (simp add: pair_texts)
  obtain c' st' where b: "chainBeforeEdit still_server sample_window ''pair'' (hop2_conf\<lparr>Name := long_name\<rparr>) None
      pair_state = Some (c', st')" using long_before_edit by blast
  have "t = ''pair-hop1''" if "t \<in> set [''pair-hop1'', ''pair'']" "equal_fold ascii_unicode t ''pair-hop1''" for t
    using that sample_folds by auto
  then have "isl (LoadFromName sample_env (dir_of st') ''pair-hop1'') \<and> c' = hop2_conf\<lparr>Name := long_name\<rparr>
      \<and> PinEndpointVia (Interface c') = ''pair-hop1''"
    using still_can_delete sample_names long_name_facts
    by (intro rename_loses_hop [OF b _ _ found _ _ _ pair_names]) (simp_all add: pair_texts)
  then show ?thesis using b by blast
qed

section \<open>Building a chain\<close>

text \<open>
  C16: When a chain is reported as built and both of its configurations can be stored (they are well
  formed and no line of their texts is longer than the buffer of the scanner), both hops can be
  loaded and form a chain over the adapter with the best way out, and every tunnel that is not named
  like one of them is as it was. Their names were free as long as fewer than 1000 names were taken;
  beyond that the name falls back to one that is not checked, and a tunnel of that name is replaced.
\<close>

theorem chain_built:
  assumes "onBuildChain sv win fs roles confirmed paths st = Some (Built None hop1 hop2, st')"
    and "storable (os_store (sv_os sv)) hop1" and "storable (os_store (sv_os sv)) hop2"
  shows "LoadFromName (os_store (sv_os sv)) (dir_of st') (Name hop1) = Inr hop1
    \<and> LoadFromName (os_store (sv_os sv)) (dir_of st') (Name hop2) = Inr hop2
    \<and> chainSiblings (win_unicode win) hop1 hop2 \<and> PinEndpointVia (Interface hop2) = Name hop1
    \<and> (\<exists>via. chainOuterAdapter win (sv_world st) = Inr via \<and> PinEndpointVia (Interface hop1) = trim_space via)
    \<and> (\<exists>taken. chainTakenNames sv win st = Some (taken, st)
        \<and> (length taken < 1000 \<longrightarrow> name_is_free (win_unicode win) taken (Name hop2)))
    \<and> (\<forall>n. \<not> equal_fold (win_unicode win) n (Name hop1) \<longrightarrow> \<not> equal_fold (win_unicode win) n (Name hop2) \<longrightarrow>
        LoadFromName (os_store (sv_os sv)) (dir_of st') n = LoadFromName (os_store (sv_os sv)) (dir_of st) n)"
proof -
  let ?u = "win_unicode win"
  obtain taken st1 w i via where t: "chainTakenNames sv win st = Some (taken, st1)"
    and v: "chainOuterAdapter win (sv_world st) = Inr via"
    and b: "ChainBuild ?u (Some w) (Some i) via (ChainNextPairName ?u taken) = Inr (hop1, hop2)"
    and c: "chainCreatePair sv ?u hop1 hop2 st1 = Some (None, st')" by (rule built_chain [OF assms(1)])
  have st1: "st1 = st" by (rule taken_state [OF t])
  have pinned: "PinEndpointVia (Interface hop1) = trim_space via"
    and valid: "TunnelNameIsValid ?u (Name hop2)" and name: "Name hop2 = trim_space (ChainNextPairName ?u taken)"
    using b by (auto elim!: ChainBuild_cases)
  have names: "Name hop1 \<noteq> Name hop2"
    using hidden_differs [OF valid] pair_siblings(3) [OF b] by auto
  have free: "name_is_free ?u taken (Name hop2)" if "length taken < 1000"
    using ChainNextPairName_candidate [OF that, of ?u] pair_candidate_trimmed by (auto simp: name)
  show ?thesis
    using pair_created [OF c assms(2,3) names] pair_siblings [OF b] t v pinned free st1 by blast
qed

theorem chain_built_witness:
  "\<exists>st'. onBuildChain still_server sample_window twins Yes True [''D:/a/inner.conf'', ''D:/b/inner.conf''] empty_state
      = Some (Built None twin1 twin2, st')
    \<and> LoadFromName sample_env (dir_of st') ''warpam'' = Inr twin2 \<and> chainSiblings ascii_unicode twin1 twin2"
proof -
  obtain st' where r: "onBuildChain still_server sample_window twins Yes True
      [''D:/a/inner.conf'', ''D:/b/inner.conf''] empty_state = Some (Built None twin1 twin2, st')"
    using twins_created by blast
  have "Name twin2 = ''warpam''" by (simp add: twin2_def)
  with chain_built [OF r] twin_storable r show ?thesis by (intro exI [of _ st']) simp
qed

section \<open>The page of tunnels\<close>

text \<open>
  C30: An exported archive holds one entry per tunnel of the list, and importing it finds in it exactly these tunnels,
  each with a text the parser reads back as the stored configuration.
\<close>

theorem export_reads_back:
  assumes "exportTunnels sv win write_ok ts st = Some ((entries, True), st')" and "os_elevated (sv_os sv)"
    and "list_all (\<lambda>t. LoadFromName (os_store (sv_os sv)) (dir_of st) t = Inr (cfg t) \<and> Name (cfg t) = t
      \<and> wf_config (win_unicode win) (cfg t)
      \<and> set (env_order (win_env win) (cfg t)) = dom (IPackets (Interface (cfg t)))) ts"
  shows "st' = st \<and> length entries = length ts
    \<and> (\<exists>found. collect_zip (win_unicode win) (map (\<lambda>(name, t). (name, Some t)) entries) ([], None) = (found, None)
        \<and> map fst found = ts
        \<and> list_all (\<lambda>(name, t). FromWgQuickWithUnknownEncoding (win_unicode win) ds t name = Inr (cfg name)) found)"
proof -
  let ?text = "\<lambda>t. window_text win (cfg t)"
  have e: "entries = map (\<lambda>t. (t @ ''.conf'', ?text t)) ts"
    using assms(3) by (intro export_entries [OF assms(1,2)]) (simp add: list_all_iff)
  have valid: "list_all (TunnelNameIsValid (win_unicode win)) ts"
    using assms(3) by (auto simp: list_all_iff wf_config_def)
  have "list_all (\<lambda>t. FromWgQuickWithUnknownEncoding (win_unicode win) ds (?text t) t = Inr (cfg t)) ts"
    using assms(3) load_unknown_written by (fastforce simp: list_all_iff window_text_def)
  then show ?thesis
    using export_state [OF assms(1)] collect_exported [OF valid, of ?text "[]" None]
    by (simp add: e comp_def list_all_iff)
qed

theorem export_reads_back_witness:
  "\<exists>entries found. exportTunnels still_server sample_window (\<lambda>_. True) [''pair'', ''pair-hop1''] pair_state
      = Some ((entries, True), pair_state)
    \<and> collect_zip ascii_unicode (map (\<lambda>(name, t). (name, Some t)) entries) ([], None) = (found, None)
    \<and> map fst found = [''pair'', ''pair-hop1'']"
proof -
  have ask: "ask_config still_server ''pair'' pair_state = Some ((hop2_conf, None), pair_state)"
    "ask_config still_server ''pair-hop1'' pair_state = Some ((hop1_conf, None), pair_state)"
    using sample_load
    by (simp_all add: ask_config_def StoredConfig_def answered_config_def answered_def failure_def)
  then obtain entries where
    r: "exportTunnels still_server sample_window (\<lambda>_. True) [''pair'', ''pair-hop1''] pair_state
      = Some ((entries, True), pair_state)" by simp
  have "list_all (\<lambda>t. LoadFromName (os_store (sv_os still_server)) (dir_of pair_state) t
      = Inr (if t = ''pair'' then hop2_conf else hop1_conf) \<and> Name (if t = ''pair'' then hop2_conf else hop1_conf) = t
      \<and> wf_config (win_unicode sample_window) (if t = ''pair'' then hop2_conf else hop1_conf)
      \<and> set (env_order (win_env sample_window) (if t = ''pair'' then hop2_conf else hop1_conf))
        = dom (IPackets (Interface (if t = ''pair'' then hop2_conf else hop1_conf)))) [''pair'', ''pair-hop1'']"
    using sample_load hop_wf sample_order by simp
  from export_reads_back [OF r _ this, where ds = "[]"]
  obtain found where "collect_zip ascii_unicode (map (\<lambda>(name, t). (name, Some t)) entries) ([], None) = (found, None)"
    "map fst found = [''pair'', ''pair-hop1'']" by (auto simp del: exportTunnels.simps)
  then show ?thesis by (intro exI conjI) (rule r)
qed

text \<open>
  C31: Deleting the selected tunnels leaves every tunnel alone that is neither selected nor the hidden hop of a
  selected one, and the row selected afterwards is one of those that stay.
\<close>

theorem delete_keeps_others:
  assumes "onDelete sv u err_text True tunnels indices st = Some (selected, errors, st')"
    and "distinct indices" and "set indices \<subseteq> {..<length tunnels}" and "indices \<noteq> []"
    and "\<forall>i\<in>set indices. n \<noteq> tunnels ! i \<and> \<not> equal_fold u n (ChainHiddenHopName u (tunnels ! i))"
  shows "LoadFromName env (dir_of st') n = LoadFromName env (dir_of st) n
    \<and> (if length indices < length tunnels
       then \<exists>i<length tunnels. i \<notin> set indices \<and> selected = tunnels ! i else selected = [])"
proof -
  from assms(1,4) obtain js errs where d: "delete_all sv u err_text (map ((!) tunnels) js) [] st = Some (errs, st')"
    and same: "set js = set indices" and sel: "selected = select_after tunnels indices"
    by (auto simp: onDelete_def bind_eq_Some_conv Let_def split: if_splits)
  have "LoadFromName env (dir_of st') n = LoadFromName env (dir_of st) n"
    by (rule delete_all_others [OF d]) (use assms(5) same in auto)
  then show ?thesis
    using sel select_row_stays [OF assms(2,3,4)] by (auto simp: select_after_def)
qed

theorem delete_keeps_others_witness:
  "\<exists>selected errors st'. onDelete still_server ascii_unicode (\<lambda>_. []) True [''pair'', ''spare''] [1] pair_state
      = Some (selected, errors, st')
    \<and> selected = ''pair'' \<and> LoadFromName sample_env (dir_of st') ''pair'' = Inr hop2_conf"
proof -
  have fold: "\<not> equal_fold ascii_unicode ''pair'' (ChainHiddenHopName ascii_unicode ''spare'')" by code_simp
  obtain err st1 where "chainDeleteTunnel still_server ascii_unicode ''spare'' pair_state = Some (err, st1)"
    using still_delete_pair by blast
  then obtain selected errors st' where
    r: "onDelete still_server ascii_unicode (\<lambda>_. []) True [''pair'', ''spare''] [1] pair_state
      = Some (selected, errors, st')" by (simp add: onDelete_def)
  from delete_keeps_others [OF r, of "''pair''" sample_env] fold
  have l: "LoadFromName sample_env (dir_of st') ''pair'' = Inr hop2_conf"
    and "\<exists>i<2. i \<noteq> 1 \<and> selected = [''pair'', ''spare''] ! i"
    using sample_load by (simp_all add: numeral_2_eq_2)
  then obtain i where "i < 2" "i \<noteq> 1" and i: "selected = [''pair'', ''spare''] ! i" by blast
  then have "i = 0" by simp
  with i l r show ?thesis by (intro exI [of _ selected] exI [of _ errors] exI [of _ st']) simp
qed

text \<open>
  C32: An import leaves every tunnel that is there already, under any case of its name, as it is.
\<close>

theorem import_keeps_existing:
  assumes "importFiles sv win fs order paths st = Some (report, st')"
    and "ask_names sv st = Some ((existing, None), st)"
    and "to_lower (win_unicode win) n \<in> to_lower (win_unicode win) ` set existing"
  shows "LoadFromName env (dir_of st') n = LoadFromName env (dir_of st) n"
proof (cases "dir_of st' = dir_of st")
  case False
  obtain found e where c: "collect_paths (win_unicode win) fs paths ([], None) = (found, e)" by fastforce
  obtain acc where "import_all sv win existing (order found) (0, None) st = Some (acc, st')"
    using assms(1,2) False
    by (cases e) (auto simp: importFiles_def c bind_eq_Some_conv Let_def split: if_splits)
  from import_all_facts [OF this]
  have "unchanged_but (import_names (win_unicode win) existing (order found)) (dir_of st) (dir_of st')" by blast
  then show ?thesis by (rule load_unchanged) (use assms(3) in \<open>simp add: import_names_def\<close>)
qed simp

theorem import_keeps_existing_witness:
  "\<exists>report st'. importFiles still_server sample_window twice_pair id [''D:/PAIR.conf'', ''D:/b/Pair.conf''] pair_state
      = Some (report, st')
    \<and> LoadFromName sample_env (dir_of st') ''pair'' = Inr hop2_conf"
proof -
  have r: "importFiles still_server sample_window twice_pair id [''D:/PAIR.conf'', ''D:/b/Pair.conf''] pair_state
      = Some (SomeImported 0 2, pair_state)"
    by (rule twice_refused)
  have "to_lower (win_unicode sample_window) ''pair'' \<in> to_lower (win_unicode sample_window) ` set [''pair-hop1'', ''pair'']"
    by simp
  from import_keeps_existing [OF r pair_names this, of sample_env] r sample_load show ?thesis by auto
qed

end
