(* ===== verification/Spec2Isabelle.thy ===== *)
theory Spec2Isabelle
  imports ConfClaims ChainClaims GuardClaims RunClaims WatchClaims HoldClaims IpcClaims TunnelClaims WindowClaims
begin

text \<open>
  AwgChain: a Windows tunnel manager that runs two WireGuard tunnels in a chain, the inner hop
  through the outer one, behind a kill switch.

  The parts of the program. The configuration package (\<open>upstream-conf/\<close>) reads, writes and stores
  tunnel configurations and builds a pair of hops from two of them. The manager
  (\<open>upstream-manager/\<close>) installs the tunnels as Windows services in the order of the chain, keeps
  settings, and arms the kill switch, whose filters are in \<open>fork-sources/chainfirewall.go\<close>.

  The theories.
    \<^item> \<open>Prelude\<close>: the error sum, folds over it, generic lemmas.
    \<^item> \<open>GoStrings\<close>, \<open>GoStrconv\<close>, \<open>GoNet\<close>: what the code uses of Go's standard library: byte strings
      and UTF-8 case mapping, numbers and key codings, IP addresses and prefixes.
    \<^item> \<open>ConfTypes\<close> (\<open>config.go\<close>), \<open>TunnelName\<close> (\<open>name.go\<close>), \<open>ConfParser\<close> and \<open>ConfUAPI\<close>
      (\<open>parser.go\<close>), \<open>ConfWriter\<close> (\<open>writer.go\<close>): the structs as records with words for the
      fixed-width fields, parsers as folds of one function per line; a panic of the code is the
      error value \<open>Panic\<close>.
    \<^item> \<open>ConfRoundtrip\<close>, \<open>WgQuickRoundtrip\<close>, \<open>ConfInvariant\<close>: printing and parsing are inverse on
      well-formed configurations; what the parser accepts is well formed.
    \<^item> \<open>ChainBuild\<close> (\<open>chainbuild.go\<close>, \<open>chainroles.go\<close>, \<open>chainipv6.go\<close>), \<open>ChainPair\<close>, \<open>PairShape\<close>: the pair of
      hops, its facts, and every field of it beside the configurations it comes from.
      \<open>ConfStore\<close> (\<open>store.go\<close>, \<open>chainconf.go\<close>, \<open>filewriter_windows.go\<close>,
      \<open>migration_windows.go\<close>): the directory of configurations.
    \<^item> \<open>ChainOrder\<close> (\<open>chainorder.go\<close>, \<open>chainmanager.go\<close>): parents, children and hop order.
    \<^item> \<open>ChainFirewall\<close> (\<open>fork-sources/chainfirewall.go\<close> and the IPv6 block): the installed filters
      and which packets they let out, under the documented arbitration of the filtering platform.
      \<open>LockContents\<close>: the fields of the rule set an arming manager installs, from the files of the hops.
    \<^item> \<open>ManagerWorld\<close>: the manager's variables as one record, the operating system as oracles
      over the history of the actions taken so far.
    \<^item> \<open>ChainSettings\<close>, \<open>TunnelServices\<close>, \<open>ChainLock\<close>: settings, services, and the lock.
    \<^item> \<open>ChainGuard\<close> (\<open>chainguard.go\<close>): arming and standing down, the guard process, what is
      wrong with a chain. \<open>ChainStart\<close> (\<open>ipc_server.go\<close>, \<open>chainorder.go\<close>, \<open>chainretry.go\<close>,
      \<open>chainguard.go\<close>): \<open>Start\<close>, \<open>Stop\<close>, \<open>Delete\<close>, \<open>Create\<close>, repairs, one turn of the watch;
      the locale \<open>chain_starter\<close> holds what the retrying callers need of \<open>Start\<close>. \<open>ChainRun\<close>: when
      \<open>Start\<close> returns, what \<open>Stop\<close> leaves. \<open>LockRetry\<close>: the tries to arm again, each with its answer.
      \<open>StopFacts\<close>: how \<open>Stop\<close> ends the guard's process and the watch.
    \<^item> \<open>ChainSteps\<close>: the manager as a transition system, its invariant, and the gate it refines;
      the locale \<open>lock_service\<close> is the contract of arming and disarming, met by the lock in the
      manager and by the guard.
    \<^item> \<open>GuardFlags\<close>, \<open>GuardMain\<close> (\<open>main.go\<close>): the separate guard process, its command line, the
      rule set it makes of it and the loop that holds the kill switch. \<open>GuardCommand\<close>: what the
      manager writes is what the guard reads. \<open>GuardHold\<close>: the invariant of the loop. \<open>GuardPolls\<close>:
      why it ends, said of its polls.
    \<^item> \<open>TunnelTracker\<close> (\<open>tunneltracker.go\<close>): the table of tunnel states and one tracker per tunnel.
      \<open>TrackerReports\<close>: what a tracker tells the clients, from the notifications it gets.
    \<^item> \<open>ManagerIPC\<close> (\<open>ipc_server.go\<close>, \<open>chainsettingsipc.go\<close>, \<open>chainipc.go\<close>), \<open>ManagerClient\<close>
      (\<open>ipc_client.go\<close>), \<open>ManagerEvents\<close>: both ends of the pipe between a window and the manager;
      \<open>ManagerSession\<close>: a conversation over it is the manager called directly.
    \<^item> The tunnel service (\<open>upstream-tunnel/\<close>), over a history of the calls it makes and oracles for their
      answers. \<open>TunnelNet\<close> (\<open>pinendpoint.go\<close>, \<open>pinroute.go\<close>, \<open>chainpinwait.go\<close>, \<open>chainupwait.go\<close>): the
      adapter a hop is pinned to, its host routes, the waits. \<open>TunnelRoutes\<close> (\<open>addressconfig.go\<close>,
      \<open>defaultroutemonitor.go\<close>, \<open>mtumonitor.go\<close>): socket, MTU, addresses, routes, firewall.
      \<open>TunnelWatcher\<close> (\<open>interfacewatcher.go\<close>): the watcher and the callbacks it holds, each with a
      number of its own. \<open>TunnelGUID\<close>
      (\<open>deterministicguid.go\<close>): the encoding behind the adapter's GUID. \<open>TunnelService\<close> (\<open>service.go\<close>,
      \<open>scriptrunner.go\<close>): \<open>Execute\<close> as stages, a loop and an end, between and
      within which other goroutines take any turns, also while \<open>Destroy\<close> has released
      its mutex; the locale \<open>watcher_operation\<close> is the
      contract of what runs on the watcher.
    \<^item> The window (\<open>upstream-ui/\<close>), whose operations are sequences of direct calls of the manager, which
      \<open>ManagerSession\<close> shows the pipe to deliver. \<open>GoSpaces\<close>, \<open>EditorText\<close> (\<open>chainbuild.go\<close>): both
      configurations of a chain in one text, and what the parser sees of it. \<open>ChainWindow\<close> (\<open>chainbuild.go\<close>):
      creating, deleting and editing a pair; \<open>WindowStore\<close>: what these calls leave of the store. \<open>EditDialog\<close>
      (\<open>editdialog.go\<close>, \<open>chainchecks.go\<close>): the dialog; \<open>EditRound\<close>: a whole edit leaves a chain as it was.
      \<open>TunnelsPage\<close> (\<open>tunnelspage.go\<close>, \<open>listview.go\<close>, \<open>chainroles.go\<close>, \<open>chainprotect.go\<close>), \<open>PageFacts\<close>:
      list, deletion, import, export, building a chain, the line about the protection.
    \<^item> \<open>Samples\<close>, \<open>RunSamples\<close>, \<open>WindowSamples\<close>: concrete configurations, a filtering engine and operating
      systems used by the witnesses. \<open>ConfClaims\<close>, \<open>ChainClaims\<close>, \<open>GuardClaims\<close>, \<open>RunClaims\<close>,
      \<open>WatchClaims\<close>, \<open>HoldClaims\<close>, \<open>IpcClaims\<close>, \<open>TunnelClaims\<close>,
      \<open>WindowClaims\<close>: the properties.

  Bounds. Loops with a deadline are recursions on the time left; \<open>wait_gone\<close>, which the code does
  not bound, is a partial function, and returns on a machine where a service that was deleted is
  gone after some number of polls (\<open>services_go\<close>), which is all that is asked of Windows.
  \<open>chainHopOrder\<close> climbs at most four parents, as the code does.
  \<open>Start\<close> takes the depth of its calls: as many as the chain has hops are enough, and on a circle of
  pins no number is (\<open>RunClaims\<close>). In \<open>ChainSteps\<close> a request, a goroutine's turn and a turn of the
  watch are one step each, and the watch takes its turns at any moment. The guard's loop, which
  the code does not bound, is looked at for any number of turns.

  The calls of one operation of the window follow each other with no other client in between; a call
  that never comes back, and a panic of either process, is \<open>None\<close>. In the tunnel
  service a panic outside of its start is the
  action \<open>Crashed\<close>: what a history has after it happens in no run.

  Not modelled: widgets, drawing, the tray and the other pages of the window, volume names of Windows other
  than drive letters, the coding of gob, the manager's service control loop, the timer that
  gathers route notifications, security descriptors, the update check, scripts.
\<close>

end
